(* ===== verification/Prelude.thy ===== *)
theory Prelude
  imports
    Main
    "HOL-Library.Char_ord"
    "HOL-Library.List_Lexorder"
    "HOL-Library.Product_Lexorder"
    "HOL-Library.Monad_Syntax"
    "HOL-Library.Word"
begin

text \<open>
  Shared vocabulary of the development: the collections the other theories add their facts to,
  the ordered map that stands for Rust's \<^verbatim>\<open>BTreeMap\<close>, the list operations of the standard
  library the code uses (\<^verbatim>\<open>position\<close>, \<^verbatim>\<open>find\<close>, \<^verbatim>\<open>Vec::remove\<close>, \<^verbatim>\<open>swap\<close>), unsigned
  arithmetic that saturates, decimal text, and the quorum count every vote in the cluster rests
  on.  Strings are lists of bytes, ordered lexicographically, as Rust orders \<^verbatim>\<open>String\<close>.
\<close>

named_theorems state_simps
named_theorems frame_simps
named_theorems alloc_simps

section \<open>The ordered map\<close>

text \<open>
  A \<^verbatim>\<open>BTreeMap<K, V>\<close> is its entries in key order.  \<open>bm_insert\<close> replaces or inserts in place,
  \<open>bm_remove\<close> drops a key, iteration is the list itself.
\<close>

type_synonym ('k, 'v) bmap = "('k \<times> 'v) list"

fun bm_insert :: "'k::linorder \<Rightarrow> 'v \<Rightarrow> ('k, 'v) bmap \<Rightarrow> ('k, 'v) bmap" where
  "bm_insert k v [] = [(k, v)]"
| "bm_insert k v (e # m) =
     (if fst e < k then e # bm_insert k v m
      else if fst e = k then (k, v) # m
      else (k, v) # e # m)"

definition bm_get :: "('k, 'v) bmap \<Rightarrow> 'k \<Rightarrow> 'v option" where
  "bm_get m k = map_of m k"

definition bm_remove :: "'k \<Rightarrow> ('k, 'v) bmap \<Rightarrow> ('k, 'v) bmap" where
  "bm_remove k m = filter (\<lambda>e. fst e \<noteq> k) m"

definition bm_keys :: "('k, 'v) bmap \<Rightarrow> 'k list" where
  "bm_keys m = map fst m"

definition bm_values :: "('k, 'v) bmap \<Rightarrow> 'v list" where
  "bm_values m = map snd m"

definition bm_has :: "('k, 'v) bmap \<Rightarrow> 'k \<Rightarrow> bool" where
  "bm_has m k = (k \<in> set (bm_keys m))"

definition bm_ok :: "('k::linorder, 'v) bmap \<Rightarrow> bool" where
  "bm_ok m = sorted_wrt (<) (bm_keys m)"

text \<open>\<^verbatim>\<open>extend\<close>, \<^verbatim>\<open>retain\<close> by key, and \<^verbatim>\<open>values_mut\<close>.\<close>

definition bm_extend :: "('k::linorder, 'v) bmap \<Rightarrow> ('k, 'v) bmap \<Rightarrow> ('k, 'v) bmap" where
  "bm_extend m m' = fold (\<lambda>e acc. bm_insert (fst e) (snd e) acc) m' m"

definition bm_retain_keys :: "('k \<Rightarrow> bool) \<Rightarrow> ('k, 'v) bmap \<Rightarrow> ('k, 'v) bmap" where
  "bm_retain_keys P m = filter (\<lambda>e. P (fst e)) m"

definition bm_map :: "('k \<Rightarrow> 'v \<Rightarrow> 'w) \<Rightarrow> ('k, 'v) bmap \<Rightarrow> ('k, 'w) bmap" where
  "bm_map f m = map (\<lambda>e. (fst e, f (fst e) (snd e))) m"

text \<open>What every map of the cluster promises its clients.\<close>

locale ordered_map =
  fixes empty :: "'m"
    and get :: "'m \<Rightarrow> 'k::linorder \<Rightarrow> 'v option"
    and insert :: "'k \<Rightarrow> 'v \<Rightarrow> 'm \<Rightarrow> 'm"
    and remove :: "'k \<Rightarrow> 'm \<Rightarrow> 'm"
    and keys :: "'m \<Rightarrow> 'k list"
    and ok :: "'m \<Rightarrow> bool"
  assumes get_empty: "get empty k = None"
    and get_insert: "get (insert k v m) k' = (if k' = k then Some v else get m k')"
    and get_remove: "get (remove k m) k' = (if k' = k then None else get m k')"
    and keys_dom: "(k \<in> set (keys m)) = (get m k \<noteq> None)"
    and keys_sorted: "ok m \<Longrightarrow> sorted_wrt (<) (keys m)"
    and ok_empty: "ok empty"
    and ok_insert: "ok m \<Longrightarrow> ok (insert k v m)"
    and ok_remove: "ok m \<Longrightarrow> ok (remove k m)"
begin

lemma keys_insert_set: "set (keys (insert k v m)) = {k} \<union> set (keys m)"
  by (auto simp: keys_dom get_insert split: if_splits)

lemma keys_remove_set: "set (keys (remove k m)) = set (keys m) - {k}"
  by (auto simp: keys_dom get_remove split: if_splits)

lemma insert_twice: "get (insert k v (insert k w m)) = get (insert k v m)"
  by (rule ext) (simp add: get_insert)

lemma insert_commute: "k \<noteq> k' \<Longrightarrow> get (insert k v (insert k' w m)) = get (insert k' w (insert k v m))"
  by (rule ext) (auto simp: get_insert)

end

lemma bm_insert_get: "bm_get (bm_insert k v m) k' = (if k' = k then Some v else bm_get m k')"
  unfolding bm_get_def by (induction m) auto

lemma bm_remove_get: "bm_get (bm_remove k m) k' = (if k' = k then None else bm_get m k')"
  unfolding bm_get_def bm_remove_def by (induction m) auto

lemma bm_keys_dom: "(k \<in> set (bm_keys m)) = (bm_get m k \<noteq> None)"
  unfolding bm_get_def bm_keys_def by (simp add: map_of_eq_None_iff)

lemma bm_insert_keys: "set (bm_keys (bm_insert k v m)) = {k} \<union> set (bm_keys m)"
  unfolding bm_keys_def by (induction m) auto

lemma bm_insert_ok: "bm_ok m \<Longrightarrow> bm_ok (bm_insert k v m)"
proof (induction m)
  case Nil
  then show ?case by (simp add: bm_ok_def bm_keys_def)
next
  case (Cons e m)
  then have tl: "bm_ok m" and hd: "\<forall>k' \<in> set (bm_keys m). fst e < k'"
    by (auto simp: bm_ok_def bm_keys_def)
  from Cons.IH [OF tl] have ins: "bm_ok (bm_insert k v m)" .
  have below: "fst e < k \<Longrightarrow> \<forall>k' \<in> set (bm_keys (bm_insert k v m)). fst e < k'"
    using hd by (auto simp: bm_insert_keys)
  show ?case
    using Cons.prems ins below by (auto simp: bm_ok_def bm_keys_def)
qed

lemma bm_remove_ok: "bm_ok m \<Longrightarrow> bm_ok (bm_remove k m)"
  unfolding bm_ok_def bm_keys_def bm_remove_def by (induction m) auto

interpretation bm: ordered_map "[]" bm_get bm_insert bm_remove bm_keys bm_ok
  by unfold_locales
    (auto simp: bm_insert_get bm_remove_get bm_keys_dom bm_insert_ok bm_remove_ok,
     auto simp: bm_get_def bm_ok_def bm_keys_def)

lemma bm_get_Nil [simp]: "bm_get [] k = None"
  by (simp add: bm_get_def)

lemma bm_has_get: "bm_has m k = (bm_get m k \<noteq> None)"
  by (simp add: bm_has_def bm_keys_dom)

lemma bm_get_in_set: "bm_get m k = Some v \<Longrightarrow> (k, v) \<in> set m"
  by (simp add: bm_get_def map_of_SomeD)

lemma bm_values_get: "bm_get m k = Some v \<Longrightarrow> v \<in> set (bm_values m)"
  by (force simp: bm_values_def dest: bm_get_in_set)

lemma bm_ok_Cons: "bm_ok (e # m) = ((\<forall>k \<in> set (bm_keys m). fst e < k) \<and> bm_ok m)"
  by (simp add: bm_ok_def bm_keys_def)

lemma bm_ok_distinct: "bm_ok m \<Longrightarrow> distinct (bm_keys m)"
  unfolding bm_ok_def by (rule strict_sorted_iff [THEN iffD1, THEN conjunct2])

lemma bm_set_get: "bm_ok m \<Longrightarrow> (k, v) \<in> set m \<Longrightarrow> bm_get m k = Some v"
  by (simp add: bm_get_def bm_ok_distinct [unfolded bm_keys_def])

lemma bm_map_keys [simp]: "bm_keys (bm_map f m) = bm_keys m"
  by (simp add: bm_keys_def bm_map_def)

lemma bm_map_ok [simp]: "bm_ok (bm_map f m) = bm_ok m"
  by (simp add: bm_ok_def)

lemma bm_map_get: "bm_get (bm_map f m) k = map_option (f k) (bm_get m k)"
  unfolding bm_get_def bm_map_def by (induction m) auto

lemma bm_retain_get: "bm_get (bm_retain_keys P m) k = (if P k then bm_get m k else None)"
  unfolding bm_get_def bm_retain_keys_def by (induction m) auto

lemma bm_retain_ok: "bm_ok m \<Longrightarrow> bm_ok (bm_retain_keys P m)"
  unfolding bm_ok_def bm_keys_def bm_retain_keys_def by (induction m) auto

lemma bm_extend_ok: "bm_ok m \<Longrightarrow> bm_ok (bm_extend m m')"
  unfolding bm_extend_def by (induction m' arbitrary: m) (auto simp: bm_insert_ok)

lemma bm_extend_keys: "set (bm_keys (bm_extend m m')) = set (bm_keys m) \<union> set (bm_keys m')"
  unfolding bm_extend_def
proof (induction m' arbitrary: m)
  case Nil
  then show ?case by (simp add: bm_keys_def)
next
  case (Cons e m')
  then show ?case by (simp add: bm_insert_keys) (auto simp: bm_keys_def)
qed

section \<open>Ordered sets\<close>

text \<open>A \<^verbatim>\<open>BTreeSet\<close> is the ascending list of its elements.\<close>

definition bs_insert :: "'a::linorder \<Rightarrow> 'a list \<Rightarrow> 'a list" where
  "bs_insert x s = (if x \<in> set s then s else insort x s)"

definition bs_remove :: "'a \<Rightarrow> 'a list \<Rightarrow> 'a list" where
  "bs_remove x s = filter (\<lambda>y. y \<noteq> x) s"

definition bs_of :: "'a::linorder list \<Rightarrow> 'a list" where
  "bs_of xs = sort (remdups xs)"

lemma set_bs_insert [simp]: "set (bs_insert x s) = insert x (set s)"
  by (auto simp: bs_insert_def set_insort_key)

lemma set_bs_remove [simp]: "set (bs_remove x s) = set s - {x}"
  by (auto simp: bs_remove_def)

lemma set_bs_of [simp]: "set (bs_of xs) = set xs"
  by (simp add: bs_of_def)

lemma distinct_bs_of [simp]: "distinct (bs_of xs)"
  by (simp add: bs_of_def)

lemma sorted_bs_of [simp]: "sorted (bs_of xs)"
  by (simp add: bs_of_def)

section \<open>List operations of the standard library\<close>

text \<open>\<^verbatim>\<open>Iterator::position\<close>, \<^verbatim>\<open>rposition\<close>, \<^verbatim>\<open>find\<close>, \<^verbatim>\<open>Vec::remove\<close> and \<^verbatim>\<open>swap\<close>.\<close>

fun position :: "('a \<Rightarrow> bool) \<Rightarrow> 'a list \<Rightarrow> nat option" where
  "position P [] = None"
| "position P (x # xs) = (if P x then Some 0 else map_option Suc (position P xs))"

definition rposition :: "('a \<Rightarrow> bool) \<Rightarrow> 'a list \<Rightarrow> nat option" where
  "rposition P xs = map_option (\<lambda>i. length xs - 1 - i) (position P (rev xs))"

definition find_first :: "('a \<Rightarrow> bool) \<Rightarrow> 'a list \<Rightarrow> 'a option" where
  "find_first P xs = List.find P xs"

definition remove_at :: "nat \<Rightarrow> 'a list \<Rightarrow> 'a list" where
  "remove_at i xs = take i xs @ drop (Suc i) xs"

definition swap_at :: "nat \<Rightarrow> nat \<Rightarrow> 'a list \<Rightarrow> 'a list" where
  "swap_at i j xs =
     (if i < length xs \<and> j < length xs then xs[i := xs ! j, j := xs ! i] else xs)"

lemma position_Some:
  "position P xs = Some i \<Longrightarrow> i < length xs \<and> P (xs ! i) \<and> (\<forall>j < i. \<not> P (xs ! j))"
proof (induction xs arbitrary: i)
  case Nil
  then show ?case by simp
next
  case (Cons x xs)
  show ?case
  proof (cases "P x")
    case True
    with Cons.prems show ?thesis by simp
  next
    case False
    with Cons.prems obtain k where k: "position P xs = Some k" and i: "i = Suc k" by auto
    from Cons.IH [OF k] False i show ?thesis
      by (auto simp: nth_Cons split: nat.splits)
  qed
qed

lemma position_None: "position P xs = None \<Longrightarrow> x \<in> set xs \<Longrightarrow> \<not> P x"
  by (induction xs) (auto split: if_splits)

lemma position_lt: "position P xs = Some i \<Longrightarrow> i < length xs"
  by (simp add: position_Some)

lemma position_holds: "position P xs = Some i \<Longrightarrow> P (xs ! i)"
  by (simp add: position_Some)

lemma find_first_Some: "find_first P xs = Some x \<Longrightarrow> x \<in> set xs \<and> P x"
  by (auto simp: find_first_def find_Some_iff)

lemma find_first_None: "find_first P xs = None \<Longrightarrow> x \<in> set xs \<Longrightarrow> \<not> P x"
  by (auto simp: find_first_def find_None_iff)

lemma set_remove_at: "set (remove_at i xs) \<subseteq> set xs"
  by (auto simp: remove_at_def dest: in_set_takeD in_set_dropD)

lemma mset_swap_at [simp]: "set (swap_at i j xs) = set xs"
  by (auto simp: swap_at_def set_swap)

lemma length_swap_at [simp]: "length (swap_at i j xs) = length xs"
  by (simp add: swap_at_def)

text \<open>Only the element at a position changes: \<^verbatim>\<open>let c = &mut copies[i]\<close>.\<close>

definition update_at :: "nat \<Rightarrow> ('a \<Rightarrow> 'a) \<Rightarrow> 'a list \<Rightarrow> 'a list" where
  "update_at i f xs = (if i < length xs then xs[i := f (xs ! i)] else xs)"

lemma length_update_at [simp]: "length (update_at i f xs) = length xs"
  by (simp add: update_at_def)

lemma set_update_at: "set (update_at i f xs) \<subseteq> set xs \<union> f ` set xs"
  by (auto simp: update_at_def dest!: set_update_subset_insert [THEN subsetD])

lemma update_at_nth: "j < length xs \<Longrightarrow> update_at i f xs ! j = (if j = i then f (xs ! j) else xs ! j)"
  by (auto simp: update_at_def)

section \<open>Unsigned integers\<close>

text \<open>
  Terms, versions, times and counters are \<^verbatim>\<open>u64\<close>; they are natural numbers here, and the two
  operations the code writes with an overflow rule of its own are written out.
\<close>

definition u64_max :: nat where
  "u64_max = 2 ^ 64 - 1"

definition sat_add :: "nat \<Rightarrow> nat \<Rightarrow> nat" where
  "sat_add a b = min (a + b) u64_max"

lemma sat_add_mono: "a \<le> u64_max \<Longrightarrow> a \<le> sat_add a b"
  by (simp add: sat_add_def)

lemma sat_add_less: "a < u64_max \<Longrightarrow> 0 < b \<Longrightarrow> a < sat_add a b"
  by (auto simp: sat_add_def)

section \<open>Decimal text\<close>

fun digits :: "nat \<Rightarrow> string" where
  "digits n = (if n < 10 then [char_of (48 + n)] else digits (n div 10) @ [char_of (48 + n mod 10)])"

declare digits.simps [simp del]

definition show_nat :: "nat \<Rightarrow> string" where
  "show_nat n = digits n"

definition show_int :: "int \<Rightarrow> string" where
  "show_int i = (if i < 0 then ''-'' @ digits (nat (- i)) else digits (nat i))"

definition show_bool :: "bool \<Rightarrow> string" where
  "show_bool b = (if b then ''true'' else ''false'')"

text \<open>Zero padding: \<^verbatim>\<open>{:02}\<close>, \<^verbatim>\<open>{:03}\<close>, \<^verbatim>\<open>{:04}\<close>.\<close>

definition pad :: "nat \<Rightarrow> string \<Rightarrow> string" where
  "pad w s = replicate (w - length s) (CHR ''0'') @ s"

fun join_with :: "string \<Rightarrow> string list \<Rightarrow> string" where
  "join_with sep [] = []"
| "join_with sep [x] = x"
| "join_with sep (x # y # ys) = x @ sep @ join_with sep (y # ys)"

text \<open>\<^verbatim>\<open>str::split\<close> on one character: always at least one piece.\<close>

fun split_on :: "char \<Rightarrow> string \<Rightarrow> string list" where
  "split_on c [] = [[]]"
| "split_on c (x # xs) =
     (case split_on c xs of
        [] \<Rightarrow> [[x]]
      | p # ps \<Rightarrow> if x = c then [] # p # ps else (x # p) # ps)"

lemma split_on_nonempty [simp]: "split_on c s \<noteq> []"
  by (cases s) (auto split: list.splits)

lemma join_split: "join_with [c] (split_on c s) = s"
proof (induction s)
  case Nil
  then show ?case by simp
next
  case (Cons x xs)
  obtain p ps where ps: "split_on c xs = p # ps"
    using split_on_nonempty by (cases "split_on c xs") auto
  from Cons ps show ?case
    by (cases ps) auto
qed

lemma split_on_pieces: "p \<in> set (split_on c s) \<Longrightarrow> c \<notin> set p"
proof (induction s arbitrary: p)
  case Nil
  then show ?case by simp
next
  case (Cons x xs)
  then show ?case
    by (auto split: list.splits if_splits)
qed

text \<open>\<^verbatim>\<open>str::trim\<close> and ASCII lower case.\<close>

definition is_space :: "char \<Rightarrow> bool" where
  "is_space c = (c \<in> {CHR '' '', CHR 0x09, CHR 0x0A, CHR 0x0B, CHR 0x0C, CHR 0x0D})"

definition trim :: "string \<Rightarrow> string" where
  "trim s = rev (dropWhile is_space (rev (dropWhile is_space s)))"

definition to_lower :: "string \<Rightarrow> string" where
  "to_lower s =
     map (\<lambda>c. if 65 \<le> (of_char c :: nat) \<and> (of_char c :: nat) \<le> 90
              then char_of ((of_char c :: nat) + 32) else c) s"

section \<open>Quorums\<close>

text \<open>
  A majority of a voting configuration is among the votes (\<^verbatim>\<open>has_quorum\<close>).  The configuration is
  a list of node ids; the count is over its entries.
\<close>

definition votes_in :: "'a list \<Rightarrow> 'a set \<Rightarrow> nat" where
  "votes_in config votes = length (filter (\<lambda>n. n \<in> votes) config)"

locale quorum_system =
  fixes quorum :: "'c \<Rightarrow> 'a set \<Rightarrow> bool"
    and members :: "'c \<Rightarrow> 'a set"
  assumes quorum_meet: "quorum c Q \<Longrightarrow> quorum c Q' \<Longrightarrow> Q \<inter> Q' \<inter> members c \<noteq> {}"
    and quorum_mono: "quorum c Q \<Longrightarrow> Q \<subseteq> Q' \<Longrightarrow> quorum c Q'"
begin

lemma quorum_nonempty: "quorum c Q \<Longrightarrow> Q \<noteq> {}"
  using quorum_meet by blast

lemma quorum_common: "quorum c Q \<Longrightarrow> quorum c Q' \<Longrightarrow> \<exists>n \<in> members c. n \<in> Q \<and> n \<in> Q'"
  using quorum_meet by blast

text \<open>A majority that is not in one side of a split is in the other side or in neither.\<close>

lemma no_split: "quorum c Q \<Longrightarrow> Q \<inter> Q' \<inter> members c = {} \<Longrightarrow> \<not> quorum c Q'"
  using quorum_meet by blast

end

lemma votes_in_mono: "Q \<subseteq> Q' \<Longrightarrow> votes_in c Q \<le> votes_in c Q'"
  unfolding votes_in_def by (induction c) auto

lemma votes_in_disjoint: "Q \<inter> Q' \<inter> set c = {} \<Longrightarrow> votes_in c Q + votes_in c Q' \<le> length c"
  unfolding votes_in_def by (induction c) auto

end
