(* ===== verification/Cluster_State.thy ===== *)
theory Cluster_State
  imports Prelude
begin

text \<open>
  The cluster state of \<^verbatim>\<open>src/src/cluster/state.rs\<close>: the nodes, the copies of every shard, the
  metadata of every index, the routing table and its queries, and the health and the counts the
  state answers with.  Text that \<^verbatim>\<open>serde_json\<close> reads or writes is represented by the value it
  denotes (\<open>json\<close>); an object keeps the order its keys were written in, as the crate does here.
\<close>

section \<open>Values\<close>

type_synonym node_id = string
type_synonym millis = nat

text \<open>A floating-point number is its 64 bits; the operations on it are parameters (\<open>f64_ops\<close>).\<close>

type_synonym f64 = "64 word"

datatype json =
    JNull
  | JBool bool
  | JInt int
  | JFloat f64
  | JStr string
  | JArr "json list"
  | JObj "(string \<times> json) list"

fun json_get :: "json \<Rightarrow> string \<Rightarrow> json option" where
  "json_get (JObj o') k = map_of o' k"
| "json_get _ k = None"

fun json_str :: "json \<Rightarrow> string option" where
  "json_str (JStr s) = Some s"
| "json_str _ = None"

fun json_u64 :: "json \<Rightarrow> nat option" where
  "json_u64 (JInt i) = (if 0 \<le> i then Some (nat i) else None)"
| "json_u64 _ = None"

fun json_bool :: "json \<Rightarrow> bool option" where
  "json_bool (JBool b) = Some b"
| "json_bool _ = None"

text \<open>\<^verbatim>\<open>Value::pointer\<close> on a path of object keys.\<close>

fun json_pointer :: "json \<Rightarrow> string list \<Rightarrow> json option" where
  "json_pointer v [] = Some v"
| "json_pointer v (k # ks) = (case json_get v k of None \<Rightarrow> None | Some w \<Rightarrow> json_pointer w ks)"

section \<open>Nodes and copies\<close>

record discovery_node =
  dn_id :: node_id
  dn_name :: string
  dn_ephemeral_id :: node_id
  dn_transport_address :: string
  dn_roles :: "string list"
  dn_attributes :: "(string, string) bmap"
  dn_http_address :: string

definition is_cluster_manager_eligible :: "discovery_node \<Rightarrow> bool" where
  "is_cluster_manager_eligible n =
     (\<exists>r \<in> set (dn_roles n). r = ''cluster_manager'' \<or> r = ''master'')"

definition starts_with :: "string \<Rightarrow> string \<Rightarrow> bool" where
  "starts_with p s = (take (length p) s = p)"

definition is_data :: "discovery_node \<Rightarrow> bool" where
  "is_data n = (\<exists>r \<in> set (dn_roles n). r = ''data'' \<or> starts_with ''data_'' r)"

datatype shard_state = Unassigned | Initializing | Started | Relocating

definition active_state :: "shard_state \<Rightarrow> bool" where
  "active_state s = (s = Started \<or> s = Relocating)"

fun shard_state_str :: "shard_state \<Rightarrow> string" where
  "shard_state_str Unassigned = ''UNASSIGNED''"
| "shard_state_str Initializing = ''INITIALIZING''"
| "shard_state_str Started = ''STARTED''"
| "shard_state_str Relocating = ''RELOCATING''"

record unassigned_info =
  ui_reason :: string
  ui_at_millis :: nat
  ui_delayed :: bool
  ui_allocation_status :: string
  ui_failed_allocations :: nat
  ui_details :: "string option"

record shard_routing =
  sr_index :: string
  sr_shard :: nat
  sr_primary :: bool
  sr_state :: shard_state
  sr_node :: "node_id option"
  sr_relocating_node :: "node_id option"
  sr_allocation_id :: "string option"
  sr_unassigned :: "unassigned_info option"

text \<open>\<^verbatim>\<open>iso_millis\<close>: the calendar date of a count of milliseconds since 1970.\<close>

definition civil_of_days :: "int \<Rightarrow> int \<times> int \<times> int" where
  "civil_of_days days =
     (let z = days + 719468;
          era = z div 146097;
          doe = z mod 146097;
          yoe = (doe - doe div 1460 + doe div 36524 - doe div 146096) div 365;
          doy = doe - (365 * yoe + yoe div 4 - yoe div 100);
          mp = (5 * doy + 2) div 153;
          d = doy - (153 * mp + 2) div 5 + 1;
          m = (if mp < 10 then mp + 3 else mp - 9);
          y = yoe + era * 400 + (if m \<le> 2 then 1 else 0)
      in (y, m, d))"

definition iso_millis :: "nat \<Rightarrow> string" where
  "iso_millis ms =
     (let secs = int (ms div 1000);
          s = secs mod 86400;
          (y, m, d) = civil_of_days (secs div 86400)
      in pad 4 (show_int y) @ ''-'' @ pad 2 (show_int m) @ ''-'' @ pad 2 (show_int d) @ ''T''
         @ pad 2 (show_int (s div 3600)) @ '':'' @ pad 2 (show_int ((s mod 3600) div 60)) @ '':''
         @ pad 2 (show_int (s mod 60)) @ ''.'' @ pad 3 (show_nat (ms mod 1000)) @ ''Z'')"

section \<open>Metadata, routing and the state\<close>

record index_metadata =
  im_name :: string
  im_uuid :: string
  im_version :: nat
  im_mapping_version :: nat
  im_settings_version :: nat
  im_aliases_version :: nat
  im_state :: string
  im_settings :: json
  im_mappings :: json
  im_aliases :: json
  im_number_of_shards :: nat
  im_number_of_replicas :: nat
  im_primary_terms :: "(nat, nat) bmap"
  im_in_sync_allocations :: "(nat, string list) bmap"
  im_creation_date :: nat

text \<open>index -> shard -> copies, the primary first\<close>

type_synonym shard_table = "(nat, shard_routing list) bmap"
type_synonym routing_table = "(string, shard_table) bmap"

definition rt_all :: "routing_table \<Rightarrow> shard_routing list" where
  "rt_all t = concat (map (\<lambda>s. concat (bm_values s)) (bm_values t))"

definition rt_on_node :: "routing_table \<Rightarrow> node_id \<Rightarrow> shard_routing list" where
  "rt_on_node t node = filter (\<lambda>c. sr_node c = Some node) (rt_all t)"

text \<open>\<^verbatim>\<open>on_node_mut\<close>: a change made to every copy a node holds.\<close>

definition rt_on_node_mut ::
  "node_id \<Rightarrow> (shard_routing \<Rightarrow> shard_routing) \<Rightarrow> routing_table \<Rightarrow> routing_table" where
  "rt_on_node_mut node f t =
     bm_map (\<lambda>_ s. bm_map (\<lambda>_ cs. map (\<lambda>c. if sr_node c = Some node then f c else c) cs) s) t"

definition rt_shards_of :: "routing_table \<Rightarrow> string \<Rightarrow> shard_routing list" where
  "rt_shards_of t index =
     (case bm_get t index of None \<Rightarrow> [] | Some s \<Rightarrow> concat (bm_values s))"

definition rt_copies :: "routing_table \<Rightarrow> string \<Rightarrow> nat \<Rightarrow> shard_routing list option" where
  "rt_copies t index shard =
     (case bm_get t index of None \<Rightarrow> None | Some s \<Rightarrow> bm_get s shard)"

definition primary_of_copies :: "shard_routing list \<Rightarrow> shard_routing option" where
  "primary_of_copies copies =
     (case find_first (\<lambda>r. sr_primary r \<and> active_state (sr_state r)) copies of
        Some r \<Rightarrow> Some r
      | None \<Rightarrow> find_first sr_primary copies)"

definition rt_primary :: "routing_table \<Rightarrow> string \<Rightarrow> nat \<Rightarrow> shard_routing option" where
  "rt_primary t index shard =
     (case rt_copies t index shard of None \<Rightarrow> None | Some copies \<Rightarrow> primary_of_copies copies)"

definition rt_by_node ::
  "routing_table \<Rightarrow> (node_id, shard_routing list) bmap \<times> shard_routing list" where
  "rt_by_node t =
     fold (\<lambda>r (nodes, un).
             case sr_node r of
               Some n \<Rightarrow>
                 (bm_insert n ((case bm_get nodes n of None \<Rightarrow> [] | Some rs \<Rightarrow> rs) @ [r]) nodes, un)
             | None \<Rightarrow> (nodes, un @ [r]))
       (rt_all t) ([], [])"

text \<open>The copies of one shard replaced: \<^verbatim>\<open>t.indices.get_mut(index)?.get_mut(shard)\<close>.\<close>

definition rt_set_copies ::
  "string \<Rightarrow> nat \<Rightarrow> shard_routing list \<Rightarrow> routing_table \<Rightarrow> routing_table" where
  "rt_set_copies index shard copies t =
     (case bm_get t index of
        None \<Rightarrow> t
      | Some s \<Rightarrow> bm_insert index (bm_insert shard copies s) t)"

record cluster_state =
  cs_cluster_name :: string
  cs_cluster_uuid :: string
  cs_cluster_uuid_committed :: bool
  cs_state_uuid :: string
  cs_version :: nat
  cs_term :: nat
  cs_cluster_manager :: "node_id option"
  cs_nodes :: "(node_id, discovery_node) bmap"
  cs_last_committed_config :: "node_id list"
  cs_last_accepted_config :: "node_id list"
  cs_voting_config_exclusions :: "json list"
  cs_indices :: "(string, index_metadata) bmap"
  cs_routing :: routing_table
  cs_index_blocks :: "(string, string list) bmap"
  cs_cluster_settings :: json
  cs_graveyard :: "json list"
  cs_customs :: json

text \<open>
  \<^verbatim>\<open>ClusterState::empty\<close> and \<^verbatim>\<open>next\<close>; the random identifier they draw (\<^verbatim>\<open>NodeId::random\<close>) is an
  argument.
\<close>

definition cs_empty :: "string \<Rightarrow> string \<Rightarrow> string \<Rightarrow> cluster_state" where
  "cs_empty name uuid fresh =
     \<lparr>cs_cluster_name = name, cs_cluster_uuid = uuid, cs_cluster_uuid_committed = False,
      cs_state_uuid = fresh, cs_version = 0, cs_term = 0, cs_cluster_manager = None,
      cs_nodes = [], cs_last_committed_config = [], cs_last_accepted_config = [],
      cs_voting_config_exclusions = [], cs_indices = [], cs_routing = [],
      cs_index_blocks = [],
      cs_cluster_settings = JObj [(''persistent'', JObj []), (''transient'', JObj [])],
      cs_graveyard = [], cs_customs = JObj []\<rparr>"

definition cs_next :: "string \<Rightarrow> cluster_state \<Rightarrow> cluster_state" where
  "cs_next fresh s = s\<lparr>cs_version := cs_version s + 1, cs_state_uuid := fresh\<rparr>"

definition cs_data_nodes :: "cluster_state \<Rightarrow> discovery_node list" where
  "cs_data_nodes s = filter is_data (bm_values (cs_nodes s))"

section \<open>Health\<close>

record shard_counts =
  sc_active :: nat
  sc_active_primary :: nat
  sc_initializing :: nat
  sc_relocating :: nat
  sc_unassigned :: nat
  sc_delayed :: nat

definition sc_zero :: shard_counts where
  "sc_zero = \<lparr>sc_active = 0, sc_active_primary = 0, sc_initializing = 0, sc_relocating = 0,
              sc_unassigned = 0, sc_delayed = 0\<rparr>"

definition sc_count_active :: "bool \<Rightarrow> shard_counts \<Rightarrow> shard_counts" where
  "sc_count_active primary c =
     c\<lparr>sc_active := sc_active c + 1,
       sc_active_primary := sc_active_primary c + (if primary then 1 else 0)\<rparr>"

definition count_copy :: "shard_routing \<Rightarrow> shard_counts \<Rightarrow> shard_counts" where
  "count_copy r c =
     (case sr_state r of
        Started \<Rightarrow> sc_count_active (sr_primary r) c
      | Initializing \<Rightarrow> c\<lparr>sc_initializing := sc_initializing c + 1\<rparr>
      | Relocating \<Rightarrow>
          sc_count_active (sr_primary r) (c\<lparr>sc_relocating := sc_relocating c + 1\<rparr>)
      | Unassigned \<Rightarrow>
          c\<lparr>sc_unassigned := sc_unassigned c + 1,
            sc_delayed := sc_delayed c +
              (case sr_unassigned r of None \<Rightarrow> 0 | Some u \<Rightarrow> if ui_delayed u then 1 else 0)\<rparr>)"

definition in_scope :: "string list option \<Rightarrow> shard_routing \<Rightarrow> bool" where
  "in_scope only r = (case only of None \<Rightarrow> True | Some names \<Rightarrow> sr_index r \<in> set names)"

definition shard_counts :: "cluster_state \<Rightarrow> string list option \<Rightarrow> shard_counts" where
  "shard_counts s only =
     fold count_copy (filter (in_scope only) (rt_all (cs_routing s))) sc_zero"

definition moving_here :: "routing_table \<Rightarrow> shard_routing \<Rightarrow> bool" where
  "moving_here t r =
     (sr_relocating_node r \<noteq> None \<and> sr_state r = Initializing \<and>
      (\<exists>c \<in> set (rt_shards_of t (sr_index r)).
         sr_shard c = sr_shard r \<and> sr_primary c = sr_primary r \<and> sr_state c = Relocating))"

datatype health = Green | Yellow | Red

fun health_loop :: "routing_table \<Rightarrow> string list option \<Rightarrow> shard_routing list \<Rightarrow> health \<Rightarrow> health" where
  "health_loop t only [] st = st"
| "health_loop t only (r # rs) st =
     (if \<not> in_scope only r then health_loop t only rs st
      else if active_state (sr_state r) then health_loop t only rs st
      else if moving_here t r then health_loop t only rs st
      else if sr_primary r then Red
      else health_loop t only rs Yellow)"

definition health_status :: "cluster_state \<Rightarrow> string list option \<Rightarrow> health" where
  "health_status s only = health_loop (cs_routing s) only (rt_all (cs_routing s)) Green"

section \<open>Properties\<close>

text \<open>What a copy counts for: a copy that does not answer, and the target of no move.\<close>

definition missing :: "cluster_state \<Rightarrow> string list option \<Rightarrow> shard_routing \<Rightarrow> bool" where
  "missing s only r =
     (r \<in> set (rt_all (cs_routing s)) \<and> in_scope only r \<and> \<not> active_state (sr_state r)
      \<and> \<not> moving_here (cs_routing s) r)"

definition inactive_copy :: "routing_table \<Rightarrow> string list option \<Rightarrow> shard_routing \<Rightarrow> bool" where
  "inactive_copy t only r = (in_scope only r \<and> \<not> active_state (sr_state r) \<and> \<not> moving_here t r)"

lemma health_loop_Cons:
  "health_loop t only (r # rs) st =
     (if inactive_copy t only r then (if sr_primary r then Red else health_loop t only rs Yellow)
      else health_loop t only rs st)"
  by (simp add: inactive_copy_def)

lemma health_loop_cases:
  "health_loop t only rs st =
     (if \<exists>r \<in> set rs. inactive_copy t only r \<and> sr_primary r then Red
      else if \<exists>r \<in> set rs. inactive_copy t only r then Yellow else st)"
proof (induction rs arbitrary: st)
  case Nil
  then show ?case by simp
next
  case (Cons r rs)
  show ?case
    unfolding health_loop_Cons Cons.IH by auto
qed

text \<open>
  Health is exactly what is missing: red when some primary in scope neither answers nor is the
  target of a move, yellow when only replicas are missing, green when nothing is.
\<close>

theorem health_status_spec:
  "health_status s only =
     (if \<exists>r. missing s only r \<and> sr_primary r then Red
      else if \<exists>r. missing s only r then Yellow else Green)"
  by (simp add: health_status_def health_loop_cases missing_def inactive_copy_def) blast

lemma fold_count_copy:
  "(let c' = fold count_copy rs c in
      sc_active c' + sc_initializing c' + sc_unassigned c' =
        sc_active c + sc_initializing c + sc_unassigned c + length rs
    \<and> sc_active c' = sc_active c + length (filter (\<lambda>r. active_state (sr_state r)) rs)
    \<and> sc_active_primary c' =
        sc_active_primary c + length (filter (\<lambda>r. active_state (sr_state r) \<and> sr_primary r) rs)
    \<and> sc_relocating c' = sc_relocating c + length (filter (\<lambda>r. sr_state r = Relocating) rs)
    \<and> sc_unassigned c' = sc_unassigned c + length (filter (\<lambda>r. sr_state r = Unassigned) rs))"
proof (induction rs arbitrary: c)
  case Nil
  then show ?case by (simp add: Let_def)
next
  case (Cons r rs)
  from Cons [of "count_copy r c"] show ?case
    by (cases "sr_state r")
      (auto simp: Let_def count_copy_def sc_count_active_def active_state_def)
qed

text \<open>
  The counts of \<^verbatim>\<open>_cluster/health\<close> partition the copies in scope: every copy is counted once as
  active, initializing or unassigned, active primaries are among the active copies, and so are
  relocating ones.
\<close>

theorem shard_counts_partition:
  "let c = shard_counts s only; rs = filter (in_scope only) (rt_all (cs_routing s)) in
     sc_active c + sc_initializing c + sc_unassigned c = length rs
     \<and> sc_active c = length (filter (\<lambda>r. active_state (sr_state r)) rs)
     \<and> sc_active_primary c = length (filter (\<lambda>r. active_state (sr_state r) \<and> sr_primary r) rs)
     \<and> sc_relocating c = length (filter (\<lambda>r. sr_state r = Relocating) rs)"
  using fold_count_copy [of "filter (in_scope only) (rt_all (cs_routing s))" sc_zero]
  by (simp add: shard_counts_def sc_zero_def Let_def)

lemma rt_primary_is_primary: "rt_primary t index shard = Some p \<Longrightarrow> sr_primary p"
  by (auto simp: rt_primary_def primary_of_copies_def split: option.splits dest!: find_first_Some)

lemma rt_primary_prefers_active:
  assumes "rt_copies t index shard = Some copies"
    and "c \<in> set copies" and "sr_primary c" and "active_state (sr_state c)"
  obtains p where "rt_primary t index shard = Some p" and "active_state (sr_state p)"
proof (cases "find_first (\<lambda>r. sr_primary r \<and> active_state (sr_state r)) copies")
  case None
  with assms show ?thesis by (auto dest: find_first_None)
next
  case (Some p)
  with assms(1) have "rt_primary t index shard = Some p"
    by (simp add: rt_primary_def primary_of_copies_def)
  moreover from Some have "active_state (sr_state p)" by (auto dest: find_first_Some)
  ultimately show ?thesis by (rule that)
qed

lemma bm_values_mem: "x \<in> set (bm_values m) = (\<exists>k. (k, x) \<in> set m)"
  by (force simp: bm_values_def)

lemma rt_all_iff:
  assumes "bm_ok t" and "\<And>i s. (i, s) \<in> set t \<Longrightarrow> bm_ok s"
  shows "c \<in> set (rt_all t) = (\<exists>i n cs. rt_copies t i n = Some cs \<and> c \<in> set cs)"
proof
  assume "c \<in> set (rt_all t)"
  then obtain s cs where "s \<in> set (bm_values t)" and "cs \<in> set (bm_values s)" and c: "c \<in> set cs"
    by (auto simp: rt_all_def)
  then obtain i n where "(i, s) \<in> set t" and "(n, cs) \<in> set s"
    by (auto simp: bm_values_mem)
  with assms have "rt_copies t i n = Some cs"
    by (simp add: rt_copies_def bm_set_get)
  with c show "\<exists>i n cs. rt_copies t i n = Some cs \<and> c \<in> set cs" by blast
next
  assume "\<exists>i n cs. rt_copies t i n = Some cs \<and> c \<in> set cs"
  then obtain i n cs s where "bm_get t i = Some s" and "bm_get s n = Some cs" and c: "c \<in> set cs"
    by (auto simp: rt_copies_def split: option.splits)
  then have "s \<in> set (bm_values t)" and "cs \<in> set (bm_values s)"
    by (auto dest: bm_values_get)
  with c show "c \<in> set (rt_all t)" by (auto simp: rt_all_def)
qed

end
