(* ===== verification/Allocation_Settings.thy ===== *)
theory Allocation_Settings
  imports Cluster_State
begin

text \<open>
  What the allocator of \<^verbatim>\<open>src/src/cluster/allocation.rs\<close> reads: decisions and verdicts, the settings
  documents and the filters in them, and the wildcard match of \<^verbatim>\<open>src/src/store/names.rs\<close> the filters
  use.  What the code takes from the processor or from crates outside the repository is the record
  \<open>lib\<close>, an argument of every definition that needs it: arithmetic and comparison of
  \<^verbatim>\<open>f64\<close>, reading and writing a number as text, and the text of a JSON value.
\<close>

section \<open>Parameters\<close>

record lib =
  lib_json_text :: "json \<Rightarrow> string"
  lib_f_parse :: "string \<Rightarrow> f64 option"
  lib_f_of_int :: "int \<Rightarrow> f64"
  lib_f_add :: "f64 \<Rightarrow> f64 \<Rightarrow> f64"
  lib_f_sub :: "f64 \<Rightarrow> f64 \<Rightarrow> f64"
  lib_f_mul :: "f64 \<Rightarrow> f64 \<Rightarrow> f64"
  lib_f_div :: "f64 \<Rightarrow> f64 \<Rightarrow> f64"
  lib_f_abs :: "f64 \<Rightarrow> f64"
  lib_f_sum :: "f64 list \<Rightarrow> f64"
  lib_f_lt :: "f64 \<Rightarrow> f64 \<Rightarrow> bool"
  lib_f_le :: "f64 \<Rightarrow> f64 \<Rightarrow> bool"
  lib_f_to_u64 :: "f64 \<Rightarrow> nat"

text \<open>The literals \<open>0.45\<close>, \<open>0.55\<close> and \<open>1.0\<close> as the bits the compiler writes for them.\<close>

definition f_045 :: f64 where "f_045 = 0x3FDCCCCCCCCCCCCD"
definition f_055 :: f64 where "f_055 = 0x3FE199999999999A"
definition f_1 :: f64 where "f_1 = 0x3FF0000000000000"

section \<open>Decisions\<close>

datatype decision = Yes | Throttle | No

fun decision_rank :: "decision \<Rightarrow> nat" where
  "decision_rank Yes = 0"
| "decision_rank Throttle = 1"
| "decision_rank No = 2"

instantiation decision :: linorder
begin

definition less_eq_decision :: "decision \<Rightarrow> decision \<Rightarrow> bool" where
  "less_eq_decision a b = (decision_rank a \<le> decision_rank b)"

definition less_decision :: "decision \<Rightarrow> decision \<Rightarrow> bool" where
  "less_decision a b = (decision_rank a < decision_rank b)"

lemma decision_rank_inj: "decision_rank a = decision_rank b \<Longrightarrow> a = b"
  by (cases a; cases b) simp_all

instance
  by standard
    (auto simp: less_eq_decision_def less_decision_def intro: decision_rank_inj)

end

fun decision_label :: "decision \<Rightarrow> string" where
  "decision_label Yes = ''YES''"
| "decision_label Throttle = ''THROTTLE''"
| "decision_label No = ''NO''"

record verdict =
  vd_decider :: string
  vd_decision :: decision
  vd_explanation :: string

definition mk_verdict :: "string \<Rightarrow> decision \<Rightarrow> string \<Rightarrow> verdict" where
  "mk_verdict d v x = \<lparr>vd_decider = d, vd_decision = v, vd_explanation = x\<rparr>"

definition overall :: "verdict list \<Rightarrow> decision" where
  "overall vs = fold max (map vd_decision vs) Yes"

lemma decision_Yes_least [simp]: "Yes \<le> d"
  by (cases d) (simp_all add: less_eq_decision_def)

lemma decision_No_greatest [simp]: "d \<le> No"
  by (cases d) (simp_all add: less_eq_decision_def)

lemma fold_max_ge: "a \<le> fold max ds (a :: decision)" "d \<in> set ds \<Longrightarrow> d \<le> fold max ds a"
proof -
  have ge: "a \<le> fold max ds a" for a :: decision and ds
  proof (induction ds arbitrary: a)
    case Nil
    then show ?case by simp
  next
    case (Cons x xs)
    from Cons.IH [of "max x a"] show ?case by simp
  qed
  then show "a \<le> fold max ds a" .
  show "d \<in> set ds \<Longrightarrow> d \<le> fold max ds a"
  proof (induction ds arbitrary: a)
    case Nil
    then show ?case by simp
  next
    case (Cons x xs)
    with ge [of "max x a" xs] show ?case by auto
  qed
qed

lemma fold_max_in: "fold max ds (a :: decision) \<in> insert a (set ds)"
  by (induction ds arbitrary: a) (auto simp: max_def split: if_splits)

lemma overall_ge: "v \<in> set vs \<Longrightarrow> vd_decision v \<le> overall vs"
  by (simp add: overall_def fold_max_ge(2))

lemma overall_Yes_iff: "overall vs = Yes \<longleftrightarrow> (\<forall>v \<in> set vs. vd_decision v = Yes)"
proof
  assume "overall vs = Yes"
  then show "\<forall>v \<in> set vs. vd_decision v = Yes"
    using overall_ge decision_Yes_least by (metis order_antisym)
next
  assume "\<forall>v \<in> set vs. vd_decision v = Yes"
  then show "overall vs = Yes"
    using fold_max_in [of "map vd_decision vs" Yes] by (auto simp: overall_def)
qed

lemma overall_No_iff: "overall vs = No \<longleftrightarrow> (\<exists>v \<in> set vs. vd_decision v = No)"
proof
  assume "overall vs = No"
  then show "\<exists>v \<in> set vs. vd_decision v = No"
    using fold_max_in [of "map vd_decision vs" Yes] by (force simp: overall_def)
next
  assume "\<exists>v \<in> set vs. vd_decision v = No"
  then show "overall vs = No"
    using overall_ge decision_No_greatest by (metis order_antisym)
qed

datatype enable = EnAll | EnPrimaries | EnNewPrimaries | EnNone

definition enable_parse :: "string \<Rightarrow> enable" where
  "enable_parse s =
     (let l = to_lower s in
      if l = ''primaries'' then EnPrimaries
      else if l = ''new_primaries'' then EnNewPrimaries
      else if l = ''none'' then EnNone else EnAll)"

fun enable_str :: "enable \<Rightarrow> string" where
  "enable_str EnAll = ''all''"
| "enable_str EnPrimaries = ''primaries''"
| "enable_str EnNewPrimaries = ''new_primaries''"
| "enable_str EnNone = ''none''"

datatype rebalance_enable = RbAll | RbPrimaries | RbReplicas | RbNone

definition rebalance_enable_parse :: "string \<Rightarrow> rebalance_enable" where
  "rebalance_enable_parse s =
     (let l = to_lower s in
      if l = ''primaries'' then RbPrimaries
      else if l = ''replicas'' then RbReplicas
      else if l = ''none'' then RbNone else RbAll)"

fun rebalance_enable_str :: "rebalance_enable \<Rightarrow> string" where
  "rebalance_enable_str RbAll = ''all''"
| "rebalance_enable_str RbPrimaries = ''primaries''"
| "rebalance_enable_str RbReplicas = ''replicas''"
| "rebalance_enable_str RbNone = ''none''"

datatype allow_rebalance = Always | IndicesPrimariesActive | IndicesAllActive

definition allow_rebalance_parse :: "string \<Rightarrow> allow_rebalance" where
  "allow_rebalance_parse s =
     (let l = to_lower s in
      if l = ''always'' then Always
      else if l = ''indices_primaries_active'' then IndicesPrimariesActive
      else IndicesAllActive)"

fun allow_rebalance_str :: "allow_rebalance \<Rightarrow> string" where
  "allow_rebalance_str Always = ''always''"
| "allow_rebalance_str IndicesPrimariesActive = ''indices_primaries_active''"
| "allow_rebalance_str IndicesAllActive = ''indices_all_active''"

section \<open>Wildcards\<close>

text \<open>\<^verbatim>\<open>str::find\<close>: where a part first occurs.\<close>

fun find_sub :: "string \<Rightarrow> string \<Rightarrow> nat option" where
  "find_sub p s =
     (if starts_with p s then Some 0
      else case s of [] \<Rightarrow> None | _ # s' \<Rightarrow> map_option Suc (find_sub p s'))"

definition ends_with :: "string \<Rightarrow> string \<Rightarrow> bool" where
  "ends_with p s = (length p \<le> length s \<and> drop (length s - length p) s = p)"

fun glob_parts :: "string list \<Rightarrow> string \<Rightarrow> bool" where
  "glob_parts [] rest = True"
| "glob_parts (part # parts) rest =
     (if part = [] then (if parts = [] then True else glob_parts parts rest)
      else if parts = [] then ends_with part rest
      else case find_sub part rest of
             Some i \<Rightarrow> glob_parts parts (drop (i + length part) rest)
           | None \<Rightarrow> False)"

definition glob_match :: "string \<Rightarrow> string \<Rightarrow> bool" where
  "glob_match pattern name =
     (case split_on (CHR ''*'') pattern of
        [] \<Rightarrow> False
      | first # parts \<Rightarrow>
          if \<not> starts_with first name then False
          else
            (let rest = drop (length first) name
             in if CHR ''*'' \<notin> set pattern then rest = [] else glob_parts parts rest))"

section \<open>Filters\<close>

record filters =
  fl_include :: "(string, string list) bmap"
  fl_exclude :: "(string, string list) bmap"
  fl_require :: "(string, string list) bmap"

definition filters_default :: filters where
  "filters_default = \<lparr>fl_include = [], fl_exclude = [], fl_require = []\<rparr>"

definition node_value :: "discovery_node \<Rightarrow> string \<Rightarrow> string option" where
  "node_value node attr =
     (if attr = ''_name'' then Some (dn_name node)
      else if attr = ''_id'' then Some (dn_id node)
      else if attr \<in> {''_ip'', ''_host_ip'', ''_publish_ip'', ''_host''} then
        Some (hd (split_on (CHR '':'') (dn_transport_address node)))
      else bm_get (dn_attributes node) attr)"

definition matches_any :: "string list \<Rightarrow> string option \<Rightarrow> bool" where
  "matches_any values have =
     (case have of
        Some h \<Rightarrow> \<exists>v \<in> set values. v = h \<or> (CHR ''*'' \<in> set v \<and> glob_match v h)
      | None \<Rightarrow> False)"

definition filters_check ::
  "filters \<Rightarrow> discovery_node \<Rightarrow> (string \<times> (string, string list) bmap) option" where
  "filters_check f node =
     (if \<exists>(attr, values) \<in> set (fl_require f). \<not> matches_any values (node_value node attr)
      then Some (''require'', fl_require f)
      else if fl_include f \<noteq> [] \<and>
        \<not> (\<exists>(attr, values) \<in> set (fl_include f). matches_any values (node_value node attr))
      then Some (''include'', fl_include f)
      else if \<exists>(attr, values) \<in> set (fl_exclude f). matches_any values (node_value node attr)
      then Some (''exclude'', fl_exclude f)
      else None)"

definition quoted :: "string \<Rightarrow> string" where
  "quoted s = CHR 0x22 # s @ [CHR 0x22]"

definition filters_text :: "(string, string list) bmap \<Rightarrow> string" where
  "filters_text f =
     join_with '','' (map (\<lambda>(k, v). k @ '':'' @ quoted (join_with '','' v)) f)"

section \<open>Settings documents\<close>

function setting_walk :: "json \<Rightarrow> string list \<Rightarrow> json option"
  and setting_try :: "(string \<times> json) list \<Rightarrow> string list \<Rightarrow> nat \<Rightarrow> json option" where
  "setting_walk v [] = (if v = JNull then None else Some v)"
| "setting_walk v (p # ps) =
     (case v of JObj obj \<Rightarrow> setting_try obj (p # ps) (length (p # ps)) | _ \<Rightarrow> None)"
| "setting_try obj ps 0 = None"
| "setting_try obj ps (Suc n) =
     (case (case map_of obj (join_with ''.'' (take (Suc n) ps)) of
              None \<Rightarrow> None
            | Some nx \<Rightarrow> setting_walk nx (drop (Suc n) ps)) of
        Some found \<Rightarrow> Some found
      | None \<Rightarrow> setting_try obj ps n)"
  by pat_completeness auto
termination
  by (relation "measures [\<lambda>x. case x of Inl (v, ps) \<Rightarrow> length ps | Inr (ob, ps, n) \<Rightarrow> length ps,
        \<lambda>x. case x of Inl (v, ps) \<Rightarrow> (if ps = [] then 0 else length ps + 2)
                     | Inr (ob, ps, n) \<Rightarrow> n + 1]") auto

definition setting :: "json \<Rightarrow> string \<Rightarrow> json option" where
  "setting settings key = setting_walk settings (split_on (CHR ''.'') key)"

text \<open>\<^verbatim>\<open>str::parse\<close> of unsigned and signed decimal numbers.\<close>

definition digit_val :: "char \<Rightarrow> nat option" where
  "digit_val c = (let n = of_char c in if 48 \<le> n \<and> n \<le> 57 then Some (n - 48) else None)"

fun parse_digits :: "nat \<Rightarrow> string \<Rightarrow> nat option" where
  "parse_digits acc [] = Some acc"
| "parse_digits acc (c # cs) =
     (case digit_val c of None \<Rightarrow> None | Some d \<Rightarrow> parse_digits (acc * 10 + d) cs)"

definition parse_nat :: "string \<Rightarrow> nat option" where
  "parse_nat s = (if s = [] then None else parse_digits 0 s)"

definition parse_u64 :: "string \<Rightarrow> nat option" where
  "parse_u64 s =
     (case parse_nat (case s of c # cs \<Rightarrow> if c = CHR ''+'' then cs else s | [] \<Rightarrow> s) of
        Some n \<Rightarrow> if n \<le> u64_max then Some n else None
      | None \<Rightarrow> None)"

definition parse_i64 :: "string \<Rightarrow> int option" where
  "parse_i64 s =
     (case s of
        c # cs \<Rightarrow>
          (if c = CHR ''-'' then
             (case parse_nat cs of
                Some n \<Rightarrow> if n \<le> 2 ^ 63 then Some (- int n) else None
              | None \<Rightarrow> None)
           else
             (case parse_nat (if c = CHR ''+'' then cs else s) of
                Some n \<Rightarrow> if n < 2 ^ 63 then Some (int n) else None
              | None \<Rightarrow> None))
      | [] \<Rightarrow> None)"

definition setting_str :: "lib \<Rightarrow> json \<Rightarrow> string \<Rightarrow> string option" where
  "setting_str L settings key =
     (case setting settings key of
        None \<Rightarrow> None
      | Some (JStr s) \<Rightarrow> Some s
      | Some other \<Rightarrow> Some (lib_json_text L other))"

definition setting_u64 :: "json \<Rightarrow> string \<Rightarrow> nat option" where
  "setting_u64 settings key =
     (case setting settings key of
        Some (JInt i) \<Rightarrow> json_u64 (JInt i)
      | Some (JStr s) \<Rightarrow> parse_u64 (trim s)
      | _ \<Rightarrow> None)"

definition setting_f64 :: "lib \<Rightarrow> json \<Rightarrow> string \<Rightarrow> f64 option" where
  "setting_f64 L settings key =
     (case setting settings key of
        Some (JInt i) \<Rightarrow> Some (lib_f_of_int L i)
      | Some (JFloat f) \<Rightarrow> Some f
      | Some (JStr s) \<Rightarrow> lib_f_parse L (trim s)
      | _ \<Rightarrow> None)"

definition comma_values :: "string \<Rightarrow> string list" where
  "comma_values s = filter (\<lambda>x. x \<noteq> []) (map trim (split_on (CHR '','') s))"

definition values_of :: "lib \<Rightarrow> json \<Rightarrow> string list" where
  "values_of L v =
     (case v of
        JStr s \<Rightarrow> comma_values s
      | JArr a \<Rightarrow> List.map_filter json_str a
      | JNull \<Rightarrow> []
      | other \<Rightarrow> [lib_json_text L other])"

definition insert_values :: "string \<Rightarrow> string list \<Rightarrow> (string, string list) bmap \<Rightarrow> (string, string list) bmap" where
  "insert_values attr values m = (if values = [] then m else bm_insert attr values m)"

definition filters_kind :: "lib \<Rightarrow> json \<Rightarrow> string \<Rightarrow> string \<Rightarrow> (string, string list) bmap" where
  "filters_kind L settings prefix kind =
     (let nested = (case setting settings (prefix @ ''.'' @ kind) of
                      Some (JObj obj) \<Rightarrow>
                        fold (\<lambda>(attr, v) m. insert_values attr (values_of L v) m) obj []
                    | _ \<Rightarrow> []);
          head = prefix @ ''.'' @ kind @ ''.''
      in case settings of
           JObj obj \<Rightarrow>
             fold (\<lambda>(k, v) m. if starts_with head k
                     then insert_values (drop (length head) k) (values_of L v) m else m) obj nested
         | _ \<Rightarrow> nested)"

definition filters_from :: "lib \<Rightarrow> json \<Rightarrow> string \<Rightarrow> filters" where
  "filters_from L settings prefix =
     \<lparr>fl_include = filters_kind L settings prefix ''include'',
      fl_exclude = filters_kind L settings prefix ''exclude'',
      fl_require = filters_kind L settings prefix ''require''\<rparr>"

definition is_ascii_alpha :: "char \<Rightarrow> bool" where
  "is_ascii_alpha c =
     (let n = (of_char c :: nat) in (65 \<le> n \<and> n \<le> 90) \<or> (97 \<le> n \<and> n \<le> 122))"

definition time_ms :: "lib \<Rightarrow> string \<Rightarrow> millis option" where
  "time_ms L s0 =
     (let s = trim s0;
          split = (case position is_ascii_alpha s of Some i \<Rightarrow> i | None \<Rightarrow> length s)
      in case lib_f_parse L (trim (take split s)) of
           None \<Rightarrow> None
         | Some n \<Rightarrow>
           (case (let u = drop split s in
                  if u = '''' \<or> u = ''ms'' then Some (1 :: int)
                  else if u = ''s'' then Some 1000
                  else if u = ''m'' then Some 60000
                  else if u = ''h'' then Some 3600000
                  else if u = ''d'' then Some 86400000 else None) of
              None \<Rightarrow> None
            | Some mult \<Rightarrow> Some (lib_f_to_u64 L (lib_f_mul L n (lib_f_of_int L mult)))))"

record cluster_settings =
  st_enable :: enable
  st_rebalance_enable :: rebalance_enable
  st_allow_rebalance :: allow_rebalance
  st_cluster_concurrent_rebalance :: nat
  st_node_concurrent_incoming :: nat
  st_node_concurrent_outgoing :: nat
  st_node_initial_primaries :: nat
  st_node_initial_replicas :: nat
  st_total_shards_per_node :: int
  st_awareness_attributes :: "string list"
  st_awareness_forced :: "(string, string list) bmap"
  st_filters :: filters
  st_balance_shard :: f64
  st_balance_index :: f64
  st_balance_threshold :: f64

definition cluster_settings_default :: cluster_settings where
  "cluster_settings_default =
     \<lparr>st_enable = EnAll, st_rebalance_enable = RbAll, st_allow_rebalance = IndicesAllActive,
      st_cluster_concurrent_rebalance = 2, st_node_concurrent_incoming = 2,
      st_node_concurrent_outgoing = 2, st_node_initial_primaries = 4, st_node_initial_replicas = 4,
      st_total_shards_per_node = -1, st_awareness_attributes = [], st_awareness_forced = [],
      st_filters = filters_default, st_balance_shard = f_045, st_balance_index = f_055,
      st_balance_threshold = f_1\<rparr>"

text \<open>\<^verbatim>\<open>merged[k] = val\<close> on an object that keeps insertion order.\<close>

fun obj_set :: "string \<Rightarrow> json \<Rightarrow> (string \<times> json) list \<Rightarrow> (string \<times> json) list" where
  "obj_set k v [] = [(k, v)]"
| "obj_set k v ((k', v') # rest) = (if k' = k then (k, v) # rest else (k', v') # obj_set k v rest)"

definition merged_settings :: "json \<Rightarrow> json" where
  "merged_settings v =
     JObj (fold (\<lambda>section merged.
              case json_get v section of
                Some (JObj obj) \<Rightarrow> fold (\<lambda>(k, x) m. obj_set k x m) obj merged
              | _ \<Rightarrow> merged)
            [''persistent'', ''transient''] [])"

text \<open>\<^verbatim>\<open>if let Some(x) = ... { s.field = x }\<close>\<close>

definition when_some :: "'a option \<Rightarrow> ('a \<Rightarrow> 's \<Rightarrow> 's) \<Rightarrow> 's \<Rightarrow> 's" where
  "when_some x f s = (case x of None \<Rightarrow> s | Some y \<Rightarrow> f y s)"

definition cluster_settings_from_value :: "lib \<Rightarrow> json \<Rightarrow> cluster_settings" where
  "cluster_settings_from_value L v =
     (let merged = merged_settings v;
          s = cluster_settings_default;
          s = when_some (setting_str L merged ''cluster.routing.allocation.enable'')
                (\<lambda>e s. s\<lparr>st_enable := enable_parse e\<rparr>) s;
          s = when_some (setting_str L merged ''cluster.routing.rebalance.enable'')
                (\<lambda>e s. s\<lparr>st_rebalance_enable := rebalance_enable_parse e\<rparr>) s;
          s = when_some (setting_str L merged ''cluster.routing.allocation.allow_rebalance'')
                (\<lambda>e s. s\<lparr>st_allow_rebalance := allow_rebalance_parse e\<rparr>) s;
          s = when_some (setting_u64 merged ''cluster.routing.allocation.cluster_concurrent_rebalance'')
                (\<lambda>n s. s\<lparr>st_cluster_concurrent_rebalance := n\<rparr>) s;
          s = when_some (setting_u64 merged ''cluster.routing.allocation.node_concurrent_recoveries'')
                (\<lambda>n s. s\<lparr>st_node_concurrent_incoming := n, st_node_concurrent_outgoing := n\<rparr>) s;
          s = when_some (setting_u64 merged ''cluster.routing.allocation.node_concurrent_incoming_recoveries'')
                (\<lambda>n s. s\<lparr>st_node_concurrent_incoming := n\<rparr>) s;
          s = when_some (setting_u64 merged ''cluster.routing.allocation.node_concurrent_outgoing_recoveries'')
                (\<lambda>n s. s\<lparr>st_node_concurrent_outgoing := n\<rparr>) s;
          s = when_some (setting_u64 merged ''cluster.routing.allocation.node_initial_primaries_recoveries'')
                (\<lambda>n s. s\<lparr>st_node_initial_primaries := n\<rparr>) s;
          s = when_some (setting_u64 merged ''cluster.routing.allocation.node_initial_replicas_recoveries'')
                (\<lambda>n s. s\<lparr>st_node_initial_replicas := n\<rparr>) s;
          s = when_some (setting_str L merged ''cluster.routing.allocation.total_shards_per_node'')
                (\<lambda>t s. s\<lparr>st_total_shards_per_node :=
                          (case parse_i64 t of Some i \<Rightarrow> i | None \<Rightarrow> -1)\<rparr>) s;
          s = when_some (setting_str L merged ''cluster.routing.allocation.awareness.attributes'')
                (\<lambda>a s. s\<lparr>st_awareness_attributes := comma_values a\<rparr>) s;
          s = (case setting merged ''cluster.routing.allocation.awareness.force'' of
                 Some (JObj force) \<Rightarrow>
                   fold (\<lambda>(attr, x) s.
                           when_some (setting_str L x ''values'')
                             (\<lambda>vals s. s\<lparr>st_awareness_forced :=
                                bm_insert attr (comma_values vals) (st_awareness_forced s)\<rparr>) s)
                     force s
               | _ \<Rightarrow> s);
          s = s\<lparr>st_filters := filters_from L merged ''cluster.routing.allocation''\<rparr>;
          s = when_some (setting_f64 L merged ''cluster.routing.allocation.balance.shard'')
                (\<lambda>f s. s\<lparr>st_balance_shard := f\<rparr>) s;
          s = when_some (setting_f64 L merged ''cluster.routing.allocation.balance.index'')
                (\<lambda>f s. s\<lparr>st_balance_index := f\<rparr>) s;
          s = when_some (setting_f64 L merged ''cluster.routing.allocation.balance.threshold'')
                (\<lambda>f s. s\<lparr>st_balance_threshold := f\<rparr>) s
      in s)"

record index_settings =
  is_enable :: "enable option"
  is_rebalance_enable :: "rebalance_enable option"
  is_total_shards_per_node :: int
  is_filters :: filters
  is_max_retries :: nat
  is_delayed_timeout :: millis

definition index_settings_from_metadata :: "lib \<Rightarrow> index_metadata \<Rightarrow> index_settings" where
  "index_settings_from_metadata L m =
     (let s = im_settings m in
      \<lparr>is_enable = map_option enable_parse (setting_str L s ''index.routing.allocation.enable''),
       is_rebalance_enable =
         map_option rebalance_enable_parse (setting_str L s ''index.routing.rebalance.enable''),
       is_total_shards_per_node =
         (case setting_str L s ''index.routing.allocation.total_shards_per_node'' of
            None \<Rightarrow> -1
          | Some t \<Rightarrow> (case parse_i64 t of None \<Rightarrow> -1 | Some i \<Rightarrow> i)),
       is_filters = filters_from L s ''index.routing.allocation'',
       is_max_retries = (case setting_u64 s ''index.allocation.max_retries'' of None \<Rightarrow> 5 | Some n \<Rightarrow> n),
       is_delayed_timeout =
         (case setting_str L s ''index.unassigned.node_left.delayed_timeout'' of
            None \<Rightarrow> 60000
          | Some t \<Rightarrow> (case time_ms L t of None \<Rightarrow> 60000 | Some n \<Rightarrow> n))\<rparr>)"

text \<open>
  Everything \<^verbatim>\<open>reroute\<close> looks at.  \<open>cx_lib\<close> are the parameters above and \<open>cx_rand\<close> the stream of
  identifiers \<^verbatim>\<open>NodeId::random\<close> draws; a counter of the ids already drawn is threaded through.
\<close>

record alloc_context =
  cx_nodes :: "(node_id, discovery_node) bmap"
  cx_indices :: "(string, index_metadata) bmap"
  cx_cluster :: cluster_settings
  cx_primary_home :: "(string, node_id) bmap"
  cx_home_holds_documents :: "string list"
  cx_held :: "(node_id, (string \<times> string \<times> string) list) bmap"
  cx_now :: millis
  cx_lib :: lib
  cx_rand :: "nat \<Rightarrow> string"

definition cx_data_nodes :: "alloc_context \<Rightarrow> discovery_node list" where
  "cx_data_nodes ctx = filter is_data (bm_values (cx_nodes ctx))"

definition cx_index_settings :: "alloc_context \<Rightarrow> string \<Rightarrow> index_settings" where
  "cx_index_settings ctx index =
     (case bm_get (cx_indices ctx) index of
        Some m \<Rightarrow> index_settings_from_metadata (cx_lib ctx) m
      | None \<Rightarrow>
          \<lparr>is_enable = None, is_rebalance_enable = None, is_total_shards_per_node = -1,
           is_filters = filters_default, is_max_retries = 5, is_delayed_timeout = 60000\<rparr>)"

end
