(* ===== verification/Samples.thy ===== *)
theory Samples
  imports Allocation_Settings "HOL-Library.Code_Target_Nat"
begin

text \<open>
  Small concrete nodes, indices and contexts, on which the witnesses evaluate the definitions.  The
  library parameters are instantiated by functions under which every weight is equal, so that
  the balancer has nothing to move.
\<close>

definition sample_lib :: lib where
  "sample_lib =
     \<lparr>lib_json_text = (\<lambda>_. []), lib_f_parse = (\<lambda>_. None), lib_f_of_int = (\<lambda>_. 0),
      lib_f_add = (\<lambda>_ _. 0), lib_f_sub = (\<lambda>_ _. 0), lib_f_mul = (\<lambda>_ _. 0), lib_f_div = (\<lambda>_ _. 0),
      lib_f_abs = (\<lambda>_. 0), lib_f_sum = (\<lambda>_. 0), lib_f_lt = (\<lambda>_ _. False), lib_f_le = (\<lambda>_ _. True),
      lib_f_to_u64 = (\<lambda>_. 0)\<rparr>"

definition sample_node :: "string \<Rightarrow> string list \<Rightarrow> discovery_node" where
  "sample_node i roles =
     \<lparr>dn_id = i, dn_name = i, dn_ephemeral_id = i, dn_transport_address = i, dn_roles = roles,
      dn_attributes = [], dn_http_address = []\<rparr>"

definition sample_nodes :: "string list \<Rightarrow> (node_id, discovery_node) bmap" where
  "sample_nodes ids = map (\<lambda>i. (i, sample_node i [''data''])) ids"

definition sample_index :: "string \<Rightarrow> nat \<Rightarrow> nat \<Rightarrow> (nat, string list) bmap \<Rightarrow> index_metadata" where
  "sample_index name shards replicas in_sync =
     \<lparr>im_name = name, im_uuid = ''u'', im_version = 1, im_mapping_version = 1,
      im_settings_version = 1, im_aliases_version = 1, im_state = ''open'', im_settings = JNull,
      im_mappings = JNull, im_aliases = JNull, im_number_of_shards = shards,
      im_number_of_replicas = replicas, im_primary_terms = [], im_in_sync_allocations = in_sync,
      im_creation_date = 0\<rparr>"

definition sample_context ::
  "(node_id, discovery_node) bmap \<Rightarrow> (string, index_metadata) bmap \<Rightarrow> alloc_context" where
  "sample_context nodes indices =
     \<lparr>cx_nodes = nodes, cx_indices = indices, cx_cluster = cluster_settings_default,
      cx_primary_home = [], cx_home_holds_documents = [], cx_held = [], cx_now = 1000,
      cx_lib = sample_lib, cx_rand = (\<lambda>k. ''id'' @ show_nat k)\<rparr>"

definition sample_copy :: "nat \<Rightarrow> bool \<Rightarrow> shard_state \<Rightarrow> node_id option \<Rightarrow> string option \<Rightarrow> shard_routing" where
  "sample_copy shard primary st node aid =
     \<lparr>sr_index = ''i'', sr_shard = shard, sr_primary = primary, sr_state = st, sr_node = node,
      sr_relocating_node = None, sr_allocation_id = aid, sr_unassigned = None\<rparr>"

end
