(* ===== verification/Allocation_Deciders.thy ===== *)
theory Allocation_Deciders
  imports Samples
begin

text \<open>
  The deciders of \<^verbatim>\<open>allocation.rs\<close>: may a copy be allocated to a node, be moved, or stay, each answered
  by the list of verdicts in the order the code pushes them, in its words; and the balancer's weight
  and ranking of nodes.
\<close>

definition opensearch_version :: string where
  "opensearch_version = ''3.9.0''"

definition created_reason :: "shard_routing \<Rightarrow> bool \<Rightarrow> bool" where
  "created_reason c dflt =
     (case sr_unassigned c of Some u \<Rightarrow> ui_reason u = ''INDEX_CREATED'' | None \<Rightarrow> dflt)"

definition short_summary :: "shard_routing \<Rightarrow> string" where
  "short_summary c =
     (let node = (case sr_node c of Some n \<Rightarrow> ''node['' @ n @ '']'' | None \<Rightarrow> ''node[null]'');
          reloc = (case sr_relocating_node c of
                     Some r \<Rightarrow> '', relocating ['' @ r @ '']'' | None \<Rightarrow> '''');
          kind = (if sr_primary c then ''[P]'' else ''[R]'');
          source = (if sr_state c = Unassigned \<or> sr_state c = Initializing then
                      '', recovery_source['' @
                        (if sr_relocating_node c \<noteq> None \<or> \<not> sr_primary c then ''peer recovery''
                         else if created_reason c True then ''new shard recovery''
                         else ''existing store recovery'') @ '']''
                    else '''');
          alloc = (case sr_allocation_id c of Some a \<Rightarrow> '', a[id='' @ a @ '']'' | None \<Rightarrow> '''');
          unassigned =
            (case sr_unassigned c of
               Some u \<Rightarrow>
                 if sr_state c = Unassigned then
                   '', unassigned_info[[reason='' @ ui_reason u @ ''], at['' @
                     iso_millis (ui_at_millis u) @ ''], delayed='' @ show_bool (ui_delayed u) @
                     '', allocation_status['' @ ui_allocation_status u @ '']]''
                 else ''''
             | None \<Rightarrow> '''')
      in ''[['' @ sr_index c @ '']['' @ show_nat (sr_shard c) @ ''], '' @ node @ reloc @ '', '' @ kind
         @ source @ '', s['' @ shard_state_str (sr_state c) @ '']'' @ alloc @ unassigned @ '']'')"

section \<open>The deciders\<close>

definition data_role_verdict :: "discovery_node \<Rightarrow> verdict list" where
  "data_role_verdict node =
     (if is_data node then []
      else [mk_verdict ''data_role'' No
              (''node ['' @ dn_name node @
               ''] does not have the data role and cannot hold shard data'')])"

definition failed_allocations_of :: "shard_routing \<Rightarrow> nat" where
  "failed_allocations_of c =
     (case sr_unassigned c of Some u \<Rightarrow> ui_failed_allocations u | None \<Rightarrow> 0)"

definition max_retry_verdict :: "index_settings \<Rightarrow> shard_routing \<Rightarrow> verdict" where
  "max_retry_verdict is copy =
     (let failed = failed_allocations_of copy in
      if is_max_retries is \<le> failed then
        mk_verdict ''max_retry'' No
          (''shard has exceeded the maximum number of retries ['' @ show_nat (is_max_retries is) @
           ''] on failed allocation attempts - manually call [/_cluster/reroute?retry_failed=true] to retry, ['' @
           (case sr_unassigned copy of
              Some u \<Rightarrow>
                ''unassigned_info[[reason='' @ ui_reason u @ ''], at['' @ iso_millis (ui_at_millis u) @
                ''], failed_attempts['' @ show_nat (ui_failed_allocations u) @ ''], delayed='' @
                show_bool (ui_delayed u) @ '', allocation_status['' @ ui_allocation_status u @ '']]''
            | None \<Rightarrow> '''') @ '']'')
      else if failed = 0 then mk_verdict ''max_retry'' Yes ''shard has no previous failures''
      else
        mk_verdict ''max_retry'' Yes
          (''shard has failed allocating ['' @ show_nat failed @ ''] times but ['' @
           show_nat (is_max_retries is) @ ''] retries are allowed''))"

definition primary_active :: "routing_table \<Rightarrow> string \<Rightarrow> nat \<Rightarrow> bool" where
  "primary_active table index shard =
     (case rt_primary table index shard of
        Some p \<Rightarrow> active_state (sr_state p) | None \<Rightarrow> False)"

definition replica_after_primary_verdict :: "routing_table \<Rightarrow> shard_routing \<Rightarrow> verdict" where
  "replica_after_primary_verdict table copy =
     (if sr_primary copy then
        mk_verdict ''replica_after_primary_active'' Yes ''shard is primary and can be allocated''
      else if primary_active table (sr_index copy) (sr_shard copy) then
        mk_verdict ''replica_after_primary_active'' Yes
          ''primary shard for this replica is already active''
      else
        mk_verdict ''replica_after_primary_active'' No
          ''primary shard for this replica is not yet active'')"

definition enable_verdict :: "alloc_context \<Rightarrow> index_settings \<Rightarrow> shard_routing \<Rightarrow> verdict" where
  "enable_verdict ctx is copy =
     (let (enable, from) =
        (case is_enable is of
           Some e \<Rightarrow> (e, ''index setting [index.routing.allocation.enable'')
         | None \<Rightarrow> (st_enable (cx_cluster ctx), ''cluster setting [cluster.routing.allocation.enable''));
          new_primary = (sr_primary copy \<and> created_reason copy False);
          ok = (case enable of EnAll \<Rightarrow> True | EnNone \<Rightarrow> False | EnPrimaries \<Rightarrow> sr_primary copy
                | EnNewPrimaries \<Rightarrow> new_primary)
      in if ok then mk_verdict ''enable'' Yes ''all allocations are allowed''
         else
           mk_verdict ''enable'' No
             ((case enable of
                 EnNone \<Rightarrow> ''all allocations are forbidden''
               | EnPrimaries \<Rightarrow> ''replica allocations are forbidden''
               | EnNewPrimaries \<Rightarrow> ''non-new primary allocations are forbidden''
               | EnAll \<Rightarrow> '''') @ '' due to '' @ from @ ''='' @ enable_str enable @ '']''))"

definition node_version_verdict :: "shard_routing \<Rightarrow> verdict" where
  "node_version_verdict copy =
     (if sr_primary copy then
        mk_verdict ''node_version'' Yes ''the primary shard is new or already existed on the node''
      else
        mk_verdict ''node_version'' Yes
          (''can allocate replica shard to a node with version ['' @ opensearch_version @
           ''] since this is equal-or-newer than the primary version ['' @ opensearch_version @ '']''))"

definition filter_verdict ::
  "alloc_context \<Rightarrow> index_settings \<Rightarrow> discovery_node \<Rightarrow> verdict" where
  "filter_verdict ctx is node =
     (case filters_check (st_filters (cx_cluster ctx)) node of
        Some (kind, f) \<Rightarrow>
          mk_verdict ''filter'' No
            (''node does not match cluster setting [cluster.routing.allocation.'' @ kind @
             ''] filters ['' @ filters_text f @ '']'')
      | None \<Rightarrow>
        (case filters_check (is_filters is) node of
           Some (kind, f) \<Rightarrow>
             mk_verdict ''filter'' No
               (''node does not match index setting [index.routing.allocation.'' @ kind @
                ''] filters ['' @ filters_text f @ '']'')
         | None \<Rightarrow> mk_verdict ''filter'' Yes ''node passes include/exclude/require filters''))"

definition twin_on ::
  "routing_table \<Rightarrow> shard_routing \<Rightarrow> node_id \<Rightarrow> shard_routing option" where
  "twin_on table copy node =
     find_first (\<lambda>c. sr_shard c = sr_shard copy \<and> sr_state c \<noteq> Unassigned
                   \<and> sr_node c = Some node \<and> sr_allocation_id c \<noteq> sr_allocation_id copy)
       (rt_shards_of table (sr_index copy))"

definition same_shard_verdict :: "routing_table \<Rightarrow> shard_routing \<Rightarrow> discovery_node \<Rightarrow> verdict" where
  "same_shard_verdict table copy node =
     (if sr_state copy \<noteq> Unassigned \<and> sr_node copy = Some (dn_id node) then
        mk_verdict ''same_shard'' No
          (''the shard cannot be allocated to the same node on which it already exists '' @
           short_summary copy)
      else case twin_on table copy (dn_id node) of
        Some t \<Rightarrow>
          mk_verdict ''same_shard'' No
            (''a copy of this shard is already allocated to this node '' @ short_summary t)
      | None \<Rightarrow>
          mk_verdict ''same_shard'' Yes ''this node does not hold a copy of this shard'')"

definition enough_disk :: string where
  "enough_disk =
     ''enough disk for shard on node, free: [1gb], shard size: [0b], free after allocating shard: [1gb]''"

definition disk_threshold_verdict :: "alloc_context \<Rightarrow> verdict" where
  "disk_threshold_verdict ctx =
     (if length (cx_data_nodes ctx) \<le> 1 then
        mk_verdict ''disk_threshold'' Yes ''there is only a single data node present''
      else mk_verdict ''disk_threshold'' Yes enough_disk)"

definition recoveries_setting :: "string \<Rightarrow> nat \<Rightarrow> string" where
  "recoveries_setting dir limit =
     ''cluster setting [cluster.routing.allocation.node_concurrent_'' @ dir @ ''_recoveries='' @
     show_nat limit @
     ''] (can also be set via [cluster.routing.allocation.node_concurrent_recoveries])''"

definition throttling_verdict ::
  "alloc_context \<Rightarrow> routing_table \<Rightarrow> shard_routing \<Rightarrow> discovery_node \<Rightarrow> verdict" where
  "throttling_verdict ctx table copy node =
     (let initial = created_reason copy False; cl = cx_cluster ctx in
      if sr_primary copy then
        (let ongoing = length (filter (\<lambda>c. sr_state c = Initializing \<and> sr_primary c
                                  \<and> sr_relocating_node c = None) (rt_on_node table (dn_id node)))
         in if st_node_initial_primaries cl \<le> ongoing then
              mk_verdict ''throttling'' Throttle
                (''reached the limit of ongoing initial primary recoveries ['' @ show_nat ongoing @
                 ''], cluster setting [cluster.routing.allocation.node_initial_primaries_recoveries='' @
                 show_nat (st_node_initial_primaries cl) @ '']'')
            else
              mk_verdict ''throttling'' Yes
                (''below primary recovery limit of ['' @ show_nat (st_node_initial_primaries cl) @ '']''))
      else
        (let (in_limit, out_limit) =
           (if initial then (st_node_initial_replicas cl, st_node_initial_replicas cl)
            else (st_node_concurrent_incoming cl, st_node_concurrent_outgoing cl));
             incoming = length (filter (\<lambda>c. sr_state c = Initializing) (rt_on_node table (dn_id node)))
         in if in_limit \<le> incoming then
              mk_verdict ''throttling'' Throttle
                (''reached the limit of incoming shard recoveries ['' @ show_nat incoming @ ''], '' @
                 recoveries_setting ''incoming'' in_limit)
            else
              (let source = Option.bind (rt_primary table (sr_index copy) (sr_shard copy)) sr_node;
                   outgoing =
                     (case source of
                        Some src \<Rightarrow>
                          length (filter (\<lambda>c. sr_state c = Initializing \<and> \<not> sr_primary c
                            \<and> Option.bind (rt_primary table (sr_index c) (sr_shard c)) sr_node = Some src)
                            (rt_all table))
                      | None \<Rightarrow> 0)
               in case source of
                    Some src \<Rightarrow>
                      if out_limit \<le> outgoing then
                        mk_verdict ''throttling'' Throttle
                          (''reached the limit of outgoing shard recoveries ['' @ show_nat outgoing @
                           ''] on the node ['' @ src @ ''] which holds the primary, '' @
                           recoveries_setting ''outgoing'' out_limit)
                      else
                        mk_verdict ''throttling'' Yes
                          (''below shard recovery limit of outgoing: ['' @ show_nat outgoing @ '' < '' @
                           show_nat out_limit @ ''] incoming: ['' @ show_nat incoming @ '' < '' @
                           show_nat in_limit @ '']'')
                  | None \<Rightarrow>
                      mk_verdict ''throttling'' Yes
                        (''below shard recovery limit of outgoing: ['' @ show_nat outgoing @ '' < '' @
                         show_nat out_limit @ ''] incoming: ['' @ show_nat incoming @ '' < '' @
                         show_nat in_limit @ '']''))))"

definition shards_limit_verdict ::
  "alloc_context \<Rightarrow> index_settings \<Rightarrow> routing_table \<Rightarrow> shard_routing \<Rightarrow> discovery_node \<Rightarrow> verdict" where
  "shards_limit_verdict ctx is table copy node =
     (let on_node = filter (\<lambda>c. sr_allocation_id c \<noteq> sr_allocation_id copy)
                      (rt_on_node table (dn_id node));
          index_count = int (length (filter (\<lambda>c. sr_index c = sr_index copy) on_node));
          total = int (length on_node);
          ilim = is_total_shards_per_node is;
          clim = st_total_shards_per_node (cx_cluster ctx)
      in if 0 \<le> ilim \<and> ilim \<le> index_count then
           mk_verdict ''shards_limit'' No
             (''too many shards ['' @ show_int index_count @ ''] allocated to this node for index ['' @
              sr_index copy @ ''], index setting [index.routing.allocation.total_shards_per_node='' @
              show_int ilim @ '']'')
         else if 0 \<le> clim \<and> clim \<le> total then
           mk_verdict ''shards_limit'' No
             (''too many shards ['' @ show_int total @
              ''] allocated to this node, cluster setting [cluster.routing.allocation.total_shards_per_node='' @
              show_int clim @ '']'')
         else if ilim < 0 \<and> clim < 0 then
           mk_verdict ''shards_limit'' Yes
             ''total shard limits are disabled: [index: -1, index primary: -1, cluster: -1, cluster primary: -1] <= 0''
         else
           mk_verdict ''shards_limit'' Yes
             (''the shard count ['' @ show_int index_count @
              ''] for this node is under the index limit ['' @ show_int ilim @
              ''] and cluster level node limit ['' @ show_int clim @ '']''))"

definition ceil_div :: "nat \<Rightarrow> nat \<Rightarrow> nat" where
  "ceil_div a b = (a + b - 1) div b"

definition awareness_values :: "alloc_context \<Rightarrow> string \<Rightarrow> string list" where
  "awareness_values ctx attr =
     bs_of (List.map_filter (\<lambda>n. bm_get (dn_attributes n) attr) (cx_data_nodes ctx) @
            (case bm_get (st_awareness_forced (cx_cluster ctx)) attr of Some f \<Rightarrow> f | None \<Rightarrow> []))"

text \<open>Where a copy counts for awareness: the target of its move when it is being moved away.\<close>

definition awareness_target :: "shard_routing \<Rightarrow> node_id option" where
  "awareness_target c =
     (if sr_state c = Relocating \<and> sr_relocating_node c \<noteq> None then sr_relocating_node c
      else sr_node c)"

definition awareness_same ::
  "alloc_context \<Rightarrow> shard_routing list \<Rightarrow> shard_routing \<Rightarrow> string \<Rightarrow> string \<Rightarrow> nat" where
  "awareness_same ctx copies copy attr mine =
     length (filter (\<lambda>c. sr_allocation_id c \<noteq> sr_allocation_id copy \<and> sr_state c \<noteq> Unassigned
       \<and> Option.bind (Option.bind (awareness_target c) (bm_get (cx_nodes ctx)))
           (\<lambda>n. bm_get (dn_attributes n) attr) = Some mine) copies)"

fun awareness_loop ::
  "alloc_context \<Rightarrow> shard_routing list \<Rightarrow> shard_routing \<Rightarrow> discovery_node \<Rightarrow> string list \<Rightarrow> verdict" where
  "awareness_loop ctx copies copy node [] =
     mk_verdict ''awareness'' Yes ''node meets all awareness attribute requirements''"
| "awareness_loop ctx copies copy node (attr # attrs) =
     (case bm_get (dn_attributes node) attr of
        None \<Rightarrow>
          mk_verdict ''awareness'' No
            (''node does not contain the awareness attribute ['' @ attr @
             '']; required attributes cluster setting [cluster.routing.allocation.awareness.attributes='' @
             join_with '','' (st_awareness_attributes (cx_cluster ctx)) @ '']'')
      | Some mine \<Rightarrow>
        (let total = length copies;
             values = awareness_values ctx attr;
             n_values = max (length values) 1;
             same = awareness_same ctx copies copy attr mine;
             max_per_value = ceil_div total n_values
         in if max_per_value < same + 1 then
              mk_verdict ''awareness'' No
                (''there are ['' @ show_nat total @ ''] copies of this shard and ['' @ show_nat n_values @
                 ''] values for attribute ['' @ attr @ ''] (['' @ join_with '', '' values @
                 ''] from nodes in the cluster and '' @
                 (case bm_get (st_awareness_forced (cx_cluster ctx)) attr of
                    Some f \<Rightarrow> ''forced awareness values ['' @ join_with '', '' f @ '']''
                  | None \<Rightarrow> ''no forced awareness'') @
                 '') so there may be at most ['' @ show_nat max_per_value @
                 ''] copies of this shard allocated to nodes with each value, but (including this copy) there would be ['' @
                 show_nat (same + 1) @ ''] copies allocated to nodes with [node.attr.'' @ attr @ '': '' @
                 mine @ '']'')
            else awareness_loop ctx copies copy node attrs))"

definition awareness_verdict ::
  "alloc_context \<Rightarrow> routing_table \<Rightarrow> shard_routing \<Rightarrow> discovery_node \<Rightarrow> verdict" where
  "awareness_verdict ctx table copy node =
     (if st_awareness_attributes (cx_cluster ctx) = [] then
        mk_verdict ''awareness'' Yes
          ''allocation awareness is not enabled, set cluster setting [cluster.routing.allocation.awareness.attributes] to enable it''
      else
        awareness_loop ctx
          (filter (\<lambda>c. sr_shard c = sr_shard copy) (rt_shards_of table (sr_index copy)))
          copy node (st_awareness_attributes (cx_cluster ctx)))"

definition can_allocate ::
  "alloc_context \<Rightarrow> routing_table \<Rightarrow> shard_routing \<Rightarrow> discovery_node \<Rightarrow> verdict list" where
  "can_allocate ctx table copy node =
     (let is = cx_index_settings ctx (sr_index copy) in
      data_role_verdict node @
      [max_retry_verdict is copy,
       replica_after_primary_verdict table copy,
       mk_verdict ''cluster_concurrent_recoveries'' Yes ''undefined cluster concurrent recoveries'',
       enable_verdict ctx is copy,
       node_version_verdict copy,
       mk_verdict ''snapshot_in_progress'' Yes ''the shard is not being snapshotted'',
       mk_verdict ''restore_in_progress'' Yes ''ignored as shard is not being recovered from a snapshot'',
       filter_verdict ctx is node,
       mk_verdict ''search_replica_allocation'' Yes
         (''node and shard are compatible. node: ['' @ dn_id node @
          ''], is search node: [false], shard: '' @ short_summary copy),
       same_shard_verdict table copy node,
       disk_threshold_verdict ctx,
       throttling_verdict ctx table copy node,
       shards_limit_verdict ctx is table copy node,
       awareness_verdict ctx table copy node,
       mk_verdict ''load_awareness'' Yes
         ''overload awareness allocation is not enabled, set cluster setting [cluster.routing.allocation.load_awareness.skew_factor] and cluster setting [cluster.routing.allocation.load_awareness.provisioned_capacity] to enable it'',
       mk_verdict ''target_pool'' Yes
         ''Routing pools are compatible. Shard pool: [LOCAL_ONLY], node pool: [LOCAL_ONLY]'',
       mk_verdict ''remote_store_migration'' Yes
         (''[none migration_direction]: '' @ (if sr_primary copy then ''primary'' else ''replica'') @
          '' shard copy can be allocated to a non-remote node for strict compatibility mode'')])"

definition cluster_rebalance_verdict :: "alloc_context \<Rightarrow> routing_table \<Rightarrow> verdict" where
  "cluster_rebalance_verdict ctx table =
     (let allow = st_allow_rebalance (cx_cluster ctx);
          tail = '' and cluster setting [cluster.routing.allocation.allow_rebalance] is set to ['' @
                 allow_rebalance_str allow @ '']''
      in case allow of
           Always \<Rightarrow> mk_verdict ''cluster_rebalance'' Yes ''all shards are active''
         | IndicesPrimariesActive \<Rightarrow>
             if \<exists>c \<in> set (rt_all table). sr_primary c \<and> \<not> active_state (sr_state c) then
               mk_verdict ''cluster_rebalance'' No (''the cluster has inactive primary shards'' @ tail)
             else mk_verdict ''cluster_rebalance'' Yes ''all primary shards are active''
         | IndicesAllActive \<Rightarrow>
             if \<exists>c \<in> set (rt_all table). sr_state c = Unassigned then
               mk_verdict ''cluster_rebalance'' No (''the cluster has unassigned shards'' @ tail)
             else if \<exists>c \<in> set (rt_all table). \<not> active_state (sr_state c) then
               mk_verdict ''cluster_rebalance'' No (''the cluster has inactive shards'' @ tail)
             else mk_verdict ''cluster_rebalance'' Yes ''all shards are active'')"

definition can_rebalance ::
  "alloc_context \<Rightarrow> routing_table \<Rightarrow> shard_routing \<Rightarrow> verdict list" where
  "can_rebalance ctx table copy =
     (let is = cx_index_settings ctx (sr_index copy);
          all_active = (\<forall>c \<in> set (rt_shards_of table (sr_index copy)).
                          sr_shard c = sr_shard copy \<longrightarrow> active_state (sr_state c));
          relocating = length (filter (\<lambda>c. sr_state c = Relocating) (rt_all table));
          limit = st_cluster_concurrent_rebalance (cx_cluster ctx);
          (enable, from) =
            (case is_rebalance_enable is of
               Some e \<Rightarrow> (e, ''index setting [index.routing.rebalance.enable'')
             | None \<Rightarrow> (st_rebalance_enable (cx_cluster ctx),
                        ''cluster setting [cluster.routing.rebalance.enable''));
          ok = (case enable of RbAll \<Rightarrow> True | RbNone \<Rightarrow> False | RbPrimaries \<Rightarrow> sr_primary copy
                | RbReplicas \<Rightarrow> \<not> sr_primary copy)
      in [if all_active then
            mk_verdict ''rebalance_only_when_active'' Yes
              ''rebalancing is allowed as all replicas are active in the cluster''
          else
            mk_verdict ''rebalance_only_when_active'' No
              ''rebalancing is not allowed until all replicas in the cluster are active'',
          cluster_rebalance_verdict ctx table,
          if limit \<le> relocating then
            mk_verdict ''concurrent_rebalance'' Throttle
              (''reached the limit of concurrently rebalancing shards ['' @ show_nat relocating @
               ''], cluster setting [cluster.routing.allocation.cluster_concurrent_rebalance='' @
               show_nat limit @ '']'')
          else
            mk_verdict ''concurrent_rebalance'' Yes
              (''below threshold ['' @ show_nat limit @
               ''] for concurrent rebalances, current rebalance shard count ['' @
               show_nat relocating @ '']''),
          if ok then mk_verdict ''enable'' Yes ''all rebalancing is allowed''
          else
            mk_verdict ''enable'' No
              ((case enable of
                  RbNone \<Rightarrow> ''all rebalancing is forbidden''
                | RbPrimaries \<Rightarrow> ''replica rebalancing is forbidden''
                | RbReplicas \<Rightarrow> ''primary rebalancing is forbidden''
                | RbAll \<Rightarrow> '''') @ '' due to '' @ from @ ''='' @ rebalance_enable_str enable @ '']''),
          mk_verdict ''snapshot_in_progress'' Yes ''no snapshots are currently running''])"

definition can_remain ::
  "alloc_context \<Rightarrow> routing_table \<Rightarrow> shard_routing \<Rightarrow> discovery_node \<Rightarrow> verdict list" where
  "can_remain ctx table copy node =
     (let is = cx_index_settings ctx (sr_index copy) in
      data_role_verdict node @
      [filter_verdict ctx is node,
       shards_limit_verdict ctx is table copy node,
       awareness_verdict ctx table copy node,
       mk_verdict ''disk_threshold'' Yes enough_disk])"

section \<open>The balancer\<close>

text \<open>The distinct (index, primary) pairs a node holds, and how many are of one index.\<close>

definition node_counts :: "routing_table \<Rightarrow> string \<Rightarrow> node_id \<Rightarrow> nat \<times> nat" where
  "node_counts table index node =
     (let seen = remdups (map (\<lambda>c. (sr_index c, sr_primary c))
                   (filter (\<lambda>c. sr_state c \<noteq> Unassigned) (rt_on_node table node)))
      in (length seen, length (filter (\<lambda>p. fst p = index) seen)))"

definition weight :: "alloc_context \<Rightarrow> routing_table \<Rightarrow> string \<Rightarrow> node_id \<Rightarrow> f64" where
  "weight ctx table index node =
     (let L = cx_lib ctx;
          f = (\<lambda>n. lib_f_of_int L (int n));
          data = cx_data_nodes ctx;
          n = f (max (length data) 1);
          total_all = lib_f_sum L (map (\<lambda>d. f (fst (node_counts table index (dn_id d)))) data);
          total_index = lib_f_sum L (map (\<lambda>d. f (snd (node_counts table index (dn_id d)))) data);
          (all, of_index) = node_counts table index node;
          bs = st_balance_shard (cx_cluster ctx);
          bi = st_balance_index (cx_cluster ctx);
          theta0 = lib_f_div L bs (lib_f_add L bs bi);
          theta1 = lib_f_div L bi (lib_f_add L bs bi)
      in lib_f_add L
           (lib_f_mul L theta0 (lib_f_sub L (f all) (lib_f_div L total_all n)))
           (lib_f_mul L theta1 (lib_f_sub L (f of_index) (lib_f_div L total_index n))))"

text \<open>\<^verbatim>\<open>sort_by\<close> with the comparison of weights, ties and incomparable weights by id: a stable sort.\<close>

definition lighter :: "lib \<Rightarrow> discovery_node \<times> f64 \<Rightarrow> discovery_node \<times> f64 \<Rightarrow> bool" where
  "lighter L a b =
     (lib_f_lt L (snd a) (snd b)
      \<or> (\<not> lib_f_lt L (snd b) (snd a) \<and> dn_id (fst a) \<le> dn_id (fst b)))"

fun insert_by :: "('a \<Rightarrow> 'a \<Rightarrow> bool) \<Rightarrow> 'a \<Rightarrow> 'a list \<Rightarrow> 'a list" where
  "insert_by le x [] = [x]"
| "insert_by le x (y # ys) = (if le x y then x # y # ys else y # insert_by le x ys)"

definition ranked :: "alloc_context \<Rightarrow> routing_table \<Rightarrow> string \<Rightarrow> (discovery_node \<times> f64) list" where
  "ranked ctx table index =
     foldr (insert_by (lighter (cx_lib ctx)))
       (map (\<lambda>d. (d, weight ctx table index (dn_id d))) (cx_data_nodes ctx)) []"

section \<open>Properties\<close>

lemma set_insert_by [simp]: "set (insert_by le x ys) = insert x (set ys)"
  by (induction ys) auto

lemma set_foldr_insert_by: "set (foldr (insert_by le) xs []) = set xs"
  by (induction xs) auto

lemma ranked_data: "(d, w) \<in> set (ranked ctx table index) \<Longrightarrow> d \<in> set (cx_data_nodes ctx)"
  by (auto simp: ranked_def set_foldr_insert_by)

lemma ranked_complete: "d \<in> set (cx_data_nodes ctx) \<Longrightarrow> d \<in> fst ` set (ranked ctx table index)"
  by (force simp: ranked_def set_foldr_insert_by)

lemma mk_verdict_sel [simp]:
  "vd_decider (mk_verdict d v x) = d" "vd_decision (mk_verdict d v x) = v"
  "vd_explanation (mk_verdict d v x) = x"
  by (simp_all add: mk_verdict_def)

lemma can_allocate_same_shard:
  "overall (can_allocate ctx table copy node) \<noteq> No \<Longrightarrow>
     vd_decision (same_shard_verdict table copy node) \<noteq> No"
  by (auto simp: overall_No_iff can_allocate_def Let_def)

lemma same_shard_no_twin:
  assumes "vd_decision (same_shard_verdict table copy node) \<noteq> No"
    and "c \<in> set (rt_shards_of table (sr_index copy))" and "sr_shard c = sr_shard copy"
    and "sr_state c \<noteq> Unassigned" and "sr_node c = Some (dn_id node)"
  shows "sr_allocation_id c = sr_allocation_id copy"
proof -
  from assms(1) have "twin_on table copy (dn_id node) = None"
    by (auto simp: same_shard_verdict_def split: if_splits option.splits)
  then show ?thesis
    using assms(2-5) unfolding twin_on_def by (auto dest: find_first_None)
qed

text \<open>
  \<^bold>\<open>C38.\<close> What the deciders never allow: a copy is allocated to a node (their overall word is not a
  refusal) only when the node has the data role, holds no other copy of the same shard, is not the
  node the copy is already on, passes the cluster's and the index's filters, has had fewer failures
  than the index allows, and, for a replica, when the primary is active.
\<close>

theorem can_allocate_sound:
  assumes "overall (can_allocate ctx table copy node) \<noteq> No"
  shows "is_data node
    \<and> (\<forall>c \<in> set (rt_shards_of table (sr_index copy)).
           sr_shard c = sr_shard copy \<and> sr_state c \<noteq> Unassigned \<and> sr_node c = Some (dn_id node)
           \<longrightarrow> sr_allocation_id c = sr_allocation_id copy)
    \<and> (sr_state copy \<noteq> Unassigned \<longrightarrow> sr_node copy \<noteq> Some (dn_id node))
    \<and> filters_check (st_filters (cx_cluster ctx)) node = None
    \<and> filters_check (is_filters (cx_index_settings ctx (sr_index copy))) node = None
    \<and> failed_allocations_of copy < is_max_retries (cx_index_settings ctx (sr_index copy))
    \<and> (sr_primary copy \<or> primary_active table (sr_index copy) (sr_shard copy))"
proof -
  let ?is = "cx_index_settings ctx (sr_index copy)"
  have no: "vd_decision v \<noteq> No" if "v \<in> set (can_allocate ctx table copy node)" for v
    using assms that by (auto simp: overall_No_iff)
  have role: "\<forall>v \<in> set (data_role_verdict node). vd_decision v \<noteq> No"
    and retry: "vd_decision (max_retry_verdict ?is copy) \<noteq> No"
    and after: "vd_decision (replica_after_primary_verdict table copy) \<noteq> No"
    and filt: "vd_decision (filter_verdict ctx ?is node) \<noteq> No"
    and same: "vd_decision (same_shard_verdict table copy node) \<noteq> No"
    using no by (auto simp: can_allocate_def Let_def)
  have "is_data node"
    using role by (auto simp: data_role_verdict_def split: if_splits)
  moreover have "\<forall>c \<in> set (rt_shards_of table (sr_index copy)).
      sr_shard c = sr_shard copy \<and> sr_state c \<noteq> Unassigned \<and> sr_node c = Some (dn_id node)
      \<longrightarrow> sr_allocation_id c = sr_allocation_id copy"
    using same same_shard_no_twin by blast
  moreover have "sr_state copy \<noteq> Unassigned \<longrightarrow> sr_node copy \<noteq> Some (dn_id node)"
    using same by (auto simp: same_shard_verdict_def split: if_splits)
  moreover have "filters_check (st_filters (cx_cluster ctx)) node = None
      \<and> filters_check (is_filters ?is) node = None"
    using filt by (auto simp: filter_verdict_def split: option.splits)
  moreover have "failed_allocations_of copy < is_max_retries ?is"
    using retry by (auto simp: max_retry_verdict_def Let_def split: if_splits)
  moreover have "sr_primary copy \<or> primary_active table (sr_index copy) (sr_shard copy)"
    using after by (auto simp: replica_after_primary_verdict_def split: if_splits)
  ultimately show ?thesis by blast
qed

theorem can_allocate_sound_witness:
  "is_data (sample_node ''n'' [''data''])
   \<and> failed_allocations_of (sample_copy 0 True Unassigned None None)
       < is_max_retries (cx_index_settings (sample_context (sample_nodes [''n'']) []) ''i'')"
proof -
  have "overall (can_allocate (sample_context (sample_nodes [''n'']) []) []
      (sample_copy 0 True Unassigned None None) (sample_node ''n'' [''data''])) \<noteq> No"
    by code_simp
  from can_allocate_sound [OF this] show ?thesis by (simp add: sample_copy_def)
qed

end
