(* ===== verification/Allocation.thy ===== *)
theory Allocation
  imports Allocation_Deciders
begin

text \<open>
  \<^verbatim>\<open>reroute\<close> and the events that change the table between two of its passes: a copy started, failed
  or gone stale, and the failures forgotten on request.  \<open>reroute\<close> is the six passes of the code in
  its order; each works on the table, the record of what changed and the count of identifiers drawn
  so far.
\<close>

section \<open>Changes\<close>

text \<open>The notes \<^verbatim>\<open>reroute\<close> writes, by template; their text is for the log only.\<close>

datatype alloc_note =
    NoCopyMayTake string nat "string list option"
  | PlacedBack string node_id
  | NoInSyncCopy string "string list" "(node_id, (string \<times> string \<times> string) list) bmap"
  | MayNotRemain string nat node_id

record changes =
  ch_retired :: "(string \<times> nat \<times> string) list"
  ch_notes :: "alloc_note list"
  ch_assigned :: "(string \<times> nat \<times> bool \<times> node_id) list"
  ch_unassigned :: "(string \<times> nat \<times> bool \<times> string) list"
  ch_promoted :: "(string \<times> nat \<times> node_id) list"
  ch_relocating :: "(string \<times> nat \<times> bool \<times> node_id \<times> node_id) list"
  ch_next_delay_at :: "millis option"

definition changes_default :: changes where
  "changes_default =
     \<lparr>ch_retired = [], ch_notes = [], ch_assigned = [], ch_unassigned = [], ch_promoted = [],
      ch_relocating = [], ch_next_delay_at = None\<rparr>"

definition changes_is_empty :: "changes \<Rightarrow> bool" where
  "changes_is_empty ch =
     (ch_assigned ch = [] \<and> ch_unassigned ch = [] \<and> ch_promoted ch = [] \<and> ch_relocating ch = [])"

definition mk_unassigned_info :: "string \<Rightarrow> millis \<Rightarrow> string \<Rightarrow> nat \<Rightarrow> unassigned_info" where
  "mk_unassigned_info reason at status failed =
     \<lparr>ui_reason = reason, ui_at_millis = at, ui_delayed = False, ui_allocation_status = status,
      ui_failed_allocations = failed, ui_details = None\<rparr>"

definition mk_copy ::
  "string \<Rightarrow> nat \<Rightarrow> bool \<Rightarrow> shard_state \<Rightarrow> node_id option \<Rightarrow> node_id option \<Rightarrow> string option
   \<Rightarrow> unassigned_info option \<Rightarrow> shard_routing" where
  "mk_copy index shard primary st node reloc alloc un =
     \<lparr>sr_index = index, sr_shard = shard, sr_primary = primary, sr_state = st, sr_node = node,
      sr_relocating_node = reloc, sr_allocation_id = alloc, sr_unassigned = un\<rparr>"

definition set_status :: "string \<Rightarrow> shard_routing \<Rightarrow> shard_routing" where
  "set_status status c =
     c\<lparr>sr_unassigned := map_option (\<lambda>u. u\<lparr>ui_allocation_status := status\<rparr>) (sr_unassigned c)\<rparr>"

definition clear_delayed :: "shard_routing \<Rightarrow> shard_routing" where
  "clear_delayed c =
     c\<lparr>sr_unassigned := map_option (\<lambda>u. u\<lparr>ui_delayed := False\<rparr>) (sr_unassigned c)\<rparr>"

text \<open>A copy put on a node to be filled, under a new allocation id.\<close>

definition assign_copy :: "node_id \<Rightarrow> string \<Rightarrow> shard_routing \<Rightarrow> shard_routing" where
  "assign_copy node aid c =
     clear_delayed (c\<lparr>sr_state := Initializing, sr_node := Some node, sr_relocating_node := None,
                      sr_allocation_id := Some aid\<rparr>)"

text \<open>A copy that has no node any more.\<close>

definition unassign_copy :: "unassigned_info \<Rightarrow> shard_routing \<Rightarrow> shard_routing" where
  "unassign_copy info c =
     c\<lparr>sr_state := Unassigned, sr_node := None, sr_relocating_node := None,
       sr_allocation_id := None, sr_unassigned := Some info\<rparr>"

section \<open>Pass 1: indices and shards that came and went\<close>

fun drop_unassigned :: "nat \<Rightarrow> nat \<Rightarrow> shard_routing list \<Rightarrow> shard_routing list \<times> nat" where
  "drop_unassigned extra 0 copies = (copies, extra)"
| "drop_unassigned extra (Suc i) copies =
     (if extra = 0 then (copies, extra)
      else if \<not> sr_primary (copies ! i) \<and> sr_state (copies ! i) = Unassigned
      then drop_unassigned (extra - 1) i (remove_at i copies)
      else drop_unassigned extra i copies)"

fun drop_replicas :: "nat \<Rightarrow> shard_routing list \<Rightarrow> shard_routing list" where
  "drop_replicas 0 copies = copies"
| "drop_replicas (Suc extra) copies =
     drop_replicas extra
       (case rposition (\<lambda>c. \<not> sr_primary c) copies of
          Some pos \<Rightarrow> remove_at pos copies | None \<Rightarrow> copies)"

definition fresh_primary :: "alloc_context \<Rightarrow> string \<Rightarrow> index_metadata \<Rightarrow> nat \<Rightarrow> shard_routing" where
  "fresh_primary ctx name m shard =
     mk_copy name shard True Unassigned None None None
       (Some (mk_unassigned_info ''INDEX_CREATED'' (max (im_creation_date m) (cx_now ctx)) ''no_attempt'' 0))"

definition home_of ::
  "alloc_context \<Rightarrow> routing_table \<Rightarrow> string \<Rightarrow> shard_routing \<Rightarrow> discovery_node option" where
  "home_of ctx table name fresh =
     (case Option.bind (bm_get (cx_primary_home ctx) name) (bm_get (cx_nodes ctx)) of
        None \<Rightarrow> None
      | Some node \<Rightarrow>
          if name \<in> set (cx_home_holds_documents ctx)
             \<or> overall (can_allocate ctx table fresh node) \<noteq> No
          then Some node else None)"

definition ensure_primary ::
  "alloc_context \<Rightarrow> routing_table \<Rightarrow> string \<Rightarrow> index_metadata \<Rightarrow> nat \<Rightarrow>
   shard_routing list \<times> nat \<Rightarrow> shard_routing list \<times> nat" where
  "ensure_primary ctx table name m shard ck =
     (let (copies, k) = ck in
      if (\<forall>c \<in> set copies. \<not> sr_primary c) then
        (let fresh = fresh_primary ctx name m shard in
         case home_of ctx table name fresh of
           Some home \<Rightarrow>
             (mk_copy name shard True Started (Some (dn_id home)) None (Some (cx_rand ctx k)) None
                # copies, k + 1)
         | None \<Rightarrow> (fresh # copies, k))
      else (copies, k))"

definition adjust_replicas ::
  "alloc_context \<Rightarrow> string \<Rightarrow> index_metadata \<Rightarrow> nat \<Rightarrow> bool \<Rightarrow> shard_routing list \<Rightarrow> shard_routing list" where
  "adjust_replicas ctx name m shard fresh copies =
     (let have = length (filter (\<lambda>c. \<not> sr_primary c) copies);
          want = im_number_of_replicas m;
          replica = mk_copy name shard False Unassigned None None None
            (Some (mk_unassigned_info (if fresh then ''INDEX_CREATED'' else ''REPLICA_ADDED'')
               (if fresh then max (im_creation_date m) (cx_now ctx) else cx_now ctx) ''no_attempt'' 0));
          copies = copies @ replicate (want - have) replica
      in if want < have then
           (let (copies, extra) = drop_unassigned (have - want) (length copies) copies
            in drop_replicas extra copies)
         else copies)"

definition sync_shard ::
  "alloc_context \<Rightarrow> routing_table \<Rightarrow> string \<Rightarrow> index_metadata \<Rightarrow> nat \<Rightarrow>
   shard_table \<times> nat \<Rightarrow> shard_table \<times> nat" where
  "sync_shard ctx table name m shard sk =
     (let (shards, k) = sk;
          fresh = \<not> bm_has shards shard;
          copies = (case bm_get shards shard of None \<Rightarrow> [] | Some cs \<Rightarrow> cs);
          (copies, k) = ensure_primary ctx table name m shard (copies, k);
          copies = adjust_replicas ctx name m shard fresh copies
      in (bm_insert shard copies shards, k))"

definition sync_index ::
  "alloc_context \<Rightarrow> routing_table \<Rightarrow> string \<times> index_metadata \<Rightarrow>
   routing_table \<times> nat \<Rightarrow> routing_table \<times> nat" where
  "sync_index ctx table nm tk =
     (let (name, m) = nm; (t, k) = tk;
          shards = (case bm_get t name of None \<Rightarrow> [] | Some s \<Rightarrow> s);
          (shards, k) = fold (sync_shard ctx table name m) [0..<im_number_of_shards m] (shards, k);
          shards = bm_retain_keys (\<lambda>s. s < im_number_of_shards m) shards
      in (bm_insert name shards t, k))"

definition reroute_sync :: "alloc_context \<Rightarrow> routing_table \<Rightarrow> nat \<Rightarrow> routing_table \<times> nat" where
  "reroute_sync ctx table k =
     fold (sync_index ctx table) (cx_indices ctx)
       (bm_retain_keys (bm_has (cx_indices ctx)) table, k)"

section \<open>Pass 2: copies on nodes that left\<close>

definition node_gone :: "alloc_context \<Rightarrow> node_id option \<Rightarrow> bool \<Rightarrow> bool" where
  "node_gone ctx n dflt = (case n of Some x \<Rightarrow> \<not> bm_has (cx_nodes ctx) x | None \<Rightarrow> dflt)"

definition cancel_lost_target :: "alloc_context \<Rightarrow> shard_routing \<Rightarrow> shard_routing" where
  "cancel_lost_target ctx c =
     (if sr_state c = Relocating \<and> node_gone ctx (sr_relocating_node c) False
      then c\<lparr>sr_state := Started, sr_relocating_node := None\<rparr> else c)"

definition lost_target :: "alloc_context \<Rightarrow> shard_routing \<Rightarrow> bool" where
  "lost_target ctx c =
     (sr_state c = Initializing \<and> sr_relocating_node c \<noteq> None \<and>
      (node_gone ctx (sr_node c) True \<or> node_gone ctx (sr_relocating_node c) True))"

definition copy_gone :: "alloc_context \<Rightarrow> shard_routing \<Rightarrow> bool" where
  "copy_gone ctx c = (sr_state c \<noteq> Unassigned \<and> node_gone ctx (sr_node c) False)"

type_synonym leave_state = "shard_routing list \<times> changes \<times> string option"

definition leave_copy ::
  "alloc_context \<Rightarrow> index_settings \<Rightarrow> string \<Rightarrow> nat \<Rightarrow> nat \<Rightarrow> leave_state \<Rightarrow> leave_state" where
  "leave_copy ctx is name shard i st =
     (let (copies, ch, deposed) = st; c = copies ! i; was_primary = sr_primary c;
          ch = (if was_primary then ch
                else (case sr_allocation_id c of
                        Some a \<Rightarrow> ch\<lparr>ch_retired := ch_retired ch @ [(name, shard, a)]\<rparr>
                      | None \<Rightarrow> ch));
          deposed = (if was_primary then sr_allocation_id c else deposed);
          info = (mk_unassigned_info ''NODE_LEFT'' (cx_now ctx) ''no_attempt'' 0)
                   \<lparr>ui_delayed := \<not> was_primary \<and> 0 < is_delayed_timeout is\<rparr>
      in (copies[i := unassign_copy info c],
          ch\<lparr>ch_unassigned := ch_unassigned ch @ [(name, shard, was_primary, ''NODE_LEFT'')]\<rparr>,
          deposed))"

text \<open>May this copy take the primary over?\<close>

definition promotable :: "string list option \<Rightarrow> shard_routing \<Rightarrow> bool" where
  "promotable in_sync c =
     (\<not> sr_primary c \<and> active_state (sr_state c) \<and>
      (case sr_allocation_id c of
         Some a \<Rightarrow> (case in_sync of None \<Rightarrow> True | Some s \<Rightarrow> a \<in> set s)
       | None \<Rightarrow> False))"

definition in_sync_of :: "alloc_context \<Rightarrow> string \<Rightarrow> nat \<Rightarrow> string list option" where
  "in_sync_of ctx name shard =
     (case bm_get (cx_indices ctx) name of
        None \<Rightarrow> None | Some m \<Rightarrow> bm_get (im_in_sync_allocations m) shard)"

definition promote ::
  "alloc_context \<Rightarrow> string \<Rightarrow> nat \<Rightarrow> leave_state \<Rightarrow> shard_routing list \<times> changes" where
  "promote ctx name shard st =
     (let (copies, ch, deposed) = st; in_sync = in_sync_of ctx name shard in
      case position (\<lambda>c. sr_primary c \<and> sr_state c = Unassigned) copies of
        None \<Rightarrow> (copies, ch)
      | Some pi \<Rightarrow>
        (case position (promotable in_sync) copies of
           Some ri \<Rightarrow>
             (let node = (case sr_node (copies ! ri) of Some n \<Rightarrow> n | None \<Rightarrow> []);
                  copies = update_at ri (\<lambda>c. c\<lparr>sr_primary := True, sr_relocating_node := None,
                                               sr_state := Started\<rparr>) copies;
                  copies = update_at pi (\<lambda>c. c\<lparr>sr_primary := False\<rparr>) copies;
                  copies = swap_at 0 ri copies;
                  ch = (case deposed of
                          Some a \<Rightarrow> ch\<lparr>ch_retired := ch_retired ch @ [(name, shard, a)]\<rparr>
                        | None \<Rightarrow> ch)
              in (copies, ch\<lparr>ch_promoted := ch_promoted ch @ [(name, shard, node)]\<rparr>))
         | None \<Rightarrow>
             if (case sr_unassigned (copies ! pi) of
                   Some u \<Rightarrow> ui_reason u = ''NODE_LEFT'' | None \<Rightarrow> False)
             then (update_at pi (set_status ''no_valid_shard_copy'') copies,
                   if \<exists>c \<in> set copies. \<not> sr_primary c \<and> active_state (sr_state c)
                   then ch\<lparr>ch_notes := ch_notes ch @ [NoCopyMayTake name shard in_sync]\<rparr>
                   else ch)
             else (copies, ch)))"

definition leave_shard ::
  "alloc_context \<Rightarrow> string \<Rightarrow> nat \<Rightarrow> shard_routing list \<times> changes \<Rightarrow> shard_routing list \<times> changes" where
  "leave_shard ctx name shard cc =
     (let (copies, ch) = cc; is = cx_index_settings ctx name;
          copies = map (cancel_lost_target ctx) copies;
          copies = filter (\<lambda>c. \<not> lost_target ctx c) copies;
          gone = filter (\<lambda>i. copy_gone ctx (copies ! i)) [0..<length copies]
      in promote ctx name shard (fold (leave_copy ctx is name shard) gone (copies, ch, None)))"

text \<open>A pass over every shard of every index, the table rebuilt and the changes threaded.\<close>

fun over_shards ::
  "(nat \<Rightarrow> shard_routing list \<times> 's \<Rightarrow> shard_routing list \<times> 's) \<Rightarrow>
   shard_table \<times> 's \<Rightarrow> shard_table \<times> 's" where
  "over_shards f ([], s) = ([], s)"
| "over_shards f ((n, copies) # rest, s) =
     (let (copies, s) = f n (copies, s); (rest, s) = over_shards f (rest, s)
      in ((n, copies) # rest, s))"

fun over_indices ::
  "(string \<Rightarrow> shard_table \<times> 's \<Rightarrow> shard_table \<times> 's) \<Rightarrow>
   routing_table \<times> 's \<Rightarrow> routing_table \<times> 's" where
  "over_indices f ([], s) = ([], s)"
| "over_indices f ((name, shards) # rest, s) =
     (let (shards, s) = f name (shards, s); (rest, s) = over_indices f (rest, s)
      in ((name, shards) # rest, s))"

definition reroute_leave :: "alloc_context \<Rightarrow> routing_table \<times> changes \<Rightarrow> routing_table \<times> changes" where
  "reroute_leave ctx tc = over_indices (\<lambda>name. over_shards (leave_shard ctx name)) tc"

section \<open>Pass 3: what is unassigned\<close>

type_synonym reroute_state = "routing_table \<times> changes \<times> nat"

definition pending :: "bool \<Rightarrow> routing_table \<Rightarrow> (string \<times> nat \<times> nat) list" where
  "pending pass t =
     concat (map (\<lambda>(name, shards).
       concat (map (\<lambda>(shard, copies).
         map (\<lambda>i. (name, shard, i))
           (filter (\<lambda>i. sr_primary (copies ! i) = pass \<and> sr_state (copies ! i) = Unassigned)
             [0..<length copies])) shards)) t)"

definition copies_at :: "routing_table \<Rightarrow> string \<Rightarrow> nat \<Rightarrow> shard_routing list" where
  "copies_at t name shard = (case rt_copies t name shard of None \<Rightarrow> [] | Some cs \<Rightarrow> cs)"

text \<open>A node that still holds the data of a lost primary, its copy in sync.\<close>

definition holds_in_sync :: "alloc_context \<Rightarrow> string \<Rightarrow> nat \<Rightarrow> node_id \<Rightarrow> bool" where
  "holds_in_sync ctx name shard node =
     (let uuid = (case bm_get (cx_indices ctx) name of Some m \<Rightarrow> im_uuid m | None \<Rightarrow> []);
          in_sync = (case in_sync_of ctx name shard of Some s \<Rightarrow> s | None \<Rightarrow> [])
      in case bm_get (cx_held ctx) node of
           Some h \<Rightarrow> \<exists>(hn, hu, ha) \<in> set h. hn = name \<and> hu = uuid \<and> ha \<in> set in_sync
         | None \<Rightarrow> False)"

definition keeper ::
  "alloc_context \<Rightarrow> routing_table \<Rightarrow> string \<Rightarrow> nat \<Rightarrow> shard_routing \<Rightarrow> discovery_node option" where
  "keeper ctx t name shard copy =
     find_first (\<lambda>n. holds_in_sync ctx name shard (dn_id n)
                  \<and> overall (can_allocate ctx t copy n) = Yes) (cx_data_nodes ctx)"

definition place_lost_primary ::
  "alloc_context \<Rightarrow> string \<Rightarrow> nat \<Rightarrow> nat \<Rightarrow> shard_routing \<Rightarrow> reroute_state \<Rightarrow> reroute_state" where
  "place_lost_primary ctx name shard i copy st =
     (let (t, ch, k) = st; copies = copies_at t name shard in
      case keeper ctx t name shard copy of
        Some n \<Rightarrow>
          (rt_set_copies name shard (update_at i (assign_copy (dn_id n) (cx_rand ctx k)) copies) t,
           ch\<lparr>ch_notes := ch_notes ch @ [PlacedBack name (dn_id n)],
              ch_assigned := ch_assigned ch @ [(name, shard, True, dn_id n)]\<rparr>,
           k + 1)
      | None \<Rightarrow>
          (rt_set_copies name shard (update_at i (set_status ''no_valid_shard_copy'') copies) t,
           ch\<lparr>ch_notes := ch_notes ch @
                [NoInSyncCopy name (case in_sync_of ctx name shard of Some s \<Rightarrow> s | None \<Rightarrow> []) (cx_held ctx)]\<rparr>,
           k))"

text \<open>The first node, lightest first, the deciders say yes to; and whether any said to wait.\<close>

fun best_node ::
  "alloc_context \<Rightarrow> routing_table \<Rightarrow> shard_routing \<Rightarrow> (discovery_node \<times> f64) list \<Rightarrow>
   discovery_node option \<times> bool" where
  "best_node ctx t copy [] = (None, False)"
| "best_node ctx t copy ((node, w) # rest) =
     (case overall (can_allocate ctx t copy node) of
        Yes \<Rightarrow> (Some node, False)
      | Throttle \<Rightarrow> (let (b, _) = best_node ctx t copy rest in (b, True))
      | No \<Rightarrow> best_node ctx t copy rest)"

definition refused_status :: "alloc_context \<Rightarrow> bool \<Rightarrow> shard_routing \<Rightarrow> shard_routing \<Rightarrow> shard_routing" where
  "refused_status ctx throttled copy c =
     c\<lparr>sr_unassigned := map_option
        (\<lambda>u. u\<lparr>ui_delayed := False,
               ui_allocation_status :=
                 (if throttled then ''throttled''
                  else if cx_data_nodes ctx = [] \<or> \<not> sr_primary copy then ''no_attempt''
                  else if ui_allocation_status u = ''no_valid_shard_copy'' then ''no_valid_shard_copy''
                  else ''deciders_no'')\<rparr>) (sr_unassigned c)\<rparr>"

definition place_on_best ::
  "alloc_context \<Rightarrow> string \<Rightarrow> nat \<Rightarrow> nat \<Rightarrow> shard_routing \<Rightarrow> reroute_state \<Rightarrow> reroute_state" where
  "place_on_best ctx name shard i copy st =
     (let (t, ch, k) = st;
          (best, throttled) = best_node ctx t copy (ranked ctx t name);
          copies = copies_at t name shard
      in case best of
           Some node \<Rightarrow>
             (rt_set_copies name shard (update_at i (assign_copy (dn_id node) (cx_rand ctx k)) copies) t,
              ch\<lparr>ch_assigned := ch_assigned ch @ [(name, shard, sr_primary copy, dn_id node)]\<rparr>,
              k + 1)
         | None \<Rightarrow>
             (rt_set_copies name shard (update_at i (refused_status ctx throttled copy) copies) t, ch, k))"

definition unassigned_reason :: "shard_routing \<Rightarrow> string" where
  "unassigned_reason c = (case sr_unassigned c of Some u \<Rightarrow> ui_reason u | None \<Rightarrow> [])"

definition still_delayed :: "alloc_context \<Rightarrow> string \<Rightarrow> shard_routing \<Rightarrow> millis option" where
  "still_delayed ctx name copy =
     (case sr_unassigned copy of
        Some u \<Rightarrow>
          (let ready_at = ui_at_millis u + is_delayed_timeout (cx_index_settings ctx name)
           in if ui_delayed u \<and> cx_now ctx < ready_at then Some ready_at else None)
      | None \<Rightarrow> None)"

definition place_one ::
  "alloc_context \<Rightarrow> string \<times> nat \<times> nat \<Rightarrow> reroute_state \<Rightarrow> reroute_state" where
  "place_one ctx p st =
     (let (name, shard, i) = p; (t, ch, k) = st; copy = copies_at t name shard ! i in
      if sr_primary copy \<and> unassigned_reason copy \<noteq> ''INDEX_CREATED''
         \<and> unassigned_reason copy \<noteq> ''FORCED_EMPTY_PRIMARY''
      then place_lost_primary ctx name shard i copy st
      else case still_delayed ctx name copy of
        Some ready_at \<Rightarrow>
          (t, ch\<lparr>ch_next_delay_at :=
                   Some (case ch_next_delay_at ch of None \<Rightarrow> ready_at | Some d \<Rightarrow> min d ready_at)\<rparr>, k)
      | None \<Rightarrow> place_on_best ctx name shard i copy st)"

definition reroute_allocate :: "alloc_context \<Rightarrow> reroute_state \<Rightarrow> reroute_state" where
  "reroute_allocate ctx st =
     fold (\<lambda>pass st. fold (place_one ctx) (pending pass (fst st)) st) [True, False] st"

section \<open>Pass 4: what may not stay\<close>

definition relocate_at ::
  "alloc_context \<Rightarrow> string \<Rightarrow> nat \<Rightarrow> bool \<Rightarrow> nat \<Rightarrow> node_id \<Rightarrow> node_id \<Rightarrow> reroute_state \<Rightarrow> reroute_state" where
  "relocate_at ctx name shard primary pos from to st =
     (let (t, ch, k) = st; copies = copies_at t name shard in
      (rt_set_copies name shard
         (update_at pos (\<lambda>c. c\<lparr>sr_state := Relocating, sr_relocating_node := Some to\<rparr>) copies
          @ [mk_copy name shard primary Initializing (Some to) (Some from) (Some (cx_rand ctx k)) None]) t,
       ch\<lparr>ch_relocating := ch_relocating ch @ [(name, shard, primary, from, to)]\<rparr>,
       k + 1))"

definition must_move :: "alloc_context \<Rightarrow> routing_table \<Rightarrow> shard_routing \<Rightarrow> bool" where
  "must_move ctx t c =
     (case Option.bind (sr_node c) (bm_get (cx_nodes ctx)) of
        None \<Rightarrow> False
      | Some node \<Rightarrow> \<exists>v \<in> set (can_remain ctx t c node).
          vd_decision v = No \<and> (vd_decider v = ''data_role'' \<or> vd_decider v = ''filter''))"

definition move_stuck :: "alloc_context \<Rightarrow> string \<Rightarrow> shard_routing \<Rightarrow> reroute_state \<Rightarrow> reroute_state" where
  "move_stuck ctx name copy st =
     (let (t, ch, k) = st in
      case sr_node copy of
        None \<Rightarrow> st
      | Some from \<Rightarrow>
        (case find_first (\<lambda>n. dn_id n \<noteq> from \<and> overall (can_allocate ctx t copy n) = Yes)
                (map fst (ranked ctx t name)) of
           None \<Rightarrow> (t, ch\<lparr>ch_notes := ch_notes ch @ [MayNotRemain name (sr_shard copy) from]\<rparr>, k)
         | Some n \<Rightarrow>
           (case position (\<lambda>c. sr_allocation_id c = sr_allocation_id copy)
                   (copies_at t name (sr_shard copy)) of
              None \<Rightarrow> st
            | Some pos \<Rightarrow>
                relocate_at ctx name (sr_shard copy) (sr_primary copy) pos from (dn_id n) st)))"

definition reroute_move :: "alloc_context \<Rightarrow> reroute_state \<Rightarrow> reroute_state" where
  "reroute_move ctx st =
     fold (\<lambda>name st.
             let t = fst st;
                 stuck = filter (\<lambda>c. sr_shard c = 0 \<and> sr_state c = Started \<and> must_move ctx t c)
                           (rt_shards_of t name)
             in fold (move_stuck ctx name) stuck st)
       (bm_keys (fst st)) st"

section \<open>Pass 5: balance\<close>

text \<open>The first candidate the deciders let go and the light node take, and whose move helps.\<close>

fun try_candidates ::
  "alloc_context \<Rightarrow> string \<Rightarrow> discovery_node \<times> f64 \<Rightarrow> discovery_node \<times> f64 \<Rightarrow> shard_routing list \<Rightarrow>
   reroute_state \<Rightarrow> reroute_state option" where
  "try_candidates ctx name light heavy [] st = None"
| "try_candidates ctx name light heavy (copy # rest) st =
     (let L = cx_lib ctx; t = fst st; lid = dn_id (fst light); hid = dn_id (fst heavy);
          after_light = lib_f_add L (weight ctx t name lid) f_1;
          after_heavy = lib_f_sub L (weight ctx t name hid) f_1
      in if overall (can_rebalance ctx t copy) \<noteq> Yes
            \<or> overall (can_allocate ctx t copy (fst light)) \<noteq> Yes
            \<or> lib_f_le L (lib_f_sub L (snd heavy) (snd light))
                 (lib_f_abs L (lib_f_sub L after_heavy after_light))
         then try_candidates ctx name light heavy rest st
         else
           (case position (\<lambda>c. sr_allocation_id c = sr_allocation_id copy)
                   (copies_at t name (sr_shard copy)) of
              None \<Rightarrow> None
            | Some pos \<Rightarrow>
                Some (relocate_at ctx name (sr_shard copy) (sr_primary copy) pos hid lid st)))"

fun try_heavies ::
  "alloc_context \<Rightarrow> string \<Rightarrow> discovery_node \<times> f64 \<Rightarrow> (discovery_node \<times> f64) list \<Rightarrow>
   reroute_state \<Rightarrow> reroute_state" where
  "try_heavies ctx name light [] st = st"
| "try_heavies ctx name light (heavy # rest) st =
     (let L = cx_lib ctx in
      if dn_id (fst heavy) = dn_id (fst light)
         \<or> lib_f_le L (lib_f_sub L (snd heavy) (snd light)) (st_balance_threshold (cx_cluster ctx))
      then st
      else
        (case try_candidates ctx name light heavy
                (filter (\<lambda>c. sr_index c = name \<and> sr_state c = Started)
                  (rt_on_node (fst st) (dn_id (fst heavy)))) st of
           Some st' \<Rightarrow> st'
         | None \<Rightarrow> try_heavies ctx name light rest st))"

definition balance_index :: "alloc_context \<Rightarrow> string \<Rightarrow> reroute_state \<Rightarrow> reroute_state" where
  "balance_index ctx name st =
     (let r = ranked ctx (fst st) name in
      if length r < 2 then st else try_heavies ctx name (r ! 0) (rev r) st)"

definition reroute_balance :: "alloc_context \<Rightarrow> reroute_state \<Rightarrow> reroute_state" where
  "reroute_balance ctx st = fold (balance_index ctx) (bm_keys (fst st)) st"

section \<open>Pass 6: every shard where the first one is\<close>

definition follow_copy ::
  "alloc_context \<Rightarrow> string \<Rightarrow> nat \<Rightarrow> shard_routing \<Rightarrow> shard_routing \<times> changes \<times> nat \<Rightarrow>
   shard_routing \<times> changes \<times> nat" where
  "follow_copy ctx name shard model st =
     (let (c, ch, k) = st in
      if sr_node c = sr_node model \<and> sr_state c = sr_state model \<and> sr_primary c = sr_primary model
      then st
      else
        (let was = sr_node c;
             c' = c\<lparr>sr_primary := sr_primary model, sr_state := sr_state model,
                    sr_node := sr_node model, sr_relocating_node := sr_relocating_node model,
                    sr_unassigned := sr_unassigned model\<rparr>;
             draw = (sr_allocation_id c = None \<and> sr_allocation_id model \<noteq> None);
             c' = (if draw then c'\<lparr>sr_allocation_id := Some (cx_rand ctx k)\<rparr> else c');
             c' = (if sr_node model = None then c'\<lparr>sr_allocation_id := None\<rparr> else c');
             ch = (case sr_node model of
                     Some n \<Rightarrow> if was \<noteq> sr_node model
                       then ch\<lparr>ch_assigned := ch_assigned ch @ [(name, shard, sr_primary model, n)]\<rparr>
                       else ch
                   | None \<Rightarrow> ch)
         in (c', ch, if draw then k + 1 else k)))"

fun follow_copies ::
  "alloc_context \<Rightarrow> string \<Rightarrow> nat \<Rightarrow> shard_routing list \<Rightarrow>
   shard_routing list \<times> changes \<times> nat \<Rightarrow> shard_routing list \<times> changes \<times> nat" where
  "follow_copies ctx name shard (model # models) (c # cs, ch, k) =
     (let (c, ch, k) = follow_copy ctx name shard model (c, ch, k);
          (cs, ch, k) = follow_copies ctx name shard models (cs, ch, k)
      in (c # cs, ch, k))"
| "follow_copies ctx name shard _ st = st"

fun gain_copies ::
  "alloc_context \<Rightarrow> string \<Rightarrow> nat \<Rightarrow> shard_routing list \<Rightarrow> nat \<Rightarrow> shard_routing list \<times> nat" where
  "gain_copies ctx name shard [] k = ([], k)"
| "gain_copies ctx name shard (model # models) k =
     (let draw = (sr_allocation_id model \<noteq> None);
          c = mk_copy name shard (sr_primary model) (sr_state model) (sr_node model)
                (sr_relocating_node model) (if draw then Some (cx_rand ctx k) else None)
                (sr_unassigned model);
          (cs, k) = gain_copies ctx name shard models (if draw then k + 1 else k)
      in (c # cs, k))"

definition follow_shard ::
  "alloc_context \<Rightarrow> string \<Rightarrow> shard_routing list \<Rightarrow> nat \<Rightarrow>
   shard_routing list \<times> changes \<times> nat \<Rightarrow> shard_routing list \<times> changes \<times> nat" where
  "follow_shard ctx name first shard st =
     (if shard = 0 then st
      else
        (let (copies, ch, k) = follow_copies ctx name shard first st;
             (more, k) = gain_copies ctx name shard (drop (length copies) first) k
         in (take (length first) (copies @ more), ch, k)))"

definition follow_index ::
  "alloc_context \<Rightarrow> string \<Rightarrow> shard_table \<times> changes \<times> nat \<Rightarrow> shard_table \<times> changes \<times> nat" where
  "follow_index ctx name st =
     (case bm_get (fst st) 0 of
        None \<Rightarrow> st
      | Some first \<Rightarrow>
          over_shards (\<lambda>shard. follow_shard ctx name first shard) st)"

definition reroute_follow :: "alloc_context \<Rightarrow> reroute_state \<Rightarrow> reroute_state" where
  "reroute_follow ctx st = over_indices (follow_index ctx) st"

definition reroute :: "alloc_context \<Rightarrow> routing_table \<Rightarrow> nat \<Rightarrow> routing_table \<times> changes \<times> nat" where
  "reroute ctx table k =
     (let (t, k) = reroute_sync ctx table k;
          (t, ch) = reroute_leave ctx (t, changes_default)
      in reroute_follow ctx (reroute_balance ctx (reroute_move ctx (reroute_allocate ctx (t, ch, k)))))"

section \<open>Events\<close>

record started_change =
  sd_retired :: "string option"
  sd_forced_primary :: bool

text \<open>\<^verbatim>\<open>sort_by_key(|c| !c.primary)\<close>: stable, so the primaries in their order, then the rest.\<close>

definition primaries_first :: "shard_routing list \<Rightarrow> shard_routing list" where
  "primaries_first cs = filter sr_primary cs @ filter (\<lambda>c. \<not> sr_primary c) cs"

definition started_copies ::
  "nat \<Rightarrow> shard_routing list \<Rightarrow> shard_routing list \<times> string option" where
  "started_copies pos copies =
     (let source = sr_relocating_node (copies ! pos);
          copies = update_at pos (\<lambda>c. c\<lparr>sr_state := Started, sr_relocating_node := None,
                                         sr_unassigned := None\<rparr>) copies
      in case source of
           None \<Rightarrow> (copies, None)
         | Some src \<Rightarrow>
           (case position (\<lambda>c. sr_state c = Relocating \<and> sr_node c = Some src) copies of
              None \<Rightarrow> (copies, None)
            | Some sp \<Rightarrow> (remove_at sp copies, sr_allocation_id (copies ! sp))))"

definition shard_started ::
  "routing_table \<Rightarrow> string \<Rightarrow> nat \<Rightarrow> string \<Rightarrow> routing_table \<times> started_change option" where
  "shard_started table index shard allocation_id =
     (case rt_copies table index shard of
        None \<Rightarrow> (table, None)
      | Some copies \<Rightarrow>
        (case position (\<lambda>c. sr_allocation_id c = Some allocation_id) copies of
           None \<Rightarrow> (table, None)
         | Some pos \<Rightarrow>
             if sr_state (copies ! pos) \<noteq> Initializing then (table, None)
             else
               (let forced = (sr_primary (copies ! pos) \<and>
                      (case sr_unassigned (copies ! pos) of
                         Some u \<Rightarrow> ui_reason u = ''FORCED_EMPTY_PRIMARY'' | None \<Rightarrow> False));
                    (copies, retired) = started_copies pos copies
                in (rt_set_copies index shard (primaries_first copies) table,
                    Some \<lparr>sd_retired = retired, sd_forced_primary = forced\<rparr>))))"

text \<open>The source of a move stays where it is when the target is given up.\<close>

definition restart_source :: "node_id option \<Rightarrow> shard_routing list \<Rightarrow> shard_routing list" where
  "restart_source src copies =
     (case position (\<lambda>c. sr_state c = Relocating \<and> sr_node c = src) copies of
        None \<Rightarrow> copies
      | Some sp \<Rightarrow> update_at sp (\<lambda>c. c\<lparr>sr_state := Started, sr_relocating_node := None\<rparr>) copies)"

definition shard_failed ::
  "routing_table \<Rightarrow> string \<Rightarrow> nat \<Rightarrow> string \<Rightarrow> millis \<Rightarrow> string \<Rightarrow> routing_table \<times> bool" where
  "shard_failed table index shard allocation_id now message =
     (case rt_copies table index shard of
        None \<Rightarrow> (table, False)
      | Some copies \<Rightarrow>
        (case position (\<lambda>c. sr_allocation_id c = Some allocation_id) copies of
           None \<Rightarrow> (table, False)
         | Some pos \<Rightarrow>
             (let c = copies ! pos in
              if sr_state c = Initializing \<and> sr_relocating_node c \<noteq> None then
                (rt_set_copies index shard
                   (restart_source (sr_relocating_node c) (remove_at pos copies)) table, True)
              else
                (let failed = failed_allocations_of c + 1;
                     info = (mk_unassigned_info ''ALLOCATION_FAILED'' now ''no_attempt'' failed)
                              \<lparr>ui_details := Some (''failed shard on node: '' @ message)\<rparr>
                 in (rt_set_copies index shard (copies[pos := unassign_copy info c]) table, True)))))"

definition shard_stale ::
  "routing_table \<Rightarrow> string \<Rightarrow> nat \<Rightarrow> string \<Rightarrow> millis \<Rightarrow> routing_table \<times> bool" where
  "shard_stale table index shard allocation_id now =
     (case rt_copies table index shard of
        None \<Rightarrow> (table, False)
      | Some copies \<Rightarrow>
        (case position (\<lambda>c. sr_allocation_id c = Some allocation_id \<and> \<not> sr_primary c) copies of
           None \<Rightarrow> (table, False)
         | Some pos \<Rightarrow>
             (let info = (mk_unassigned_info ''REALLOCATED_REPLICA'' now ''no_attempt'' 0)
                           \<lparr>ui_details := Some ''the copy did not take an acknowledged write''\<rparr>
              in (rt_set_copies index shard (copies[pos := unassign_copy info (copies ! pos)]) table, True))))"

definition forget_failures :: "shard_routing \<Rightarrow> shard_routing" where
  "forget_failures c =
     c\<lparr>sr_unassigned := map_option (\<lambda>u. u\<lparr>ui_failed_allocations := 0\<rparr>) (sr_unassigned c)\<rparr>"

definition retry_failed :: "routing_table \<Rightarrow> routing_table \<times> nat" where
  "retry_failed table =
     (bm_map (\<lambda>_ s. bm_map (\<lambda>_ cs. map forget_failures cs) s) table,
      length (filter (\<lambda>c. 0 < failed_allocations_of c) (rt_all table)))"

end
