(* ===== verification/Allocation_Commands.thy ===== *)
theory Allocation_Commands
  imports Allocation
begin

text \<open>
  The commands of \<^verbatim>\<open>_cluster/reroute\<close> (\<^verbatim>\<open>apply_commands\<close> of \<^verbatim>\<open>allocation.rs\<close>): move, allocate_replica,
  allocate_empty_primary, allocate_stale_primary and cancel.  The result is the error text of the
  first command refused, or the table with the explanations gathered; with \<^verbatim>\<open>explain\<close> a refusal is an
  explanation instead of an error.
\<close>

type_synonym command_state = "routing_table \<times> json list \<times> nat"

definition resolve_node :: "alloc_context \<Rightarrow> string \<Rightarrow> string + discovery_node" where
  "resolve_node ctx name =
     (case find_first (\<lambda>n. dn_id n = name \<or> dn_name n = name \<or> dn_transport_address n = name)
             (bm_values (cx_nodes ctx)) of
        Some n \<Rightarrow> Inr n
      | None \<Rightarrow> Inl (''failed to resolve ['' @ name @ ''], no matching nodes''))"

definition node_text :: "discovery_node \<Rightarrow> string" where
  "node_text n =
     ''{'' @ dn_name n @ ''}{'' @ dn_id n @ ''}{'' @ dn_ephemeral_id n @ ''}{'' @
     dn_transport_address n @ ''}''"

definition decisions_text :: "verdict list \<Rightarrow> string" where
  "decisions_text vs =
     concat (map (\<lambda>v. ''['' @ decision_label (vd_decision v) @ ''('' @ vd_explanation v @ '')]'') vs)"

definition decision_json :: "string \<Rightarrow> string \<Rightarrow> string \<Rightarrow> json" where
  "decision_json decider decision explanation =
     JObj [(''decider'', JStr decider), (''decision'', JStr decision),
           (''explanation'', JStr explanation)]"

definition explanation_json :: "string \<Rightarrow> json \<Rightarrow> json list \<Rightarrow> json" where
  "explanation_json name params decisions =
     JObj [(''command'', JStr name), (''parameters'', params), (''decisions'', JArr decisions)]"

definition refuse ::
  "bool \<Rightarrow> string \<Rightarrow> json \<Rightarrow> string \<Rightarrow> command_state \<Rightarrow> string + command_state" where
  "refuse explain name params msg st =
     (if explain then
        (let (t, ex, k) = st in
         Inr (t, ex @ [explanation_json name params
                [decision_json (name @ '' (allocation command)'') ''NO'' msg]], k))
      else Inl msg)"

definition accept ::
  "bool \<Rightarrow> string \<Rightarrow> json \<Rightarrow> verdict list \<Rightarrow> command_state \<Rightarrow> command_state" where
  "accept explain name params vs st =
     (let (t, ex, k) = st;
          ds = map (\<lambda>v. decision_json (vd_decider v) (decision_label (vd_decision v)) (vd_explanation v)) vs;
          ds = (if ds = [] then [decision_json (name @ '' (allocation command)'') ''YES''
                                   ''explanation not available''] else ds)
      in if explain then (t, ex @ [explanation_json name params ds], k) else st)"

definition arg_str :: "json \<Rightarrow> string \<Rightarrow> string" where
  "arg_str args k = (case Option.bind (json_get args k) json_str of Some s \<Rightarrow> s | None \<Rightarrow> [])"

definition arg_bool :: "json \<Rightarrow> string \<Rightarrow> bool" where
  "arg_bool args k = (case Option.bind (json_get args k) json_bool of Some b \<Rightarrow> b | None \<Rightarrow> False)"

text \<open>\<^verbatim>\<open>as_u64().unwrap_or(0) as u32\<close>: the cast keeps the low 32 bits.\<close>

definition arg_shard :: "json \<Rightarrow> nat" where
  "arg_shard args =
     (case Option.bind (json_get args ''shard'') json_u64 of Some n \<Rightarrow> n mod 2 ^ 32 | None \<Rightarrow> 0)"

definition bracketed :: "string \<Rightarrow> nat \<Rightarrow> string" where
  "bracketed index shard = ''['' @ index @ '']['' @ show_nat shard @ '']''"

section \<open>Move\<close>

definition movable_here :: "shard_routing \<Rightarrow> node_id \<Rightarrow> shard_routing \<Rightarrow> bool" where
  "movable_here copy from c =
     (sr_state c = Started \<and> sr_primary c = sr_primary copy \<and> sr_node c = Some from)"

definition move_shard ::
  "alloc_context \<Rightarrow> string \<Rightarrow> shard_routing \<Rightarrow> node_id \<Rightarrow> node_id \<Rightarrow> nat \<Rightarrow>
   routing_table \<times> nat \<Rightarrow> routing_table \<times> nat" where
  "move_shard ctx index copy from to moving tk =
     (let (t, k) = tk; copies = copies_at t index moving in
      case position (movable_here copy from) copies of
        None \<Rightarrow> (t, k)
      | Some pos \<Rightarrow>
          (rt_set_copies index moving
             (update_at pos (\<lambda>c. c\<lparr>sr_state := Relocating, sr_relocating_node := Some to\<rparr>) copies
              @ [mk_copy index moving (sr_primary copy) Initializing (Some to) (Some from)
                   (Some (cx_rand ctx k)) None]) t, k + 1))"

definition command_move ::
  "alloc_context \<Rightarrow> bool \<Rightarrow> string \<Rightarrow> nat \<Rightarrow> json \<Rightarrow> command_state \<Rightarrow> string + command_state" where
  "command_move ctx explain index shard args st =
     (let (t, ex, k) = st; name = ''move'';
          from = arg_str args ''from_node''; to = arg_str args ''to_node'';
          params = JObj [(''index'', JStr index), (''shard'', JInt (int shard)),
                         (''from_node'', JStr from), (''to_node'', JStr to)]
      in case (resolve_node ctx from, resolve_node ctx to) of
           (Inl e, _) \<Rightarrow> refuse explain name params e st
         | (Inr _, Inl e) \<Rightarrow> refuse explain name params e st
         | (Inr from_n, Inr to_n) \<Rightarrow>
             if \<exists>c \<in> set (rt_shards_of t index). sr_shard c = shard
                  \<and> sr_relocating_node c = Some (dn_id to_n) \<and> sr_node c = Some (dn_id from_n)
             then Inr (accept explain name params [] st)
             else
             (case find_first (\<lambda>c. sr_shard c = shard \<and> sr_node c = Some (dn_id from_n))
                     (rt_shards_of t index) of
                None \<Rightarrow>
                  refuse explain name params
                    (''[move_allocation] can't move '' @ bracketed index shard @
                     '', failed to find it on node '' @ node_text from_n) st
              | Some copy \<Rightarrow>
                  if sr_state copy \<noteq> Started then
                    refuse explain name params
                      (''[move_allocation] can't move '' @ bracketed index shard @
                       '', shard is not started (state = '' @ shard_state_str (sr_state copy) @ '']'') st
                  else
                    (let vs = can_allocate ctx t copy to_n in
                     if overall vs = No then
                       refuse explain name params
                         (''[move_allocation] can't move '' @ bracketed index shard @ '', from '' @
                          node_text from_n @ '', to '' @ node_text to_n @
                          '', since its not allowed, reason: '' @ decisions_text vs) st
                     else
                       (let shards = map sr_shard (filter (movable_here copy (dn_id from_n))
                                                    (rt_shards_of t index));
                            (t, k) = fold (move_shard ctx index copy (dn_id from_n) (dn_id to_n)) shards (t, k)
                        in Inr (accept explain name params vs (t, ex, k))))))"

section \<open>Allocate\<close>

definition force_copy :: "bool \<Rightarrow> node_id \<Rightarrow> string \<Rightarrow> shard_routing \<Rightarrow> shard_routing" where
  "force_copy primary node aid c =
     c\<lparr>sr_state := Initializing, sr_node := Some node, sr_allocation_id := Some aid,
       sr_unassigned := map_option
         (\<lambda>u. u\<lparr>ui_delayed := False,
                ui_reason := (if primary then ''FORCED_EMPTY_PRIMARY'' else ui_reason u)\<rparr>)
         (sr_unassigned c)\<rparr>"

definition command_allocate ::
  "alloc_context \<Rightarrow> bool \<Rightarrow> string \<Rightarrow> string \<Rightarrow> nat \<Rightarrow> json \<Rightarrow> command_state \<Rightarrow> string + command_state" where
  "command_allocate ctx explain name index shard args st =
     (let (t, ex, k) = st; node = arg_str args ''node''; primary = (name \<noteq> ''allocate_replica'');
          params = JObj [(''index'', JStr index), (''shard'', JInt (int shard)), (''node'', JStr node)];
          wanted = (\<lambda>c. sr_primary c = primary \<and> sr_state c = Unassigned)
      in case resolve_node ctx node of
           Inl e \<Rightarrow> refuse explain name params e st
         | Inr n \<Rightarrow>
             if primary \<and> \<not> arg_bool args ''accept_data_loss'' then
               Inl (''['' @ name @ ''] allocating an empty primary for '' @ bracketed index shard @
                    '' can result in data loss. Please confirm by setting the accept_data_loss parameter to true'')
             else
             (case find_first (\<lambda>c. sr_shard c = shard \<and> wanted c) (rt_shards_of t index) of
                None \<Rightarrow>
                  refuse explain name params
                    (''['' @ name @ ''] '' @ (if primary then ''primary'' else ''replica'') @ '' '' @
                     bracketed index shard @ '' is already assigned'') st
              | Some copy \<Rightarrow>
                  (let vs = can_allocate ctx t copy n in
                   if overall vs = No then
                     refuse explain name params
                       (''['' @ name @ ''] allocation of '' @ bracketed index shard @ '' on node '' @
                        node_text n @ '' is not allowed, reason: '' @ decisions_text vs) st
                   else
                     (let copies = copies_at t index shard;
                          copies = (case position wanted copies of
                                      Some pos \<Rightarrow> update_at pos (force_copy primary (dn_id n) (cx_rand ctx k)) copies
                                    | None \<Rightarrow> copies)
                      in Inr (accept explain name params vs (rt_set_copies index shard copies t, ex, k + 1))))))"

section \<open>Cancel\<close>

definition cancel_copies :: "alloc_context \<Rightarrow> shard_routing \<Rightarrow> nat \<Rightarrow> shard_routing list \<Rightarrow> shard_routing list" where
  "cancel_copies ctx copy pos copies =
     (if sr_state copy = Initializing \<and> sr_relocating_node copy \<noteq> None then
        restart_source (sr_relocating_node copy) (remove_at pos copies)
      else if sr_state copy = Relocating then
        (let copies = update_at pos (\<lambda>c. c\<lparr>sr_state := Started, sr_relocating_node := None\<rparr>) copies
         in case position (\<lambda>c. sr_state c = Initializing \<and> sr_node c = sr_relocating_node copy) copies of
              Some tp \<Rightarrow> remove_at tp copies
            | None \<Rightarrow> copies)
      else
        update_at pos
          (unassign_copy (mk_unassigned_info ''REROUTE_CANCELLED'' (cx_now ctx) ''no_attempt'' 0)) copies)"

definition command_cancel ::
  "alloc_context \<Rightarrow> bool \<Rightarrow> string \<Rightarrow> nat \<Rightarrow> json \<Rightarrow> command_state \<Rightarrow> string + command_state" where
  "command_cancel ctx explain index shard args st =
     (let (t, ex, k) = st; name = ''cancel''; node = arg_str args ''node'';
          allow_primary = arg_bool args ''allow_primary'';
          params = JObj [(''index'', JStr index), (''shard'', JInt (int shard)), (''node'', JStr node),
                         (''allow_primary'', JBool allow_primary)]
      in case resolve_node ctx node of
           Inl e \<Rightarrow> refuse explain name params e st
         | Inr n \<Rightarrow>
             (case find_first (\<lambda>c. sr_shard c = shard \<and> sr_node c = Some (dn_id n)) (rt_shards_of t index) of
                None \<Rightarrow>
                  refuse explain name params
                    (''[cancel_allocation] can't cancel '' @ bracketed index shard @
                     '', failed to find it on node '' @ node_text n) st
              | Some copy \<Rightarrow>
                  if sr_primary copy \<and> \<not> allow_primary then
                    refuse explain name params
                      (''[cancel_allocation] can't cancel '' @ bracketed index shard @ '' on node '' @
                       node_text n @ '', shard is primary and initializing its state'') st
                  else
                    (let copies = copies_at t index shard;
                         copies = (case position (\<lambda>c. sr_allocation_id c = sr_allocation_id copy) copies of
                                     Some pos \<Rightarrow> cancel_copies ctx copy pos copies
                                   | None \<Rightarrow> copies)
                     in Inr (accept explain name params [] (rt_set_copies index shard copies t, ex, k)))))"

section \<open>The list of commands\<close>

definition apply_command ::
  "alloc_context \<Rightarrow> bool \<Rightarrow> json \<Rightarrow> command_state \<Rightarrow> string + command_state" where
  "apply_command ctx explain cmd st =
     (case cmd of
        JObj ((name, args) # _) \<Rightarrow>
          (let index = arg_str args ''index''; shard = arg_shard args in
           if name = ''move'' then command_move ctx explain index shard args st
           else if name \<in> {''allocate_replica'', ''allocate_empty_primary'', ''allocate_stale_primary''}
           then command_allocate ctx explain name index shard args st
           else if name = ''cancel'' then command_cancel ctx explain index shard args st
           else Inl (''['' @ name @ ''] is not a known allocation command''))
      | _ \<Rightarrow> Inl ''commands must be objects with one command each'')"

fun apply_commands ::
  "alloc_context \<Rightarrow> bool \<Rightarrow> json list \<Rightarrow> command_state \<Rightarrow> string + command_state" where
  "apply_commands ctx explain [] st = Inr st"
| "apply_commands ctx explain (cmd # cmds) st =
     (case apply_command ctx explain cmd st of
        Inl e \<Rightarrow> Inl e
      | Inr st \<Rightarrow> apply_commands ctx explain cmds st)"

section \<open>Properties\<close>

lemma accept_table [simp]: "fst (accept explain name params vs st) = fst st"
  by (cases st) (simp add: accept_def Let_def)

lemma refuse_table: "refuse explain name params msg st = Inr st' \<Longrightarrow> fst st' = fst st"
  by (cases st) (auto simp: refuse_def split: if_splits)

end
