(* ===== verification/Metadata.thy ===== *)
theory Metadata
  imports Allocation_Commands
begin

text \<open>
  \<^verbatim>\<open>src/src/cluster/metadata.rs\<close>: the two interfaces the coordinator reaches the store through
  (\<^verbatim>\<open>MetadataSource\<close>, \<^verbatim>\<open>ShardHost\<close>) as records of operations over an abstract world, the fingerprint
  of a snapshot, the primary terms and in-sync sets a publication carries (\<^verbatim>\<open>with_terms\<close>), and the
  source the simulation runs on (\<^verbatim>\<open>MapSource\<close>).
\<close>

section \<open>The interfaces\<close>

type_synonym held_copy = "string \<times> string \<times> string"

record 'w source =
  src_snapshot :: "'w \<Rightarrow> (string, index_metadata) bmap"
  src_voting_exclusions :: "'w \<Rightarrow> (string \<times> string) list"
  src_cluster_settings :: "'w \<Rightarrow> json"
  src_tombstones :: "'w \<Rightarrow> json list \<times> 'w"
  src_has_tombstones :: "'w \<Rightarrow> bool"
  src_holds_documents :: "string \<Rightarrow> 'w \<Rightarrow> bool"
  src_customs :: "'w \<Rightarrow> json"
  src_apply_index_metadata :: "index_metadata \<Rightarrow> 'w \<Rightarrow> 'w"
  src_apply_customs :: "json \<Rightarrow> 'w \<Rightarrow> 'w"
  src_settle_security :: "json \<Rightarrow> bool \<Rightarrow> 'w \<Rightarrow> 'w"
  src_security_lost :: "'w \<Rightarrow> 'w"
  src_drop_local :: "string \<Rightarrow> 'w \<Rightarrow> 'w"
  src_held :: "'w \<Rightarrow> held_copy list"
  src_note_allocation :: "string \<Rightarrow> nat \<Rightarrow> string \<Rightarrow> 'w \<Rightarrow> 'w"

record 'w host =
  host_start_shard ::
    "index_metadata \<Rightarrow> shard_routing \<Rightarrow> node_id option \<Rightarrow> 'w \<Rightarrow> (string + bool) \<times> 'w"
  host_remove_shard :: "string \<Rightarrow> nat \<Rightarrow> 'w \<Rightarrow> 'w"
  host_resync :: "string \<Rightarrow> nat \<Rightarrow> nat \<Rightarrow> node_id list \<Rightarrow> 'w \<Rightarrow> 'w"

text \<open>The defaults the trait gives every operation but the snapshot.\<close>

definition default_source :: "('w \<Rightarrow> (string, index_metadata) bmap) \<Rightarrow> 'w source" where
  "default_source snapshot =
     \<lparr>src_snapshot = snapshot, src_voting_exclusions = (\<lambda>_. []),
      src_cluster_settings = (\<lambda>_. JObj [(''persistent'', JObj []), (''transient'', JObj [])]),
      src_tombstones = (\<lambda>w. ([], w)), src_has_tombstones = (\<lambda>_. False),
      src_holds_documents = (\<lambda>_ _. True), src_customs = (\<lambda>_. JObj []),
      src_apply_index_metadata = (\<lambda>_ w. w), src_apply_customs = (\<lambda>_ w. w),
      src_settle_security = (\<lambda>_ _ w. w), src_security_lost = (\<lambda>w. w),
      src_drop_local = (\<lambda>_ w. w),
      src_held = (\<lambda>w. map (\<lambda>(n, m). (n, im_uuid m, [])) (snapshot w)),
      src_note_allocation = (\<lambda>_ _ _ w. w)\<rparr>"

section \<open>The fingerprint\<close>

text \<open>
  \<^verbatim>\<open>DefaultHasher\<close> is a parameter: a function of the sequence of values fed to it.  The text of a
  JSON value is \<open>lib_json_text\<close>.
\<close>

datatype hashed = HText string | HNum nat

definition fingerprint_feed :: "lib \<Rightarrow> (string, index_metadata) bmap \<Rightarrow> hashed list" where
  "fingerprint_feed L indices =
     concat (map (\<lambda>(name, m).
       [HText name, HText (im_uuid m), HText (im_state m), HNum (im_number_of_shards m),
        HNum (im_number_of_replicas m), HText (lib_json_text L (im_settings m)),
        HText (lib_json_text L (im_mappings m)), HText (lib_json_text L (im_aliases m))]) indices)"

definition fingerprint ::
  "lib \<Rightarrow> (hashed list \<Rightarrow> nat) \<Rightarrow> (string, index_metadata) bmap \<Rightarrow> nat" where
  "fingerprint L hash indices = hash (fingerprint_feed L indices)"

section \<open>Primary terms and in-sync sets\<close>

type_synonym shard_ids = "(nat \<times> string) list"

definition shard_term :: "index_metadata \<Rightarrow> (string \<times> nat, nat) bmap \<Rightarrow> nat \<Rightarrow> nat" where
  "shard_term m terms shard =
     max (case bm_get terms (im_name m, shard) of Some t \<Rightarrow> t | None \<Rightarrow> 1)
         (case bm_get (im_primary_terms m) shard of Some t \<Rightarrow> t | None \<Rightarrow> 1)"

text \<open>One copy of the routing considered for the set.\<close>

definition in_sync_copy ::
  "nat \<Rightarrow> bool \<Rightarrow> shard_ids \<Rightarrow> shard_routing \<Rightarrow> string list \<Rightarrow> string list" where
  "in_sync_copy shard from_nothing started c in_sync =
     (let fresh = (\<exists>(s, a) \<in> set started. s = shard \<and> Some a = sr_allocation_id c) in
      if active_state (sr_state c) \<and> (\<not> from_nothing \<or> sr_primary c \<or> fresh) then
        (case sr_allocation_id c of
           Some a \<Rightarrow> if a \<in> set in_sync then in_sync else in_sync @ [a]
         | None \<Rightarrow> in_sync)
      else in_sync)"

definition in_sync_set ::
  "shard_routing list option \<Rightarrow> nat \<Rightarrow> string list option \<Rightarrow>
   shard_ids \<Rightarrow> shard_ids \<Rightarrow> shard_ids \<Rightarrow> string list" where
  "in_sync_set copies shard previous retired reset started =
     (let was = (case previous of Some p \<Rightarrow> p | None \<Rightarrow> []);
          from_nothing = (was = []);
          in_sync = (case copies of
                       None \<Rightarrow> was
                     | Some cs \<Rightarrow> fold (in_sync_copy shard from_nothing started) cs was);
          in_sync = fold (\<lambda>(s, a) acc. if s = shard then filter (\<lambda>x. x \<noteq> a) acc else acc) retired in_sync;
          in_sync = fold (\<lambda>(s, a) acc. if s = shard then [a] else acc) reset in_sync
      in if in_sync = [] \<and> was \<noteq> [] then was else in_sync)"

definition with_terms_shard ::
  "routing_table \<Rightarrow> (string \<times> nat, nat) bmap \<Rightarrow> (nat, string list) bmap \<Rightarrow>
   shard_ids \<Rightarrow> shard_ids \<Rightarrow> shard_ids \<Rightarrow> nat \<Rightarrow> index_metadata \<Rightarrow> index_metadata" where
  "with_terms_shard routing terms previous retired reset started shard m =
     m\<lparr>im_primary_terms := bm_insert shard (shard_term m terms shard) (im_primary_terms m),
       im_in_sync_allocations :=
         bm_insert shard
           (in_sync_set (rt_copies routing (im_name m) shard) shard (bm_get previous shard)
              retired reset started)
           (im_in_sync_allocations m)\<rparr>"

definition with_terms ::
  "index_metadata \<Rightarrow> routing_table \<Rightarrow> (string \<times> nat, nat) bmap \<Rightarrow> (nat, string list) bmap \<Rightarrow>
   shard_ids \<Rightarrow> shard_ids \<Rightarrow> shard_ids \<Rightarrow> index_metadata" where
  "with_terms m routing terms previous retired reset started =
     fold (with_terms_shard routing terms previous retired reset started)
       [0..<im_number_of_shards m] m"

section \<open>The simulation's source\<close>

text \<open>\<^verbatim>\<open>MapSource\<close>: the indices, and the names and uuids last seen.\<close>

record map_world =
  mw_indices :: "(string, index_metadata) bmap"
  mw_seen :: "(string, string) bmap"

definition map_tombstones :: "map_world \<Rightarrow> json list \<times> map_world" where
  "map_tombstones w =
     (let now = bm_map (\<lambda>_ m. im_uuid m) (mw_indices w);
          gone = filter (\<lambda>(n, u). \<not> bm_has now n) (mw_seen w)
      in (map (\<lambda>(n, u). JObj [(''index'', JObj [(''index_name'', JStr n), (''index_uuid'', JStr u)]),
                               (''delete_date_in_millis'', JInt 0)]) gone,
          w\<lparr>mw_seen := now\<rparr>))"

definition map_has_tombstones :: "map_world \<Rightarrow> bool" where
  "map_has_tombstones w = (\<exists>n \<in> set (bm_keys (mw_seen w)). \<not> bm_has (mw_indices w) n)"

definition map_source :: "map_world source" where
  "map_source =
     (default_source mw_indices)
       \<lparr>src_tombstones := map_tombstones, src_has_tombstones := map_has_tombstones\<rparr>"

section \<open>Properties\<close>

lemma with_terms_shard_frame [simp]:
  "im_name (with_terms_shard r ts p ret rs st n m) = im_name m"
  "im_number_of_shards (with_terms_shard r ts p ret rs st n m) = im_number_of_shards m"
  by (simp_all add: with_terms_shard_def)

lemma fold_with_terms:
  assumes "distinct ns"
  shows "im_name (fold (with_terms_shard r ts p ret rs st) ns m) = im_name m
    \<and> bm_get (im_primary_terms (fold (with_terms_shard r ts p ret rs st) ns m)) n =
        (if n \<in> set ns then Some (shard_term m ts n) else bm_get (im_primary_terms m) n)
    \<and> bm_get (im_in_sync_allocations (fold (with_terms_shard r ts p ret rs st) ns m)) n =
        (if n \<in> set ns
         then Some (in_sync_set (rt_copies r (im_name m) n) n (bm_get p n) ret rs st)
         else bm_get (im_in_sync_allocations m) n)"
  using assms
proof (induction ns arbitrary: m)
  case Nil
  then show ?case by simp
next
  case (Cons k ns)
  have k: "k \<notin> set ns" and d: "distinct ns" using Cons.prems by auto
  show ?case
    using Cons.IH [OF d, of "with_terms_shard r ts p ret rs st k m"] k
    by (auto simp: with_terms_shard_def bm_insert_get shard_term_def)
qed

lemma with_terms_term:
  "n < im_number_of_shards m \<Longrightarrow>
   bm_get (im_primary_terms (with_terms m r ts p ret rs st)) n = Some (shard_term m ts n)"
  using fold_with_terms [of "[0..<im_number_of_shards m]" r ts p ret rs st m n]
  by (simp add: with_terms_def)

lemma with_terms_in_sync:
  "n < im_number_of_shards m \<Longrightarrow>
   bm_get (im_in_sync_allocations (with_terms m r ts p ret rs st)) n =
     Some (in_sync_set (rt_copies r (im_name m) n) n (bm_get p n) ret rs st)"
  using fold_with_terms [of "[0..<im_number_of_shards m]" r ts p ret rs st m n]
  by (simp add: with_terms_def)

lemma fold_retire:
  "set (fold (\<lambda>(s, a) acc. if s = shard then filter (\<lambda>x. x \<noteq> a) acc else acc) retired xs) =
     set xs - {a. (shard, a) \<in> set retired}"
proof (induction retired arbitrary: xs)
  case Nil
  then show ?case by simp
next
  case (Cons r retired)
  then show ?case by (cases r; cases "fst r = shard") auto
qed

lemma fold_reset_none:
  "(\<forall>a. (shard, a) \<notin> set rs) \<Longrightarrow>
   fold (\<lambda>(s, a) acc. if s = shard then [a] else acc) rs xs = xs"
proof (induction rs arbitrary: xs)
  case Nil
  then show ?case by simp
next
  case (Cons r rs)
  then show ?case by (cases r) auto
qed

lemma fold_reset_nonempty:
  "fold (\<lambda>(s, a) acc. if s = shard then [a] else acc) rs xs = [] \<Longrightarrow> xs = []"
proof (induction rs arbitrary: xs)
  case Nil
  then show ?case by simp
next
  case (Cons r rs)
  then show ?case by (cases r; cases "fst r = shard") auto
qed

lemma in_sync_copy_mono: "set s \<subseteq> set (in_sync_copy n f st c s)"
  by (auto simp: in_sync_copy_def Let_def split: option.splits)

lemma fold_in_sync_mono: "set s \<subseteq> set (fold (in_sync_copy n f st) cs s)"
  by (induction cs arbitrary: s) (auto dest: in_sync_copy_mono [THEN subsetD])

definition joins_set :: "nat \<Rightarrow> bool \<Rightarrow> shard_ids \<Rightarrow> shard_routing \<Rightarrow> bool" where
  "joins_set shard from_nothing started c =
     (active_state (sr_state c) \<and> (\<not> from_nothing \<or> sr_primary c
       \<or> (\<exists>a. (shard, a) \<in> set started \<and> sr_allocation_id c = Some a)))"

lemma set_in_sync_copy:
  "set (in_sync_copy n f st c s) =
     set s \<union> (if joins_set n f st c then set_option (sr_allocation_id c) else {})"
  by (cases "sr_allocation_id c") (auto simp: in_sync_copy_def joins_set_def Let_def)

lemma set_fold_in_sync:
  "set (fold (in_sync_copy n f st) cs s) =
     set s \<union> {a. \<exists>c \<in> set cs. joins_set n f st c \<and> sr_allocation_id c = Some a}"
  by (induction cs arbitrary: s) (auto simp: set_in_sync_copy split: if_splits)

lemma in_sync_set_plain:
  assumes "\<forall>a. (n, a) \<notin> set rs"
  shows "set (in_sync_set copies n previous ret rs st) =
    (let was = (case previous of Some b \<Rightarrow> set b | None \<Rightarrow> {});
         joined = {a. \<exists>cs. copies = Some cs \<and>
                       (\<exists>c \<in> set cs. joins_set n (was = {}) st c \<and> sr_allocation_id c = Some a)};
         after = was \<union> joined - {a. (n, a) \<in> set ret}
     in if after = {} then was else after)"
proof -
  define b where "b = (case previous of Some p \<Rightarrow> p | None \<Rightarrow> [])"
  define grown where
    "grown = (case copies of None \<Rightarrow> b | Some cs \<Rightarrow> fold (in_sync_copy n (b = []) st) cs b)"
  define kept where
    "kept = fold (\<lambda>(s, a) acc. if s = n then filter (\<lambda>x. x \<noteq> a) acc else acc) ret grown"
  have res: "in_sync_set copies n previous ret rs st = (if kept = [] \<and> b \<noteq> [] then b else kept)"
    unfolding in_sync_set_def Let_def fold_reset_none [OF assms] kept_def grown_def b_def ..
  have b: "set b = (case previous of Some p \<Rightarrow> set p | None \<Rightarrow> {})"
    by (simp add: b_def split: option.splits)
  have grown: "set grown = set b \<union> {a. \<exists>cs. copies = Some cs \<and>
      (\<exists>c \<in> set cs. joins_set n (set b = {}) st c \<and> sr_allocation_id c = Some a)}"
    by (cases copies) (simp_all add: grown_def set_fold_in_sync)
  have kept: "set kept = set grown - {a. (n, a) \<in> set ret}"
    by (simp add: kept_def fold_retire)
  have "set (in_sync_set copies n previous ret rs st) = (if set kept = {} then set b else set kept)"
    by (auto simp: res)
  then show ?thesis
    unfolding Let_def b [symmetric] by (simp only: kept grown)
qed

text \<open>
  The set of copies in sync after a publication that resets nothing, for a shard that had a set
  before: the old members and the copies that stand active, less the retired ones -- and the old
  set again when that would leave none.
\<close>

theorem with_terms_in_sync_set:
  assumes "n < im_number_of_shards m"
    and "bm_get previous n = Some was" and "was \<noteq> []"
    and "\<forall>a. (n, a) \<notin> set reset"
  shows "\<exists>after. bm_get (im_in_sync_allocations
             (with_terms m routing terms previous retired reset started)) n = Some after
    \<and> after \<noteq> []
    \<and> (let kept = (set was \<union> {a. \<exists>cs. rt_copies routing (im_name m) n = Some cs \<and>
              (\<exists>c \<in> set cs. active_state (sr_state c) \<and> sr_allocation_id c = Some a)})
              - {a. (n, a) \<in> set retired}
       in set after = (if kept = {} then set was else kept))"
proof -
  have j: "joins_set n (set was = {}) started c = active_state (sr_state c)" for c
    using assms(3) by (simp add: joins_set_def)
  let ?after = "in_sync_set (rt_copies routing (im_name m) n) n (Some was) retired reset started"
  have s: "set ?after = (let kept = (set was \<union> {a. \<exists>cs. rt_copies routing (im_name m) n = Some cs \<and>
              (\<exists>c \<in> set cs. active_state (sr_state c) \<and> sr_allocation_id c = Some a)})
              - {a. (n, a) \<in> set retired}
       in if kept = {} then set was else kept)"
    unfolding in_sync_set_plain [OF assms(4)] Let_def option.case j ..
  have "set ?after \<noteq> {}"
    unfolding s Let_def using assms(3) by simp
  then have "?after \<noteq> []" by auto
  with s show ?thesis
    using with_terms_in_sync [OF assms(1)] assms(2) unfolding Let_def by auto
qed

theorem with_terms_in_sync_set_witness:
  "\<exists>after. bm_get (im_in_sync_allocations
       (with_terms \<lparr>im_name = ''i'', im_uuid = ''u'', im_version = 1, im_mapping_version = 1,
          im_settings_version = 1, im_aliases_version = 1, im_state = ''open'', im_settings = JNull,
          im_mappings = JNull, im_aliases = JNull, im_number_of_shards = 1,
          im_number_of_replicas = 1, im_primary_terms = [], im_in_sync_allocations = [],
          im_creation_date = 0\<rparr>
         [] [] [(0, [''a'', ''b''])] [(0, ''b'')] [] [])) 0 = Some after \<and> set after = {''a''}"
  using with_terms_in_sync_set
    [of 0 "\<lparr>im_name = ''i'', im_uuid = ''u'', im_version = 1, im_mapping_version = 1,
          im_settings_version = 1, im_aliases_version = 1, im_state = ''open'', im_settings = JNull,
          im_mappings = JNull, im_aliases = JNull, im_number_of_shards = 1,
          im_number_of_replicas = 1, im_primary_terms = [], im_in_sync_allocations = [],
          im_creation_date = 0\<rparr>" "[(0, [''a'', ''b''])]" "[''a'', ''b'']" "[]" "[]" "[]" "[(0, ''b'')]" "[]"]
  by (auto simp: bm_get_def rt_copies_def Let_def split: if_splits)

text \<open>
  The primary term of every shard of an index after a publication is at least what the state
  carried and at least what the manager has counted, and a term once carried is never lowered.
\<close>

theorem with_terms_never_lowers:
  assumes "n < im_number_of_shards m"
  shows "\<exists>t. bm_get (im_primary_terms (with_terms m routing terms previous retired reset started)) n = Some t
    \<and> (\<forall>c. bm_get (im_primary_terms m) n = Some c \<longrightarrow> c \<le> t)
    \<and> (\<forall>c. bm_get terms (im_name m, n) = Some c \<longrightarrow> c \<le> t)
    \<and> (bm_get terms (im_name m, n) = None \<longrightarrow>
         t = max 1 (case bm_get (im_primary_terms m) n of Some c \<Rightarrow> c | None \<Rightarrow> 1))"
  using with_terms_term [OF assms] by (auto simp: shard_term_def split: option.splits)

theorem with_terms_never_lowers_witness:
  "\<exists>t. bm_get (im_primary_terms
       (with_terms \<lparr>im_name = ''i'', im_uuid = ''u'', im_version = 1, im_mapping_version = 1,
          im_settings_version = 1, im_aliases_version = 1, im_state = ''open'', im_settings = JNull,
          im_mappings = JNull, im_aliases = JNull, im_number_of_shards = 2,
          im_number_of_replicas = 1, im_primary_terms = [(1, 3)], im_in_sync_allocations = [],
          im_creation_date = 0\<rparr>
         [] [] [] [] [] [])) 1 = Some t \<and> 3 \<le> t"
  using with_terms_never_lowers
    [of 1 "\<lparr>im_name = ''i'', im_uuid = ''u'', im_version = 1, im_mapping_version = 1,
          im_settings_version = 1, im_aliases_version = 1, im_state = ''open'', im_settings = JNull,
          im_mappings = JNull, im_aliases = JNull, im_number_of_shards = 2,
          im_number_of_replicas = 1, im_primary_terms = [(1, 3)], im_in_sync_allocations = [],
          im_creation_date = 0\<rparr>" "[]" "[]" "[]" "[]" "[]" "[]"]
  by (auto simp: bm_get_def)

text \<open>The simulation's source reports an index it has seen and lost, once.\<close>

lemma map_tombstones_once: "map_has_tombstones (snd (map_tombstones w)) = False"
  by (auto simp: map_tombstones_def map_has_tombstones_def Let_def bm_has_def)

end
