(* ===== verification/Transport.thy ===== *)
theory Transport
  imports Cluster_State
begin

text \<open>
  The wire of \<^verbatim>\<open>src/src/cluster/transport.rs\<close>: envelopes, how an answer is made from a request, and
  the frame an envelope is encoded to and read back from.  An envelope is generic in its body:
  bytes on the wire, decoded content where the coordinator reads it.
\<close>

section \<open>Envelopes\<close>

datatype kind = Request | Response | Error

record 'b envelope =
  en_kind :: kind
  en_request_id :: nat
  en_action :: string
  en_from :: node_id
  en_body :: 'b

definition mk_request :: "string \<Rightarrow> node_id \<Rightarrow> nat \<Rightarrow> 'b \<Rightarrow> 'b envelope" where
  "mk_request action from rid body =
     \<lparr>en_kind = Request, en_request_id = rid, en_action = action, en_from = from, en_body = body\<rparr>"

definition mk_response :: "'b envelope \<Rightarrow> node_id \<Rightarrow> 'b \<Rightarrow> 'b envelope" where
  "mk_response e from body =
     \<lparr>en_kind = Response, en_request_id = en_request_id e, en_action = en_action e,
      en_from = from, en_body = body\<rparr>"

definition mk_error :: "'b envelope \<Rightarrow> node_id \<Rightarrow> 'b \<Rightarrow> 'b envelope" where
  "mk_error e from why =
     \<lparr>en_kind = Error, en_request_id = en_request_id e, en_action = en_action e,
      en_from = from, en_body = why\<rparr>"

section \<open>Bytes\<close>

type_synonym byte = "8 word"

text \<open>\<^verbatim>\<open>to_be_bytes\<close> of a \<open>k\<close>-byte integer, and back.  The cast to that width drops what is above it.\<close>

fun be_bytes :: "nat \<Rightarrow> nat \<Rightarrow> byte list" where
  "be_bytes 0 n = []"
| "be_bytes (Suc k) n = be_bytes k (n div 256) @ [word_of_nat n]"

definition be_nat :: "byte list \<Rightarrow> nat" where
  "be_nat bs = foldl (\<lambda>acc b. acc * 256 + unat b) 0 bs"

definition bytes_of :: "string \<Rightarrow> byte list" where
  "bytes_of s = map (\<lambda>c. word_of_nat (of_char c)) s"

definition string_of :: "byte list \<Rightarrow> string" where
  "string_of bs = map (\<lambda>b. char_of (unat b)) bs"

text \<open>\<^verbatim>\<open>std::str::from_utf8\<close> accepts exactly the well-formed byte sequences of UTF-8.\<close>

definition in_range :: "nat \<Rightarrow> nat \<Rightarrow> byte \<Rightarrow> bool" where
  "in_range lo hi b = (lo \<le> unat b \<and> unat b \<le> hi)"

fun utf8_valid :: "byte list \<Rightarrow> bool" where
  "utf8_valid [] = True"
| "utf8_valid (b # bs) =
     (if in_range 0 127 b then utf8_valid bs
      else if in_range 194 223 b then
        (case bs of c # r \<Rightarrow> in_range 128 191 c \<and> utf8_valid r | _ \<Rightarrow> False)
      else if in_range 224 239 b then
        (case bs of
           c # d # r \<Rightarrow>
             in_range (if unat b = 224 then 160 else 128) (if unat b = 237 then 159 else 191) c
             \<and> in_range 128 191 d \<and> utf8_valid r
         | _ \<Rightarrow> False)
      else if in_range 240 244 b then
        (case bs of
           c # d # e # r \<Rightarrow>
             in_range (if unat b = 240 then 144 else 128) (if unat b = 244 then 143 else 191) c
             \<and> in_range 128 191 d \<and> in_range 128 191 e \<and> utf8_valid r
         | _ \<Rightarrow> False)
      else False)"

section \<open>Frames\<close>

datatype frame_error = Short | Version nat | Kind nat | Text | TooLong nat

definition frame_version :: byte where
  "frame_version = 1"

fun kind_byte :: "kind \<Rightarrow> byte" where
  "kind_byte Request = 0"
| "kind_byte Response = 1"
| "kind_byte Error = 2"

definition kind_of_byte :: "byte \<Rightarrow> frame_error + kind" where
  "kind_of_byte b =
     (if b = 0 then Inr Request else if b = 1 then Inr Response
      else if b = 2 then Inr Error else Inl (Kind (unat b)))"

text \<open>What a frame carries after its length.\<close>

definition payload_of :: "byte list envelope \<Rightarrow> byte list" where
  "payload_of e =
     [frame_version, kind_byte (en_kind e)]
     @ be_bytes 8 (en_request_id e)
     @ be_bytes 2 (length (en_action e)) @ bytes_of (en_action e)
     @ be_bytes 1 (length (en_from e)) @ bytes_of (en_from e)
     @ en_body e"

definition encode :: "byte list envelope \<Rightarrow> byte list" where
  "encode e =
     be_bytes 4 (1 + 1 + 8 + 2 + length (en_action e) + 1 + length (en_from e) + length (en_body e))
     @ payload_of e"

text \<open>\<^verbatim>\<open>payload.get(at..at + n)\<close>: nothing when the range runs past the end.\<close>

definition slice :: "byte list \<Rightarrow> nat \<Rightarrow> nat \<Rightarrow> byte list option" where
  "slice p at n = (if at + n \<le> length p then Some (take n (drop at p)) else None)"

definition text_at :: "byte list \<Rightarrow> nat \<Rightarrow> nat \<Rightarrow> frame_error + string" where
  "text_at p at n =
     (case slice p at n of
        None \<Rightarrow> Inl Short
      | Some bs \<Rightarrow> if utf8_valid bs then Inr (string_of bs) else Inl Text)"

definition decode :: "byte list \<Rightarrow> frame_error + byte list envelope" where
  "decode payload =
     (if length payload < 12 then Inl Short
      else if payload ! 0 \<noteq> frame_version then Inl (Version (unat (payload ! 0)))
      else case kind_of_byte (payload ! 1) of
        Inl e \<Rightarrow> Inl e
      | Inr k \<Rightarrow>
        (let rid = be_nat (take 8 (drop 2 payload));
             action_len = be_nat (take 2 (drop 10 payload));
             at = 12
         in case text_at payload at action_len of
              Inl e \<Rightarrow> Inl e
            | Inr action \<Rightarrow>
              (let at = at + action_len
               in if length payload \<le> at then Inl Short
                  else
                  (let from_len = unat (payload ! at); at = at + 1
                   in case text_at payload at from_len of
                        Inl e \<Rightarrow> Inl e
                      | Inr from \<Rightarrow>
                          Inr \<lparr>en_kind = k, en_request_id = rid, en_action = action,
                               en_from = from, en_body = drop (at + from_len) payload\<rparr>))))"

section \<open>Round trips\<close>

lemma length_be_bytes [simp]: "length (be_bytes k n) = k"
  by (induction k arbitrary: n) auto

lemma be_nat_snoc: "be_nat (bs @ [b]) = be_nat bs * 256 + unat b"
  by (simp add: be_nat_def)

lemma be_nat_be_bytes: "be_nat (be_bytes k n) = n mod 256 ^ k"
proof (induction k arbitrary: n)
  case 0
  then show ?case by (simp add: be_nat_def)
next
  case (Suc k)
  have "be_nat (be_bytes (Suc k) n) = (n div 256) mod 256 ^ k * 256 + n mod 256"
    by (simp add: be_nat_snoc Suc unat_of_nat)
  also have "\<dots> = n mod (256 * 256 ^ k)"
    by (simp add: mod_mult2_eq)
  finally show ?case by simp
qed

lemma string_of_bytes_of [simp]: "string_of (bytes_of s) = s"
  unfolding string_of_def bytes_of_def
  by (induction s) (auto simp: unat_of_nat)

lemma length_bytes_of [simp]: "length (bytes_of s) = length s"
  by (simp add: bytes_of_def)

lemma kind_round_trip [simp]: "kind_of_byte (kind_byte k) = Inr k"
  by (cases k) (simp_all add: kind_of_byte_def)

lemma text_at_append:
  "utf8_valid (bytes_of s) \<Longrightarrow> length pre = at \<Longrightarrow>
     text_at (pre @ bytes_of s @ post) at (length s) = Inr s"
  by (simp add: text_at_def slice_def)

lemma be_bytes_1: "be_bytes 1 n = [word_of_nat n]"
  unfolding One_nat_def by simp

text \<open>The fixed head of a payload, named so that the reading of each field is a one-line fact.\<close>

definition head_of :: "byte list envelope \<Rightarrow> byte list" where
  "head_of e = [frame_version, kind_byte (en_kind e)] @ be_bytes 8 (en_request_id e)
                @ be_bytes 2 (length (en_action e))"

lemma length_head_of [simp]: "length (head_of e) = 12"
  by (simp add: head_of_def)

lemma payload_of_split:
  "payload_of e = head_of e @ bytes_of (en_action e)
     @ (be_bytes 1 (length (en_from e)) @ bytes_of (en_from e) @ en_body e)"
  by (simp add: payload_of_def head_of_def)

lemma head_of_fields:
  "head_of e @ r = p \<Longrightarrow>
     p ! 0 = frame_version \<and> p ! 1 = kind_byte (en_kind e)
     \<and> take 8 (drop 2 p) = be_bytes 8 (en_request_id e)
     \<and> take 2 (drop 10 p) = be_bytes 2 (length (en_action e))"
  by (auto simp: head_of_def)

text \<open>
  \<^bold>\<open>C39.\<close> A frame read back is the envelope that was written: for an action of fewer than 65536 bytes
  and a sender of fewer than 256, both text, and a request number that fits 64 bits, decoding the
  payload of the encoded envelope gives the envelope back, body and all.
\<close>

theorem decode_encode:
  assumes act: "utf8_valid (bytes_of (en_action e))" "length (en_action e) < 65536"
    and frm: "utf8_valid (bytes_of (en_from e))" "length (en_from e) < 256"
    and rid: "en_request_id e < 2 ^ 64"
  shows "decode (drop 4 (encode e)) = Inr e"
proof -
  let ?p = "payload_of e"
  let ?a = "length (en_action e)" and ?f = "length (en_from e)"
  have p: "drop 4 (encode e) = ?p" by (simp add: encode_def)
  note fields = head_of_fields [OF payload_of_split [symmetric]]
  have len: "length ?p = 12 + ?a + 1 + ?f + length (en_body e)"
    by (simp add: payload_of_split)
  have r: "be_nat (take 8 (drop 2 ?p)) = en_request_id e"
    using fields rid by (simp add: be_nat_be_bytes)
  have al: "be_nat (take 2 (drop 10 ?p)) = ?a"
    using fields act by (simp add: be_nat_be_bytes)
  have at: "text_at ?p 12 ?a = Inr (en_action e)"
    unfolding payload_of_split by (rule text_at_append) (simp_all add: act)
  have fl: "unat (?p ! (12 + ?a)) = ?f"
    using frm by (simp add: payload_of_split nth_append be_bytes_1 unat_of_nat)
  have ft: "text_at ?p (12 + ?a + 1) ?f = Inr (en_from e)"
    using frm text_at_append [of "en_from e"
        "head_of e @ bytes_of (en_action e) @ be_bytes 1 ?f" "12 + ?a + 1" "en_body e"]
    by (simp add: payload_of_split)
  have bd: "drop (12 + ?a + 1 + ?f) ?p = en_body e"
    by (simp add: payload_of_split)
  show ?thesis
    unfolding p decode_def Let_def
    using fields len r al at fl ft bd by simp
qed

lemma decode_encode_witness:
  "decode (drop 4 (encode \<lparr>en_kind = Request, en_request_id = 42, en_action = ''join'',
     en_from = ''abc'', en_body = [123, 125]\<rparr>)) =
   Inr \<lparr>en_kind = Request, en_request_id = 42, en_action = ''join'',
     en_from = ''abc'', en_body = [123, 125]\<rparr>"
proof (rule decode_encode)
qed (simp_all add: bytes_of_def in_range_def unat_of_nat)

text \<open>
  The length in front of a frame counts everything after itself, so a reader that takes that many
  bytes has exactly one payload, as long as the frame is shorter than four gigabytes.
\<close>

theorem encode_length_prefix:
  assumes "length (encode e) < 2 ^ 32"
  shows "be_nat (take 4 (encode e)) = length (drop 4 (encode e))"
proof -
  have "length (payload_of e) =
      1 + 1 + 8 + 2 + length (en_action e) + 1 + length (en_from e) + length (en_body e)"
    by (simp add: payload_of_split)
  with assms show ?thesis
    by (simp add: encode_def be_nat_be_bytes)
qed

lemma encode_length_prefix_witness:
  "be_nat (take 4 (encode \<lparr>en_kind = Error, en_request_id = 1, en_action = ''a'', en_from = ''n'',
     en_body = []\<rparr>)) =
   length (drop 4 (encode \<lparr>en_kind = Error, en_request_id = 1, en_action = ''a'', en_from = ''n'',
     en_body = []\<rparr>))"
proof (rule encode_length_prefix)
qed (simp add: encode_def payload_of_def bytes_of_def)

section \<open>What is not a frame\<close>

lemma drop_split: "drop k xs = take m (drop k xs) @ drop (k + m) xs"
proof -
  have "drop (k + m) xs = drop m (drop k xs)" by (simp add: add.commute)
  then show ?thesis by (simp only: append_take_drop_id)
qed

lemma unat_byte: "unat (b :: byte) < 256"
proof -
  have "unat b < 2 ^ 8" using unsigned_less [of b] by simp
  then show ?thesis by simp
qed

lemma be_bytes_be_nat: "length bs = k \<Longrightarrow> be_bytes k (be_nat bs) = bs"
proof (induction k arbitrary: bs)
  case 0
  then show ?case by simp
next
  case (Suc k)
  then obtain b cs where bs: "bs = cs @ [b]" "length cs = k" by (cases bs rule: rev_cases) auto
  have lt: "unat b < 256" by (rule unat_byte)
  have "be_nat bs = be_nat cs * 256 + unat b" by (simp add: bs be_nat_snoc)
  moreover have "(word_of_nat (be_nat cs * 256 + unat b) :: byte) = b"
  proof -
    have "(256 :: byte) = 0" by simp
    then show ?thesis by (simp only: of_nat_add of_nat_mult of_nat_numeral of_nat_unat mult_zero_right add_0) simp
  qed
  ultimately show ?case using Suc.IH [OF bs(2)] lt by (simp add: bs)
qed

lemma bytes_of_string_of [simp]: "bytes_of (string_of bs) = bs"
proof -
  have "(word_of_nat (of_char (char_of (unat b) :: char)) :: byte) = b" for b :: byte
    using unat_byte [of b] by (simp add: of_char_of)
  then show ?thesis by (simp add: bytes_of_def string_of_def comp_def)
qed

lemma length_string_of [simp]: "length (string_of bs) = length bs"
  by (simp add: string_of_def)

lemma kind_byte_of: "kind_of_byte b = Inr k \<Longrightarrow> kind_byte k = b"
  by (auto simp: kind_of_byte_def split: if_splits)

lemma text_at_Inr:
  "text_at p at n = Inr s \<Longrightarrow> at + n \<le> length p \<and> bytes_of s = take n (drop at p) \<and> length s = n"
  by (auto simp: text_at_def slice_def split: option.splits if_splits)

text \<open>
  A payload that decodes is the payload of the envelope it decodes to: two different payloads are
  never read as the same envelope.
\<close>

theorem encode_decode:
  assumes "decode p = Inr e"
  shows "drop 4 (encode e) = p"
proof -
  let ?a = "be_nat (take 2 (drop 10 p))"
  let ?f = "unat (p ! (12 + ?a))"
  from assms have len: "12 \<le> length p" and v: "p ! 0 = frame_version" and k: "kind_of_byte (p ! 1) = Inr (en_kind e)"
      and rid: "en_request_id e = be_nat (take 8 (drop 2 p))"
      and act: "text_at p 12 ?a = Inr (en_action e)" and more: "12 + ?a < length p"
      and frm: "text_at p (12 + ?a + 1) ?f = Inr (en_from e)" and body: "en_body e = drop (12 + ?a + 1 + ?f) p"
    by (auto simp: decode_def Let_def split: if_splits sum.splits)
  note a = text_at_Inr [OF act] and f = text_at_Inr [OF frm]
  have two: "p = p ! 0 # p ! 1 # drop 2 p" using len by (cases p; cases "tl p") auto
  have "p = [p ! 0, p ! 1] @ take 8 (drop 2 p) @ take 2 (drop 10 p) @ drop 12 p"
    using two append_take_drop_id [of 8 "drop 2 p"] append_take_drop_id [of 2 "drop 10 p"] by simp
  also have "drop 12 p = take ?a (drop 12 p) @ drop (12 + ?a) p"
    by (rule drop_split)
  also have "drop (12 + ?a) p = [p ! (12 + ?a)] @ drop (12 + ?a + 1) p"
    using Cons_nth_drop_Suc [OF more] by simp
  also have "drop (12 + ?a + 1) p = take ?f (drop (12 + ?a + 1) p) @ drop (12 + ?a + 1 + ?f) p"
    by (rule drop_split)
  finally have split: "p = [p ! 0, p ! 1] @ take 8 (drop 2 p) @ take 2 (drop 10 p)
      @ take ?a (drop 12 p) @ [p ! (12 + ?a)] @ take ?f (drop (12 + ?a + 1) p) @ drop (12 + ?a + 1 + ?f) p" .
  have "be_bytes 8 (en_request_id e) = take 8 (drop 2 p)" "be_bytes 2 (length (en_action e)) = take 2 (drop 10 p)"
    using be_bytes_be_nat [of "take 8 (drop 2 p)" 8] be_bytes_be_nat [of "take 2 (drop 10 p)" 2] len a
    by (simp_all add: rid)
  moreover have "be_bytes 1 (length (en_from e)) = [p ! (12 + ?a)]" using f by (simp add: be_bytes_1)
  ultimately have "payload_of e = p"
    unfolding payload_of_def using a f kind_byte_of [OF k] v body by (subst split) simp
  then show ?thesis by (simp add: encode_def)
qed

theorem encode_decode_witness:
  "drop 4 (encode \<lparr>en_kind = Response, en_request_id = 258, en_action = ''a'', en_from = ''n'', en_body = [7]\<rparr>)
   = [1, 1, 0, 0, 0, 0, 0, 0, 1, 2, 0, 1, 97, 1, 110, 7]"
proof (rule encode_decode)
  show "decode [1, 1, 0, 0, 0, 0, 0, 0, 1, 2, 0, 1, 97, 1, 110, 7] =
      Inr \<lparr>en_kind = Response, en_request_id = 258, en_action = ''a'', en_from = ''n'', en_body = [7]\<rparr>"
    by code_simp
qed

text \<open>
  A frame that was cut before its body is refused as too short, wherever the cut is.
\<close>

theorem cut_frame_short:
  assumes "length (en_action e) < 65536" and "length (en_from e) < 256"
    and "utf8_valid (bytes_of (en_action e))"
    and "n < length (payload_of e) - length (en_body e)"
  shows "decode (take n (payload_of e)) = Inl Short"
proof (cases "n < 12")
  case True
  then have "length (take n (payload_of e)) < 12" by simp
  then show ?thesis unfolding decode_def by (rule if_P)
next
  case False
  let ?p = "payload_of e" and ?a = "length (en_action e)" and ?f = "length (en_from e)"
  note fields = head_of_fields [OF payload_of_split [symmetric]]
  have len: "length ?p = 12 + ?a + 1 + ?f + length (en_body e)" by (simp add: payload_of_split)
  have "2 \<le> n - 10" using False by simp
  then have heads: "take n ?p ! 0 = frame_version" "take n ?p ! 1 = kind_byte (en_kind e)"
    "take 2 (drop 10 (take n ?p)) = be_bytes 2 ?a"
    using fields [of e] False by (simp_all add: drop_take min_def)
  have al: "be_nat (take 2 (drop 10 (take n ?p))) = ?a"
    using assms(1) unfolding heads be_nat_be_bytes by simp
  have n: "n < 12 + ?a + 1 + ?f" using assms(4) len by simp
  show ?thesis
  proof (cases "n < 12 + ?a")
    case True
    then have "text_at (take n ?p) 12 ?a = Inl Short" using len by (simp add: text_at_def slice_def)
    then show ?thesis
      using False heads al len n unfolding decode_def Let_def by simp
  next
    case whole: False
    have "text_at (take n ?p) 12 ?a = Inr (en_action e)"
      using whole len assms(3) by (simp add: text_at_def slice_def payload_of_split drop_take take_append)
    moreover have "unat (take n ?p ! (12 + ?a)) = ?f" if "12 + ?a < n"
      using that assms(2) by (simp add: payload_of_split nth_append be_bytes_1 unat_of_nat)
    moreover have "text_at (take n ?p) (12 + ?a + 1) ?f = Inl Short"
      using n len by (simp add: text_at_def slice_def)
    ultimately show ?thesis
      using False heads al len n whole unfolding decode_def Let_def by (cases "12 + ?a < n") simp_all
  qed
qed

theorem cut_frame_short_witness:
  "decode (take 14 (payload_of \<lparr>en_kind = Error, en_request_id = 1, en_action = ''a'', en_from = ''n'', en_body = []\<rparr>))
   = Inl Short"
  by (rule cut_frame_short) (simp_all add: payload_of_def bytes_of_def in_range_def)

end
