(* ===== verification/Coordinator_State.thy ===== *)
theory Coordinator_State
  imports Metadata Transport
begin

text \<open>
  The state a coordinator keeps (\<^verbatim>\<open>src/src/cluster/coordinator.rs\<close>), what it is told and what it asks
  for (\<^verbatim>\<open>sim.rs\<close>), and its operations up to the election: what it persists, who it knows, the
  moves between terms, discovery and the pre-vote.

  A method taking \<^verbatim>\<open>&mut self\<close> and returning outputs is an \<open>act\<close>: from a coordinator to the outputs
  and the coordinator after it, or \<open>None\<close> when the call does not return.  Bodies of messages and
  what is on disk are represented by the values their serialisation denotes.
\<close>

unbundle bit_operations_syntax

section \<open>The generator\<close>

text \<open>\<^verbatim>\<open>Rng\<close> of \<^verbatim>\<open>sim.rs\<close>: splitmix64 on 64-bit words.\<close>

type_synonym rng = "64 word"

definition rng_new :: "64 word \<Rightarrow> rng" where
  "rng_new seed = seed + 0x9E3779B97F4A7C15"

definition rng_next_u64 :: "rng \<Rightarrow> 64 word \<times> rng" where
  "rng_next_u64 r =
     (let r = r + 0x9E3779B97F4A7C15;
          z = (r XOR drop_bit 30 r) * 0xBF58476D1CE4E5B9;
          z = (z XOR drop_bit 27 z) * 0x94D049BB133111EB
      in (z XOR drop_bit 31 z, r))"

definition rng_range :: "nat \<Rightarrow> nat \<Rightarrow> rng \<Rightarrow> nat \<times> rng" where
  "rng_range lo hi r =
     (if hi \<le> lo then (lo, r)
      else (let (x, r) = rng_next_u64 r in (lo + unat x mod (hi - lo + 1), r)))"

definition seed_of :: "node_id \<Rightarrow> 64 word" where
  "seed_of nid =
     fold (\<lambda>b h. (h XOR word_of_nat (of_char b)) * 0x100000001b3) nid 0xcbf29ce484222325"

section \<open>Messages\<close>

text \<open>
  A body as the handlers read it: each field is what the code gets for the key of that name, \<open>None\<close>
  when it is absent or does not decode.  \<open>b_state\<close> is the whole body read as a cluster state, and
  \<open>b_text\<close> a body that is plain text.
\<close>

datatype node_field =
    NoNode
  | NodeOf discovery_node
  | NodeText string
  | NodeUnread "string option"

text \<open>One write as \<^verbatim>\<open>model.rs\<close> carries it between copies, each field as the receiver reads it.\<close>

record model_op =
  mo_id :: "string option"
  mo_version :: "nat option"
  mo_seq :: "nat option"
  mo_term :: "nat option"
  mo_value :: "nat option"

record body =
  b_term :: "nat option"
  b_version :: "nat option"
  b_last_accepted_term :: "nat option"
  b_last_accepted_version :: "nat option"
  b_vote :: "bool option"
  b_node :: node_field
  b_held :: "held_copy list option"
  b_leader :: "string option"
  b_reason :: "string option"
  b_peers :: "discovery_node option list option"
  b_state :: "cluster_state option"
  b_index :: "string option"
  b_shard :: "nat option"
  b_allocation_id :: "string option"
  b_message :: "string option"
  b_indices :: "index_metadata option list option"
  b_commands :: "json list option"
  b_dry_run :: "bool option"
  b_explain :: "bool option"
  b_retry_failed :: "bool option"
  b_explanations :: "json list option"
  b_text :: "string option"
  b_id :: "string option"
  b_value :: "nat option"
  b_acked :: "bool option"
  b_seq :: "nat option"
  b_ops :: "model_op list option"
  b_from_seq :: "nat option"
  b_next_seq :: "nat option"

definition no_body :: body where
  "no_body =
     \<lparr>b_term = None, b_version = None, b_last_accepted_term = None, b_last_accepted_version = None,
      b_vote = None, b_node = NoNode, b_held = None, b_leader = None, b_reason = None,
      b_peers = None, b_state = None, b_index = None, b_shard = None, b_allocation_id = None,
      b_message = None, b_indices = None, b_commands = None, b_dry_run = None, b_explain = None,
      b_retry_failed = None, b_explanations = None, b_text = None, b_id = None, b_value = None,
      b_acked = None, b_seq = None, b_ops = None, b_from_seq = None, b_next_seq = None\<rparr>"

definition opt :: "'a \<Rightarrow> 'a option \<Rightarrow> 'a" where
  "opt d x = (case x of Some v \<Rightarrow> v | None \<Rightarrow> d)"

definition body_node :: "body \<Rightarrow> discovery_node option" where
  "body_node b = (case b_node b of NodeOf n \<Rightarrow> Some n | _ \<Rightarrow> None)"

definition body_node_id :: "body \<Rightarrow> node_id option" where
  "body_node_id b = (case b_node b of NodeOf n \<Rightarrow> Some (dn_id n) | NodeUnread i \<Rightarrow> i | _ \<Rightarrow> None)"

definition body_node_text :: "body \<Rightarrow> string option" where
  "body_node_text b = (case b_node b of NodeText t \<Rightarrow> Some t | _ \<Rightarrow> None)"

definition PEERS :: string where "PEERS = ''internal:discovery/request_peers''"
definition PRE_VOTE :: string where "PRE_VOTE = ''internal:cluster/request_pre_vote''"
definition START_JOIN :: string where "START_JOIN = ''internal:cluster/coordination/start_join''"
definition JOIN :: string where "JOIN = ''internal:cluster/coordination/join''"
definition PUBLISH :: string where "PUBLISH = ''internal:cluster/coordination/publish_state''"
definition COMMIT :: string where "COMMIT = ''internal:cluster/coordination/commit_state''"
definition FOLLOWER_CHECK :: string where
  "FOLLOWER_CHECK = ''internal:coordination/fault_detection/follower_check''"
definition LEADER_CHECK :: string where
  "LEADER_CHECK = ''internal:coordination/fault_detection/leader_check''"
definition LEAVE :: string where "LEAVE = ''internal:cluster/coordination/leave''"
definition SHARD_STARTED :: string where "SHARD_STARTED = ''internal:cluster/shard/started''"
definition SHARD_FAILED :: string where "SHARD_FAILED = ''internal:cluster/shard/failure''"
definition SHARD_STALE :: string where "SHARD_STALE = ''internal:cluster/shard/stale''"
definition REROUTE :: string where "REROUTE = ''internal:cluster/reroute''"
definition METADATA_REPORT :: string where "METADATA_REPORT = ''internal:cluster/metadata/report''"

lemmas action_defs =
  PEERS_def PRE_VOTE_def START_JOIN_def JOIN_def PUBLISH_def COMMIT_def FOLLOWER_CHECK_def
  LEADER_CHECK_def LEAVE_def SHARD_STARTED_def SHARD_FAILED_def SHARD_STALE_def REROUTE_def
  METADATA_REPORT_def

definition T_DISCOVER :: nat where "T_DISCOVER = 1"
definition T_FOLLOWER_CHECK :: nat where "T_FOLLOWER_CHECK = 2"
definition T_LEADER_CHECK :: nat where "T_LEADER_CHECK = 3"
definition T_METADATA :: nat where "T_METADATA = 4"
definition T_ELECTION :: nat where "T_ELECTION = 5"
definition T_PUBLISH :: nat where "T_PUBLISH = 6"
definition T_ALLOCATE :: nat where "T_ALLOCATE = 7"

lemmas timer_defs =
  T_DISCOVER_def T_FOLLOWER_CHECK_def T_LEADER_CHECK_def T_METADATA_def T_ELECTION_def
  T_PUBLISH_def T_ALLOCATE_def

text \<open>What a node is told and what it asks for; the notes by template.\<close>

datatype in_msg =
    Start
  | Message "body envelope"
  | TimerFired nat
  | PeerFound discovery_node
  | ShardDone string "string option"

datatype node_note =
    NSteppingDown nat
  | NBootstrapped "node_id list"
  | NElection nat
  | NLeader nat
  | NOutOfSync string nat string
  | NAllocation alloc_note
  | NAllocated nat nat nat nat
  | NInSync string "string list" "string list" "(bool \<times> string \<times> shard_state \<times> string) list"
  | NDropped string bool
  | NResync string nat nat nat
  | NKept string nat
  | NCommitted nat nat nat nat
  | NPublicationTimedOut nat
  | NRemoved node_id
  | NMetadataChanged
  | NLostManager node_id
  | NShardFailedHere string nat string
  | NWrite string node_id
  | NAnswer string kind body
  | NStartedAt millis
  | NPong nat node_id

datatype out_msg =
    Send node_id "body envelope"
  | Timer nat millis
  | Note node_note
  | Peer node_id string
  | Dial string

section \<open>The coordinator\<close>

record timings =
  tm_discover_interval :: millis
  tm_election_initial :: millis
  tm_election_backoff :: millis
  tm_election_max :: millis
  tm_follower_check_interval :: millis
  tm_follower_check_retries :: nat
  tm_leader_check_interval :: millis
  tm_leader_check_retries :: nat
  tm_publish_timeout :: millis

definition timings_default :: timings where
  "timings_default =
     \<lparr>tm_discover_interval = 1000, tm_election_initial = 100, tm_election_backoff = 100,
      tm_election_max = 10000, tm_follower_check_interval = 1000, tm_follower_check_retries = 3,
      tm_leader_check_interval = 1000, tm_leader_check_retries = 3, tm_publish_timeout = 30000\<rparr>"

datatype mode = Candidate | Follower node_id | Leader

datatype shard_event =
    EvStarted string nat string
  | EvFailed string nat string string
  | EvStale string nat string

record follower_health =
  fh_misses :: nat
  fh_last_ok :: millis

definition fh_default :: follower_health where
  "fh_default = \<lparr>fh_misses = 0, fh_last_ok = 0\<rparr>"

record publication =
  pb_state :: cluster_state
  pb_rid :: nat
  pb_seq :: nat
  pb_acked :: "node_id list"

text \<open>A durable entry: never written, written but not readable back, or the value it denotes.\<close>

datatype 'a entry = Absent | Unreadable | Holds 'a

record durable =
  du_committed :: "cluster_state entry"
  du_accepted :: "cluster_state entry"
  du_term :: "nat entry"

definition durable_default :: durable where
  "durable_default = \<lparr>du_committed = Absent, du_accepted = Absent, du_term = Absent\<rparr>"

text \<open>
  What the coordinator reaches outside itself: the source and the host it was given (they never
  change), the library parameters, the hash function and the stream of random identifiers.
\<close>

record 'w env =
  ev_source :: "'w source option"
  ev_host :: "'w host option"
  ev_lib :: lib
  ev_hash :: "hashed list \<Rightarrow> nat"
  ev_rand :: "nat \<Rightarrow> string"

text \<open>
  The fields of \<^verbatim>\<open>Coordinator\<close>, in their order; then the \<^verbatim>\<open>Durable\<close> every handler is passed, the
  world behind the source and the host, and the count of random identifiers drawn.
\<close>

record 'w coordinator =
  c_me :: discovery_node
  c_timings :: timings
  c_initial_names :: "string list"
  c_seeds :: "node_id list"
  c_seed_hosts :: "string list"
  c_mode :: mode
  c_current_term :: nat
  c_committed :: cluster_state
  c_accepted :: cluster_state
  c_auto_shrink :: bool
  c_peers :: "(node_id, discovery_node) bmap"
  c_leader_hint :: "node_id option"
  c_rng :: rng
  c_election_attempt :: nat
  c_election_scheduled :: bool
  c_prevote_rid :: nat
  c_prevotes :: "(node_id, nat \<times> nat \<times> nat) bmap"
  c_max_term_seen :: nat
  c_join_votes :: "(node_id, discovery_node) bmap"
  c_last_join :: "(nat \<times> node_id) option"
  c_followers :: "(node_id, follower_health) bmap"
  c_publishing :: "publication option"
  c_publish_seq :: nat
  c_lagging :: "node_id list"
  c_next_request :: nat
  c_pending_checks :: "(nat, node_id) bmap"
  c_leader_misses :: nat
  c_last_leader_ok :: millis
  c_event_replies :: "(nat \<times> node_id \<times> body envelope) list"
  c_resynced :: "(string \<times> nat, nat) bmap"
  c_started_here :: "string list"
  c_leader_check_outstanding :: "nat option"
  c_waiting_joins :: "(node_id, discovery_node) bmap"
  c_pending_removals :: "node_id list"
  c_notes :: bool
  c_metadata_poll :: millis
  c_last_fingerprint :: nat
  c_reported :: "string list"
  c_hosted :: "(string, string \<times> nat) bmap"
  c_shard_events :: "shard_event list"
  c_terms :: "(string \<times> nat, nat) bmap"
  c_command_table :: "routing_table option"
  c_reports :: "(string, node_id \<times> index_metadata) bmap"
  c_reported_fp :: "(string, nat) bmap"
  c_customs_applied :: nat
  c_held :: "(node_id, held_copy list) bmap"
  c_held_reported :: "held_copy list"
  c_exclusions :: "(string \<times> string) list"
  c_republish_wanted :: bool
  c_last_wall :: millis
  c_durable :: durable
  c_world :: 'w
  c_drawn :: nat

section \<open>Acts\<close>

type_synonym 'w act = "'w coordinator \<Rightarrow> (out_msg list \<times> 'w coordinator) option"

definition skip :: "'w act" where
  "skip c = Some ([], c)"

definition emit :: "out_msg \<Rightarrow> 'w act" where
  "emit o' c = Some ([o'], c)"

definition upd :: "('w coordinator \<Rightarrow> 'w coordinator) \<Rightarrow> 'w act" where
  "upd f c = Some ([], f c)"

text \<open>One act after another, the outputs in order: \<^verbatim>\<open>out.extend(..)\<close>.\<close>

fun run :: "'w act list \<Rightarrow> 'w act" where
  "run [] c = Some ([], c)"
| "run (a # as) c =
     (case a c of
        None \<Rightarrow> None
      | Some (o1, c1) \<Rightarrow>
          (case run as c1 of None \<Rightarrow> None | Some (o2, c2) \<Rightarrow> Some (o1 @ o2, c2)))"

definition each :: "('a \<Rightarrow> 'w act) \<Rightarrow> 'a list \<Rightarrow> 'w act" where
  "each f xs = run (map f xs)"

definition when_act :: "('w coordinator \<Rightarrow> bool) \<Rightarrow> 'w act \<Rightarrow> 'w act" where
  "when_act P a c = (if P c then a c else skip c)"

definition world_act :: "('w \<Rightarrow> 'w) \<Rightarrow> 'w act" where
  "world_act f = upd (\<lambda>c. c\<lparr>c_world := f (c_world c)\<rparr>)"

text \<open>A note, when the node keeps notes.\<close>

definition add_note :: "node_note \<Rightarrow> 'w act" where
  "add_note n = when_act c_notes (emit (Note n))"

definition my_id :: "'w coordinator \<Rightarrow> node_id" where
  "my_id c = dn_id (c_me c)"

section \<open>Quorums and order\<close>

definition has_quorum :: "node_id list \<Rightarrow> node_id set \<Rightarrow> bool" where
  "has_quorum config votes = (config \<noteq> [] \<and> votes_in config votes * 2 > length config)"

interpretation majority: quorum_system has_quorum set
proof
  fix c Q Q'
  assume q: "has_quorum c Q" "has_quorum c Q'"
  show "Q \<inter> Q' \<inter> set c \<noteq> {}"
    using votes_in_disjoint [of Q Q' c] q by (auto simp: has_quorum_def)
next
  fix c Q Q'
  assume "has_quorum c Q" "Q \<subseteq> Q'"
  then show "has_quorum c Q'"
    using votes_in_mono [of Q Q' c] by (auto simp: has_quorum_def)
qed

definition election_quorum :: "cluster_state \<Rightarrow> node_id set \<Rightarrow> bool" where
  "election_quorum s votes =
     (has_quorum (cs_last_committed_config s) votes \<and> has_quorum (cs_last_accepted_config s) votes)"

definition fresher :: "nat \<Rightarrow> nat \<Rightarrow> nat \<Rightarrow> nat \<Rightarrow> bool" where
  "fresher at av bt bv = (at > bt \<or> (at = bt \<and> av > bv))"

definition next_term :: "nat \<Rightarrow> nat \<Rightarrow> nat" where
  "next_term counted carried = max counted carried + 1"

definition NOT_CARRIED :: nat where
  "NOT_CARRIED = u64_max"

section \<open>A new coordinator\<close>

definition coordinator_new ::
  "discovery_node \<Rightarrow> string \<Rightarrow> string \<Rightarrow> string \<Rightarrow> string list \<Rightarrow> node_id list \<Rightarrow>
   durable \<Rightarrow> 'w \<Rightarrow> nat \<Rightarrow> 'w coordinator" where
  "coordinator_new me cluster_name cluster_uuid fresh initial_names seeds du w drawn =
     (let committed = cs_empty cluster_name cluster_uuid fresh in
      \<lparr>c_me = me, c_timings = timings_default, c_initial_names = initial_names, c_seeds = seeds,
       c_seed_hosts = [], c_mode = Candidate, c_current_term = 0, c_committed = committed,
       c_accepted = committed, c_auto_shrink = True, c_peers = [], c_leader_hint = None,
       c_rng = rng_new (seed_of (dn_id me)), c_election_attempt = 0, c_election_scheduled = False,
       c_prevote_rid = 0, c_prevotes = [], c_max_term_seen = 0, c_join_votes = [],
       c_last_join = None, c_followers = [], c_publishing = None, c_publish_seq = 0,
       c_lagging = [], c_next_request = 1, c_pending_checks = [], c_leader_misses = 0,
       c_last_leader_ok = 0, c_event_replies = [], c_resynced = [], c_started_here = [],
       c_leader_check_outstanding = None, c_waiting_joins = [], c_pending_removals = [],
       c_notes = True, c_metadata_poll = 500, c_last_fingerprint = 0, c_reported = [],
       c_hosted = [], c_shard_events = [], c_terms = [], c_command_table = None, c_reports = [],
       c_reported_fp = [], c_customs_applied = 0, c_held = [], c_held_reported = [],
       c_exclusions = [], c_republish_wanted = False, c_last_wall = 0,
       c_durable = du, c_world = w, c_drawn = drawn\<rparr>)"

section \<open>Is there a manager here?\<close>

definition lease :: "'w coordinator \<Rightarrow> millis" where
  "lease c =
     (let t = c_timings c in
      max (tm_follower_check_interval t) (tm_leader_check_interval t)
        * max (tm_follower_check_retries t) 1)"

definition answering :: "'w coordinator \<Rightarrow> node_id \<Rightarrow> bool" where
  "answering c n =
     (n = my_id c \<or>
      (case bm_get (c_followers c) n of
         None \<Rightarrow> False
       | Some h \<Rightarrow> fh_misses h = 0 \<and> c_last_wall c - fh_last_ok h \<le> lease c))"

definition manager_here :: "'w coordinator \<Rightarrow> bool" where
  "manager_here c =
     (case c_mode c of
        Follower _ \<Rightarrow> c_leader_misses c = 0 \<and> c_last_wall c - c_last_leader_ok c \<le> lease c
      | Candidate \<Rightarrow> False
      | Leader \<Rightarrow>
          (let config = cs_last_committed_config (c_committed c) in
           config = [] \<or> length (filter (answering c) config) * 2 > length config))"

definition eligible :: "'w coordinator \<Rightarrow> bool" where
  "eligible c = is_cluster_manager_eligible (c_me c)"

section \<open>Requests and answers\<close>

definition rid :: "'w coordinator \<Rightarrow> nat \<times> 'w coordinator" where
  "rid c = (c_next_request c + 1, c\<lparr>c_next_request := c_next_request c + 1\<rparr>)"

definition request :: "node_id \<Rightarrow> string \<Rightarrow> body \<Rightarrow> 'w act" where
  "request to action b c =
     (let (r, c) = rid c in Some ([Send to (mk_request action (my_id c) r b)], c))"

definition reply_ok :: "body envelope \<Rightarrow> body \<Rightarrow> 'w act" where
  "reply_ok e b c = Some ([Send (en_from e) (mk_response e (my_id c) b)], c)"

definition reply_error :: "body envelope \<Rightarrow> body \<Rightarrow> 'w act" where
  "reply_error e b c = Some ([Send (en_from e) (mk_error e (my_id c) b)], c)"

text \<open>An answer to a join that has its own request id: a fresh request turned into its answer.\<close>

definition answer_join :: "node_id \<Rightarrow> kind \<Rightarrow> body \<Rightarrow> 'w act" where
  "answer_join to k b c =
     (let (r, c) = rid c; e = mk_request JOIN (my_id c) r no_body
      in Some ([Send to (if k = Error then mk_error e (my_id c) b else mk_response e (my_id c) b)], c))"

definition term_reason :: "'w coordinator \<Rightarrow> string \<Rightarrow> body" where
  "term_reason c why = no_body\<lparr>b_term := Some (c_current_term c), b_reason := Some why\<rparr>"

definition term_leader :: "'w coordinator \<Rightarrow> node_id option \<Rightarrow> body" where
  "term_leader c l = no_body\<lparr>b_term := Some (c_current_term c), b_leader := l\<rparr>"

definition persist_term :: "'w act" where
  "persist_term = upd (\<lambda>c. c\<lparr>c_durable := (c_durable c)\<lparr>du_term := Holds (c_current_term c)\<rparr>\<rparr>)"

definition persist_accepted :: "'w act" where
  "persist_accepted = upd (\<lambda>c. c\<lparr>c_durable := (c_durable c)\<lparr>du_accepted := Holds (c_accepted c)\<rparr>\<rparr>)"

definition persist_committed :: "'w act" where
  "persist_committed = upd (\<lambda>c. c\<lparr>c_durable := (c_durable c)\<lparr>du_committed := Holds (c_committed c)\<rparr>\<rparr>)"

section \<open>Who is known\<close>

definition learn :: "discovery_node \<Rightarrow> 'w act" where
  "learn node c =
     (if dn_id node = my_id c then skip c
      else if bm_get (c_peers c) (dn_id node) = Some node then skip c
      else Some ([Peer (dn_id node) (dn_transport_address node)],
                 c\<lparr>c_peers := bm_insert (dn_id node) node (c_peers c)\<rparr>))"

definition everyone :: "'w coordinator \<Rightarrow> node_id list" where
  "everyone c =
     bs_remove (my_id c)
       (bs_of (bm_keys (c_peers c) @ c_seeds c @ bm_keys (cs_nodes (c_accepted c))
         @ cs_last_committed_config (c_accepted c) @ cs_last_accepted_config (c_accepted c)))"

definition knows :: "'w coordinator \<Rightarrow> node_id \<Rightarrow> bool" where
  "knows c who = (who = my_id c \<or> who \<in> set (everyone c))"

section \<open>Being a candidate\<close>

definition join_body :: "'w env \<Rightarrow> 'w coordinator \<Rightarrow> node_id \<Rightarrow> body" where
  "join_body E c to =
     no_body
       \<lparr>b_term := Some (c_current_term c),
        b_last_accepted_term := Some (cs_term (c_accepted c)),
        b_last_accepted_version := Some (cs_version (c_accepted c)),
        b_node := NodeOf (c_me c),
        b_vote := Some (c_last_join c = Some (c_current_term c, to)),
        b_held := Some (case ev_source E of Some m \<Rightarrow> src_held m (c_world c) | None \<Rightarrow> [])\<rparr>"

definition join :: "'w env \<Rightarrow> node_id \<Rightarrow> 'w act" where
  "join E to c = request to JOIN (join_body E c to) c"

definition schedule_election :: "'w act" where
  "schedule_election c =
     (let t = c_timings c;
          attempt = c_election_attempt c + 1;
          cap = min (tm_election_max t) (tm_election_initial t + tm_election_backoff t * attempt);
          (x, r) = rng_range 0 cap (c_rng c)
      in Some ([Timer T_ELECTION (tm_election_initial t + x)],
               c\<lparr>c_election_attempt := attempt, c_rng := r, c_election_scheduled := True\<rparr>))"

definition discover :: "'w env \<Rightarrow> 'w act" where
  "discover E c =
     (if c_mode c \<noteq> Candidate then skip c
      else run
        [each (\<lambda>h. emit (Dial h))
           (filter (\<lambda>h. h \<notin> set (map dn_transport_address (bm_values (c_peers c)))
                        \<and> h \<noteq> dn_transport_address (c_me c)) (c_seed_hosts c)),
         each (\<lambda>t. request t PEERS (no_body\<lparr>b_node := NodeOf (c_me c)\<rparr>)) (everyone c),
         (\<lambda>c. case c_leader_hint c of Some l \<Rightarrow> join E l c | None \<Rightarrow> skip c),
         when_act (\<lambda>c. eligible c \<and> cs_last_accepted_config (c_accepted c) \<noteq> []
                       \<and> \<not> c_election_scheduled c) schedule_election,
         (\<lambda>c. emit (Timer T_DISCOVER (tm_discover_interval (c_timings c))) c)] c)"

text \<open>Whoever waits to hear that a shard event was committed is told that this node will not say.\<close>

definition fail_waiting :: "'w act" where
  "fail_waiting c =
     Some (map (\<lambda>(_, from, e). Send from (mk_error e (my_id c) (term_reason c ''no longer the manager'')))
             (c_event_replies c),
           c\<lparr>c_event_replies := []\<rparr>)"

definition become_candidate :: "'w env \<Rightarrow> 'w act" where
  "become_candidate E =
     run
       [fail_waiting,
        upd (\<lambda>c. c\<lparr>c_mode := Candidate\<rparr>),
        (case ev_source E of Some src \<Rightarrow> world_act (src_security_lost src) | None \<Rightarrow> skip),
        upd (\<lambda>c. c\<lparr>c_publishing := None, c_followers := [], c_pending_checks := [],
                   c_leader_check_outstanding := None, c_leader_misses := 0,
                   c_last_leader_ok := c_last_wall c, c_election_attempt := 0,
                   c_election_scheduled := False, c_leader_hint := None\<rparr>),
        discover E]"

definition saw_term :: "'w env \<Rightarrow> nat \<Rightarrow> 'w act" where
  "saw_term E t =
     run
       [upd (\<lambda>c. c\<lparr>c_max_term_seen := max (c_max_term_seen c) t\<rparr>),
        when_act (\<lambda>c. c_current_term c < t)
          (run
             [upd (\<lambda>c. c\<lparr>c_current_term := t\<rparr>),
              persist_term,
              upd (\<lambda>c. c\<lparr>c_join_votes := []\<rparr>),
              when_act (\<lambda>c. c_mode c \<noteq> Candidate)
                (run [add_note (NSteppingDown t), become_candidate E])])]"

text \<open>The first voting configuration: every named node's id, once all are known.\<close>

definition bootstrap_id :: "'w coordinator \<Rightarrow> string \<Rightarrow> node_id option" where
  "bootstrap_id c name =
     (if name = dn_name (c_me c) \<or> name = my_id c then Some (my_id c)
      else map_option dn_id
             (find_first (\<lambda>p. dn_name p = name \<or> dn_id p = name) (bm_values (c_peers c))))"

fun all_some :: "'a option list \<Rightarrow> 'a list option" where
  "all_some [] = Some []"
| "all_some (None # _) = None"
| "all_some (Some x # xs) = (case all_some xs of None \<Rightarrow> None | Some ys \<Rightarrow> Some (x # ys))"

definition set_config :: "node_id list \<Rightarrow> cluster_state \<Rightarrow> cluster_state" where
  "set_config ids s = s\<lparr>cs_last_accepted_config := ids, cs_last_committed_config := ids\<rparr>"

definition bootstrap :: "'w act" where
  "bootstrap c =
     (if cs_last_accepted_config (c_accepted c) \<noteq> [] \<or> \<not> eligible c then skip c
      else if \<not> (\<exists>n \<in> set (c_initial_names c). n = dn_name (c_me c) \<or> n = my_id c) then skip c
      else case all_some (map (bootstrap_id c) (c_initial_names c)) of
        None \<Rightarrow> skip c
      | Some found \<Rightarrow>
          (let ids = bs_of found in
           run
             [upd (\<lambda>c. c\<lparr>c_accepted := set_config ids (c_accepted c),
                         c_committed := set_config ids (c_committed c)\<rparr>),
              persist_accepted, persist_committed,
              add_note (NBootstrapped ids)] c))"

section \<open>The pre-vote\<close>

definition prevote :: "'w act" where
  "prevote c =
     (let c = c\<lparr>c_prevotes := [], c_max_term_seen := max (c_max_term_seen c) (c_current_term c)\<rparr>;
          (r, c) = rid c;
          c = c\<lparr>c_prevote_rid := r\<rparr>;
          ask = filter (\<lambda>t. case bm_get (c_peers c) t of
                              Some p \<Rightarrow> is_cluster_manager_eligible p | None \<Rightarrow> True) (everyone c)
      in Some (map (\<lambda>t. Send t (mk_request PRE_VOTE (my_id c) r
                                  (no_body\<lparr>b_term := Some (c_current_term c)\<rparr>))) ask, c))"

definition prevote_quorum :: "'w coordinator \<Rightarrow> bool" where
  "prevote_quorum c = election_quorum (c_accepted c) (insert (my_id c) (set (bm_keys (c_prevotes c))))"

end
