(* ===== verification/Coordinator_Manager.thy ===== *)
theory Coordinator_Manager
  imports Coordinator_State
begin

text \<open>
  The coordinator as a manager and as a data node: laying metadata and placement over a state
  (\<^verbatim>\<open>place\<close>), telling the manager about the copies here and applying what it published
  (\<^verbatim>\<open>report_metadata\<close>, \<^verbatim>\<open>apply_metadata\<close>, \<^verbatim>\<open>apply_shards\<close>), the voting configuration
  (\<^verbatim>\<open>reconfigure\<close>), the two phases of a publication (\<^verbatim>\<open>publish\<close>, \<^verbatim>\<open>commit_publication\<close>,
  \<^verbatim>\<open>next_publication\<close>), and the joins and elections that lead to it.
\<close>

section \<open>Placement\<close>

type_synonym shard_ids_by_index = "(string, shard_ids) bmap"

definition push_id :: "string \<Rightarrow> nat \<times> string \<Rightarrow> shard_ids_by_index \<Rightarrow> shard_ids_by_index" where
  "push_id index x m = bm_insert index (opt [] (bm_get m index) @ [x]) m"

record placing =
  pl_table :: routing_table
  pl_retired :: shard_ids_by_index
  pl_reset :: shard_ids_by_index
  pl_started :: shard_ids_by_index

text \<open>One event the data nodes reported, taken into the table.\<close>

definition place_event :: "millis \<Rightarrow> cluster_state \<Rightarrow> shard_event \<Rightarrow> placing \<Rightarrow> placing" where
  "place_event now s ev p =
     (case ev of
        EvStarted index shard aid \<Rightarrow>
          (case shard_started (pl_table p) index shard aid of
             (table, None) \<Rightarrow> p\<lparr>pl_table := table\<rparr>
           | (table, Some st) \<Rightarrow>
               p\<lparr>pl_table := table,
                 pl_started := push_id index (shard, aid) (pl_started p),
                 pl_retired := (case sd_retired st of
                                  Some r \<Rightarrow> push_id index (shard, r) (pl_retired p)
                                | None \<Rightarrow> pl_retired p),
                 pl_reset := (if sd_forced_primary st then push_id index (shard, aid) (pl_reset p)
                              else pl_reset p)\<rparr>)
      | EvStale index shard aid \<Rightarrow>
          (let (table, placed) = shard_stale (pl_table p) index shard aid now;
               remembered =
                 (\<not> placed
                  \<and> (case bm_get (cs_indices s) index of
                       None \<Rightarrow> False
                     | Some m \<Rightarrow> (case bm_get (im_in_sync_allocations m) shard of
                                    None \<Rightarrow> False | Some ids \<Rightarrow> aid \<in> set ids))
                  \<and> Option.bind (rt_primary table index shard) sr_allocation_id \<noteq> Some aid)
           in p\<lparr>pl_table := table,
                pl_retired := (if placed \<or> remembered then push_id index (shard, aid) (pl_retired p)
                               else pl_retired p)\<rparr>)
      | EvFailed index shard aid message \<Rightarrow>
          (let (table, failed) = shard_failed (pl_table p) index shard aid now message
           in p\<lparr>pl_table := table,
                pl_retired := (if failed then push_id index (shard, aid) (pl_retired p)
                               else pl_retired p)\<rparr>))"

definition tombstone_name :: "json \<Rightarrow> string option" where
  "tombstone_name t = Option.bind (json_pointer t [''index'', ''index_name'']) json_str"

definition tombstone_uuid :: "json \<Rightarrow> string option" where
  "tombstone_uuid t = Option.bind (json_pointer t [''index'', ''index_uuid'']) json_str"

text \<open>The newest five hundred tombstones.\<close>

definition keep_graveyard :: "json list \<Rightarrow> json list" where
  "keep_graveyard g = drop (length g - 500) g"

definition buried :: "json list \<Rightarrow> string \<Rightarrow> string \<Rightarrow> bool" where
  "buried graveyard name uuid =
     (\<exists>t \<in> set graveyard. tombstone_uuid t = Some uuid \<and> tombstone_name t = Some name)"

text \<open>What a store does not know of an index is carried over from what was published.\<close>

definition carried_over :: "cluster_state \<Rightarrow> string \<Rightarrow> index_metadata \<Rightarrow> index_metadata" where
  "carried_over s name m =
     (case bm_get (cs_indices s) name of
        Some prev \<Rightarrow> m\<lparr>im_in_sync_allocations := im_in_sync_allocations prev,
                       im_primary_terms := im_primary_terms prev\<rparr>
      | None \<Rightarrow> m)"

definition primary_node :: "routing_table \<Rightarrow> string \<Rightarrow> node_id option" where
  "primary_node table name = Option.bind (rt_primary table name 0) sr_node"

type_synonym base_home = "(string, index_metadata) bmap \<times> (string, node_id) bmap"

definition place_own ::
  "node_id \<Rightarrow> cluster_state \<Rightarrow> json list \<Rightarrow> routing_table \<Rightarrow>
   string \<times> index_metadata \<Rightarrow> base_home \<Rightarrow> base_home" where
  "place_own me s graveyard table nm bh =
     (let (name, m) = nm; (base, home) = bh in
      if buried graveyard name (im_uuid m) then bh
      else case primary_node table name of
        Some p \<Rightarrow> if p = me then (bm_insert name (carried_over s name m) base, home) else bh
      | None \<Rightarrow> (bm_insert name (carried_over s name m) base,
                 if bm_has (cs_indices s) name then home else bm_insert name me home))"

definition place_report ::
  "cluster_state \<Rightarrow> json list \<Rightarrow> routing_table \<Rightarrow> string \<times> node_id \<times> index_metadata \<Rightarrow>
   (string, index_metadata) bmap \<Rightarrow> (string, index_metadata) bmap" where
  "place_report s graveyard table r base =
     (let (name, node, m) = r in
      if primary_node table name = Some node \<and> \<not> buried graveyard name (im_uuid m)
      then bm_insert name (carried_over s name m) base else base)"

text \<open>The term a promoted copy writes under.\<close>

definition count_promotion ::
  "(string, index_metadata) bmap \<Rightarrow> string \<times> nat \<times> node_id \<Rightarrow>
   (string \<times> nat, nat) bmap \<Rightarrow> (string \<times> nat, nat) bmap" where
  "count_promotion base p terms =
     (let (index, shard, _) = p;
          carried = opt 1 (Option.bind (bm_get base index) (\<lambda>m. bm_get (im_primary_terms m) shard));
          counted = opt carried (bm_get terms (index, shard))
      in bm_insert (index, shard) (next_term counted carried) terms)"

definition where_text :: "shard_routing \<Rightarrow> bool \<times> string \<times> shard_state \<times> string" where
  "where_text c = (sr_primary c, opt [] (sr_allocation_id c), sr_state c, opt [] (sr_node c))"

definition in_sync_notes ::
  "(string, index_metadata) bmap \<Rightarrow> (string, (nat, string list) bmap) bmap \<Rightarrow> routing_table \<Rightarrow>
   out_msg list" where
  "in_sync_notes indices previous routing =
     concat (map (\<lambda>(n, m).
       (let now = opt [] (bm_get (im_in_sync_allocations m) 0);
            was = opt [] (Option.bind (bm_get previous n) (\<lambda>p. bm_get p 0))
        in if now \<noteq> was then [Note (NInSync n was now (map where_text (rt_shards_of routing n)))]
           else [])) indices)"

definition metadata_fingerprint ::
  "'w env \<Rightarrow> 'w coordinator \<Rightarrow> (string, index_metadata) bmap \<Rightarrow> routing_table \<Rightarrow> nat" where
  "metadata_fingerprint E c own routing =
     (let mine = filter (\<lambda>(n, _). case primary_node routing n of
                                    Some p \<Rightarrow> p = my_id c | None \<Rightarrow> True) own;
          first = HNum (fingerprint (ev_lib E) (ev_hash E) mine)
      in ev_hash E (first #
           (case ev_source E of
              Some src \<Rightarrow>
                [HText (lib_json_text (ev_lib E) (src_customs src (c_world c))),
                 HText (lib_json_text (ev_lib E) (src_cluster_settings src (c_world c)))]
            | None \<Rightarrow> [])))"

text \<open>The outputs of a placement: retired copies, the allocator's notes, its tally, the delay timer.\<close>

definition place_outputs :: "'w coordinator \<Rightarrow> changes \<Rightarrow> out_msg list" where
  "place_outputs c ch =
     (if c_notes c then map (\<lambda>(index, shard, aid). Note (NOutOfSync index shard aid)) (ch_retired ch)
      else [])
     @ (if c_notes c then map (\<lambda>n. Note (NAllocation n)) (ch_notes ch) else [])
     @ (if c_notes c \<and> \<not> changes_is_empty ch
        then [Note (NAllocated (length (ch_assigned ch)) (length (ch_unassigned ch))
                (length (ch_promoted ch)) (length (ch_relocating ch)))]
        else [])
     @ (case ch_next_delay_at ch of
          Some at \<Rightarrow> [Timer T_ALLOCATE (max (at - c_last_wall c) 1)] | None \<Rightarrow> [])"

text \<open>
  \<^verbatim>\<open>place\<close>: the outputs, the state with its metadata and routing laid over it, and the
  coordinator.
\<close>

definition place ::
  "'w env \<Rightarrow> cluster_state \<Rightarrow> 'w coordinator \<Rightarrow> out_msg list \<times> cluster_state \<times> 'w coordinator" where
  "place E s c =
     (case ev_source E of
        None \<Rightarrow> ([], s, c)
      | Some src \<Rightarrow>
        (let w = c_world c;
             own = src_snapshot src w;
             settings = src_cluster_settings src w;
             cluster = cluster_settings_from_value (ev_lib E) settings;
             table = (case c_command_table c of Some t \<Rightarrow> t | None \<Rightarrow> cs_routing s);
             replies = map (\<lambda>(at, r). (if at = NOT_CARRIED then cs_version s else at, r))
                         (c_event_replies c);
             pl = fold (place_event (c_last_wall c) s) (c_shard_events c)
                    \<lparr>pl_table = table, pl_retired = [], pl_reset = [], pl_started = []\<rparr>;
             previous = bm_map (\<lambda>_ m. im_in_sync_allocations m) (cs_indices s);
             (stones, w) = src_tombstones src w;
             named = filter (\<lambda>t. tombstone_name t \<noteq> None) stones;
             names = map (\<lambda>t. the (tombstone_name t)) named;
             base = fold bm_remove names (cs_indices s);
             reports = fold bm_remove names (c_reports c);
             graveyard = keep_graveyard (cs_graveyard s @ named);
             (base, home) = fold (place_own (my_id c) s graveyard (pl_table pl)) own (base, []);
             base = fold (place_report s graveyard (pl_table pl)) reports base;
             held = bm_retain_keys (bm_has (cs_nodes s)) (bm_insert (my_id c) (src_held src w) (c_held c));
             documents = filter (\<lambda>n. src_holds_documents src n w) (bm_keys home);
             ctx = \<lparr>cx_nodes = cs_nodes s, cx_indices = base, cx_cluster = cluster,
                    cx_primary_home = home, cx_home_holds_documents = documents, cx_held = held,
                    cx_now = c_last_wall c, cx_lib = ev_lib E, cx_rand = ev_rand E\<rparr>;
             (routing, ch, drawn) = reroute ctx (pl_table pl) (c_drawn c);
             terms = fold (count_promotion base) (ch_promoted ch) (c_terms c);
             retired = fold (\<lambda>(index, shard, aid). push_id index (shard, aid)) (ch_retired ch) (pl_retired pl);
             indices = bm_map (\<lambda>n m. with_terms m routing terms (opt [] (bm_get previous n))
                                       (opt [] (bm_get retired n)) (opt [] (bm_get (pl_reset pl) n))
                                       (opt [] (bm_get (pl_started pl) n))) base;
             w = src_settle_security src (cs_customs s) True w;
             s' = s\<lparr>cs_graveyard := graveyard, cs_indices := indices, cs_routing := routing,
                    cs_cluster_settings := settings, cs_customs := src_customs src w\<rparr>;
             c' = c\<lparr>c_command_table := None, c_event_replies := replies, c_shard_events := [],
                    c_reports := reports, c_terms := bm_retain_keys (\<lambda>k. bm_has indices (fst k)) terms,
                    c_world := w, c_drawn := drawn\<rparr>
         in (place_outputs c ch
               @ (if c_notes c then in_sync_notes indices previous routing else []),
             s', c'\<lparr>c_last_fingerprint := metadata_fingerprint E c' own routing\<rparr>)))"

section \<open>What this node tells the manager\<close>

definition primary_here :: "'w coordinator \<Rightarrow> string \<Rightarrow> bool" where
  "primary_here c name = (primary_node (cs_routing (c_committed c)) name = Some (my_id c))"

definition report_index ::
  "'w env \<Rightarrow> 'w coordinator \<Rightarrow> string \<times> index_metadata \<Rightarrow>
   index_metadata list \<times> (string, nat) bmap \<Rightarrow> index_metadata list \<times> (string, nat) bmap" where
  "report_index E c nm acc =
     (let (name, m) = nm; (changed, fps) = acc in
      if \<not> primary_here c name then acc
      else
        (let fp = fingerprint (ev_lib E) (ev_hash E) [(name, m)] in
         if bm_get fps name = Some fp then acc else (changed @ [m], bm_insert name fp fps)))"

definition report_metadata :: "'w env \<Rightarrow> 'w act" where
  "report_metadata E c =
     (case ev_source E of
        None \<Rightarrow> skip c
      | Some src \<Rightarrow>
        (case c_mode c of
           Follower leader \<Rightarrow>
             (let (changed, fps) = fold (report_index E c) (src_snapshot src (c_world c)) ([], c_reported_fp c);
                  c = c\<lparr>c_reported_fp := fps\<rparr>;
                  held = src_held src (c_world c)
              in if changed = [] \<and> held = c_held_reported c then skip c
                 else request leader METADATA_REPORT
                        (no_body\<lparr>b_indices := Some (map Some changed), b_held := Some held\<rparr>)
                        (c\<lparr>c_held_reported := held\<rparr>))
         | _ \<Rightarrow> skip c))"

text \<open>Tell the manager about a copy; the manager tells itself.\<close>

fun event_action :: "shard_event \<Rightarrow> string" where
  "event_action (EvStarted _ _ _) = SHARD_STARTED"
| "event_action (EvFailed _ _ _ _) = SHARD_FAILED"
| "event_action (EvStale _ _ _) = SHARD_STALE"

fun event_body :: "shard_event \<Rightarrow> body" where
  "event_body (EvStarted index shard aid) =
     no_body\<lparr>b_index := Some index, b_shard := Some shard, b_allocation_id := Some aid\<rparr>"
| "event_body (EvFailed index shard aid message) =
     no_body\<lparr>b_index := Some index, b_shard := Some shard, b_allocation_id := Some aid,
             b_message := Some message\<rparr>"
| "event_body (EvStale index shard aid) =
     no_body\<lparr>b_index := Some index, b_shard := Some shard, b_allocation_id := Some aid\<rparr>"

definition report :: "shard_event \<Rightarrow> 'w act" where
  "report ev c =
     (case c_mode c of
        Leader \<Rightarrow> Some ([], c\<lparr>c_shard_events := c_shard_events c @ [ev], c_republish_wanted := True\<rparr>)
      | Follower l \<Rightarrow> request l (event_action ev) (event_body ev) c
      | Candidate \<Rightarrow> skip c)"

section \<open>What the manager published, applied here\<close>

definition copy_here :: "'w coordinator \<Rightarrow> string \<Rightarrow> bool" where
  "copy_here c name =
     (\<exists>r \<in> set (rt_on_node (cs_routing (c_committed c)) (my_id c)). sr_index r = name)"

definition active_elsewhere :: "'w coordinator \<Rightarrow> string \<Rightarrow> bool" where
  "active_elsewhere c name =
     (\<exists>r \<in> set (rt_shards_of (cs_routing (c_committed c)) name).
        sr_node r \<noteq> Some (my_id c) \<and> sr_primary r \<and> active_state (sr_state r))"

definition settle_act :: "'w source \<Rightarrow> 'w act" where
  "settle_act src c =
     (if c_mode c = Candidate then skip c
      else world_act (src_settle_security src (cs_customs (c_committed c)) (c_mode c = Leader)) c)"

definition apply_index_act :: "'w source \<Rightarrow> string \<times> index_metadata \<Rightarrow> 'w act" where
  "apply_index_act src nm =
     when_act (\<lambda>c. copy_here c (fst nm) \<and> \<not> primary_here c (fst nm))
       (world_act (src_apply_index_metadata src (snd nm)))"

definition apply_customs_act :: "'w env \<Rightarrow> 'w source \<Rightarrow> 'w act" where
  "apply_customs_act E src c =
     (let fp = ev_hash E [HText (lib_json_text (ev_lib E) (cs_customs (c_committed c)))] in
      if fp \<noteq> c_customs_applied c \<and> c_mode c \<noteq> Leader
      then Some ([], c\<lparr>c_world := src_apply_customs src (cs_customs (c_committed c)) (c_world c),
                       c_customs_applied := fp\<rparr>)
      else skip c)"

definition let_go :: "'w source \<Rightarrow> string \<times> index_metadata \<Rightarrow> 'w act" where
  "let_go src nm c =
     (let (name, m) = nm;
          is_buried = (\<exists>t \<in> set (cs_graveyard (c_committed c)). tombstone_uuid t = Some (im_uuid m))
      in if is_buried \<or> (bm_has (cs_indices (c_committed c)) name \<and> \<not> copy_here c name
                         \<and> active_elsewhere c name \<and> cs_version (c_committed c) > 0)
         then run [add_note (NDropped name is_buried), world_act (src_drop_local src name)] c
         else skip c)"

definition apply_metadata :: "'w env \<Rightarrow> 'w act" where
  "apply_metadata E =
     (case ev_source E of
        None \<Rightarrow> skip
      | Some src \<Rightarrow>
          run [settle_act src,
               (\<lambda>c. each (apply_index_act src) (cs_indices (c_committed c)) c),
               apply_customs_act E src,
               (\<lambda>c. each (let_go src) (src_snapshot src (c_world c)) c)])"

definition note_allocations :: "'w env \<Rightarrow> shard_routing list \<Rightarrow> 'w act" where
  "note_allocations E mine =
     (case ev_source E of
        None \<Rightarrow> skip
      | Some src \<Rightarrow>
          each (\<lambda>r. case sr_allocation_id r of
                  Some a \<Rightarrow> if sr_state r \<noteq> Unassigned
                             then world_act (src_note_allocation src (sr_index r) (sr_shard r) a) else skip
                | None \<Rightarrow> skip) mine)"

text \<open>A copy finished here whose report was lost with its manager is reported again.\<close>

definition report_again :: "shard_routing \<Rightarrow> 'w act" where
  "report_again r c =
     (case sr_allocation_id r of
        Some a \<Rightarrow> report (EvStarted (sr_index r) (sr_shard r) a) c
      | None \<Rightarrow> skip c)"

definition finished_here :: "'w coordinator \<Rightarrow> shard_routing \<Rightarrow> bool" where
  "finished_here c r =
     (sr_state r = Initializing \<and>
      (case sr_allocation_id r of Some a \<Rightarrow> a \<in> set (c_started_here c) | None \<Rightarrow> False))"

text \<open>A primary in a new term sends what it holds to the other copies.\<close>

definition published_term :: "'w coordinator \<Rightarrow> shard_routing \<Rightarrow> nat" where
  "published_term c r =
     opt 1 (Option.bind (bm_get (cs_indices (c_committed c)) (sr_index r))
              (\<lambda>m. bm_get (im_primary_terms m) (sr_shard r)))"

definition resync_targets :: "'w coordinator \<Rightarrow> shard_routing \<Rightarrow> node_id list" where
  "resync_targets c r =
     filter (\<lambda>n. n \<noteq> my_id c)
       (List.map_filter sr_node
         (filter (\<lambda>x. sr_shard x = sr_shard r \<and> \<not> sr_primary x \<and> active_state (sr_state x))
           (rt_shards_of (cs_routing (c_committed c)) (sr_index r))))"

definition resync_send :: "'w env \<Rightarrow> shard_routing \<Rightarrow> 'w act" where
  "resync_send E r c =
     (let term = published_term c r; others = resync_targets c r in
      if others = [] then skip c
      else run
        [(case ev_host E of
            Some h \<Rightarrow> world_act (host_resync h (sr_index r) (sr_shard r) term others)
          | None \<Rightarrow> skip),
         add_note (NResync (sr_index r) (sr_shard r) (length others) term)] c)"

definition resync_copy :: "'w env \<Rightarrow> shard_routing \<Rightarrow> 'w act" where
  "resync_copy E r c =
     (let term = published_term c r; key = (sr_index r, sr_shard r) in
      if opt 0 (bm_get (c_resynced c) key) \<ge> term then skip c
      else run [upd (\<lambda>c. c\<lparr>c_resynced := bm_insert key term (c_resynced c)\<rparr>), resync_send E r] c)"

definition ask_host :: "'w env \<Rightarrow> shard_routing \<Rightarrow> 'w coordinator \<Rightarrow> (string + bool) \<times> 'w coordinator" where
  "ask_host E r c =
     (case (ev_host E, bm_get (cs_indices (c_committed c)) (sr_index r)) of
        (Some h, Some m) \<Rightarrow>
          (let primary = Option.bind (rt_primary (cs_routing (c_committed c)) (sr_index r) (sr_shard r)) sr_node;
               (res, w) = host_start_shard h m r primary (c_world c)
           in (res, c\<lparr>c_world := w\<rparr>))
      | _ \<Rightarrow> (Inr True, c))"

definition start_copy :: "'w env \<Rightarrow> shard_routing \<Rightarrow> 'w act" where
  "start_copy E r c =
     (case sr_allocation_id r of
        None \<Rightarrow> skip c
      | Some aid \<Rightarrow>
          if aid \<in> set (c_reported c) then skip c
          else
            (let (res, c) = ask_host E r (c\<lparr>c_reported := bs_insert aid (c_reported c)\<rparr>);
                 c = c\<lparr>c_hosted := bm_insert aid (sr_index r, sr_shard r) (c_hosted c)\<rparr>
             in case res of
                  Inr False \<Rightarrow> skip c
                | Inr True \<Rightarrow>
                    report (EvStarted (sr_index r) (sr_shard r) aid)
                      (c\<lparr>c_started_here := bs_insert aid (c_started_here c)\<rparr>)
                | Inl message \<Rightarrow> report (EvFailed (sr_index r) (sr_shard r) aid message) c))"

definition forget_copy :: "string \<Rightarrow> 'w coordinator \<Rightarrow> 'w coordinator" where
  "forget_copy aid c =
     c\<lparr>c_hosted := bm_remove aid (c_hosted c), c_reported := bs_remove aid (c_reported c)\<rparr>"

definition held_elsewhere :: "'w coordinator \<Rightarrow> string \<Rightarrow> nat \<Rightarrow> bool" where
  "held_elsewhere c index shard =
     (\<exists>r \<in> set (rt_shards_of (cs_routing (c_committed c)) index).
        sr_shard r = shard \<and> sr_node r \<noteq> Some (my_id c) \<and> active_state (sr_state r))"

definition deleted_index :: "'w coordinator \<Rightarrow> string \<Rightarrow> bool" where
  "deleted_index c index =
     (\<not> bm_has (cs_indices (c_committed c)) index \<and>
      (\<exists>t \<in> set (cs_graveyard (c_committed c)). tombstone_name t = Some index))"

definition remove_copy :: "'w env \<Rightarrow> string \<times> string \<times> nat \<Rightarrow> 'w act" where
  "remove_copy E g c =
     (let (aid, index, shard) = g in
      if \<exists>(a, i, _) \<in> set (c_hosted c). i = index \<and> a \<noteq> aid
      then Some ([], forget_copy aid c)
      else if \<not> deleted_index c index \<and> \<not> held_elsewhere c index shard
      then add_note (NKept index shard) c
      else run [upd (forget_copy aid),
                (case ev_host E of
                   Some h \<Rightarrow> world_act (host_remove_shard h index shard) | None \<Rightarrow> skip)] c)"

definition apply_shards :: "'w env \<Rightarrow> 'w act" where
  "apply_shards E =
     run
       [apply_metadata E,
        (\<lambda>c.
          (let mine = rt_on_node (cs_routing (c_committed c)) (my_id c);
               here = List.map_filter sr_allocation_id mine
           in run
             [note_allocations E mine,
              upd (\<lambda>c. c\<lparr>c_reported := filter (\<lambda>a. a \<in> set here) (c_reported c),
                         c_started_here := filter (\<lambda>a. a \<in> set here) (c_started_here c)\<rparr>),
              (\<lambda>c. each report_again (filter (finished_here c) mine) c),
              each (resync_copy E) (filter (\<lambda>r. sr_primary r \<and> sr_state r = Started) mine),
              each (start_copy E) (filter (\<lambda>r. sr_state r = Initializing) mine),
              (\<lambda>c. each (remove_copy E) (filter (\<lambda>g. fst g \<notin> set here) (c_hosted c)) c)] c))]"

section \<open>The voting configuration\<close>

definition excluded :: "'w coordinator \<Rightarrow> cluster_state \<Rightarrow> node_id \<Rightarrow> bool" where
  "excluded c s nid =
     (\<exists>(i, n) \<in> set (c_exclusions c).
        i = nid \<or> (case bm_get (cs_nodes s) nid of Some d \<Rightarrow> dn_name d = n | None \<Rightarrow> False))"

definition odd_below :: "nat \<Rightarrow> nat" where
  "odd_below n = (if n mod 2 = 0 then n - 1 else n)"

definition live_nodes :: "'w coordinator \<Rightarrow> cluster_state \<Rightarrow> node_id list" where
  "live_nodes c s =
     bs_of (map dn_id (filter (\<lambda>n. is_cluster_manager_eligible n \<and> \<not> excluded c s (dn_id n))
                         (bm_values (cs_nodes s))))"

definition reconfigure_target :: "'w coordinator \<Rightarrow> nat \<Rightarrow> nat \<Rightarrow> nat" where
  "reconfigure_target c live kept =
     max (odd_below live) (if c_auto_shrink c then (if kept < 3 then 1 else 3) else kept)"

definition reconfigure :: "'w coordinator \<Rightarrow> cluster_state \<Rightarrow> node_id list" where
  "reconfigure c s =
     (let current = cs_last_committed_config s;
          live = live_nodes c s;
          kept = filter (\<lambda>i. \<not> excluded c s i) current;
          target = reconfigure_target c (length live) (length kept);
          live_in = filter (\<lambda>i. i \<in> set live) current;
          live_out = filter (\<lambda>i. i \<notin> set current) live;
          dead_in = filter (\<lambda>i. i \<notin> set live) kept;
          new = sort (take target (live_in @ live_out @ dead_in))
      in if has_quorum new (set live) then new else current)"

section \<open>Publication\<close>

definition apply_committed :: "cluster_state \<Rightarrow> 'w act" where
  "apply_committed s c =
     (if \<not> fresher (cs_term s) (cs_version s) (cs_term (c_committed c)) (cs_version (c_committed c))
      then skip c
      else
        (let s = s\<lparr>cs_last_committed_config := cs_last_accepted_config s\<rparr> in
         run
           [when_act (\<lambda>c. fresher (cs_term s) (cs_version s)
                             (cs_term (c_accepted c)) (cs_version (c_accepted c)))
              (run [upd (\<lambda>c. c\<lparr>c_accepted := s\<rparr>), persist_accepted]),
            upd (\<lambda>c. c\<lparr>c_committed := s\<rparr>),
            persist_committed] c))"

definition exclusion_json :: "string \<times> string \<Rightarrow> json" where
  "exclusion_json x = JObj [(''node_id'', JStr (fst x)), (''node_name'', JStr (snd x))]"

definition stamp :: "'w coordinator \<Rightarrow> cluster_state \<Rightarrow> cluster_state" where
  "stamp c s =
     s\<lparr>cs_term := c_current_term c, cs_cluster_manager := Some (my_id c),
       cs_voting_config_exclusions := map exclusion_json (c_exclusions c)\<rparr>"

text \<open>The first phase: the state sent to every node in it, and accepted here.\<close>

definition publish_start :: "cluster_state \<Rightarrow> 'w coordinator \<Rightarrow> out_msg list \<times> 'w coordinator" where
  "publish_start s c =
     (let s = stamp c s;
          others = filter (\<lambda>n. n \<noteq> my_id c) (bm_keys (cs_nodes s));
          (r, c) = rid c;
          seq = c_publish_seq c + 1
      in (map (\<lambda>n. Send n (mk_request PUBLISH (my_id c) r (no_body\<lparr>b_state := Some s\<rparr>))) others
            @ [Timer T_PUBLISH (tm_publish_timeout (c_timings c))],
          c\<lparr>c_publish_seq := seq,
            c_publishing := Some \<lparr>pb_state = s, pb_rid = r, pb_seq = seq, pb_acked = [my_id c]\<rparr>,
            c_accepted := s,
            c_durable := (c_durable c)\<lparr>du_accepted := Holds s\<rparr>\<rparr>))"

definition commit_body :: "cluster_state \<Rightarrow> body" where
  "commit_body s = no_body\<lparr>b_term := Some (cs_term s), b_version := Some (cs_version s)\<rparr>"

text \<open>The answers that waited for the state just committed.\<close>

definition answer_waiting :: "'w act" where
  "answer_waiting c =
     (let version = cs_version (c_committed c);
          due = (\<lambda>(at, _, _). at \<noteq> NOT_CARRIED \<and> at \<le> version)
      in Some (map (\<lambda>(_, from, e). Send from (mk_response e (my_id c) no_body))
                 (filter due (c_event_replies c)),
               c\<lparr>c_event_replies := filter (\<lambda>x. \<not> due x) (c_event_replies c)\<rparr>))"

text \<open>The second phase, up to the next publication.\<close>

definition commit_run :: "'w env \<Rightarrow> publication \<Rightarrow> nat \<Rightarrow> 'w act" where
  "commit_run E p r c =
     (let s = pb_state p;
          nodes = bm_keys (cs_nodes s);
          told = filter (\<lambda>n. n \<noteq> my_id c \<and> n \<in> set (pb_acked p)) nodes
      in run
        [each (\<lambda>n c. emit (Send n (mk_request COMMIT (my_id c) r (commit_body s))) c) told,
         upd (\<lambda>c. c\<lparr>c_lagging := filter (\<lambda>n. n \<notin> set (pb_acked p)) nodes\<rparr>),
         apply_committed s,
         apply_shards E,
         answer_waiting,
         add_note (NCommitted (cs_term s) (cs_version s) (length (cs_nodes s))
                     (length (cs_last_accepted_config s)))] c)"

definition commit_now :: "'w env \<Rightarrow> 'w act" where
  "commit_now E c =
     (case c_publishing c of
        None \<Rightarrow> skip c
      | Some p \<Rightarrow> (let (r, c) = rid (c\<lparr>c_publishing := None\<rparr>) in commit_run E p r c))"

text \<open>A joining node whose process is a new one: its copies are gone with the old one.\<close>

definition take_join :: "millis \<Rightarrow> node_id \<times> discovery_node \<Rightarrow> cluster_state \<Rightarrow> cluster_state" where
  "take_join now ij s =
     (let (i, j) = ij;
          restarted = (case bm_get (cs_nodes s) i of
                         Some held \<Rightarrow> dn_ephemeral_id held \<noteq> dn_ephemeral_id j | None \<Rightarrow> False);
          s = (if restarted
               then s\<lparr>cs_routing := rt_on_node_mut i
                       (unassign_copy (mk_unassigned_info ''NODE_LEFT'' now ''no_attempt'' 0)) (cs_routing s)\<rparr>
               else s)
      in s\<lparr>cs_nodes := bm_insert i j (cs_nodes s)\<rparr>)"

definition default_followers :: "node_id \<Rightarrow> (node_id, discovery_node) bmap \<Rightarrow>
    (node_id, follower_health) bmap \<Rightarrow> (node_id, follower_health) bmap" where
  "default_followers me nodes fs =
     fold (\<lambda>n fs. if n = me \<or> bm_has fs n then fs else bm_insert n fh_default fs) (bm_keys nodes) fs"

text \<open>
  \<^verbatim>\<open>next_publication\<close> up to the placement: whether anything asks for a publication, and the state
  with the joins, the departures and the voting configuration taken in.
\<close>

definition next_draft :: "'w env \<Rightarrow> 'w coordinator \<Rightarrow> bool \<times> cluster_state \<times> 'w coordinator" where
  "next_draft E c =
     (let joins = c_waiting_joins c;
          removals = c_pending_removals c;
          s = cs_next (ev_rand E (c_drawn c)) (c_committed c);
          c = c\<lparr>c_waiting_joins := [], c_pending_removals := [], c_drawn := c_drawn c + 1\<rparr>;
          changed = (joins \<noteq> [] \<or> c_republish_wanted c \<or> c_shard_events c \<noteq> []
                     \<or> c_command_table c \<noteq> None);
          s = fold (take_join (c_last_wall c)) joins s;
          changed = (changed \<or> (\<exists>r \<in> set removals. bm_has (cs_nodes s) r));
          s = s\<lparr>cs_nodes := fold bm_remove removals (cs_nodes s)\<rparr>;
          c = c\<lparr>c_followers := fold bm_remove removals (c_followers c)\<rparr>;
          config = reconfigure c s;
          changed = (changed \<or> config \<noteq> cs_last_accepted_config s)
      in (changed, s\<lparr>cs_last_accepted_config := config\<rparr>, c))"

text \<open>\<^verbatim>\<open>next_publication\<close> up to the call of \<^verbatim>\<open>publish\<close>: the state to publish, if anything asks for one.\<close>

definition next_state ::
  "'w env \<Rightarrow> 'w coordinator \<Rightarrow> (out_msg list \<times> cluster_state) option \<times> 'w coordinator" where
  "next_state E c =
     (if c_mode c \<noteq> Leader \<or> c_publishing c \<noteq> None then (None, c)
      else case next_draft E c of (changed, s, c) \<Rightarrow>
        if \<not> changed then (None, c)
        else case place E s (c\<lparr>c_republish_wanted := False\<rparr>) of (out, s, c) \<Rightarrow>
          (Some (out, s),
           c\<lparr>c_followers := default_followers (my_id c) (cs_nodes s) (c_followers c)\<rparr>))"

text \<open>A quorum of both configurations has accepted the publication in flight.\<close>

definition publication_quorum :: "'w coordinator \<Rightarrow> bool" where
  "publication_quorum c =
     election_quorum (c_accepted c)
       (case c_publishing c of Some p \<Rightarrow> set (pb_acked p) | None \<Rightarrow> {})"

text \<open>
  The three methods call one another: a manager that is a quorum by itself commits at once and goes
  on to the next publication.  A run that never stops asking for another publication is \<open>None\<close>.
\<close>

partial_function (option) publish ::
  "'w env \<Rightarrow> cluster_state \<Rightarrow> 'w coordinator \<Rightarrow> (out_msg list \<times> 'w coordinator) option" where
  "publish E s c =
     (case publish_start s c of
        (o1, c1) \<Rightarrow>
          if publication_quorum c1 then
            Option.bind (commit_now E c1) (\<lambda>r. case r of (o2, c2) \<Rightarrow>
              (case next_state E c2 of
                 (None, c3) \<Rightarrow> Some (o1 @ o2, c3)
               | (Some (o3, s3), c3) \<Rightarrow>
                   Option.bind (publish E s3 c3) (\<lambda>r. case r of (o4, c4) \<Rightarrow>
                     Some (o1 @ o2 @ o3 @ o4, c4))))
          else Some (o1, c1))"

declare publish.simps [code]

definition next_publication :: "'w env \<Rightarrow> 'w act" where
  "next_publication E c =
     (case next_state E c of
        (None, c) \<Rightarrow> Some ([], c)
      | (Some (out, s), c) \<Rightarrow> run [(\<lambda>c. Some (out, c)), publish E s] c)"

definition commit_publication :: "'w env \<Rightarrow> 'w act" where
  "commit_publication E =
     (\<lambda>c. if c_publishing c = None then skip c else run [commit_now E, next_publication E] c)"

section \<open>Elections\<close>

text \<open>\<^verbatim>\<open>become_leader\<close> up to the publication: the first state of the term.\<close>

definition leader_followers ::
  "node_id \<Rightarrow> millis \<Rightarrow> (node_id, discovery_node) bmap \<Rightarrow> (node_id, discovery_node) bmap \<Rightarrow>
   (node_id, follower_health) bmap" where
  "leader_followers me now votes nodes =
     fold (\<lambda>n fs. if n = me then fs else bm_insert n fh_default fs) (bm_keys nodes)
       (fold (\<lambda>v fs. bm_insert v \<lparr>fh_misses = 0, fh_last_ok = now\<rparr> fs) (bm_keys votes) [])"

definition first_state :: "'w env \<Rightarrow> 'w coordinator \<Rightarrow> cluster_state" where
  "first_state E c =
     (let s = cs_next (ev_rand E (c_drawn c)) (c_accepted c)
      in s\<lparr>cs_cluster_manager := Some (my_id c), cs_cluster_uuid_committed := True,
           cs_nodes := bm_insert (my_id c) (c_me c) (bm_extend (cs_nodes s) (c_join_votes c))\<rparr>)"

definition become_leader :: "'w env \<Rightarrow> 'w act" where
  "become_leader E c =
     (let s = first_state E c;
          c = c\<lparr>c_mode := Leader, c_leader_hint := Some (my_id c), c_election_scheduled := False,
                c_election_attempt := 0, c_lagging := [],
                c_followers := leader_followers (my_id c) (c_last_wall c) (c_join_votes c) (cs_nodes s),
                c_join_votes := [], c_drawn := c_drawn c + 1\<rparr>
      in run
        [add_note (NLeader (c_current_term c)),
         (\<lambda>c. case place E s c of (o2, s2, c2) \<Rightarrow> run [(\<lambda>c. Some (o2, c)), publish E s2] c2),
         (\<lambda>c. emit (Timer T_FOLLOWER_CHECK (tm_follower_check_interval (c_timings c))) c),
         (\<lambda>c. if ev_source E \<noteq> None then emit (Timer T_METADATA (c_metadata_poll c)) c else skip c)] c)"

text \<open>The four outcomes of a join whose term this node is in.\<close>

definition join_candidate :: "'w env \<Rightarrow> discovery_node \<Rightarrow> bool \<Rightarrow> 'w act" where
  "join_candidate E node vote c =
     (if \<not> vote then skip c
      else
        (let c = c\<lparr>c_join_votes := bm_insert (dn_id node) node (c_join_votes c)\<rparr> in
         if eligible c \<and> election_quorum (c_accepted c)
                            (insert (my_id c) (set (bm_keys (c_join_votes c))))
         then become_leader E c else skip c))"

definition join_leader :: "'w env \<Rightarrow> discovery_node \<Rightarrow> node_id \<Rightarrow> 'w act" where
  "join_leader E node from c =
     (if from = my_id c then skip c
      else
        (let c = c\<lparr>c_followers := bm_insert (dn_id node) \<lparr>fh_misses = 0, fh_last_ok = c_last_wall c\<rparr> (c_followers c),
                   c_pending_removals := bs_remove (dn_id node) (c_pending_removals c)\<rparr>
         in if bm_get (cs_nodes (c_committed c)) (dn_id node) = Some node
               \<and> dn_id node \<notin> set (c_lagging c)
            then answer_join from Response (no_body\<lparr>b_state := Some (c_committed c)\<rparr>) c
            else next_publication E
              (c\<lparr>c_lagging := bs_remove (dn_id node) (c_lagging c),
                 c_waiting_joins := bm_insert (dn_id node) node (c_waiting_joins c)\<rparr>)))"

definition join_behind :: "node_id \<Rightarrow> 'w act" where
  "join_behind from c =
     (if c_mode c = Leader
      then request from START_JOIN (no_body\<lparr>b_term := Some (c_current_term c)\<rparr>) c
      else answer_join from Error
        (term_leader c (case c_mode c of Follower l \<Rightarrow> Some l | _ \<Rightarrow> None)) c)"

definition note_held :: "body \<Rightarrow> 'w act" where
  "note_held b c =
     (case (b_held b, body_node_id b) of
        (Some h, Some n) \<Rightarrow> Some ([], c\<lparr>c_held := bm_insert n h (c_held c)\<rparr>)
      | _ \<Rightarrow> skip c)"

definition on_join :: "'w env \<Rightarrow> body \<Rightarrow> node_id \<Rightarrow> 'w act" where
  "on_join E b from =
     run
       [note_held b,
        (case body_node b of
           None \<Rightarrow> skip
         | Some node \<Rightarrow>
             run
               [saw_term E (opt 0 (b_term b)),
                learn node,
                (\<lambda>c.
                  if opt 0 (b_term b) < c_current_term c then join_behind from c
                  else if fresher (opt 0 (b_last_accepted_term b)) (opt 0 (b_last_accepted_version b))
                            (cs_term (c_accepted c)) (cs_version (c_accepted c))
                  then answer_join from Error (term_reason c ''fresher'') c
                  else case c_mode c of
                    Candidate \<Rightarrow> join_candidate E node (opt False (b_vote b)) c
                  | Leader \<Rightarrow> join_leader E node from c
                  | Follower l \<Rightarrow> answer_join from Error (term_leader c (Some l)) c)])]"

definition on_start_join :: "'w env \<Rightarrow> nat \<Rightarrow> node_id \<Rightarrow> 'w act" where
  "on_start_join E t from c =
     (if t \<le> c_current_term c then skip c
      else run
        [saw_term E t,
         upd (\<lambda>c. c\<lparr>c_last_join := Some (t, from)\<rparr>),
         (\<lambda>c. if from = my_id c then on_join E (join_body E c (my_id c)) (my_id c) c
              else join E from c)] c)"

definition start_election :: "'w env \<Rightarrow> 'w act" where
  "start_election E c =
     (let t = sat_add (max (c_max_term_seen c) (c_current_term c)) 1;
          c = c\<lparr>c_prevote_rid := 0, c_prevotes := []\<rparr>
      in run
        [add_note (NElection t),
         each (\<lambda>x. request x START_JOIN (no_body\<lparr>b_term := Some t\<rparr>)) (everyone c),
         on_start_join E t (my_id c)] c)"

end
