(* ===== verification/Coordinator.thy ===== *)
theory Coordinator
  imports Coordinator_Manager
begin

text \<open>
  The inputs of a coordinator (\<^verbatim>\<open>handle\<close> and \<^verbatim>\<open>on_message\<close> of
  \<^verbatim>\<open>src/src/cluster/coordinator.rs\<close>): the start, each timer, a peer found, a copy finished by the
  host, and each message by action and kind, one definition per arm.
\<close>

section \<open>The start\<close>

definition readable :: "'a entry \<Rightarrow> 'a option" where
  "readable e = (case e of Holds x \<Rightarrow> Some x | _ \<Rightarrow> None)"

text \<open>What was on disk survives a restart.\<close>

definition restore :: "'w coordinator \<Rightarrow> 'w coordinator" where
  "restore c =
     (let d = c_durable c;
          c = c\<lparr>c_committed := opt (c_committed c) (readable (du_committed d))\<rparr>;
          c = c\<lparr>c_accepted := c_committed c\<rparr>;
          c = (case readable (du_accepted d) of
                 Some s \<Rightarrow>
                   if fresher (cs_term s) (cs_version s) (cs_term (c_accepted c)) (cs_version (c_accepted c))
                   then c\<lparr>c_accepted := s\<rparr> else c
               | None \<Rightarrow> c);
          c = (case du_term d of
                 Absent \<Rightarrow> c
               | Unreadable \<Rightarrow> c\<lparr>c_current_term := 0\<rparr>
               | Holds t \<Rightarrow> c\<lparr>c_current_term := t\<rparr>);
          c = c\<lparr>c_current_term := max (c_current_term c) (cs_term (c_accepted c))\<rparr>
      in c\<lparr>c_max_term_seen := c_current_term c\<rparr>)"

definition metadata_timer :: "'w env \<Rightarrow> 'w act" where
  "metadata_timer E c =
     (if ev_source E \<noteq> None then emit (Timer T_METADATA (c_metadata_poll c)) c else skip c)"

definition on_start :: "'w env \<Rightarrow> 'w act" where
  "on_start E =
     run [upd restore,
          (\<lambda>c. each learn (bm_values (cs_nodes (c_accepted c))) c),
          bootstrap,
          become_candidate E,
          metadata_timer E]"

section \<open>Timers\<close>

definition on_discover_timer :: "'w env \<Rightarrow> 'w act" where
  "on_discover_timer E = run [upd (\<lambda>c. c\<lparr>c_leader_hint := None\<rparr>), bootstrap, discover E]"

definition on_election_timer :: "'w env \<Rightarrow> 'w act" where
  "on_election_timer E c0 =
     (let c = c0\<lparr>c_election_scheduled := False\<rparr> in
      if c_mode c \<noteq> Candidate \<or> \<not> eligible c then skip c
      else run
        [(\<lambda>c. case c_leader_hint c of Some l \<Rightarrow> join E l c | None \<Rightarrow> skip c),
         when_act (\<lambda>c. cs_last_accepted_config (c_accepted c) \<noteq> [])
           (run [prevote, when_act prevote_quorum (start_election E)]),
         when_act (\<lambda>c. c_mode c = Candidate) schedule_election] c)"

definition on_publish_timer :: "'w env \<Rightarrow> 'w act" where
  "on_publish_timer E c =
     (case c_publishing c of
        None \<Rightarrow> skip c
      | Some p \<Rightarrow>
          if pb_seq p \<noteq> c_publish_seq c \<or> c_mode c \<noteq> Leader then skip c
          else run [add_note (NPublicationTimedOut (cs_version (pb_state p))), become_candidate E] c)"

definition count_miss :: "node_id \<Rightarrow> 'w act" where
  "count_miss n c =
     (let h = opt fh_default (bm_get (c_followers c) n);
          h = h\<lparr>fh_misses := fh_misses h + 1\<rparr>;
          c = c\<lparr>c_followers := bm_insert n h (c_followers c)\<rparr>
      in if fh_misses h > tm_follower_check_retries (c_timings c)
         then run [add_note (NRemoved n),
                   upd (\<lambda>c. c\<lparr>c_pending_removals := bs_insert n (c_pending_removals c)\<rparr>)] c
         else skip c)"

definition check_follower :: "node_id \<Rightarrow> 'w act" where
  "check_follower n c =
     (if n \<in> set (c_pending_removals c) then skip c
      else
        (let (r, c) = rid c;
             c = c\<lparr>c_pending_checks := bm_insert r n (c_pending_checks c)\<rparr>
         in Some ([Send n (mk_request FOLLOWER_CHECK (my_id c) r
                             (no_body\<lparr>b_term := Some (c_current_term c)\<rparr>))], c)))"

definition on_follower_check_timer :: "'w env \<Rightarrow> 'w act" where
  "on_follower_check_timer E c =
     (if c_mode c \<noteq> Leader then skip c
      else run
        [(\<lambda>c. each count_miss (bm_values (c_pending_checks c)) (c\<lparr>c_pending_checks := []\<rparr>)),
         next_publication E,
         (\<lambda>c. each check_follower
                (filter (\<lambda>n. n \<noteq> my_id c) (bm_keys (cs_nodes (c_accepted c)))) c),
         (\<lambda>c. emit (Timer T_FOLLOWER_CHECK (tm_follower_check_interval (c_timings c))) c)] c)"

text \<open>Whether the manager's own metadata asks for a publication.\<close>

definition poll_metadata :: "'w env \<Rightarrow> 'w coordinator \<Rightarrow> 'w coordinator" where
  "poll_metadata E c =
     (case ev_source E of
        None \<Rightarrow> c
      | Some m \<Rightarrow>
          (let own = src_snapshot m (c_world c);
               moved = metadata_fingerprint E c own (cs_routing (c_committed c)) \<noteq> c_last_fingerprint c;
               stones = src_has_tombstones m (c_world c);
               ex = src_voting_exclusions m (c_world c)
           in c\<lparr>c_republish_wanted := (c_republish_wanted c \<or> moved \<or> stones \<or> ex \<noteq> c_exclusions c),
                c_exclusions := ex\<rparr>))"

definition on_metadata_timer :: "'w env \<Rightarrow> 'w act" where
  "on_metadata_timer E =
     run
       [(\<lambda>c. if c_mode c = Leader
             then run
               [upd (poll_metadata E),
                when_act (\<lambda>c. c_republish_wanted c \<and> c_publishing c = None) (add_note NMetadataChanged),
                next_publication E] c
             else report_metadata E c),
        metadata_timer E]"

definition on_allocate_timer :: "'w env \<Rightarrow> 'w act" where
  "on_allocate_timer E c =
     (if c_mode c \<noteq> Leader then skip c
      else next_publication E (c\<lparr>c_republish_wanted := True\<rparr>))"

definition on_leader_check_timer :: "'w env \<Rightarrow> 'w act" where
  "on_leader_check_timer E c =
     (case c_mode c of
        Follower leader \<Rightarrow>
          (let missed = (c_leader_check_outstanding c \<noteq> None);
               c = (if missed then c\<lparr>c_leader_misses := c_leader_misses c + 1\<rparr> else c)
           in if missed \<and> c_leader_misses c > tm_leader_check_retries (c_timings c)
              then run [add_note (NLostManager leader), become_candidate E] c
              else
                (let (r, c) = rid c
                 in Some ([Send leader (mk_request LEADER_CHECK (my_id c) r no_body),
                           Timer T_LEADER_CHECK (tm_leader_check_interval (c_timings c))],
                          c\<lparr>c_leader_check_outstanding := Some r\<rparr>)))
      | _ \<Rightarrow> skip c)"

section \<open>Peers and copies\<close>

definition on_peer :: "discovery_node \<Rightarrow> 'w act" where
  "on_peer node = run [learn node, bootstrap]"

definition on_shard_done :: "'w env \<Rightarrow> string \<Rightarrow> string option \<Rightarrow> 'w act" where
  "on_shard_done E aid failure c =
     (case bm_get (c_hosted c) aid of
        None \<Rightarrow> skip c
      | Some (index, shard) \<Rightarrow>
          run
            [(case failure of
                None \<Rightarrow>
                  run [upd (\<lambda>c. c\<lparr>c_started_here := bs_insert aid (c_started_here c)\<rparr>),
                       report (EvStarted index shard aid)]
              | Some message \<Rightarrow>
                  run [add_note (NShardFailedHere index shard message),
                       upd (\<lambda>c. c\<lparr>c_reported := bs_remove aid (c_reported c),
                                  c_started_here := bs_remove aid (c_started_here c)\<rparr>),
                       report (EvFailed index shard aid message)]),
             next_publication E] c)"

section \<open>Messages: discovery and the pre-vote\<close>

definition leader_named :: "'w coordinator \<Rightarrow> node_id option" where
  "leader_named c =
     (case c_mode c of Leader \<Rightarrow> Some (my_id c) | Follower l \<Rightarrow> Some l | Candidate \<Rightarrow> None)"

definition not_of_this_cluster :: "body envelope \<Rightarrow> 'w act" where
  "not_of_this_cluster e c = reply_error e (term_reason c ''not a node of this cluster'') c"

definition on_peers_request :: "body envelope \<Rightarrow> 'w act" where
  "on_peers_request e =
     run
       [(case body_node (en_body e) of
           Some n \<Rightarrow> when_act (\<lambda>c. knows c (dn_id n)) (learn n) | None \<Rightarrow> skip),
        (\<lambda>c. reply_ok e
               (no_body\<lparr>b_peers := Some (map Some (bm_values (c_peers c) @ [c_me c])),
                        b_leader := (case c_mode c of
                                       Candidate \<Rightarrow> c_leader_hint c | _ \<Rightarrow> leader_named c)\<rparr>) c)]"

definition follow_hint :: "'w env \<Rightarrow> node_id \<Rightarrow> 'w act" where
  "follow_hint E l c = join E l (c\<lparr>c_leader_hint := Some l\<rparr>)"

definition on_peers_response :: "'w env \<Rightarrow> body envelope \<Rightarrow> 'w act" where
  "on_peers_response E e =
     run
       [each (\<lambda>p. case p of Some n \<Rightarrow> learn n | None \<Rightarrow> skip) (opt [] (b_peers (en_body e))),
        (case b_leader (en_body e) of
           Some l \<Rightarrow>
             when_act (\<lambda>c. l \<noteq> my_id c \<and> c_mode c = Candidate \<and> c_leader_hint c \<noteq> Some l)
               (follow_hint E l)
         | None \<Rightarrow> skip)]"

definition on_prevote_request :: "body envelope \<Rightarrow> 'w act" where
  "on_prevote_request e c0 =
     (if \<not> knows c0 (en_from e) then not_of_this_cluster e c0
      else
        (let c = c0\<lparr>c_max_term_seen := max (c_max_term_seen c0) (opt 0 (b_term (en_body e)))\<rparr> in
         case leader_named c of
           Some l \<Rightarrow>
             if l \<noteq> en_from e then reply_error e (term_leader c (Some l)) c
             else reply_ok e
               (no_body\<lparr>b_term := Some (c_current_term c),
                        b_last_accepted_term := Some (cs_term (c_accepted c)),
                        b_last_accepted_version := Some (cs_version (c_accepted c))\<rparr>) c
         | None \<Rightarrow>
             reply_ok e
               (no_body\<lparr>b_term := Some (c_current_term c),
                        b_last_accepted_term := Some (cs_term (c_accepted c)),
                        b_last_accepted_version := Some (cs_version (c_accepted c))\<rparr>) c))"

definition on_prevote_response :: "'w env \<Rightarrow> body envelope \<Rightarrow> 'w act" where
  "on_prevote_response E e c0 =
     (if c_mode c0 \<noteq> Candidate \<or> en_request_id e \<noteq> c_prevote_rid c0 then skip c0
      else
        (let b = en_body e;
             t = opt 0 (b_term b);
             la_term = opt 0 (b_last_accepted_term b);
             la_version = opt 0 (b_last_accepted_version b);
             c = c0\<lparr>c_max_term_seen := max (c_max_term_seen c0) t\<rparr>
         in if fresher la_term la_version (cs_term (c_accepted c)) (cs_version (c_accepted c)) then skip c
            else
              (let c = c\<lparr>c_prevotes := bm_insert (en_from e) (t, la_term, la_version) (c_prevotes c)\<rparr>
               in if prevote_quorum c then start_election E (c\<lparr>c_prevotes := []\<rparr>) else skip c)))"

definition on_prevote_error :: "'w env \<Rightarrow> body envelope \<Rightarrow> 'w act" where
  "on_prevote_error E e =
     run
       [(case b_term (en_body e) of
           Some t \<Rightarrow> upd (\<lambda>c. c\<lparr>c_max_term_seen := max (c_max_term_seen c) t\<rparr>) | None \<Rightarrow> skip),
        (case b_leader (en_body e) of
           Some l \<Rightarrow> when_act (\<lambda>c. l \<noteq> my_id c \<and> c_mode c = Candidate) (follow_hint E l)
         | None \<Rightarrow> skip)]"

section \<open>Messages: joining\<close>

definition on_start_join_request :: "'w env \<Rightarrow> body envelope \<Rightarrow> 'w act" where
  "on_start_join_request E e c =
     (if \<not> knows c (en_from e) then not_of_this_cluster e c
      else run [reply_ok e no_body,
                on_start_join E (opt 0 (b_term (en_body e))) (en_from e)] c)"

definition on_join_error :: "'w env \<Rightarrow> body envelope \<Rightarrow> 'w act" where
  "on_join_error E e =
     run
       [(case b_term (en_body e) of Some t \<Rightarrow> saw_term E t | None \<Rightarrow> skip),
        (\<lambda>c. case b_leader (en_body e) of
           Some l \<Rightarrow>
             if l \<noteq> my_id c then
               when_act (\<lambda>c. c_mode c = Candidate \<and> c_leader_hint c \<noteq> Some l) (follow_hint E l) c
             else if c_leader_hint c = Some (en_from e) then Some ([], c\<lparr>c_leader_hint := None\<rparr>)
             else skip c
         | None \<Rightarrow>
             if c_leader_hint c = Some (en_from e) then Some ([], c\<lparr>c_leader_hint := None\<rparr>)
             else skip c)]"

definition leader_check_timer :: "'w act" where
  "leader_check_timer c = emit (Timer T_LEADER_CHECK (tm_leader_check_interval (c_timings c))) c"

text \<open>A manager just heard from, by a node that was not following it.\<close>

definition heard_first :: "'w act" where
  "heard_first =
     run [upd (\<lambda>c. c\<lparr>c_leader_misses := 0, c_last_leader_ok := c_last_wall c,
                     c_leader_check_outstanding := None\<rparr>),
          leader_check_timer]"

definition on_join_response :: "'w env \<Rightarrow> body envelope \<Rightarrow> 'w act" where
  "on_join_response E e c =
     (case b_state (en_body e) of
        None \<Rightarrow> skip c
      | Some s \<Rightarrow>
          if cs_term s \<noteq> c_current_term c then skip c
          else
            (let was = c_mode c in
             run
               [apply_committed s,
                upd (\<lambda>c. c\<lparr>c_mode := Follower (en_from e), c_leader_hint := Some (en_from e)\<rparr>),
                apply_shards E,
                (if was = Candidate then heard_first else skip)] c))"

section \<open>Messages: publication\<close>

definition publish_refusal :: "'w coordinator \<Rightarrow> cluster_state \<Rightarrow> string option" where
  "publish_refusal c s =
     (if cs_term s \<noteq> c_current_term c then Some ''term''
      else if cs_term s = cs_term (c_accepted c) \<and> cs_version s \<le> cs_version (c_accepted c)
      then Some ''stale''
      else if cs_cluster_uuid_committed (c_committed c)
              \<and> cs_cluster_uuid s \<noteq> cs_cluster_uuid (c_committed c)
      then Some ''cluster_uuid''
      else None)"

definition on_publish_request :: "'w env \<Rightarrow> body envelope \<Rightarrow> 'w act" where
  "on_publish_request E e c =
     (if \<not> knows c (en_from e) then not_of_this_cluster e c
      else case b_state (en_body e) of
        None \<Rightarrow> skip c
      | Some s \<Rightarrow>
        (case publish_refusal c s of
           Some why \<Rightarrow> reply_error e (term_reason c why) c
         | None \<Rightarrow>
             (let leader = opt (en_from e) (cs_cluster_manager s);
                  following = (c_mode c = Follower leader)
              in run
                [upd (\<lambda>c. c\<lparr>c_accepted := s\<rparr>),
                 persist_accepted,
                 upd (\<lambda>c. c\<lparr>c_mode := Follower leader, c_last_leader_ok := c_last_wall c,
                            c_leader_hint := Some leader, c_election_scheduled := False\<rparr>),
                 reply_ok e (commit_body s),
                 (if following then skip else heard_first)] c)))"

definition ack :: "node_id \<Rightarrow> nat \<Rightarrow> 'w coordinator \<Rightarrow> 'w coordinator" where
  "ack from r c =
     (case c_publishing c of
        Some p \<Rightarrow> if pb_rid p = r
                  then c\<lparr>c_publishing := Some (p\<lparr>pb_acked := bs_insert from (pb_acked p)\<rparr>)\<rparr> else c
      | None \<Rightarrow> c)"

definition acked_quorum :: "nat \<Rightarrow> 'w coordinator \<Rightarrow> bool" where
  "acked_quorum r c =
     (case c_publishing c of
        Some p \<Rightarrow> pb_rid p = r \<and> election_quorum (pb_state p) (set (pb_acked p))
      | None \<Rightarrow> False)"

definition on_publish_response :: "'w env \<Rightarrow> body envelope \<Rightarrow> 'w act" where
  "on_publish_response E e c =
     (if c_mode c \<noteq> Leader then skip c
      else
        (let c = ack (en_from e) (en_request_id e) c;
             t = opt 0 (b_term (en_body e));
             v = opt 0 (b_version (en_body e))
         in if acked_quorum (en_request_id e) c then commit_publication E c
            else if c_publishing c = None \<and> t = cs_term (c_committed c)
                    \<and> v = cs_version (c_committed c) \<and> bm_has (cs_nodes (c_committed c)) (en_from e)
            then request (en_from e) COMMIT (no_body\<lparr>b_term := Some t, b_version := Some v\<rparr>)
                   (c\<lparr>c_lagging := bs_remove (en_from e) (c_lagging c)\<rparr>)
            else skip c))"

definition on_publish_error :: "'w env \<Rightarrow> body envelope \<Rightarrow> 'w act" where
  "on_publish_error E e =
     run
       [(case b_term (en_body e) of Some t \<Rightarrow> saw_term E t | None \<Rightarrow> skip),
        upd (\<lambda>c. c\<lparr>c_lagging := bs_insert (en_from e) (c_lagging c)\<rparr>)]"

definition on_commit_request :: "'w env \<Rightarrow> body envelope \<Rightarrow> 'w act" where
  "on_commit_request E e c =
     (if \<not> knows c (en_from e) then not_of_this_cluster e c
      else
        (let t = opt 0 (b_term (en_body e)); v = opt 0 (b_version (en_body e)) in
         if t = c_current_term c \<and> cs_term (c_accepted c) = t \<and> cs_version (c_accepted c) = v then
           run
             [apply_committed (c_accepted c),
              upd (\<lambda>c. c\<lparr>c_last_leader_ok := c_last_wall c\<rparr>),
              reply_ok e no_body,
              apply_shards E,
              (\<lambda>c. add_note (NCommitted t v (length (cs_nodes (c_committed c)))
                               (length (cs_last_accepted_config (c_committed c)))) c)] c
         else skip c))"

section \<open>Messages: fault detection\<close>

definition follow_checker :: "body envelope \<Rightarrow> 'w act" where
  "follow_checker e =
     run
       [upd (\<lambda>c. c\<lparr>c_mode := Follower (en_from e), c_leader_hint := Some (en_from e),
                   c_election_scheduled := False, c_leader_misses := 0,
                   c_last_leader_ok := c_last_wall c, c_leader_check_outstanding := None\<rparr>),
        reply_ok e no_body,
        leader_check_timer]"

definition on_follower_check_request :: "'w env \<Rightarrow> body envelope \<Rightarrow> 'w act" where
  "on_follower_check_request E e c =
     (if \<not> knows c (en_from e) then not_of_this_cluster e c
      else
        (let t = opt 0 (b_term (en_body e)) in
         if t < c_current_term c
         then reply_error e (no_body\<lparr>b_term := Some (c_current_term c)\<rparr>) c
         else run
           [saw_term E t,
            (\<lambda>c. case c_mode c of
               Follower l \<Rightarrow>
                 if l = en_from e then reply_ok e no_body c
                 else reply_error e (term_reason c ''not my manager'') c
             | Candidate \<Rightarrow> follow_checker e c
             | Leader \<Rightarrow> reply_error e (term_reason c ''not my manager'') c)] c))"

definition on_follower_check_response :: "body envelope \<Rightarrow> 'w act" where
  "on_follower_check_response e c =
     (case bm_get (c_pending_checks c) (en_request_id e) of
        None \<Rightarrow> skip c
      | Some n \<Rightarrow>
          (let c = c\<lparr>c_pending_checks := bm_remove (en_request_id e) (c_pending_checks c)\<rparr> in
           case bm_get (c_followers c) n of
             None \<Rightarrow> skip c
           | Some h \<Rightarrow>
               Some ([], c\<lparr>c_followers :=
                            bm_insert n (h\<lparr>fh_misses := 0, fh_last_ok := c_last_wall c\<rparr>) (c_followers c)\<rparr>)))"

definition on_follower_check_error :: "'w env \<Rightarrow> body envelope \<Rightarrow> 'w act" where
  "on_follower_check_error E e =
     run
       [upd (\<lambda>c. c\<lparr>c_pending_checks := filter (\<lambda>(_, n). n \<noteq> en_from e) (c_pending_checks c),
                   c_followers :=
                     (case bm_get (c_followers c) (en_from e) of
                        Some h \<Rightarrow> bm_insert (en_from e)
                          (h\<lparr>fh_misses := tm_follower_check_retries (c_timings c) + 1\<rparr>) (c_followers c)
                      | None \<Rightarrow> c_followers c)\<rparr>),
        (case b_term (en_body e) of Some t \<Rightarrow> saw_term E t | None \<Rightarrow> skip)]"

definition on_leader_check_request :: "body envelope \<Rightarrow> 'w act" where
  "on_leader_check_request e c =
     (if c_mode c = Leader \<and> bm_has (cs_nodes (c_committed c)) (en_from e)
      then reply_ok e no_body c
      else reply_error e (term_reason c ''not the manager'') c)"

definition on_leader_check_response :: "body envelope \<Rightarrow> 'w act" where
  "on_leader_check_response e c =
     (if c_leader_check_outstanding c = Some (en_request_id e)
      then Some ([], c\<lparr>c_leader_check_outstanding := None, c_leader_misses := 0,
                       c_last_leader_ok := c_last_wall c\<rparr>)
      else skip c)"

definition on_leader_check_error :: "'w env \<Rightarrow> body envelope \<Rightarrow> 'w act" where
  "on_leader_check_error E e =
     run
       [(case b_term (en_body e) of Some t \<Rightarrow> saw_term E t | None \<Rightarrow> skip),
        when_act (\<lambda>c. c_mode c = Follower (en_from e)) (become_candidate E)]"

section \<open>Messages: copies, metadata, commands\<close>

definition not_the_manager :: "body envelope \<Rightarrow> 'w act" where
  "not_the_manager e c =
     reply_error e
       ((term_reason c ''not the manager'')
          \<lparr>b_leader := (case c_mode c of Follower l \<Rightarrow> Some l | _ \<Rightarrow> None)\<rparr>) c"

text \<open>The allocation id a report is about; a failure may name the node of the copy instead.\<close>

definition reported_copy :: "'w coordinator \<Rightarrow> body envelope \<Rightarrow> string" where
  "reported_copy c e =
     (let b = en_body e;
          index = opt [] (b_index b); shard = opt 0 (b_shard b) mod 2 ^ 32;
          routing = cs_routing (c_committed c);
          aid = opt [] (b_allocation_id b)
      in case (if en_action e = SHARD_FAILED then body_node_text b else None) of
           None \<Rightarrow> aid
         | Some named \<Rightarrow>
             (let primary = Option.bind (rt_primary routing index shard) sr_allocation_id;
                  here = filter (\<lambda>a. Some a \<noteq> primary)
                    (List.map_filter sr_allocation_id
                      (filter (\<lambda>r. sr_shard r = shard \<and> sr_node r = Some named)
                        (rt_shards_of routing index)))
              in case here of a # _ \<Rightarrow> a | [] \<Rightarrow> aid))"

text \<open>What is done with a report: refused with a reason, answered and dropped, or taken.\<close>

datatype report_verdict = Refused string | OutOfDate | Taken

definition judge_report ::
  "'w coordinator \<Rightarrow> string \<Rightarrow> string \<Rightarrow> nat \<Rightarrow> string \<Rightarrow> node_id \<Rightarrow> report_verdict" where
  "judge_report c action index shard aid from =
     (let routing = cs_routing (c_committed c); copies = rt_shards_of routing index in
      if action = SHARD_STARTED then
        (if \<exists>r \<in> set copies. sr_shard r = shard \<and> sr_allocation_id r = Some aid \<and> sr_node r = Some from
         then Taken
         else Refused ''a copy is reported started by the node it was placed on'')
      else if Option.bind (rt_primary routing index shard) sr_allocation_id = Some aid then OutOfDate
      else if \<not> (\<exists>r \<in> set copies. sr_shard r = shard \<and> sr_node r = Some from)
              \<and> Option.bind (rt_primary routing index shard) sr_node \<noteq> Some from
      then Refused ''a shard's copies are reported by a node holding one, never by anyone about the primary itself''
      else Taken)"

definition reported_event :: "body envelope \<Rightarrow> string \<Rightarrow> nat \<Rightarrow> string \<Rightarrow> shard_event" where
  "reported_event e index shard aid =
     (if en_action e = SHARD_STARTED then EvStarted index shard aid
      else if en_action e = SHARD_STALE then EvStale index shard aid
      else EvFailed index shard aid (opt [] (b_message (en_body e))))"

definition on_shard_request :: "'w env \<Rightarrow> body envelope \<Rightarrow> 'w act" where
  "on_shard_request E e c =
     (if c_mode c \<noteq> Leader then not_the_manager e c
      else if \<not> knows c (en_from e) then not_of_this_cluster e c
      else
        (let index = opt [] (b_index (en_body e));
             shard = opt 0 (b_shard (en_body e)) mod 2 ^ 32;
             aid = reported_copy c e
         in case judge_report c (en_action e) index shard aid (en_from e) of
              Refused why \<Rightarrow> reply_error e (term_reason c why) c
            | OutOfDate \<Rightarrow> run [reply_ok e no_body, next_publication E] c
            | Taken \<Rightarrow>
                next_publication E
                  (c\<lparr>c_shard_events := c_shard_events c @ [reported_event e index shard aid],
                     c_republish_wanted := True,
                     c_event_replies := c_event_replies c @ [(NOT_CARRIED, en_from e, e)]\<rparr>)))"

definition on_metadata_report :: "'w env \<Rightarrow> body envelope \<Rightarrow> 'w act" where
  "on_metadata_report E e c =
     (if c_mode c \<noteq> Leader then reply_error e (term_reason c ''not the manager'') c
      else
        (let reports = fold (\<lambda>m rs. case m of
                               Some meta \<Rightarrow> bm_insert (im_name meta) (en_from e, meta) rs
                             | None \<Rightarrow> rs) (opt [] (b_indices (en_body e))) (c_reports c);
             held = (case b_held (en_body e) of
                       Some h \<Rightarrow> bm_insert (en_from e) h (c_held c) | None \<Rightarrow> c_held c)
         in run [upd (\<lambda>c. c\<lparr>c_reports := reports, c_held := held, c_republish_wanted := True\<rparr>),
                 reply_ok e no_body,
                 next_publication E] c))"

definition reroute_context :: "'w env \<Rightarrow> 'w source \<Rightarrow> 'w coordinator \<Rightarrow> alloc_context" where
  "reroute_context E src c =
     (let snapshot = src_snapshot src (c_world c);
          settings = src_cluster_settings src (c_world c);
          home = bm_map (\<lambda>_ _. my_id c) snapshot
      in \<lparr>cx_nodes = cs_nodes (c_committed c), cx_indices = snapshot,
          cx_cluster = cluster_settings_from_value (ev_lib E) settings, cx_primary_home = home,
          cx_home_holds_documents = filter (\<lambda>n. src_holds_documents src n (c_world c)) (bm_keys home),
          cx_held = c_held c, cx_now = c_last_wall c, cx_lib = ev_lib E, cx_rand = ev_rand E\<rparr>)"

definition on_reroute :: "'w env \<Rightarrow> body envelope \<Rightarrow> 'w act" where
  "on_reroute E e c =
     (if c_mode c \<noteq> Leader then not_the_manager e c
      else case ev_source E of
        None \<Rightarrow> reply_error e (no_body\<lparr>b_text := Some ''no metadata source''\<rparr>) c
      | Some src \<Rightarrow>
          (let b = en_body e;
               ctx = reroute_context E src c;
               table = cs_routing (c_committed c);
               table = (if opt False (b_retry_failed b) then fst (retry_failed table) else table)
           in case apply_commands ctx (opt False (b_explain b)) (opt [] (b_commands b))
                     (table, [], c_drawn c) of
                Inl msg \<Rightarrow> reply_error e (no_body\<lparr>b_reason := Some msg\<rparr>) c
              | Inr (table, explanations, drawn) \<Rightarrow>
                  (case reroute ctx table drawn of
                     (after, _, drawn) \<Rightarrow>
                       run
                         [upd (\<lambda>c. c\<lparr>c_drawn := drawn\<rparr>),
                          reply_ok e (no_body\<lparr>b_state := Some ((c_committed c)\<lparr>cs_routing := after\<rparr>),
                                              b_explanations := Some explanations\<rparr>),
                          (if opt False (b_dry_run b) then skip
                           else (\<lambda>c. next_publication E
                                       (c\<lparr>c_command_table := Some table, c_republish_wanted := True\<rparr>)))] c)))"

definition on_leave :: "'w env \<Rightarrow> body envelope \<Rightarrow> 'w act" where
  "on_leave E e c =
     (if c_mode c = Leader
      then run [upd (\<lambda>c. c\<lparr>c_pending_removals := bs_insert (en_from e) (c_pending_removals c)\<rparr>),
                reply_ok e no_body,
                next_publication E] c
      else skip c)"

section \<open>The handler\<close>

definition on_request :: "'w env \<Rightarrow> body envelope \<Rightarrow> 'w act" where
  "on_request E e =
     (let a = en_action e in
      if a = PEERS then on_peers_request e
      else if a = PRE_VOTE then on_prevote_request e
      else if a = START_JOIN then on_start_join_request E e
      else if a = JOIN then on_join E (en_body e) (en_from e)
      else if a = PUBLISH then on_publish_request E e
      else if a = COMMIT then on_commit_request E e
      else if a = FOLLOWER_CHECK then on_follower_check_request E e
      else if a = LEADER_CHECK then on_leader_check_request e
      else if a = SHARD_STARTED \<or> a = SHARD_FAILED \<or> a = SHARD_STALE then on_shard_request E e
      else if a = METADATA_REPORT then on_metadata_report E e
      else if a = REROUTE then on_reroute E e
      else if a = LEAVE then on_leave E e
      else skip)"

definition on_response :: "'w env \<Rightarrow> body envelope \<Rightarrow> 'w act" where
  "on_response E e =
     (let a = en_action e in
      if a = PEERS then on_peers_response E e
      else if a = PRE_VOTE then on_prevote_response E e
      else if a = JOIN then on_join_response E e
      else if a = PUBLISH then on_publish_response E e
      else if a = FOLLOWER_CHECK then on_follower_check_response e
      else if a = LEADER_CHECK then on_leader_check_response e
      else skip)"

definition on_error :: "'w env \<Rightarrow> body envelope \<Rightarrow> 'w act" where
  "on_error E e =
     (let a = en_action e in
      if a = PRE_VOTE then on_prevote_error E e
      else if a = JOIN then on_join_error E e
      else if a = PUBLISH then on_publish_error E e
      else if a = FOLLOWER_CHECK then on_follower_check_error E e
      else if a = LEADER_CHECK then on_leader_check_error E e
      else skip)"

definition on_message :: "'w env \<Rightarrow> body envelope \<Rightarrow> 'w act" where
  "on_message E e =
     (case en_kind e of
        Request \<Rightarrow> on_request E e | Response \<Rightarrow> on_response E e | Error \<Rightarrow> on_error E e)"

definition on_timer :: "'w env \<Rightarrow> nat \<Rightarrow> 'w act" where
  "on_timer E t =
     (if t = T_DISCOVER then on_discover_timer E
      else if t = T_ELECTION then on_election_timer E
      else if t = T_PUBLISH then on_publish_timer E
      else if t = T_FOLLOWER_CHECK then on_follower_check_timer E
      else if t = T_METADATA then on_metadata_timer E
      else if t = T_ALLOCATE then on_allocate_timer E
      else if t = T_LEADER_CHECK then on_leader_check_timer E
      else skip)"

definition handle :: "'w env \<Rightarrow> in_msg \<Rightarrow> millis \<Rightarrow> 'w act" where
  "handle E i wall c0 =
     (let c = c0\<lparr>c_last_wall := wall\<rparr> in
      case i of
        Start \<Rightarrow> on_start E c
      | TimerFired t \<Rightarrow> on_timer E t c
      | PeerFound n \<Rightarrow> on_peer n c
      | ShardDone aid failure \<Rightarrow> on_shard_done E aid failure c
      | Message e \<Rightarrow> on_message E e c)"

end
