(* ===== verification/Network.thy ===== *)
theory Network
  imports Coordinator
begin

text \<open>
  A cluster of coordinators and the messages they have sent.  A message may be delivered late, more
  than once or never; a timer fires when it likes; a node may stop and start again from what it
  wrote to disk.  \<^verbatim>\<open>sim.rs\<close> runs the same nodes under one such schedule, drawn from a seed.
\<close>

record 'w network =
  nw_nodes :: "(node_id, 'w coordinator) bmap"
  nw_sent :: "(node_id \<times> body envelope) list"
  nw_notes :: "(node_id \<times> node_note) list"

fun sends :: "out_msg list \<Rightarrow> (node_id \<times> body envelope) list" where
  "sends [] = []"
| "sends (Send to e # os) = (to, e) # sends os"
| "sends (_ # os) = sends os"

fun notes_of :: "out_msg list \<Rightarrow> node_note list" where
  "notes_of [] = []"
| "notes_of (Note n # os) = n # notes_of os"
| "notes_of (_ # os) = notes_of os"

definition absorb :: "node_id \<Rightarrow> out_msg list \<times> 'w coordinator \<Rightarrow> 'w network \<Rightarrow> 'w network" where
  "absorb n r N =
     N\<lparr>nw_nodes := bm_insert n (snd r) (nw_nodes N),
       nw_sent := nw_sent N @ sends (fst r),
       nw_notes := nw_notes N @ map (Pair n) (notes_of (fst r))\<rparr>"

text \<open>What a node is started with: the arguments of \<^verbatim>\<open>Coordinator::new\<close> and the fields set after it.\<close>

record launch =
  la_me :: discovery_node
  la_cluster_name :: string
  la_cluster_uuid :: string
  la_initial_names :: "string list"
  la_seeds :: "node_id list"
  la_timings :: timings
  la_seed_hosts :: "string list"
  la_auto_shrink :: bool
  la_metadata_poll :: millis

datatype action =
    Deliver nat
  | Fire node_id nat
  | Meet node_id discovery_node
  | Finish node_id string "string option"
  | Restart node_id launch

text \<open>
  The logic made fresh, as a start after a crash does: only the disk and the world stay.  What the
  node is started with may be another setup than the last time's, under the same node id.
\<close>

definition launched :: "launch \<Rightarrow> string \<Rightarrow> durable \<Rightarrow> 'w \<Rightarrow> nat \<Rightarrow> 'w coordinator" where
  "launched la fresh du w drawn =
     (coordinator_new (la_me la) (la_cluster_name la) (la_cluster_uuid la) fresh
        (la_initial_names la) (la_seeds la) du w drawn)
       \<lparr>c_timings := la_timings la, c_seed_hosts := la_seed_hosts la, c_auto_shrink := la_auto_shrink la,
        c_metadata_poll := la_metadata_poll la\<rparr>"

definition reborn :: "launch \<Rightarrow> string \<Rightarrow> 'w coordinator \<Rightarrow> 'w coordinator" where
  "reborn la fresh c = launched la fresh (c_durable c) (c_world c) (c_drawn c + 1)"

definition tell ::
  "(node_id \<Rightarrow> 'w env) \<Rightarrow> node_id \<Rightarrow> in_msg \<Rightarrow> millis \<Rightarrow> ('w coordinator \<Rightarrow> 'w coordinator) \<Rightarrow>
   'w network \<Rightarrow> 'w network option" where
  "tell E n i wall f N =
     (case bm_get (nw_nodes N) n of
        None \<Rightarrow> None
      | Some c \<Rightarrow>
          (case handle (E n) i wall (f c) of
             None \<Rightarrow> None
           | Some r \<Rightarrow> Some (absorb n r N)))"

definition net_step ::
  "(node_id \<Rightarrow> 'w env) \<Rightarrow> millis \<Rightarrow> action \<Rightarrow> 'w network \<Rightarrow> 'w network option" where
  "net_step E wall a N =
     (case a of
        Deliver i \<Rightarrow>
          if i < length (nw_sent N)
          then tell E (fst (nw_sent N ! i)) (Message (snd (nw_sent N ! i))) wall (\<lambda>c. c) N
          else None
      | Fire n t \<Rightarrow> tell E n (TimerFired t) wall (\<lambda>c. c) N
      | Meet n d \<Rightarrow> tell E n (PeerFound d) wall (\<lambda>c. c) N
      | Finish n aid failure \<Rightarrow> tell E n (ShardDone aid failure) wall (\<lambda>c. c) N
      | Restart n la \<Rightarrow>
          if dn_id (la_me la) = n
          then tell E n Start wall (\<lambda>c. reborn la (ev_rand (E n) (c_drawn c)) c) N
          else None)"

fun play :: "(node_id \<Rightarrow> 'w env) \<Rightarrow> (millis \<times> action) list \<Rightarrow> 'w network \<Rightarrow> 'w network option" where
  "play E [] N = Some N"
| "play E ((wall, a) # as) N =
     (case net_step E wall a N of None \<Rightarrow> None | Some N' \<Rightarrow> play E as N')"

end
