(* ===== verification/Coordinator_Contract.thy ===== *)
theory Coordinator_Contract
  imports Network
begin

text \<open>
  What every act of a coordinator keeps.  A relation between the coordinator before, the outputs and
  the coordinator after that is reflexive and closed under sequencing (\<open>act_relation\<close>) is kept by
  a method when it is kept by the acts the method is made of.  \<open>quiet\<close> is the relation the
  elections rest on: apart from starting an election, answering one and counting a vote, nothing
  a coordinator does pledges its vote, claims a term or makes it the manager.
\<close>

section \<open>Relations closed under sequencing\<close>

definition holds ::
  "('w coordinator \<Rightarrow> out_msg list \<Rightarrow> 'w coordinator \<Rightarrow> bool) \<Rightarrow> 'w coordinator \<Rightarrow>
   (out_msg list \<times> 'w coordinator) option \<Rightarrow> bool" where
  "holds R c r = (\<forall>os c'. r = Some (os, c') \<longrightarrow> R c os c')"

lemma holds_None [simp]: "holds R c None"
  by (simp add: holds_def)

lemma holds_Some [simp]: "holds R c (Some (os, c')) = R c os c'"
  by (simp add: holds_def)

declare run.simps [simp del]

lemma run_Nil [simp]: "run [] c = Some ([], c)"
  by (simp add: run.simps)

lemma run_upd [simp]: "run (upd f # as) c = run as (f c)"
  by (simp add: run.simps upd_def split: option.splits)

lemma run_skip [simp]: "run (skip # as) c = run as c"
  by (simp add: run.simps skip_def split: option.splits)

lemma run_one [simp]: "run [a] c = a c"
  by (simp add: run.simps split: option.splits)

lemma run_ConsE:
  assumes "run (a # as) c = Some (os, c')"
  obtains o1 c1 o2 where "a c = Some (o1, c1)" and "run as c1 = Some (o2, c')" and "os = o1 @ o2"
  using assms by (auto simp: run.simps split: option.splits)

lemma holds_if: "(b \<Longrightarrow> holds R c x) \<Longrightarrow> (\<not> b \<Longrightarrow> holds R c y) \<Longrightarrow> holds R c (if b then x else y)"
  by simp

lemma holds_option:
  "(x = None \<Longrightarrow> holds R c y) \<Longrightarrow> (\<And>v. x = Some v \<Longrightarrow> holds R c (z v)) \<Longrightarrow>
   holds R c (case x of None \<Rightarrow> y | Some v \<Rightarrow> z v)"
  by (cases x) simp_all

lemma holds_option_act:
  "(x = None \<Longrightarrow> holds R c (y c)) \<Longrightarrow> (\<And>v. x = Some v \<Longrightarrow> holds R c (z v c)) \<Longrightarrow>
   holds R c ((case x of None \<Rightarrow> y | Some v \<Rightarrow> z v) c)"
  by (cases x) simp_all

lemma holds_if_act:
  "(b \<Longrightarrow> holds R c (x c)) \<Longrightarrow> (\<not> b \<Longrightarrow> holds R c (y c)) \<Longrightarrow> holds R c ((if b then x else y) c)"
  by simp

lemma holds_prod: "(\<And>a b. x = (a, b) \<Longrightarrow> holds R c (f a b)) \<Longrightarrow> holds R c (case x of (a, b) \<Rightarrow> f a b)"
  by (cases x) simp

lemma holds_mode:
  "(x = Candidate \<Longrightarrow> holds R c y) \<Longrightarrow> (\<And>l. x = Follower l \<Longrightarrow> holds R c (z l)) \<Longrightarrow>
   (x = Leader \<Longrightarrow> holds R c w) \<Longrightarrow>
   holds R c (case x of Candidate \<Rightarrow> y | Follower l \<Rightarrow> z l | Leader \<Rightarrow> w)"
  by (cases x) simp_all

lemma holds_sum:
  "(\<And>a. x = Inl a \<Longrightarrow> holds R c (f a)) \<Longrightarrow> (\<And>b. x = Inr b \<Longrightarrow> holds R c (g b)) \<Longrightarrow>
   holds R c (case x of Inl a \<Rightarrow> f a | Inr b \<Rightarrow> g b)"
  by (cases x) simp_all

lemmas holds_splits = holds_sum holds_if holds_option holds_option_act holds_if_act holds_prod holds_mode

locale act_relation =
  fixes R :: "'w coordinator \<Rightarrow> out_msg list \<Rightarrow> 'w coordinator \<Rightarrow> bool"
  assumes R_refl: "R c [] c"
    and R_trans: "R c o1 c1 \<Longrightarrow> R c1 o2 c2 \<Longrightarrow> R c (o1 @ o2) c2"
begin

lemma holds_skip: "holds R c (skip c)"
  by (simp add: skip_def R_refl)

lemma holds_run_Nil: "holds R c (run [] c)"
  by (simp add: run.simps R_refl)

lemma holds_run_Cons:
  "holds R c (a c) \<Longrightarrow> (\<And>c1. holds R c1 (run as c1)) \<Longrightarrow> holds R c (run (a # as) c)"
  by (auto simp: holds_def run.simps split: option.splits intro: R_trans)

lemma holds_each:
  "(\<And>x c. x \<in> set xs \<Longrightarrow> holds R c (f x c)) \<Longrightarrow> holds R c (each f xs c)"
proof (induction xs arbitrary: c)
  case Nil
  then show ?case by (simp add: each_def run.simps R_refl)
next
  case (Cons x xs)
  have "holds R c (run (f x # map f xs) c)"
    by (rule holds_run_Cons) (use Cons in \<open>auto simp: each_def\<close>)
  then show ?case by (simp add: each_def)
qed

lemma holds_when: "(P c \<Longrightarrow> holds R c (a c)) \<Longrightarrow> holds R c (when_act P a c)"
  by (simp add: when_act_def holds_skip)

lemma holds_pre: "R c [] c1 \<Longrightarrow> holds R c1 r \<Longrightarrow> holds R c r"
  unfolding holds_def by (metis R_trans append_Nil)

lemma holds_upd: "R c [] (f c) \<Longrightarrow> holds R c (upd f c)"
  by (simp add: upd_def)

lemma holds_emit: "R c [x] c \<Longrightarrow> holds R c (emit x c)"
  by (simp add: emit_def)

lemma holds_publish:
  assumes start: "\<And>s c os c'. publish_start s c = (os, c') \<Longrightarrow> R c os c'"
    and commit: "\<And>c. holds R c (commit_now E c)"
    and next_one: "\<And>c x c'. next_state E c = (x, c') \<Longrightarrow>
      R c (case x of None \<Rightarrow> [] | Some (os, s) \<Rightarrow> os) c'"
  shows "holds R c (publish E s c)"
proof -
  have "E' = E \<longrightarrow> R c (fst y) (snd y)" if "publish E' s c = Some y" for E' s c y
  proof (rule publish.raw_induct [where P = "\<lambda>E' s c y. E' = E \<longrightarrow> R c (fst y) (snd y)", OF _ that],
      rule impI)
    fix pub :: "'w env \<Rightarrow> cluster_state \<Rightarrow> 'w coordinator \<Rightarrow> (out_msg list \<times> 'w coordinator) option"
      and E' s c y
    assume IH: "\<And>E' s c y. pub E' s c = Some y \<Longrightarrow> E' = E \<longrightarrow> R c (fst y) (snd y)"
      and step: "(case publish_start s c of (o1, c1) \<Rightarrow>
          if publication_quorum c1
          then Option.bind (commit_now E' c1) (\<lambda>r. case r of (o2, c2) \<Rightarrow>
                 case next_state E' c2 of (None, c3) \<Rightarrow> Some (o1 @ o2, c3)
                 | (Some (o3, s3), c3) \<Rightarrow> Option.bind (pub E' s3 c3) (\<lambda>r. case r of (o4, c4) \<Rightarrow>
                     Some (o1 @ o2 @ o3 @ o4, c4)))
          else Some (o1, c1)) = Some y"
      and E: "E' = E"
    obtain o1 c1 where st: "publish_start s c = (o1, c1)" by (cases "publish_start s c")
    have r1: "R c o1 c1" by (rule start [OF st])
    show "R c (fst y) (snd y)"
    proof (cases "publication_quorum c1")
      case False
      with step st r1 show ?thesis by auto
    next
      case True
      with step st E obtain o2 c2 where cm: "commit_now E c1 = Some (o2, c2)"
        by (cases "commit_now E c1") auto
      have r2: "R c (o1 @ o2) c2"
        by (rule R_trans [OF r1]) (use commit [of c1] cm in simp)
      obtain x c3 where ns: "next_state E c2 = (x, c3)" by (cases "next_state E c2")
      have r3: "R c ((o1 @ o2) @ (case x of None \<Rightarrow> [] | Some (os, s) \<Rightarrow> os)) c3"
        by (rule R_trans [OF r2 next_one [OF ns]])
      show ?thesis
      proof (cases x)
        case None
        with step E st True cm ns r3 show ?thesis by auto
      next
        case (Some os)
        then obtain o3 s3 where x: "x = Some (o3, s3)" by (cases os) auto
        with step E st True cm ns obtain o4 c4 where p: "pub E s3 c3 = Some (o4, c4)"
          and y: "y = (o1 @ o2 @ o3 @ o4, c4)" by (auto simp: Option.bind_eq_Some_conv)
        have "R c3 o4 c4" using IH [OF p] by simp
        from R_trans [OF r3 this] x y show ?thesis by simp
      qed
    qed
  qed
  then show ?thesis by (auto simp: holds_def)
qed

lemma holds_next_publication:
  assumes start: "\<And>s c os c'. publish_start s c = (os, c') \<Longrightarrow> R c os c'"
    and commit: "\<And>c. holds R c (commit_now E c)"
    and next_one: "\<And>c x c'. next_state E c = (x, c') \<Longrightarrow>
      R c (case x of None \<Rightarrow> [] | Some (os, s) \<Rightarrow> os) c'"
  shows "holds R c (next_publication E c)"
proof -
  obtain x c1 where ns: "next_state E c = (x, c1)" by (cases "next_state E c")
  have p: "holds R c1 (publish E s c1)" for s by (rule holds_publish [OF start commit next_one])
  from next_one [OF ns] ns p show ?thesis
    by (auto simp: next_publication_def holds_def run.simps split: option.splits prod.splits
        intro: R_trans)
qed

lemmas holds_intros = holds_skip holds_run_Nil holds_run_Cons holds_each holds_when

end

section \<open>The relation of the elections\<close>

text \<open>The envelopes whose answers wait are reports about copies.\<close>

definition shard_action :: "string \<Rightarrow> bool" where
  "shard_action a = (a = SHARD_STARTED \<or> a = SHARD_FAILED \<or> a = SHARD_STALE)"

definition replies_ok :: "'w coordinator \<Rightarrow> bool" where
  "replies_ok c = (\<forall>(_, _, e) \<in> set (c_event_replies c). shard_action (en_action e))"

definition is_request :: "string \<Rightarrow> body envelope \<Rightarrow> bool" where
  "is_request a e = (en_kind e = Request \<and> en_action e = a)"

fun quiet_msg :: "'w coordinator \<Rightarrow> 'w coordinator \<Rightarrow> out_msg \<Rightarrow> bool" where
  "quiet_msg c c' (Send to e) =
     (en_from e = my_id c
      \<and> (is_request START_JOIN e \<longrightarrow> c_mode c = Leader \<and> b_term (en_body e) = Some (c_current_term c))
      \<and> (is_request JOIN e \<longrightarrow>
           (\<exists>t. b_term (en_body e) = Some t \<and> c_current_term c \<le> t \<and> t \<le> c_current_term c'
                \<and> b_node (en_body e) = NodeOf (c_me c)
                \<and> (b_vote (en_body e) = Some True \<longrightarrow> c_last_join c = Some (t, to)))))"
| "quiet_msg c c' (Note n) = ((\<forall>t. n \<noteq> NElection t) \<and> (\<forall>t. n \<noteq> NLeader t))"
| "quiet_msg c c' _ = True"

definition quiet :: "'w coordinator \<Rightarrow> out_msg list \<Rightarrow> 'w coordinator \<Rightarrow> bool" where
  "quiet c os c' =
     (c_me c' = c_me c \<and> c_notes c' = c_notes c
      \<and> c_current_term c \<le> c_current_term c'
      \<and> c_last_join c' = c_last_join c
      \<and> (set (bm_keys (c_join_votes c')) \<subseteq>
           (if c_current_term c' = c_current_term c then set (bm_keys (c_join_votes c)) else {}))
      \<and> (c_mode c' = Leader \<longrightarrow> c_mode c = Leader \<and> c_current_term c' = c_current_term c)
      \<and> (replies_ok c \<longrightarrow> replies_ok c' \<and> (\<forall>m \<in> set os. quiet_msg c c' m)))"

lemma quiet_msg_later:
  "quiet_msg c c1 m \<Longrightarrow> c_current_term c1 \<le> c_current_term c2 \<Longrightarrow> quiet_msg c c2 m"
  by (cases m) auto

lemma quiet_msg_earlier:
  assumes "quiet c os c1" and "quiet_msg c1 c2 m"
  shows "quiet_msg c c2 m"
proof (cases m)
  case (Send to e)
  with assms show ?thesis by (auto simp: quiet_def my_id_def)
qed (use assms in auto)

interpretation quiet: act_relation quiet
proof
  fix c :: "'w coordinator"
  show "quiet c [] c" by (simp add: quiet_def)
next
  fix c c1 c2 :: "'w coordinator" and o1 o2
  assume a: "quiet c o1 c1" and b: "quiet c1 o2 c2"
  have "\<forall>m \<in> set (o1 @ o2). quiet_msg c c2 m" if "replies_ok c"
  proof
    fix m
    assume m: "m \<in> set (o1 @ o2)"
    from that a have r1: "replies_ok c1" by (simp add: quiet_def)
    show "quiet_msg c c2 m"
    proof (cases "m \<in> set o1")
      case True
      with that a have "quiet_msg c c1 m" by (simp add: quiet_def)
      then show ?thesis by (rule quiet_msg_later) (use b in \<open>simp add: quiet_def\<close>)
    next
      case False
      with m r1 b have "quiet_msg c1 c2 m" by (simp add: quiet_def)
      with a show ?thesis by (rule quiet_msg_earlier)
    qed
  qed
  with a b show "quiet c (o1 @ o2) c2"
    unfolding quiet_def by (auto split: if_splits)
qed

lemma quiet_silent:
  assumes "c_me c' = c_me c" and "c_notes c' = c_notes c" and "c_current_term c' = c_current_term c"
    and "c_last_join c' = c_last_join c" and "c_join_votes c' = c_join_votes c"
    and "c_mode c' = Leader \<Longrightarrow> c_mode c = Leader"
    and "replies_ok c \<Longrightarrow> replies_ok c' \<and> (\<forall>m \<in> set os. quiet_msg c c' m)"
  shows "quiet c os c'"
  using assms by (simp add: quiet_def)

lemma replies_ok_cong: "c_event_replies c' = c_event_replies c \<Longrightarrow> replies_ok c' = replies_ok c"
  by (simp add: replies_ok_def)

lemma term_leq_refl: "(t::nat) \<le> t" by simp

named_theorems quiet_acts

lemma quiet_skip [quiet_acts]: "holds quiet c (skip c)"
  by (rule quiet.holds_skip)

lemma quiet_world [quiet_acts]: "holds quiet c (world_act f c)"
  by (auto simp: world_act_def upd_def intro!: quiet_silent simp: replies_ok_def)

lemma quiet_note [quiet_acts]:
  "(\<forall>t. n \<noteq> NElection t) \<Longrightarrow> (\<forall>t. n \<noteq> NLeader t) \<Longrightarrow> holds quiet c (add_note n c)"
  unfolding add_note_def by (rule quiet.holds_when) (auto simp: emit_def intro!: quiet_silent)

lemma quiet_timer [quiet_acts]: "holds quiet c (emit (Timer i t) c)"
  by (auto simp: emit_def intro!: quiet_silent)

lemma quiet_request [quiet_acts]:
  "a \<noteq> START_JOIN \<Longrightarrow> a \<noteq> JOIN \<Longrightarrow> holds quiet c (request to a b c)"
  by (auto simp: request_def rid_def Let_def mk_request_def is_request_def my_id_def replies_ok_def
      intro!: quiet_silent)

lemma quiet_reply_ok [quiet_acts]: "holds quiet c (reply_ok e b c)"
  by (auto simp: reply_ok_def mk_response_def is_request_def intro!: quiet_silent)

lemma quiet_reply_error [quiet_acts]: "holds quiet c (reply_error e b c)"
  by (auto simp: reply_error_def mk_error_def is_request_def intro!: quiet_silent)

lemma quiet_answer_join [quiet_acts]: "holds quiet c (answer_join to k b c)"
  by (auto simp: answer_join_def rid_def Let_def mk_error_def mk_response_def is_request_def my_id_def
      replies_ok_def intro!: quiet_silent)

lemma quiet_join [quiet_acts]: "holds quiet c (join E to c)"
  by (auto simp: join_def join_body_def request_def rid_def Let_def mk_request_def is_request_def
      my_id_def replies_ok_def action_defs intro!: quiet_silent)

lemma quiet_persist_accepted [quiet_acts]: "holds quiet c (persist_accepted c)"
  by (auto simp: persist_accepted_def upd_def replies_ok_def intro!: quiet_silent)

lemma quiet_persist_committed [quiet_acts]: "holds quiet c (persist_committed c)"
  by (auto simp: persist_committed_def upd_def replies_ok_def intro!: quiet_silent)

lemma quiet_learn [quiet_acts]: "holds quiet c (learn n c)"
  by (auto simp: learn_def replies_ok_def quiet_skip intro!: quiet_silent)

lemma quiet_schedule_election [quiet_acts]: "holds quiet c (schedule_election c)"
  by (auto simp: schedule_election_def Let_def replies_ok_def split: prod.splits intro!: quiet_silent)

lemma quiet_prevote [quiet_acts]: "holds quiet c (prevote c)"
  by (auto simp: prevote_def rid_def Let_def replies_ok_def mk_request_def is_request_def my_id_def
      action_defs intro!: quiet_silent)

lemma quiet_dial [quiet_acts]: "holds quiet c (emit (Dial h) c)"
  by (auto simp: emit_def intro!: quiet_silent)

lemma quiet_discover [quiet_acts]: "holds quiet c (discover E c)"
  unfolding discover_def
  by (intro holds_splits quiet.holds_intros quiet_acts) (simp_all add: action_defs)

section \<open>Acts that are quiet\<close>

text \<open>A change that touches none of what the elections look at.\<close>

lemma quiet_upd:
  assumes "c_me (f c) = c_me c" and "c_notes (f c) = c_notes c"
    and "c_current_term (f c) = c_current_term c"
    and "c_last_join (f c) = c_last_join c" and "c_join_votes (f c) = c_join_votes c"
    and "c_mode (f c) = Leader \<Longrightarrow> c_mode c = Leader"
    and "c_event_replies (f c) = c_event_replies c"
  shows "holds quiet c (upd f c)"
  using assms by (auto simp: upd_def replies_ok_def intro!: quiet_silent)

lemma quiet_fail_waiting [quiet_acts]: "holds quiet c (fail_waiting c)"
  by (auto simp: fail_waiting_def replies_ok_def mk_error_def is_request_def intro!: quiet_silent)

lemma quiet_become_candidate [quiet_acts]: "holds quiet c (become_candidate E c)"
  unfolding become_candidate_def
  by (intro holds_splits quiet.holds_intros quiet_acts quiet_upd) simp_all

lemma quiet_bootstrap [quiet_acts]: "holds quiet c (bootstrap c)"
  unfolding bootstrap_def Let_def
  by (intro holds_splits quiet.holds_intros quiet_acts quiet_upd) simp_all

lemma quiet_report [quiet_acts]: "holds quiet c (report ev c)"
proof -
  have "event_action ev \<noteq> START_JOIN \<and> event_action ev \<noteq> JOIN"
    by (cases ev) (simp_all add: action_defs)
  then show ?thesis
    unfolding report_def
    by (intro holds_splits quiet_acts) (auto simp: replies_ok_def intro!: quiet_silent)
qed

text \<open>A method called on a coordinator changed in a field the elections do not look at.\<close>

definition same_core :: "'w coordinator \<Rightarrow> 'w coordinator \<Rightarrow> bool" where
  "same_core c1 c =
     (c_me c1 = c_me c \<and> c_notes c1 = c_notes c \<and> c_current_term c1 = c_current_term c
      \<and> c_last_join c1 = c_last_join c \<and> c_join_votes c1 = c_join_votes c \<and> c_mode c1 = c_mode c
      \<and> (replies_ok c \<longrightarrow> replies_ok c1))"

lemma same_core_quiet: "same_core c1 c \<Longrightarrow> quiet c [] c1"
  by (auto simp: same_core_def intro!: quiet_silent)

lemma quiet_from: "holds quiet c1 r \<Longrightarrow> same_core c1 c \<Longrightarrow> holds quiet c r"
  by (rule quiet.holds_pre [OF same_core_quiet])

lemma quiet_report_metadata [quiet_acts]: "holds quiet c (report_metadata E c)"
  unfolding report_metadata_def Let_def
  by (intro holds_splits quiet_acts quiet_from [OF quiet_skip] quiet_from [OF quiet_request])
    (simp_all add: same_core_def replies_ok_def action_defs)

lemma quiet_settle [quiet_acts]: "holds quiet c (settle_act src c)"
  unfolding settle_act_def by (intro holds_splits quiet_acts)

lemma quiet_apply_index [quiet_acts]: "holds quiet c (apply_index_act src nm c)"
  unfolding apply_index_act_def by (intro quiet.holds_intros quiet_acts)

lemma quiet_apply_customs [quiet_acts]: "holds quiet c (apply_customs_act E src c)"
  unfolding apply_customs_act_def Let_def
  by (intro holds_splits quiet_acts) (auto simp: replies_ok_def intro!: quiet_silent)

lemma quiet_let_go [quiet_acts]: "holds quiet c (let_go src nm c)"
  unfolding let_go_def Let_def by (intro holds_splits quiet.holds_intros quiet_acts) simp_all

lemma quiet_apply_metadata [quiet_acts]: "holds quiet c (apply_metadata E c)"
  unfolding apply_metadata_def by (intro holds_splits quiet.holds_intros quiet_acts)

lemma quiet_note_allocations [quiet_acts]: "holds quiet c (note_allocations E mine c)"
  unfolding note_allocations_def by (intro holds_splits quiet.holds_intros quiet_acts)

lemma quiet_report_again [quiet_acts]: "holds quiet c (report_again r c)"
  unfolding report_again_def by (intro holds_splits quiet_acts)

lemma quiet_resync_send [quiet_acts]: "holds quiet c (resync_send E r c)"
  unfolding resync_send_def Let_def
  by (intro holds_splits quiet.holds_intros quiet_acts) simp_all

lemma quiet_resync [quiet_acts]: "holds quiet c (resync_copy E r c)"
  unfolding resync_copy_def Let_def
  by (intro holds_splits quiet.holds_intros quiet_acts quiet_upd) simp_all

lemma ask_host_core: "ask_host E r c = (res, c1) \<Longrightarrow> same_core c1 c"
  by (auto simp: ask_host_def same_core_def replies_ok_def Let_def split: option.splits prod.splits)

lemma same_core_trans: "same_core a b \<Longrightarrow> same_core b c \<Longrightarrow> same_core a c"
  by (simp add: same_core_def)

lemma same_core_hosted: "same_core (c\<lparr>c_hosted := h\<rparr>) c" "same_core (c\<lparr>c_reported := x\<rparr>) c"
  "same_core (c\<lparr>c_started_here := y\<rparr>) c"
  by (simp_all add: same_core_def replies_ok_def)

lemma quiet_start_copy [quiet_acts]: "holds quiet c (start_copy E r c)"
proof (cases "sr_allocation_id r")
  case None
  then show ?thesis by (simp add: start_copy_def quiet_skip)
next
  case (Some aid)
  obtain res c1 where ask: "ask_host E r (c\<lparr>c_reported := bs_insert aid (c_reported c)\<rparr>) = (res, c1)"
    by (cases "ask_host E r (c\<lparr>c_reported := bs_insert aid (c_reported c)\<rparr>)")
  have core: "same_core (c1\<lparr>c_hosted := h\<rparr>) c" for h
    by (rule same_core_trans [OF same_core_hosted(1) same_core_trans [OF ask_host_core [OF ask]]])
      (rule same_core_hosted)
  have core': "same_core (c1\<lparr>c_hosted := h, c_started_here := y\<rparr>) c" for h y
    by (rule same_core_trans [OF same_core_hosted(3) core])
  show ?thesis
    using Some ask core core'
    by (auto simp: start_copy_def Let_def quiet_skip split: sum.splits bool.splits
        intro: quiet_from [OF quiet_report] quiet_from [OF quiet_skip])
qed

lemma quiet_remove_copy [quiet_acts]: "holds quiet c (remove_copy E g c)"
  unfolding remove_copy_def Let_def
  by (intro holds_splits quiet.holds_intros quiet_acts quiet_upd)
    (auto simp: forget_copy_def replies_ok_def intro!: quiet_silent)

lemma quiet_apply_shards [quiet_acts]: "holds quiet c (apply_shards E c)"
  unfolding apply_shards_def Let_def
  by (intro quiet.holds_intros quiet_acts quiet_upd) simp_all

lemma quiet_apply_committed [quiet_acts]: "holds quiet c (apply_committed s c)"
  unfolding apply_committed_def Let_def
  by (intro holds_splits quiet.holds_intros quiet_acts quiet_upd) simp_all

lemma quiet_answer_waiting [quiet_acts]: "holds quiet c (answer_waiting c)"
  by (auto simp: answer_waiting_def Let_def replies_ok_def mk_response_def is_request_def
      intro!: quiet_silent)

lemma quiet_send [quiet_acts]:
  "a \<noteq> START_JOIN \<Longrightarrow> a \<noteq> JOIN \<Longrightarrow> holds quiet c (emit (Send n (mk_request a (my_id c) r b)) c)"
  by (auto simp: emit_def mk_request_def is_request_def intro!: quiet_silent)

lemma rid_core: "rid c = (r, c1) \<Longrightarrow> same_core c1 c"
  by (auto simp: rid_def same_core_def replies_ok_def)

lemma same_core_publishing: "same_core (c\<lparr>c_publishing := p\<rparr>) c"
  by (simp add: same_core_def replies_ok_def)

lemma quiet_commit_run [quiet_acts]: "holds quiet c (commit_run E p r c)"
  unfolding commit_run_def Let_def
  by (intro quiet.holds_intros quiet_acts quiet_upd) (simp_all add: action_defs)

lemma quiet_commit_now [quiet_acts]: "holds quiet c (commit_now E c)"
  unfolding commit_now_def Let_def
  by (intro holds_splits quiet_acts, rule quiet_from [OF quiet_commit_run])
    (rule same_core_trans [OF rid_core same_core_publishing])

section \<open>Placement and publication are quiet\<close>

lemma place_core: "place E s c = (os, s', c') \<Longrightarrow>
    c_me c' = c_me c \<and> c_notes c' = c_notes c \<and> c_current_term c' = c_current_term c
    \<and> c_last_join c' = c_last_join c \<and> c_join_votes c' = c_join_votes c \<and> c_mode c' = c_mode c
    \<and> (replies_ok c \<longrightarrow> replies_ok c')"
  by (auto simp: place_def Let_def replies_ok_def split: option.splits prod.splits)

lemma place_outputs_quiet:
  "m \<in> set (place_outputs c ch) \<Longrightarrow> quiet_msg c1 c2 m"
  by (auto simp: place_outputs_def split: if_splits option.splits)

lemma in_sync_notes_quiet:
  "m \<in> set (in_sync_notes i p r) \<Longrightarrow> quiet_msg c1 c2 m"
  by (auto simp: in_sync_notes_def Let_def split: if_splits)

lemma place_msgs: "place E s c = (os, s', c') \<Longrightarrow> m \<in> set os \<Longrightarrow> quiet_msg c1 c2 m"
  by (auto simp: place_def Let_def split: option.splits prod.splits if_splits
      dest: place_outputs_quiet in_sync_notes_quiet)

lemma place_quiet: "place E s c = (os, s', c') \<Longrightarrow> quiet c os c'"
  using place_core [of E s c os s' c'] place_msgs [of E s c os s' c']
  by (intro quiet_silent) auto

lemma publish_start_quiet: "publish_start s c = (os, c') \<Longrightarrow> quiet c os c'"
  by (auto simp: publish_start_def rid_def Let_def replies_ok_def mk_request_def is_request_def
      my_id_def action_defs intro!: quiet_silent)

lemma next_draft_core: "next_draft E c = (ch, s, c') \<Longrightarrow> same_core c' c"
  by (auto simp: next_draft_def Let_def same_core_def replies_ok_def)

lemma same_core_republish: "same_core (c\<lparr>c_republish_wanted := b\<rparr>) c"
  and same_core_followers: "same_core (c\<lparr>c_followers := f\<rparr>) c"
  by (simp_all add: same_core_def replies_ok_def)

lemma next_state_quiet:
  assumes "next_state E c = (x, c')"
  shows "quiet c (case x of None \<Rightarrow> [] | Some (os, s) \<Rightarrow> os) c'"
proof -
  obtain ch s c1 where d: "next_draft E c = (ch, s, c1)" by (cases "next_draft E c")
  obtain o2 s2 c2 where p: "place E s (c1\<lparr>c_republish_wanted := False\<rparr>) = (o2, s2, c2)"
    by (cases "place E s (c1\<lparr>c_republish_wanted := False\<rparr>)")
  have q1: "quiet c [] c1" by (rule same_core_quiet [OF next_draft_core [OF d]])
  have q2: "quiet c ([] @ []) (c1\<lparr>c_republish_wanted := False\<rparr>)"
    by (rule quiet.R_trans [OF q1 same_core_quiet [OF same_core_republish]])
  have q3: "quiet c (([] @ []) @ o2) c2" by (rule quiet.R_trans [OF q2 place_quiet [OF p]])
  have q4: "quiet c ((([] @ []) @ o2) @ []) (c2\<lparr>c_followers := f\<rparr>)" for f
    by (rule quiet.R_trans [OF q3 same_core_quiet [OF same_core_followers]])
  show ?thesis
    using assms d p q1 q4 quiet.R_refl [of c]
    by (auto simp: next_state_def split: if_splits)
qed

lemma publish_quiet [quiet_acts]: "holds quiet c (publish E s c)"
  by (rule quiet.holds_publish [OF publish_start_quiet quiet_commit_now next_state_quiet])

lemma next_publication_quiet [quiet_acts]: "holds quiet c (next_publication E c)"
  by (rule quiet.holds_next_publication [OF publish_start_quiet quiet_commit_now next_state_quiet])

lemma commit_publication_quiet [quiet_acts]: "holds quiet c (commit_publication E c)"
  unfolding commit_publication_def by (intro holds_splits quiet.holds_intros quiet_acts)

section \<open>Acts that leave the protocol state alone\<close>

text \<open>What the protocol consists of; everything else is bookkeeping.\<close>

definition core where
  "core c = (c_me c, c_notes c, c_mode c, c_current_term c, c_last_join c, c_join_votes c,
             c_committed c, c_accepted c, c_publishing c, c_durable c)"

definition calm :: "'w coordinator \<Rightarrow> out_msg list \<Rightarrow> 'w coordinator \<Rightarrow> bool" where
  "calm c os c' = (core c' = core c)"

interpretation calm: act_relation calm
  by unfold_locales (simp_all add: calm_def)

named_theorems calm_acts

lemma calm_skip [calm_acts]: "holds calm c (skip c)"
  by (rule calm.holds_skip)

lemma calm_upd: "core (f c) = core c \<Longrightarrow> holds calm c (upd f c)"
  by (simp add: upd_def calm_def)

lemma calm_from: "holds calm c1 r \<Longrightarrow> core c1 = core c \<Longrightarrow> holds calm c r"
  by (simp add: holds_def calm_def)

lemma calm_basic [calm_acts]:
  "holds calm c (world_act f c)" "holds calm c (emit x c)" "holds calm c (request to a b c)"
  "holds calm c (reply_ok e b c)" "holds calm c (reply_error e b c)"
  "holds calm c (answer_join to k b c)" "holds calm c (join E to c)" "holds calm c (learn n c)"
  "holds calm c (schedule_election c)" "holds calm c (prevote c)" "holds calm c (answer_waiting c)"
  by (auto simp: calm_def core_def world_act_def upd_def emit_def request_def rid_def reply_ok_def
      reply_error_def answer_join_def join_def learn_def skip_def schedule_election_def prevote_def
      answer_waiting_def Let_def split: prod.splits)

lemma calm_note [calm_acts]: "holds calm c (add_note n c)"
  unfolding add_note_def by (intro calm.holds_intros calm_acts)

lemma calm_discover [calm_acts]: "holds calm c (discover E c)"
  unfolding discover_def by (intro holds_splits calm.holds_intros calm_acts)

lemma calm_report [calm_acts]: "holds calm c (report ev c)"
  unfolding report_def by (intro holds_splits calm_acts) (simp add: calm_def core_def)

lemma calm_parts [calm_acts]:
  "holds calm c (settle_act src c)" "holds calm c (apply_index_act src nm c)"
  "holds calm c (apply_customs_act E src c)" "holds calm c (let_go src nm c)"
  "holds calm c (note_allocations E mine c)" "holds calm c (report_again r c)"
  "holds calm c (resync_send E r c)"
  unfolding settle_act_def apply_index_act_def apply_customs_act_def let_go_def Let_def
    note_allocations_def report_again_def resync_send_def
  by (intro holds_splits calm.holds_intros calm_acts; simp add: calm_def core_def)+

lemma calm_resync [calm_acts]: "holds calm c (resync_copy E r c)"
  unfolding resync_copy_def Let_def
  by (intro holds_splits calm.holds_intros calm_acts calm_upd) (simp add: core_def)

lemma calm_start_copy [calm_acts]: "holds calm c (start_copy E r c)"
proof (cases "sr_allocation_id r")
  case None
  then show ?thesis by (simp add: start_copy_def calm_skip)
next
  case (Some aid)
  obtain res c1 where ask: "ask_host E r (c\<lparr>c_reported := bs_insert aid (c_reported c)\<rparr>) = (res, c1)"
    by (cases "ask_host E r (c\<lparr>c_reported := bs_insert aid (c_reported c)\<rparr>)")
  then have "core c1 = core c"
    by (auto simp: ask_host_def core_def Let_def split: option.splits prod.splits)
  then have "core (c1\<lparr>c_hosted := h\<rparr>) = core c" "core (c1\<lparr>c_hosted := h, c_started_here := y\<rparr>) = core c" for h y
    by (simp_all add: core_def)
  with Some ask show ?thesis
    by (auto simp: start_copy_def Let_def calm_skip split: sum.splits bool.splits
        intro: calm_from [OF calm_report] calm_from [OF calm_skip])
qed

lemma calm_remove_copy [calm_acts]: "holds calm c (remove_copy E g c)"
  unfolding remove_copy_def Let_def
  by (intro holds_splits calm.holds_intros calm_acts calm_upd)
    (simp_all add: forget_copy_def core_def calm_def)

lemma calm_apply_metadata [calm_acts]: "holds calm c (apply_metadata E c)"
  unfolding apply_metadata_def by (intro holds_splits calm.holds_intros calm_acts)

lemma calm_apply_shards [calm_acts]: "holds calm c (apply_shards E c)"
  unfolding apply_shards_def Let_def
  by (intro calm.holds_intros calm_acts calm_upd) (simp_all add: core_def)

section \<open>Moves between terms\<close>

lemma calm_core: "holds calm c r \<Longrightarrow> r = Some (os, c') \<Longrightarrow> core c' = core c"
  by (simp add: holds_def calm_def)

lemma become_candidate_core:
  assumes "become_candidate E c = Some (os, c')"
  shows "core c' = core (c\<lparr>c_mode := Candidate, c_publishing := None\<rparr>)"
  using assms unfolding become_candidate_def
  by (elim run_ConsE)
    (auto simp: run.simps core_def upd_def world_act_def skip_def fail_waiting_def
      split: option.splits dest!: calm_core [OF calm_discover])

text \<open>
  Moving to a higher term: the votes counted in the old one go, the term is on disk, and a manager
  or a follower becomes a candidate.
\<close>

definition to_term :: "nat \<Rightarrow> 'w coordinator \<Rightarrow> 'w coordinator" where
  "to_term t c =
     c\<lparr>c_max_term_seen := max (c_max_term_seen c) t, c_current_term := t,
       c_durable := (c_durable c)\<lparr>du_term := Holds t\<rparr>, c_join_votes := []\<rparr>"

lemma saw_term_eq:
  "saw_term E t c =
     (if c_current_term c < t then
        (if c_mode c \<noteq> Candidate
         then run [add_note (NSteppingDown t), become_candidate E] (to_term t c)
         else Some ([], to_term t c))
      else Some ([], c\<lparr>c_max_term_seen := max (c_max_term_seen c) t\<rparr>))"
  by (simp add: saw_term_def when_act_def persist_term_def skip_def to_term_def)

lemma saw_term_core:
  assumes "saw_term E t c = Some (os, c')"
  shows "core c' = core (if c_current_term c < t
    then c\<lparr>c_current_term := t, c_join_votes := [],
           c_durable := (c_durable c)\<lparr>du_term := Holds t\<rparr>, c_mode := Candidate,
           c_publishing := (if c_mode c = Candidate then c_publishing c else None)\<rparr>
    else c)"
  using assms unfolding saw_term_eq
  by (auto simp: core_def to_term_def split: if_splits
      elim!: run_ConsE dest!: become_candidate_core calm_core [OF calm_note])

text \<open>A node stepping down claims no term: it sends no start-join.\<close>

definition no_claim :: "'w coordinator \<Rightarrow> out_msg list \<Rightarrow> 'w coordinator \<Rightarrow> bool" where
  "no_claim c os c' =
     (replies_ok c \<longrightarrow> replies_ok c' \<and> (\<forall>to e. Send to e \<in> set os \<longrightarrow> \<not> is_request START_JOIN e))"

interpretation no_claim: act_relation no_claim
  by unfold_locales (auto simp: no_claim_def)

lemma no_claim_acts:
  "holds no_claim c (skip c)" "holds no_claim c (world_act f c)" "holds no_claim c (emit (Timer i t) c)"
  "holds no_claim c (emit (Dial h) c)" "holds no_claim c (join E to c)"
  "holds no_claim c (request to PEERS b c)" "holds no_claim c (schedule_election c)"
  "holds no_claim c (fail_waiting c)"
  by (auto simp: no_claim_def skip_def world_act_def upd_def emit_def request_def rid_def Let_def
      join_def mk_request_def mk_error_def is_request_def action_defs schedule_election_def
      fail_waiting_def replies_ok_def split: prod.splits)

lemma no_claim_upd: "c_event_replies (f c) = c_event_replies c \<Longrightarrow> holds no_claim c (upd f c)"
  by (simp add: upd_def no_claim_def replies_ok_def)

lemma no_claim_down: "holds no_claim c (run [add_note n, become_candidate E] c)"
  unfolding become_candidate_def discover_def add_note_def
  by (intro holds_splits no_claim.holds_intros no_claim_acts no_claim_upd no_claim.holds_emit)
    (simp_all add: no_claim_def)

lemma quiet_to_term:
  assumes "c_current_term c < t" and "quiet (to_term t c) os c'" and "no_claim (to_term t c) os c'"
    and "c_mode c' \<noteq> Leader"
  shows "quiet c os c'"
proof -
  have rep: "replies_ok (to_term t c) = replies_ok c" by (simp add: replies_ok_def to_term_def)
  have "quiet_msg c c' m" if "m \<in> set os" and "replies_ok c" for m
  proof (cases m)
    case (Send to e)
    from that rep assms(2) have q: "quiet_msg (to_term t c) c' m" by (simp add: quiet_def)
    from that rep assms(3) Send have "\<not> is_request START_JOIN e" by (auto simp: no_claim_def)
    with q Send assms(1) show ?thesis by (auto simp: to_term_def my_id_def)
  qed (use that rep assms(2) in \<open>auto simp: quiet_def\<close>)
  moreover have "set (bm_keys (c_join_votes c')) \<subseteq> {}"
    using assms(2) by (auto simp: quiet_def to_term_def bm_keys_def split: if_splits)
  ultimately show ?thesis
    using assms(1, 2, 4) rep by (auto simp: quiet_def to_term_def)
qed

lemma quiet_saw_term [quiet_acts]: "holds quiet c (saw_term E t c)"
proof -
  have "quiet c os c'" if s: "saw_term E t c = Some (os, c')" for os c'
  proof (cases "c_current_term c < t")
    case False
    with s show ?thesis by (auto simp: saw_term_eq replies_ok_def intro!: quiet_silent)
  next
    case True
    have "holds quiet (to_term t c) (run [add_note (NSteppingDown t), become_candidate E] (to_term t c))"
      by (intro quiet.holds_intros quiet_acts) simp_all
    with s True have "quiet (to_term t c) os c'" and "no_claim (to_term t c) os c'"
      using no_claim_down [of "to_term t c" "NSteppingDown t" E]
      by (auto simp: saw_term_eq quiet.R_refl no_claim.R_refl split: if_splits)
    moreover from saw_term_core [OF s] True have "c_mode c' \<noteq> Leader" by (simp add: core_def)
    ultimately show ?thesis by (rule quiet_to_term [OF True])
  qed
  then show ?thesis by (simp add: holds_def)
qed

end
