(* ===== verification/Election_Contract.thy ===== *)
theory Election_Contract
  imports Coordinator_Contract
begin

text \<open>
  The contract of every input with respect to elections: all but three are \<open>quiet\<close>, and what the
  three do -- answer a start-join, start an election, count a join -- is described exactly.
\<close>

section \<open>Quiet inputs\<close>

lemma quiet_metadata_timer [quiet_acts]: "holds quiet c (metadata_timer E c)"
  unfolding metadata_timer_def by (intro holds_splits quiet_acts)

lemma quiet_discover_timer [quiet_acts]: "holds quiet c (on_discover_timer E c)"
  unfolding on_discover_timer_def by (intro quiet.holds_intros quiet_acts quiet_upd) simp_all

lemma quiet_publish_timer [quiet_acts]: "holds quiet c (on_publish_timer E c)"
  unfolding on_publish_timer_def by (intro holds_splits quiet.holds_intros quiet_acts) simp_all

lemma quiet_count_miss [quiet_acts]: "holds quiet c (count_miss n c)"
proof -
  have "holds quiet c1 (run [add_note (NRemoved n),
      upd (\<lambda>c. c\<lparr>c_pending_removals := bs_insert n (c_pending_removals c)\<rparr>)] c1)" for c1 :: "'a coordinator"
    by (intro quiet.holds_intros quiet_acts quiet_upd) simp_all
  then show ?thesis
    unfolding count_miss_def Let_def
    by (intro holds_splits quiet_from [OF quiet_skip]) (rule quiet_from, assumption | rule same_core_followers)+
qed

lemma quiet_check_follower [quiet_acts]: "holds quiet c (check_follower n c)"
  by (auto simp: check_follower_def rid_def Let_def mk_request_def is_request_def action_defs
      my_id_def replies_ok_def quiet_skip intro!: quiet_silent)

lemma quiet_follower_check_timer [quiet_acts]: "holds quiet c (on_follower_check_timer E c)"
proof -
  have "holds quiet c1 (each count_miss xs (c1\<lparr>c_pending_checks := []\<rparr>))" for c1 :: "'a coordinator" and xs
    by (rule quiet_from [of "c1\<lparr>c_pending_checks := []\<rparr>"])
      (intro quiet.holds_intros quiet_acts, simp add: same_core_def replies_ok_def)
  then show ?thesis
    unfolding on_follower_check_timer_def by (intro holds_splits quiet.holds_intros quiet_acts)
qed

lemma poll_metadata_core: "same_core (poll_metadata E c) c"
  by (simp add: poll_metadata_def same_core_def replies_ok_def Let_def split: option.splits)

lemma quiet_metadata_tick [quiet_acts]: "holds quiet c (on_metadata_timer E c)"
proof -
  have "holds quiet c1 (upd (poll_metadata E) c1)" for c1
    by (simp add: upd_def same_core_quiet [OF poll_metadata_core])
  then show ?thesis
    unfolding on_metadata_timer_def
    by (intro holds_splits quiet.holds_intros quiet_acts) simp_all
qed

lemma quiet_allocate_timer [quiet_acts]: "holds quiet c (on_allocate_timer E c)"
  unfolding on_allocate_timer_def
  by (intro holds_splits quiet_acts quiet_from [OF next_publication_quiet] same_core_republish)

lemma quiet_leader_check_timer [quiet_acts]: "holds quiet c (on_leader_check_timer E c)"
proof (cases "c_mode c")
  case (Follower l)
  have down: "holds quiet c1 (run [add_note (NLostManager l), become_candidate E] c1)" for c1
    by (intro quiet.holds_intros quiet_acts) simp_all
  have core: "same_core (c\<lparr>c_leader_misses := x\<rparr>) c" for x by (simp add: same_core_def replies_ok_def)
  have check: "quiet c [Send l (mk_request LEADER_CHECK (my_id c) r no_body), Timer T_LEADER_CHECK u]
      (c\<lparr>c_next_request := r, c_leader_check_outstanding := Some r\<rparr>)"
    "quiet c [Send l (mk_request LEADER_CHECK (my_id c) r no_body), Timer T_LEADER_CHECK u]
      (c\<lparr>c_leader_misses := m, c_next_request := r, c_leader_check_outstanding := Some r\<rparr>)" for r u m
    using Follower
    by (auto simp: mk_request_def is_request_def action_defs replies_ok_def intro!: quiet_silent)
  show ?thesis
    using Follower check
    by (auto simp: on_leader_check_timer_def Let_def rid_def my_id_def intro: quiet_from [OF down core])
qed (simp_all add: on_leader_check_timer_def quiet_skip)

lemma quiet_peer [quiet_acts]: "holds quiet c (on_peer n c)"
  unfolding on_peer_def by (intro quiet.holds_intros quiet_acts)

lemma quiet_shard_done [quiet_acts]: "holds quiet c (on_shard_done E aid f c)"
  unfolding on_shard_done_def
  by (intro holds_splits quiet.holds_intros quiet_acts quiet_upd) simp_all

lemma quiet_peers_request [quiet_acts]: "holds quiet c (on_peers_request e c)"
  unfolding on_peers_request_def by (intro holds_splits quiet.holds_intros quiet_acts)

lemma quiet_follow_hint [quiet_acts]: "holds quiet c (follow_hint E l c)"
  unfolding follow_hint_def
  by (rule quiet_from [OF quiet_join]) (simp add: same_core_def replies_ok_def)

lemma quiet_peers_response [quiet_acts]: "holds quiet c (on_peers_response E e c)"
  unfolding on_peers_response_def by (intro holds_splits quiet.holds_intros quiet_acts)

lemma same_core_max_term: "same_core (c\<lparr>c_max_term_seen := x\<rparr>) c"
  by (simp add: same_core_def replies_ok_def)

lemma quiet_not_of_this_cluster [quiet_acts]: "holds quiet c (not_of_this_cluster e c)"
  unfolding not_of_this_cluster_def by (rule quiet_acts)

lemma quiet_prevote_request [quiet_acts]: "holds quiet c (on_prevote_request e c)"
  unfolding on_prevote_request_def Let_def
  by (intro holds_splits quiet_acts quiet_from [OF quiet_reply_ok] quiet_from [OF quiet_reply_error]
      same_core_max_term)

lemma quiet_prevote_error [quiet_acts]: "holds quiet c (on_prevote_error E e c)"
  unfolding on_prevote_error_def
  by (intro holds_splits quiet.holds_intros quiet_acts quiet_upd) simp_all

lemma quiet_forget_hint: "quiet c [] (c\<lparr>c_leader_hint := x\<rparr>)"
  by (auto simp: replies_ok_def intro!: quiet_silent)

lemma quiet_join_error [quiet_acts]: "holds quiet c (on_join_error E e c)"
  unfolding on_join_error_def
  by (intro holds_splits quiet.holds_intros quiet_acts) (simp_all add: quiet_forget_hint)

lemma quiet_heard_first [quiet_acts]: "holds quiet c (heard_first c)"
  unfolding heard_first_def leader_check_timer_def
  by (intro quiet.holds_intros quiet_acts quiet_upd) simp_all

lemma quiet_join_response [quiet_acts]: "holds quiet c (on_join_response E e c)"
  unfolding on_join_response_def Let_def
  by (intro holds_splits quiet.holds_intros quiet_acts quiet_upd) simp_all

lemma quiet_publish_request [quiet_acts]: "holds quiet c (on_publish_request E e c)"
  unfolding on_publish_request_def Let_def
  by (intro holds_splits quiet.holds_intros quiet_acts quiet_upd) simp_all

lemma ack_core: "same_core (ack from r c) c"
  by (simp add: ack_def same_core_def replies_ok_def split: option.splits)

lemma same_core_lagging: "same_core (c\<lparr>c_lagging := x\<rparr>) c"
  by (simp add: same_core_def replies_ok_def)

lemma quiet_publish_response [quiet_acts]: "holds quiet c (on_publish_response E e c)"
  unfolding on_publish_response_def Let_def
  by (intro holds_splits quiet_acts quiet_from [OF commit_publication_quiet] quiet_from [OF quiet_skip]
      quiet_from [OF quiet_request] ack_core same_core_trans [OF same_core_lagging ack_core])
    (simp_all add: action_defs)

lemma quiet_publish_error [quiet_acts]: "holds quiet c (on_publish_error E e c)"
  unfolding on_publish_error_def
  by (intro holds_splits quiet.holds_intros quiet_acts quiet_upd) simp_all

lemma quiet_commit_request [quiet_acts]: "holds quiet c (on_commit_request E e c)"
  unfolding on_commit_request_def Let_def
  by (intro holds_splits quiet.holds_intros quiet_acts quiet_upd) simp_all

lemma quiet_follow_checker [quiet_acts]: "holds quiet c (follow_checker e c)"
  unfolding follow_checker_def leader_check_timer_def
  by (intro quiet.holds_intros quiet_acts quiet_upd) simp_all

lemma quiet_follower_check_request [quiet_acts]: "holds quiet c (on_follower_check_request E e c)"
  unfolding on_follower_check_request_def Let_def
  by (intro holds_splits quiet.holds_intros quiet_acts)

lemma quiet_follower_check_response [quiet_acts]: "holds quiet c (on_follower_check_response e c)"
  by (auto simp: on_follower_check_response_def Let_def skip_def replies_ok_def quiet.R_refl
      split: option.splits intro!: quiet_silent)

lemma quiet_follower_check_error [quiet_acts]: "holds quiet c (on_follower_check_error E e c)"
  unfolding on_follower_check_error_def
  by (intro holds_splits quiet.holds_intros quiet_acts quiet_upd) simp_all

lemma quiet_leader_check_request [quiet_acts]: "holds quiet c (on_leader_check_request e c)"
  unfolding on_leader_check_request_def by (intro holds_splits quiet_acts)

lemma quiet_leader_check_response [quiet_acts]: "holds quiet c (on_leader_check_response e c)"
  by (auto simp: on_leader_check_response_def quiet_skip replies_ok_def intro!: quiet_silent)

lemma quiet_leader_check_error [quiet_acts]: "holds quiet c (on_leader_check_error E e c)"
  unfolding on_leader_check_error_def by (intro holds_splits quiet.holds_intros quiet_acts)

lemma quiet_shard_request [quiet_acts]:
  assumes "shard_action (en_action e)"
  shows "holds quiet c (on_shard_request E e c)"
proof -
  have "same_core (c\<lparr>c_shard_events := x, c_republish_wanted := True,
      c_event_replies := c_event_replies c @ [(NOT_CARRIED, en_from e, e)]\<rparr>) c" for x
    using assms by (auto simp: same_core_def replies_ok_def)
  then show ?thesis
    unfolding on_shard_request_def not_the_manager_def Let_def
    by (auto split: report_verdict.splits intro!: quiet_acts quiet.holds_intros
        intro: quiet_from [OF next_publication_quiet])
qed

lemma quiet_metadata_report [quiet_acts]: "holds quiet c (on_metadata_report E e c)"
  unfolding on_metadata_report_def Let_def
  by (intro holds_splits quiet.holds_intros quiet_acts quiet_upd) simp_all

lemma quiet_reroute [quiet_acts]: "holds quiet c (on_reroute E e c)"
proof -
  have "holds quiet c1 (next_publication E (c1\<lparr>c_command_table := x, c_republish_wanted := True\<rparr>))" for c1 x
    by (rule quiet_from [OF next_publication_quiet]) (simp add: same_core_def replies_ok_def)
  then show ?thesis
    unfolding on_reroute_def not_the_manager_def Let_def
    by (intro holds_splits quiet_acts quiet.holds_intros quiet_upd) simp_all
qed

lemma quiet_leave [quiet_acts]: "holds quiet c (on_leave E e c)"
  unfolding on_leave_def
  by (intro holds_splits quiet.holds_intros quiet_acts quiet_upd) simp_all

section \<open>The three that are not\<close>

text \<open>The pledges an output makes: a join that carries a vote, an election announced.\<close>

fun pledge_out :: "node_id \<Rightarrow> out_msg \<Rightarrow> nat \<Rightarrow> node_id \<Rightarrow> bool" where
  "pledge_out me (Send to e) t n =
     (is_request JOIN e \<and> b_term (en_body e) = Some t \<and> b_vote (en_body e) = Some True \<and> n = to)"
| "pledge_out me (Note x) t n = (x = NElection t \<and> n = me)"
| "pledge_out me _ t n = False"

definition pledges :: "node_id \<Rightarrow> out_msg list \<Rightarrow> nat \<Rightarrow> node_id \<Rightarrow> bool" where
  "pledges me os t n = (\<exists>m \<in> set os. pledge_out me m t n)"

text \<open>
  The contract of one input, given what it brings: the votes \<open>V\<close> (a term and a voter) and the
  commands to join \<open>S\<close> (a term and who gave it).  A node pledges itself at most once in a term, and
  only to a term above the one it was in; it counts votes that were given to it in its term; and it
  becomes the manager of a term only with a quorum of such votes.
\<close>

type_synonym evidence = "nat \<Rightarrow> node_id \<Rightarrow> bool"

definition told :: "evidence \<Rightarrow> node_id \<Rightarrow> out_msg list \<Rightarrow> evidence" where
  "told S me os t n = (S t n \<or> n = me \<and> Note (NElection t) \<in> set os)"

definition allowed :: "evidence \<Rightarrow> evidence \<Rightarrow> 'w coordinator \<Rightarrow> out_msg list \<Rightarrow> nat \<Rightarrow> node_id set" where
  "allowed V S c os t =
     (if t = c_current_term c then set (bm_keys (c_join_votes c)) else {})
     \<union> {v. V t v} \<union> {v. v = my_id c \<and> told S (my_id c) os t (my_id c)}"

fun sound_msg :: "evidence \<Rightarrow> 'w coordinator \<Rightarrow> out_msg list \<Rightarrow> out_msg \<Rightarrow> bool" where
  "sound_msg S c os (Send to e) =
     (en_from e = my_id c
      \<and> (is_request START_JOIN e \<longrightarrow>
           (\<exists>t. b_term (en_body e) = Some t \<and>
              ((c_mode c = Leader \<and> t = c_current_term c) \<or> told S (my_id c) os t (my_id c)
               \<or> Note (NLeader t) \<in> set os)))
      \<and> (is_request JOIN e \<longrightarrow>
           (\<exists>t d. b_term (en_body e) = Some t \<and> b_node (en_body e) = NodeOf d \<and> dn_id d = my_id c)))"
| "sound_msg S c os _ = True"

definition pledge_ok :: "evidence \<Rightarrow> 'w coordinator \<Rightarrow> out_msg list \<Rightarrow> 'w coordinator \<Rightarrow> bool" where
  "pledge_ok S c os c' =
     (\<forall>t n. pledges (my_id c) os t n \<longrightarrow>
        t \<le> c_current_term c'
        \<and> (c_last_join c = Some (t, n) \<or> c_current_term c < t \<and> told S (my_id c) os t n)
        \<and> (\<forall>n'. pledges (my_id c) os t n' \<longrightarrow> n' = n)
        \<and> (\<forall>n'. c_last_join c' = Some (t, n') \<longrightarrow> n' = n))"

definition answer_ok :: "evidence \<Rightarrow> 'w coordinator \<Rightarrow> out_msg list \<Rightarrow> 'w coordinator \<Rightarrow> bool" where
  "answer_ok S c os c' =
     (c_last_join c' = c_last_join c
      \<or> (\<exists>t n. c_last_join c' = Some (t, n) \<and> c_current_term c < t \<and> t \<le> c_current_term c'
           \<and> told S (my_id c) os t n))"

definition lead_ok ::
  "evidence \<Rightarrow> evidence \<Rightarrow> 'w coordinator \<Rightarrow> out_msg list \<Rightarrow> 'w coordinator \<Rightarrow> bool" where
  "lead_ok V S c os c' =
     (\<forall>t. Note (NLeader t) \<in> set os \<longrightarrow> c_current_term c \<le> t \<and> t \<le> c_current_term c'
        \<and> ((\<exists>v. V t v) \<or> told S (my_id c) os t (my_id c))
        \<and> election_quorum (c_accepted c) (insert (my_id c) (allowed V S c os t)))"

definition mode_ok :: "'w coordinator \<Rightarrow> out_msg list \<Rightarrow> 'w coordinator \<Rightarrow> bool" where
  "mode_ok c os c' =
     (c_mode c' = Leader \<longrightarrow>
        (c_mode c = Leader \<and> c_current_term c' = c_current_term c)
        \<or> Note (NLeader (c_current_term c')) \<in> set os)"

definition election_step ::
  "evidence \<Rightarrow> evidence \<Rightarrow> 'w coordinator \<Rightarrow> out_msg list \<Rightarrow> 'w coordinator \<Rightarrow> bool" where
  "election_step V S c os c' =
     (c_me c' = c_me c \<and> c_notes c' = c_notes c \<and> replies_ok c'
      \<and> c_current_term c \<le> c_current_term c'
      \<and> (\<forall>m \<in> set os. sound_msg S c os m)
      \<and> pledge_ok S c os c' \<and> answer_ok S c os c'
      \<and> set (bm_keys (c_join_votes c')) \<subseteq> allowed V S c os (c_current_term c')
      \<and> lead_ok V S c os c' \<and> mode_ok c os c')"

lemma election_quorum_mono: "election_quorum s Q \<Longrightarrow> Q \<subseteq> Q' \<Longrightarrow> election_quorum s Q'"
  by (auto simp: election_quorum_def intro: majority.quorum_mono)

lemma quiet_pledges:
  assumes "quiet c os c'" and "replies_ok c" and "pledges me os t n"
  shows "c_last_join c = Some (t, n) \<and> c_current_term c \<le> t \<and> t \<le> c_current_term c'"
proof -
  from assms(3) obtain m where m: "m \<in> set os" and p: "pledge_out me m t n" by (auto simp: pledges_def)
  from m assms(1, 2) have "quiet_msg c c' m" by (simp add: quiet_def)
  with p show ?thesis by (cases m) auto
qed

lemma quiet_no_claims:
  assumes "quiet c os c'" and "replies_ok c"
  shows "Note (NLeader t) \<notin> set os" and "Note (NElection t) \<notin> set os"
  using assms by (auto simp: quiet_def)

lemma quiet_sound:
  assumes "quiet c os c'" and "replies_ok c" and "m \<in> set os"
  shows "sound_msg S c os' m"
proof -
  have "quiet_msg c c' m" using assms by (simp add: quiet_def)
  then show ?thesis by (cases m) (auto simp: my_id_def)
qed

lemma quiet_election_step:
  assumes "quiet c os c'" and "replies_ok c"
  shows "election_step V S c os c'"
proof -
  have q: "c_me c' = c_me c" "c_notes c' = c_notes c" "replies_ok c'"
    "c_current_term c \<le> c_current_term c'" "c_last_join c' = c_last_join c"
    "c_mode c' = Leader \<longrightarrow> c_mode c = Leader \<and> c_current_term c' = c_current_term c"
    using assms by (simp_all add: quiet_def)
  have "pledge_ok S c os c'"
    using quiet_pledges [OF assms] q(5) unfolding pledge_ok_def
    by (metis option.inject prod.inject)
  moreover have "answer_ok S c os c'" using q by (simp add: answer_ok_def)
  moreover have "set (bm_keys (c_join_votes c')) \<subseteq> allowed V S c os (c_current_term c')"
    using assms(1) by (auto simp: quiet_def allowed_def split: if_splits)
  moreover have "lead_ok V S c os c'" using quiet_no_claims [OF assms] by (simp add: lead_ok_def)
  moreover have "mode_ok c os c'" using q by (simp add: mode_ok_def)
  ultimately show ?thesis
    using q quiet_sound [OF assms] by (simp add: election_step_def)
qed

lemma pledges_append: "pledges me (o1 @ o2) t n = (pledges me o1 t n \<or> pledges me o2 t n)"
  by (auto simp: pledges_def)

lemma told_mono: "told S me os t n \<Longrightarrow> set os \<subseteq> set os' \<Longrightarrow> told S me os' t n"
  by (auto simp: told_def)

lemma sound_msg_mono: "sound_msg S c os m \<Longrightarrow> set os \<subseteq> set os' \<Longrightarrow> sound_msg S c os' m"
  by (cases m) (auto intro: told_mono)

lemma allowed_mono: "set os \<subseteq> set os' \<Longrightarrow> allowed V S c os t \<subseteq> allowed V S c os' t"
  by (auto simp: allowed_def intro: told_mono)

lemma lead_ok_mono:
  assumes "lead_ok V S c o1 c1" and "c_current_term c1 \<le> c_current_term c2"
    and "\<And>t. Note (NLeader t) \<notin> set o2"
  shows "lead_ok V S c (o1 @ o2) c2"
  unfolding lead_ok_def
proof (intro allI impI)
  fix t
  assume "Note (NLeader t) \<in> set (o1 @ o2)"
  with assms(3) have "Note (NLeader t) \<in> set o1" by auto
  with assms(1) have l: "c_current_term c \<le> t" "t \<le> c_current_term c1"
    "(\<exists>v. V t v) \<or> told S (my_id c) o1 t (my_id c)"
    "election_quorum (c_accepted c) (insert (my_id c) (allowed V S c o1 t))"
    by (auto simp: lead_ok_def)
  have "election_quorum (c_accepted c) (insert (my_id c) (allowed V S c (o1 @ o2) t))"
    by (rule election_quorum_mono [OF l(4)]) (use allowed_mono [of o1 "o1 @ o2" V S c t] in auto)
  moreover have "(\<exists>v. V t v) \<or> told S (my_id c) (o1 @ o2) t (my_id c)"
    using l(3) told_mono [of S "my_id c" o1 t "my_id c" "o1 @ o2"] by auto
  ultimately show "c_current_term c \<le> t \<and> t \<le> c_current_term c2
        \<and> ((\<exists>v. V t v) \<or> told S (my_id c) (o1 @ o2) t (my_id c))
        \<and> election_quorum (c_accepted c) (insert (my_id c) (allowed V S c (o1 @ o2) t))"
    using l assms(2) by auto
qed

lemma pledge_ok_quiet:
  assumes p: "pledge_ok S c o1 c1" and a: "answer_ok S c o1 c1"
    and b: "quiet c1 o2 c2" and r: "replies_ok c1"
  shows "pledge_ok S c (o1 @ o2) c2"
  unfolding pledge_ok_def
proof (intro allI impI)
  fix t n
  assume pl: "pledges (my_id c) (o1 @ o2) t n"
  have lj: "c_last_join c2 = c_last_join c1" and T: "c_current_term c1 \<le> c_current_term c2"
    using b by (simp_all add: quiet_def)
  have p2: "pledges me o2 t n \<Longrightarrow> c_last_join c1 = Some (t, n) \<and> t \<le> c_current_term c2" for me t n
    using quiet_pledges [OF b r] by blast
  have p1: "pledges (my_id c) o1 t n \<Longrightarrow>
        t \<le> c_current_term c1
        \<and> (c_last_join c = Some (t, n) \<or> c_current_term c < t \<and> told S (my_id c) (o1 @ o2) t n)
        \<and> (\<forall>n'. pledges (my_id c) o1 t n' \<longrightarrow> n' = n)
        \<and> (\<forall>n'. c_last_join c1 = Some (t, n') \<longrightarrow> n' = n)" for t n
    using p told_mono [of S "my_id c" o1 t n "o1 @ o2"] by (auto simp: pledge_ok_def)
  have new: "c_last_join c1 = Some (t, n) \<Longrightarrow>
      c_last_join c = Some (t, n) \<or> c_current_term c < t \<and> told S (my_id c) (o1 @ o2) t n" for t n
    using a told_mono [of S "my_id c" o1 t n "o1 @ o2"] by (auto simp: answer_ok_def)
  have up: "t \<le> c_current_term c2" using pl p1 p2 T unfolding pledges_append by (meson le_trans)
  have from_c: "c_last_join c = Some (t, n) \<or> c_current_term c < t \<and> told S (my_id c) (o1 @ o2) t n"
    using pl p1 p2 new unfolding pledges_append by blast
  have uniq: "n' = n" if "pledges (my_id c) (o1 @ o2) t n'" for n'
    using pl that p1 p2 unfolding pledges_append by (metis option.inject prod.inject)
  have last: "n' = n" if "c_last_join c2 = Some (t, n')" for n'
    using pl that lj p1 p2 unfolding pledges_append by (metis option.inject prod.inject)
  show "t \<le> c_current_term c2
        \<and> (c_last_join c = Some (t, n) \<or> c_current_term c < t \<and> told S (my_id c) (o1 @ o2) t n)
        \<and> (\<forall>n'. pledges (my_id c) (o1 @ o2) t n' \<longrightarrow> n' = n)
        \<and> (\<forall>n'. c_last_join c2 = Some (t, n') \<longrightarrow> n' = n)"
    using up from_c uniq last by blast
qed

lemma sound_after:
  assumes s: "\<forall>m \<in> set o1. sound_msg S c o1 m" and md: "mode_ok c o1 c1"
    and me: "c_me c1 = c_me c" and q: "\<forall>m \<in> set o2. quiet_msg c1 c2 m" and m: "m \<in> set (o1 @ o2)"
  shows "sound_msg S c (o1 @ o2) m"
proof (cases "m \<in> set o1")
  case True
  with s have "sound_msg S c o1 m" by simp
  then show ?thesis by (rule sound_msg_mono) simp
next
  case False
  with m q have "quiet_msg c1 c2 m" by auto
  with md me show ?thesis by (cases m) (auto simp: mode_ok_def my_id_def)
qed

text \<open>Quiet acts after a step, and before one, change nothing of the contract.\<close>

lemma election_step_quiet:
  assumes a: "election_step V S c o1 c1" and b: "quiet c1 o2 c2"
  shows "election_step V S c (o1 @ o2) c2"
proof -
  have A: "c_me c1 = c_me c" "c_notes c1 = c_notes c" "replies_ok c1"
    "c_current_term c \<le> c_current_term c1" "\<forall>m \<in> set o1. sound_msg S c o1 m"
    "pledge_ok S c o1 c1" "answer_ok S c o1 c1"
    "set (bm_keys (c_join_votes c1)) \<subseteq> allowed V S c o1 (c_current_term c1)"
    "lead_ok V S c o1 c1" "mode_ok c o1 c1"
    using a by (simp_all add: election_step_def)
  have B: "c_me c2 = c_me c1" "c_notes c2 = c_notes c1" "replies_ok c2"
    "c_current_term c1 \<le> c_current_term c2" "\<forall>m \<in> set o2. quiet_msg c1 c2 m"
    "c_last_join c2 = c_last_join c1"
    "set (bm_keys (c_join_votes c2)) \<subseteq>
       (if c_current_term c2 = c_current_term c1 then set (bm_keys (c_join_votes c1)) else {})"
    "c_mode c2 = Leader \<longrightarrow> c_mode c1 = Leader \<and> c_current_term c2 = c_current_term c1"
    using b A(3) by (simp_all add: quiet_def)
  have "answer_ok S c (o1 @ o2) c2"
    using A(7) B(4, 6) told_mono [of S "my_id c" o1 _ _ "o1 @ o2"] by (fastforce simp: answer_ok_def)
  moreover have "set (bm_keys (c_join_votes c2)) \<subseteq> allowed V S c (o1 @ o2) (c_current_term c2)"
    using A(8) B(7) allowed_mono [of o1 "o1 @ o2" V S c "c_current_term c2"]
    by (auto split: if_splits)
  moreover have "lead_ok V S c (o1 @ o2) c2"
    by (rule lead_ok_mono [OF A(9) B(4) quiet_no_claims(1) [OF b A(3)]])
  moreover have "mode_ok c (o1 @ o2) c2" using A(10) B(8) by (auto simp: mode_ok_def)
  moreover have "pledge_ok S c (o1 @ o2) c2" by (rule pledge_ok_quiet [OF A(6, 7) b A(3)])
  ultimately show ?thesis
    unfolding election_step_def
    using A B sound_after [OF A(5, 10, 1) B(5)] by auto
qed

lemma allowed_before:
  assumes q: "quiet c o1 c1" and le: "c_current_term c1 \<le> t"
  shows "allowed V S c1 o2 t \<subseteq> allowed V S c (o1 @ o2) t"
proof -
  have me: "my_id c1 = my_id c" using q by (simp add: quiet_def my_id_def)
  have votes: "(if t = c_current_term c1 then set (bm_keys (c_join_votes c1)) else {})
      \<subseteq> (if t = c_current_term c then set (bm_keys (c_join_votes c)) else {})"
    using q le by (auto simp: quiet_def split: if_splits)
  show ?thesis
    using votes told_mono [of S "my_id c" o2 t "my_id c" "o1 @ o2"]
    unfolding allowed_def me by auto
qed

lemma sound_before:
  assumes q: "quiet c o1 c1" and s: "\<forall>m \<in> set o2. sound_msg S c1 o2 m"
    and r: "replies_ok c" and m: "m \<in> set (o1 @ o2)"
  shows "sound_msg S c (o1 @ o2) m"
proof (cases "m \<in> set o1")
  case True
  show ?thesis by (rule quiet_sound [OF q r True])
next
  case False
  with m s have "sound_msg S c1 o2 m" by auto
  with q told_mono [of S "my_id c" o2 _ "my_id c" "o1 @ o2"] show ?thesis
    by (cases m) (auto simp: quiet_def my_id_def)
qed

lemma quiet_election_step_after:
  assumes q: "quiet c o1 c1" and acc: "c_accepted c1 = c_accepted c" and r: "replies_ok c"
    and b: "election_step V S c1 o2 c2"
  shows "election_step V S c (o1 @ o2) c2"
proof -
  have A: "c_me c1 = c_me c" "c_notes c1 = c_notes c" "replies_ok c1"
    "c_current_term c \<le> c_current_term c1" "c_last_join c1 = c_last_join c"
    "c_mode c1 = Leader \<longrightarrow> c_mode c = Leader \<and> c_current_term c1 = c_current_term c"
    using q r by (simp_all add: quiet_def)
  have me: "my_id c1 = my_id c" using A by (simp add: my_id_def)
  have B: "c_me c2 = c_me c1" "c_notes c2 = c_notes c1" "replies_ok c2"
    "c_current_term c1 \<le> c_current_term c2" "\<forall>m \<in> set o2. sound_msg S c1 o2 m"
    "pledge_ok S c1 o2 c2" "answer_ok S c1 o2 c2"
    "set (bm_keys (c_join_votes c2)) \<subseteq> allowed V S c1 o2 (c_current_term c2)"
    "lead_ok V S c1 o2 c2" "mode_ok c1 o2 c2"
    using b by (simp_all add: election_step_def)
  have p1: "pledges (my_id c) o1 t n \<Longrightarrow> c_last_join c = Some (t, n) \<and> t \<le> c_current_term c1" for t n
    using quiet_pledges [OF q r] by blast
  have p2: "pledges (my_id c) o2 t n \<Longrightarrow>
        t \<le> c_current_term c2
        \<and> (c_last_join c = Some (t, n) \<or> c_current_term c1 < t \<and> told S (my_id c) (o1 @ o2) t n)
        \<and> (\<forall>n'. pledges (my_id c) o2 t n' \<longrightarrow> n' = n)
        \<and> (\<forall>n'. c_last_join c2 = Some (t, n') \<longrightarrow> n' = n)" for t n
    using B(6) A(5) told_mono [of S "my_id c" o2 t n "o1 @ o2"] by (auto simp: pledge_ok_def me)
  have new: "c_last_join c2 = Some (t, n) \<Longrightarrow> c_last_join c = Some (t, n) \<or> c_current_term c1 < t" for t n
    using B(7) A(5) by (auto simp: answer_ok_def)
  have "pledge_ok S c (o1 @ o2) c2"
    unfolding pledge_ok_def
  proof (intro allI impI)
    fix t n
    assume pl: "pledges (my_id c) (o1 @ o2) t n"
    have up: "t \<le> c_current_term c2" using pl p1 p2 B(4) unfolding pledges_append by (meson le_trans)
    have from_c: "c_last_join c = Some (t, n) \<or> c_current_term c < t \<and> told S (my_id c) (o1 @ o2) t n"
      using pl p1 p2 A(4) unfolding pledges_append by (meson le_less_trans)
    have uniq: "n' = n" if "pledges (my_id c) (o1 @ o2) t n'" for n'
      using pl that p1 p2 unfolding pledges_append by (metis leD option.inject prod.inject)
    have last: "n' = n" if "c_last_join c2 = Some (t, n')" for n'
      using pl that p1 p2 new [OF that] unfolding pledges_append by (metis leD option.inject prod.inject)
    show "t \<le> c_current_term c2
        \<and> (c_last_join c = Some (t, n) \<or> c_current_term c < t \<and> told S (my_id c) (o1 @ o2) t n)
        \<and> (\<forall>n'. pledges (my_id c) (o1 @ o2) t n' \<longrightarrow> n' = n)
        \<and> (\<forall>n'. c_last_join c2 = Some (t, n') \<longrightarrow> n' = n)"
      using up from_c uniq last by blast
  qed
  moreover have "answer_ok S c (o1 @ o2) c2"
    using B(7) A(4, 5) told_mono [of S "my_id c" o2 _ _ "o1 @ o2"] me
    by (fastforce simp: answer_ok_def)
  moreover have "set (bm_keys (c_join_votes c2)) \<subseteq> allowed V S c (o1 @ o2) (c_current_term c2)"
    using B(8) allowed_before [OF q B(4)] by blast
  moreover have "lead_ok V S c (o1 @ o2) c2"
    unfolding lead_ok_def
  proof (intro allI impI)
    fix t
    assume "Note (NLeader t) \<in> set (o1 @ o2)"
    then have "Note (NLeader t) \<in> set o2" using quiet_no_claims(1) [OF q r] by auto
    with B(9) have l: "c_current_term c1 \<le> t" "t \<le> c_current_term c2"
      "(\<exists>v. V t v) \<or> told S (my_id c) o2 t (my_id c)"
      "election_quorum (c_accepted c) (insert (my_id c) (allowed V S c1 o2 t))"
      by (auto simp: lead_ok_def me acc)
    have "election_quorum (c_accepted c) (insert (my_id c) (allowed V S c (o1 @ o2) t))"
      by (rule election_quorum_mono [OF l(4)]) (use allowed_before [OF q l(1)] in blast)
    then show "c_current_term c \<le> t \<and> t \<le> c_current_term c2
        \<and> ((\<exists>v. V t v) \<or> told S (my_id c) (o1 @ o2) t (my_id c))
        \<and> election_quorum (c_accepted c) (insert (my_id c) (allowed V S c (o1 @ o2) t))"
      using l A(4) told_mono [of S "my_id c" o2 t "my_id c" "o1 @ o2"] by auto
  qed
  moreover have "mode_ok c (o1 @ o2) c2" using A(6) B(10) by (auto simp: mode_ok_def)
  ultimately show ?thesis
    unfolding election_step_def
    using A B sound_before [OF q B(5) r] by auto
qed

section \<open>Counting a join\<close>

definition join_vote :: "body \<Rightarrow> evidence" where
  "join_vote b t v =
     (opt 0 (b_term b) = t \<and> b_vote b = Some True \<and> (\<exists>n. body_node b = Some n \<and> dn_id n = v))"

lemma become_leader_shape:
  assumes "become_leader E c = Some (os, c')"
  obtains o2 c3 where "os = (if c_notes c then [Note (NLeader (c_current_term c))] else []) @ o2"
    and "quiet c3 o2 c'" and "c_me c3 = c_me c" and "c_notes c3 = c_notes c"
    and "c_mode c3 = Leader" and "c_current_term c3 = c_current_term c"
    and "c_last_join c3 = c_last_join c" and "c_join_votes c3 = []"
    and "c_event_replies c3 = c_event_replies c"
proof -
  define c3 where "c3 = c\<lparr>c_mode := Leader, c_leader_hint := Some (my_id c), c_election_scheduled := False,
                c_election_attempt := 0, c_lagging := [],
                c_followers := leader_followers (my_id c) (c_last_wall c) (c_join_votes c) (cs_nodes (first_state E c)),
                c_join_votes := [], c_drawn := c_drawn c + 1\<rparr>"
  define rest where "rest = [(\<lambda>c1. case place E (first_state E c) c1 of (o2, s2, c2) \<Rightarrow> run [(\<lambda>c. Some (o2, c)), publish E s2] c2),
         (\<lambda>c. emit (Timer T_FOLLOWER_CHECK (tm_follower_check_interval (c_timings c))) c),
         (\<lambda>c. if ev_source E \<noteq> None then emit (Timer T_METADATA (c_metadata_poll c)) c else skip c)]"
  have pl: "holds quiet c1 (case place E (first_state E c) c1 of (o2, s2, c2) \<Rightarrow> run [(\<lambda>c. Some (o2, c)), publish E s2] c2)" for c1
  proof (cases "place E (first_state E c) c1")
    case (fields o2 s2 c2)
    have "quiet c1 (o2 @ o4) c4" if "publish E s2 c2 = Some (o4, c4)" for o4 c4
      by (rule quiet.R_trans [OF place_quiet [OF fields]]) (use that publish_quiet [of c2 E s2] in simp)
    then show ?thesis by (auto simp: fields run.simps holds_def split: option.splits)
  qed
  have q: "holds quiet c1 (run rest c1)" for c1
    unfolding rest_def by (intro quiet.holds_intros holds_splits quiet_acts pl)
  have "run (add_note (NLeader (c_current_term c)) # rest) c3 = Some (os, c')"
    using assms by (simp add: become_leader_def Let_def rest_def c3_def)
  then obtain o1 c1 o2 where n: "add_note (NLeader (c_current_term c)) c3 = Some (o1, c1)"
    and rn: "run rest c1 = Some (o2, c')" and os: "os = o1 @ o2"
    by (rule run_ConsE)
  from n have c1: "c1 = c3" and o1: "o1 = (if c_notes c then [Note (NLeader (c_current_term c))] else [])"
    by (auto simp: add_note_def when_act_def emit_def skip_def c3_def split: if_splits)
  from q [of c1] rn have "quiet c3 o2 c'" by (simp add: c1)
  with os o1 show ?thesis
    by (intro that [of o2 c3]) (simp_all add: c3_def)
qed

lemma join_candidate_step:
  assumes act: "join_candidate E node vote c = Some (os, c')"
    and cand: "c_mode c = Candidate" and r: "replies_ok c" and nt: "c_notes c"
    and V: "vote \<Longrightarrow> V (c_current_term c) (dn_id node)"
  shows "election_step V S c os c' \<and> c_last_join c' = c_last_join c"
proof (cases vote)
  case False
  with act have "quiet c os c'" by (simp add: join_candidate_def skip_def quiet.R_refl)
  then show ?thesis using quiet_election_step [OF _ r] by (auto simp: quiet_def)
next
  case True
  define c1 where "c1 = c\<lparr>c_join_votes := bm_insert (dn_id node) node (c_join_votes c)\<rparr>"
  have keys: "set (bm_keys (c_join_votes c1)) \<subseteq> allowed V S c os (c_current_term c)" for os
    using V [OF True] by (auto simp: c1_def bm_insert_keys allowed_def)
  show ?thesis
  proof (cases "eligible c1 \<and> election_quorum (c_accepted c1) (insert (my_id c1) (set (bm_keys (c_join_votes c1))))")
    case False
    with act True have "os = [] \<and> c' = c1"
      by (auto simp: join_candidate_def Let_def c1_def skip_def)
    with keys [of "[]"] cand r show ?thesis
      by (simp add: election_step_def pledge_ok_def pledges_def answer_ok_def lead_ok_def mode_ok_def
          c1_def replies_ok_def)
  next
    case win: True
    with act True have "become_leader E c1 = Some (os, c')"
      by (simp add: join_candidate_def Let_def c1_def)
    then obtain o2 c3 where os: "os = Note (NLeader (c_current_term c)) # o2" and q: "quiet c3 o2 c'"
      and c3: "c_me c3 = c_me c" "c_notes c3 = c_notes c" "c_mode c3 = Leader"
        "c_current_term c3 = c_current_term c" "c_last_join c3 = c_last_join c" "c_join_votes c3 = []"
        "c_event_replies c3 = c_event_replies c"
      using nt by (auto simp: c1_def elim: become_leader_shape)
    have quorum: "election_quorum (c_accepted c) (insert (my_id c) (allowed V S c [Note (NLeader (c_current_term c))] (c_current_term c)))"
      by (rule election_quorum_mono [of _ "insert (my_id c1) (set (bm_keys (c_join_votes c1)))"])
        (use win keys in \<open>auto simp: c1_def my_id_def\<close>)
    have "election_step V S c [Note (NLeader (c_current_term c))] c3"
      unfolding election_step_def
      using c3 r quorum V [OF True]
      by (auto simp: pledge_ok_def pledges_def answer_ok_def lead_ok_def mode_ok_def replies_ok_def bm_keys_def)
    from election_step_quiet [OF this q] os q c3 show ?thesis by (simp add: quiet_def)
  qed
qed

lemma quiet_note_held [quiet_acts]: "holds quiet c (note_held b c)"
  by (auto simp: note_held_def skip_def replies_ok_def quiet.R_refl split: option.splits
      intro!: quiet_silent)

lemma note_held_accepted: "note_held b c = Some (os, c') \<Longrightarrow> c_accepted c' = c_accepted c \<and> c_notes c' = c_notes c"
  by (auto simp: note_held_def skip_def split: option.splits)

lemma quiet_join_behind [quiet_acts]: "holds quiet c (join_behind from c)"
proof (cases "c_mode c = Leader")
  case True
  then show ?thesis
    by (auto simp: join_behind_def request_def rid_def Let_def mk_request_def is_request_def
        action_defs my_id_def replies_ok_def intro!: quiet_silent)
next
  case False
  then show ?thesis by (simp add: join_behind_def quiet_answer_join)
qed

lemma quiet_join_leader [quiet_acts]: "holds quiet c (join_leader E node from c)"
  unfolding join_leader_def Let_def
  by (intro holds_splits quiet_acts quiet_from [OF quiet_answer_join]
      quiet_from [OF next_publication_quiet])
    (simp_all add: same_core_def replies_ok_def)

lemma on_join_step:
  assumes act: "on_join E b from c = Some (os, c')" and r: "replies_ok c" and nt: "c_notes c"
  shows "election_step (join_vote b) S c os c' \<and> c_last_join c' = c_last_join c"
proof (cases "body_node b")
  case None
  have "holds quiet c (on_join E b from c)"
    unfolding on_join_def by (intro quiet.holds_intros holds_splits quiet_acts) (simp_all add: None)
  with act show ?thesis by (auto simp: quiet_election_step [OF _ r] quiet_def)
next
  case (Some node)
  define t where "t = opt 0 (b_term b)"
  from act Some obtain o0 c0 o1 c1 o2 c2 o3 where
      h: "note_held b c = Some (o0, c0)" and st: "saw_term E t c0 = Some (o1, c1)"
      and ln: "learn node c1 = Some (o2, c2)"
      and last: "(if t < c_current_term c2 then join_behind from c2
             else if fresher (opt 0 (b_last_accepted_term b)) (opt 0 (b_last_accepted_version b))
                       (cs_term (c_accepted c2)) (cs_version (c_accepted c2))
             then answer_join from Error (term_reason c2 ''fresher'') c2
             else case c_mode c2 of
               Candidate \<Rightarrow> join_candidate E node (opt False (b_vote b)) c2
             | Leader \<Rightarrow> join_leader E node from c2
             | Follower l \<Rightarrow> answer_join from Error (term_leader c2 (Some l)) c2) = Some (o3, c')"
      and os: "os = (o0 @ o1 @ o2) @ o3"
    unfolding on_join_def t_def by (auto elim!: run_ConsE)
  have q: "quiet c (o0 @ o1 @ o2) c2"
    by (intro quiet.R_trans [of c o0 c0] quiet.R_trans [of c0 o1 c1])
      (use quiet_note_held [of c b] quiet_saw_term [of c0 E t] quiet_learn [of c1 node] h st ln in simp_all)
  have acc: "c_accepted c2 = c_accepted c" and T: "t \<le> c_current_term c2"
    using note_held_accepted [OF h] saw_term_core [OF st] calm_core [OF calm_basic(8) ln]
    by (auto simp: core_def split: if_splits)
  have r2: "replies_ok c2" and n2: "c_notes c2" using q r nt by (simp_all add: quiet_def)
  have "election_step (join_vote b) S c2 o3 c' \<and> c_last_join c' = c_last_join c2"
  proof (cases "\<not> t < c_current_term c2 \<and> c_mode c2 = Candidate \<and>
      \<not> fresher (opt 0 (b_last_accepted_term b)) (opt 0 (b_last_accepted_version b))
          (cs_term (c_accepted c2)) (cs_version (c_accepted c2))")
    case True
    with last have jc: "join_candidate E node (opt False (b_vote b)) c2 = Some (o3, c')" by simp
    show ?thesis
    proof (rule join_candidate_step [OF jc _ r2 n2])
      show "c_mode c2 = Candidate" using True by simp
      show "join_vote b (c_current_term c2) (dn_id node)" if "opt False (b_vote b)"
        using that True T Some by (auto simp: join_vote_def t_def opt_def split: option.splits)
    qed
  next
    case False
    with last have "holds quiet c2 (Some (o3, c'))"
      using quiet_join_behind [of c2 "from"] quiet_join_leader [of c2 E node "from"]
        quiet_answer_join [of c2 "from"]
      by (auto simp: holds_def split: if_splits mode.splits)
    then show ?thesis by (auto simp: quiet_election_step [OF _ r2] quiet_def)
  qed
  with quiet_election_step_after [OF q acc r] q show ?thesis by (auto simp: os quiet_def)
qed

section \<open>Answering a start-join, and starting an election\<close>

definition join_ok :: "'w coordinator \<Rightarrow> bool" where
  "join_ok c = (\<forall>t n. c_last_join c = Some (t, n) \<longrightarrow> t \<le> c_current_term c)"

text \<open>A move to a new term, the pledge given in it, and what follows.\<close>

lemma pledge_step:
  assumes q: "quiet c o1 c1" and acc: "c_accepted c1 = c_accepted c" and r: "replies_ok c"
    and lt: "c_current_term c < t" and T1: "c_current_term c1 = t" and cand: "c_mode c1 = Candidate"
    and votes: "c_join_votes c1 = []" and ok: "join_ok c" and S: "S t n"
    and V: "\<And>t' v. V' t' v \<Longrightarrow> V t' v \<or> v = my_id c \<and> S t' (my_id c)"
    and b: "election_step V' S (c1\<lparr>c_last_join := Some (t, n)\<rparr>) o2 c'"
  shows "election_step V S c (o1 @ o2) c'"
proof -
  let ?c2 = "c1\<lparr>c_last_join := Some (t, n)\<rparr>"
  have A: "c_me c1 = c_me c" "c_notes c1 = c_notes c" "replies_ok c1" "c_last_join c1 = c_last_join c"
    using q r by (simp_all add: quiet_def)
  have me: "my_id ?c2 = my_id c" using A by (simp add: my_id_def)
  have B: "c_me c' = c_me c1" "c_notes c' = c_notes c1" "replies_ok c'"
    "t \<le> c_current_term c'" "\<forall>m \<in> set o2. sound_msg S ?c2 o2 m"
    "pledge_ok S ?c2 o2 c'" "answer_ok S ?c2 o2 c'"
    "set (bm_keys (c_join_votes c')) \<subseteq> allowed V' S ?c2 o2 (c_current_term c')"
    "lead_ok V' S ?c2 o2 c'" "mode_ok ?c2 o2 c'"
    using b T1 by (simp_all add: election_step_def)
  have old: "c_last_join c = Some (u, m) \<Longrightarrow> u \<le> c_current_term c" for u m using ok by (simp add: join_ok_def)
  have p1: "pledges (my_id c) o1 u m \<Longrightarrow> c_last_join c = Some (u, m)" for u m
    using quiet_pledges [OF q r] by blast
  have tell: "told S (my_id c) o2 u m \<Longrightarrow> told S (my_id c) (o1 @ o2) u m" for u m
    by (erule told_mono) auto
  have p2: "u \<le> c_current_term c' \<and> t \<le> u \<and> told S (my_id c) (o1 @ o2) u m
        \<and> (\<forall>m'. pledges (my_id c) o2 u m' \<longrightarrow> m' = m)
        \<and> (\<forall>m'. c_last_join c' = Some (u, m') \<longrightarrow> m' = m)" if "pledges (my_id c) o2 u m" for u m
  proof -
    from B(6) that have "u \<le> c_current_term c'
        \<and> (c_last_join ?c2 = Some (u, m) \<or> c_current_term ?c2 < u \<and> told S (my_id c) o2 u m)
        \<and> (\<forall>m'. pledges (my_id c) o2 u m' \<longrightarrow> m' = m)
        \<and> (\<forall>m'. c_last_join c' = Some (u, m') \<longrightarrow> m' = m)"
      unfolding pledge_ok_def me by blast
    then show ?thesis using T1 S tell by (auto simp: told_def)
  qed
  have lj: "c_last_join c' = Some (u, m) \<Longrightarrow> t \<le> u" for u m
    using B(7) T1 by (auto simp: answer_ok_def)
  have allow: "allowed V' S ?c2 o2 u \<subseteq> allowed V S c (o1 @ o2) u" for u
    using V tell votes me unfolding allowed_def by (fastforce simp: bm_keys_def told_def split: if_splits)
  have "pledge_ok S c (o1 @ o2) c'"
    unfolding pledge_ok_def
  proof (intro allI impI)
    fix u m
    assume pl: "pledges (my_id c) (o1 @ o2) u m"
    have up: "u \<le> c_current_term c'" using pl p1 p2 old lt B(4) unfolding pledges_append
      by (meson le_trans less_imp_le)
    have from_c: "c_last_join c = Some (u, m) \<or> c_current_term c < u \<and> told S (my_id c) (o1 @ o2) u m"
      using pl p1 p2 lt unfolding pledges_append by (meson less_le_trans)
    have uniq: "m' = m" if "pledges (my_id c) (o1 @ o2) u m'" for m'
      using pl that p1 p2 old lt unfolding pledges_append
      by (metis leD le_trans option.inject prod.inject)
    have last: "m' = m" if l: "c_last_join c' = Some (u, m')" for m'
      using pl p1 p2 old lt lj [OF l] l unfolding pledges_append by (metis leD le_trans)
    show "u \<le> c_current_term c'
        \<and> (c_last_join c = Some (u, m) \<or> c_current_term c < u \<and> told S (my_id c) (o1 @ o2) u m)
        \<and> (\<forall>n'. pledges (my_id c) (o1 @ o2) u n' \<longrightarrow> n' = m)
        \<and> (\<forall>n'. c_last_join c' = Some (u, n') \<longrightarrow> n' = m)"
      using up from_c uniq last by blast
  qed
  moreover have "answer_ok S c (o1 @ o2) c'"
  proof -
    have "c_last_join c' = Some (t, n) \<or> (\<exists>u m. c_last_join c' = Some (u, m) \<and> t < u
        \<and> u \<le> c_current_term c' \<and> told S (my_id c) o2 u m)"
      using B(7) T1 me by (simp add: answer_ok_def)
    then show ?thesis
    proof
      assume "c_last_join c' = Some (t, n)"
      with lt B(4) S show ?thesis by (simp add: answer_ok_def told_def)
    next
      assume "\<exists>u m. c_last_join c' = Some (u, m) \<and> t < u \<and> u \<le> c_current_term c' \<and> told S (my_id c) o2 u m"
      then obtain u m where "c_last_join c' = Some (u, m)" "t < u" "u \<le> c_current_term c'"
        "told S (my_id c) (o1 @ o2) u m" using tell by blast
      with lt show ?thesis by (auto simp: answer_ok_def)
    qed
  qed
  moreover have "set (bm_keys (c_join_votes c')) \<subseteq> allowed V S c (o1 @ o2) (c_current_term c')"
    using B(8) allow by blast
  moreover have "lead_ok V S c (o1 @ o2) c'"
    unfolding lead_ok_def
  proof (intro allI impI)
    fix u
    assume "Note (NLeader u) \<in> set (o1 @ o2)"
    then have "Note (NLeader u) \<in> set o2" using quiet_no_claims(1) [OF q r] by auto
    with B(9) T1 have l: "t \<le> u" "u \<le> c_current_term c'"
      "(\<exists>v. V' u v) \<or> told S (my_id c) o2 u (my_id c)"
      "election_quorum (c_accepted c) (insert (my_id c) (allowed V' S ?c2 o2 u))"
      by (auto simp: lead_ok_def me acc)
    have "election_quorum (c_accepted c) (insert (my_id c) (allowed V S c (o1 @ o2) u))"
      by (rule election_quorum_mono [OF l(4)]) (use allow in blast)
    moreover have "(\<exists>v. V u v) \<or> told S (my_id c) (o1 @ o2) u (my_id c)"
      using l(3) V tell unfolding told_def by blast
    ultimately show "c_current_term c \<le> u \<and> u \<le> c_current_term c'
        \<and> ((\<exists>v. V u v) \<or> told S (my_id c) (o1 @ o2) u (my_id c))
        \<and> election_quorum (c_accepted c) (insert (my_id c) (allowed V S c (o1 @ o2) u))"
      using l lt by auto
  qed
  moreover have "mode_ok c (o1 @ o2) c'" using B(10) cand by (auto simp: mode_ok_def)
  moreover have "sound_msg S c (o1 @ o2) m" if m: "m \<in> set (o1 @ o2)" for m
  proof (cases "m \<in> set o1")
    case True
    show ?thesis by (rule quiet_sound [OF q r True])
  next
    case False
    with m B(5) have "sound_msg S ?c2 o2 m" by auto
    with tell cand me A(1) show ?thesis by (cases m) auto
  qed
  ultimately show ?thesis
    unfolding election_step_def using A B lt by auto
qed

lemma on_start_join_step:
  assumes act: "on_start_join E t n c = Some (os, c')" and lt: "c_current_term c < t"
    and r: "replies_ok c" and nt: "c_notes c" and ok: "join_ok c" and S: "S t n"
  shows "election_step V S c os c' \<and> c_last_join c' = Some (t, n)"
proof -
  from act lt obtain o1 c1 o2 where st: "saw_term E t c = Some (o1, c1)"
      and rest: "(let c = c1\<lparr>c_last_join := Some (t, n)\<rparr> in
         if n = my_id c then on_join E (join_body E c (my_id c)) (my_id c) c else join E n c) = Some (o2, c')"
      and os: "os = o1 @ o2"
    unfolding on_start_join_def by (auto elim!: run_ConsE simp: Let_def upd_def)
  let ?c2 = "c1\<lparr>c_last_join := Some (t, n)\<rparr>"
  from st have q: "quiet c o1 c1" using quiet_saw_term [of c E t] by simp
  have c1: "c_accepted c1 = c_accepted c" "c_current_term c1 = t" "c_mode c1 = Candidate"
    "c_join_votes c1 = []"
    using saw_term_core [OF st] lt by (simp_all add: core_def)
  have r2: "replies_ok ?c2" and n2: "c_notes ?c2" and me: "my_id ?c2 = my_id c"
    using q r nt by (auto simp: quiet_def replies_ok_def my_id_def)
  define V' where "V' = (if n = my_id c then join_vote (join_body E ?c2 (my_id ?c2)) else (\<lambda>_ _. False))"
  have b: "election_step V' S ?c2 o2 c' \<and> c_last_join c' = Some (t, n)"
  proof (cases "n = my_id c")
    case True
    with rest me have "on_join E (join_body E ?c2 (my_id ?c2)) (my_id ?c2) ?c2 = Some (o2, c')"
      by (simp add: Let_def)
    from on_join_step [OF this r2 n2] True show ?thesis by (simp add: V'_def)
  next
    case False
    with rest me have "join E n ?c2 = Some (o2, c')" by (simp add: Let_def)
    with quiet_join [of ?c2 E n] have "quiet ?c2 o2 c'" by simp
    then show ?thesis using quiet_election_step [OF _ r2] by (auto simp: quiet_def)
  qed
  have V: "V t' v \<or> v = my_id c \<and> S t' (my_id c)" if "V' t' v" for t' v
    using that S c1(2) me
    by (auto simp: V'_def join_vote_def join_body_def opt_def body_node_def my_id_def split: if_splits)
  have "election_step V S c (o1 @ o2) c'"
    by (rule pledge_step [where S = S and n = n and V' = V', OF q c1(1) r lt c1(2, 3, 4) ok])
      (use S V b in simp_all)
  with b os show ?thesis by simp
qed

text \<open>The announcement of an election and the commands to join it.\<close>

lemma start_requests:
  "each (\<lambda>x. request x START_JOIN (no_body\<lparr>b_term := Some t\<rparr>)) xs c = Some (os, c') \<Longrightarrow>
   core c' = core c \<and> c_event_replies c' = c_event_replies c \<and>
   (\<forall>m \<in> set os. \<exists>x k. m = Send x (mk_request START_JOIN (my_id c) k (no_body\<lparr>b_term := Some t\<rparr>)))"
proof (induction xs arbitrary: c os)
  case Nil
  then show ?case by (simp add: each_def)
next
  case (Cons x xs)
  from Cons.prems obtain o1 c1 o2 where
      rq: "request x START_JOIN (no_body\<lparr>b_term := Some t\<rparr>) c = Some (o1, c1)"
      and rest: "each (\<lambda>x. request x START_JOIN (no_body\<lparr>b_term := Some t\<rparr>)) xs c1 = Some (o2, c')"
      and os: "os = o1 @ o2"
    by (auto simp: each_def elim!: run_ConsE)
  from rq have c1: "core c1 = core c" "my_id c1 = my_id c" "c_event_replies c1 = c_event_replies c"
    and o1: "\<exists>k. o1 = [Send x (mk_request START_JOIN (my_id c) k (no_body\<lparr>b_term := Some t\<rparr>))]"
    by (auto simp: request_def rid_def core_def my_id_def)
  from Cons.IH [OF rest] c1 o1 os show ?case by auto
qed

lemma start_election_step:
  assumes act: "start_election E c = Some (os, c')"
    and r: "replies_ok c" and nt: "c_notes c" and ok: "join_ok c"
    and below: "c_max_term_seen c < u64_max" "c_current_term c < u64_max"
  shows "election_step V S c os c'"
proof -
  define t where "t = sat_add (max (c_max_term_seen c) (c_current_term c)) 1"
  have lt: "c_current_term c < t" using below by (auto simp: t_def sat_add_def)
  define c0 where "c0 = c\<lparr>c_prevote_rid := 0, c_prevotes := []\<rparr>"
  from act obtain o1 c1 o2 where
      rq: "each (\<lambda>x. request x START_JOIN (no_body\<lparr>b_term := Some t\<rparr>)) (everyone c0) c0 = Some (o1, c1)"
      and sj: "on_start_join E t (my_id c0) c1 = Some (o2, c')"
      and os: "os = Note (NElection t) # o1 @ o2"
    using nt unfolding start_election_def Let_def t_def c0_def
    by (auto elim!: run_ConsE simp: add_note_def when_act_def emit_def)
  from start_requests [OF rq] have c1: "core c1 = core c0" "c_event_replies c1 = c_event_replies c0"
    and o1: "\<forall>m \<in> set o1. \<exists>x k. m = Send x (mk_request START_JOIN (my_id c0) k (no_body\<lparr>b_term := Some t\<rparr>))"
    by auto
  have eqs: "c_me c1 = c_me c" "c_notes c1 = c_notes c" "c_current_term c1 = c_current_term c"
    "c_last_join c1 = c_last_join c" "c_join_votes c1 = c_join_votes c" "c_mode c1 = c_mode c"
    "c_accepted c1 = c_accepted c" "c_event_replies c1 = c_event_replies c" "my_id c0 = my_id c"
    "my_id c1 = my_id c"
    using c1 by (simp_all add: core_def c0_def my_id_def)
  define S1 where "S1 = (\<lambda>u m. S u m \<or> u = t \<and> m = my_id c)"
  have step: "election_step V S1 c1 o2 c'" and lj: "c_last_join c' = Some (t, my_id c)"
    using on_start_join_step [OF sj, of S1 V] lt r nt ok eqs
    by (auto simp: S1_def replies_ok_def join_ok_def)
  have tell: "told S1 (my_id c) o2 u m \<Longrightarrow> told S (my_id c) os u m" for u m
    by (auto simp: told_def S1_def os)
  have allow: "allowed V S1 c1 o2 u \<subseteq> allowed V S c os u" for u
    using tell eqs by (auto simp: allowed_def split: if_splits)
  have B: "c_me c' = c_me c" "c_notes c' = c_notes c" "replies_ok c'"
    "c_current_term c \<le> c_current_term c'" "\<forall>m \<in> set o2. sound_msg S1 c1 o2 m"
    "pledge_ok S1 c1 o2 c'" "answer_ok S1 c1 o2 c'"
    "set (bm_keys (c_join_votes c')) \<subseteq> allowed V S1 c1 o2 (c_current_term c')"
    "lead_ok V S1 c1 o2 c'" "mode_ok c1 o2 c'"
    using step eqs by (simp_all add: election_step_def)
  have pl_os: "pledges (my_id c) os u m = (u = t \<and> m = my_id c \<or> pledges (my_id c) o2 u m)" for u m
    using o1 by (auto simp: pledges_def os is_request_def mk_request_def action_defs)
  have pl2: "u \<le> c_current_term c' \<and> c_current_term c < u \<and> told S (my_id c) os u m \<or> c_last_join c = Some (u, m) \<and> u \<le> c_current_term c'"
    and uniq2: "\<forall>n'. pledges (my_id c) o2 u n' \<longrightarrow> n' = m" "\<forall>n'. c_last_join c' = Some (u, n') \<longrightarrow> n' = m"
    if "pledges (my_id c) o2 u m" for u m
    using B(6) that eqs tell unfolding pledge_ok_def by metis+
  have tT: "t \<le> c_current_term c'"
  proof -
    have "c_last_join c1 \<noteq> Some (t, my_id c)" using ok lt eqs by (auto simp: join_ok_def)
    with B(7) lj show ?thesis by (auto simp: answer_ok_def)
  qed
  have "pledge_ok S c os c'"
    unfolding pledge_ok_def pl_os
  proof (intro allI impI)
    fix u m
    assume a: "u = t \<and> m = my_id c \<or> pledges (my_id c) o2 u m"
    have self: "n' = my_id c" if "pledges (my_id c) o2 t n'" for n'
      using uniq2(2) [OF that] lj by auto
    have "told S (my_id c) os t (my_id c)" by (simp add: told_def os)
    then show "u \<le> c_current_term c'
        \<and> (c_last_join c = Some (u, m) \<or> c_current_term c < u \<and> told S (my_id c) os u m)
        \<and> (\<forall>n'. u = t \<and> n' = my_id c \<or> pledges (my_id c) o2 u n' \<longrightarrow> n' = m)
        \<and> (\<forall>n'. c_last_join c' = Some (u, n') \<longrightarrow> n' = m)"
      using a pl2 uniq2 lt tT lj self by auto
  qed
  moreover have "answer_ok S c os c'"
    using lj lt tT by (auto simp: answer_ok_def told_def os)
  moreover have "set (bm_keys (c_join_votes c')) \<subseteq> allowed V S c os (c_current_term c')"
    using B(8) allow by blast
  moreover have "lead_ok V S c os c'"
    unfolding lead_ok_def
  proof (intro allI impI)
    fix u
    assume "Note (NLeader u) \<in> set os"
    then have "Note (NLeader u) \<in> set o2" using o1 by (auto simp: os)
    with B(9) eqs have l: "c_current_term c \<le> u" "u \<le> c_current_term c'"
      "(\<exists>v. V u v) \<or> told S1 (my_id c) o2 u (my_id c)"
      "election_quorum (c_accepted c) (insert (my_id c) (allowed V S1 c1 o2 u))"
      by (auto simp: lead_ok_def)
    have "election_quorum (c_accepted c) (insert (my_id c) (allowed V S c os u))"
      by (rule election_quorum_mono [OF l(4)]) (use allow in blast)
    with l tell show "c_current_term c \<le> u \<and> u \<le> c_current_term c'
        \<and> ((\<exists>v. V u v) \<or> told S (my_id c) os u (my_id c))
        \<and> election_quorum (c_accepted c) (insert (my_id c) (allowed V S c os u))"
      by blast
  qed
  moreover have "mode_ok c os c'" using B(10) eqs by (auto simp: mode_ok_def os)
  moreover have "sound_msg S c os m" if m: "m \<in> set os" for m
  proof (cases "m \<in> set o2")
    case True
    with B(5) have "sound_msg S1 c1 o2 m" by simp
    with tell eqs show ?thesis by (cases m) (auto simp: os)
  next
    case False
    with m o1 os consider "m = Note (NElection t)"
      | x k where "m = Send x (mk_request START_JOIN (my_id c0) k (no_body\<lparr>b_term := Some t\<rparr>))"
      by auto
    then show ?thesis
      by cases (auto simp: told_def os mk_request_def is_request_def action_defs eqs)
  qed
  ultimately show ?thesis unfolding election_step_def using B by auto
qed

section \<open>Every input\<close>

text \<open>What an input gives a node: a vote in a term, the command to join a term.\<close>

fun vote_in :: "in_msg \<Rightarrow> evidence" where
  "vote_in (Message e) t v = (is_request JOIN e \<and> join_vote (en_body e) t v)"
| "vote_in _ t v = False"

fun start_in :: "in_msg \<Rightarrow> evidence" where
  "start_in (Message e) t n =
     (is_request START_JOIN e \<and> opt 0 (b_term (en_body e)) = t \<and> en_from e = n)"
| "start_in _ t n = False"

text \<open>Terms stay below the largest a word holds, where the next one would not be new.\<close>

fun term_below :: "in_msg \<Rightarrow> bool" where
  "term_below (Message e) = (opt 0 (b_term (en_body e)) < u64_max)"
| "term_below _ = True"

definition below_max :: "'w coordinator \<Rightarrow> bool" where
  "below_max c = (c_max_term_seen c < u64_max \<and> c_current_term c < u64_max)"

lemma join_frame: "join E l c = Some (os, c') \<Longrightarrow> \<exists>r. c' = c\<lparr>c_next_request := r\<rparr>"
  by (auto simp: join_def request_def rid_def Let_def)

lemma election_timer_step:
  assumes act: "on_election_timer E c = Some (os, c')"
    and r: "replies_ok c" and nt: "c_notes c" and ok: "join_ok c" and below: "below_max c"
  shows "election_step V S c os c'"
proof (cases "c_mode c \<noteq> Candidate \<or> \<not> eligible c")
  case True
  with act have "os = [] \<and> c' = c\<lparr>c_election_scheduled := False\<rparr>"
    by (auto simp: on_election_timer_def Let_def skip_def eligible_def)
  then have "quiet c os c'" by (auto simp: replies_ok_def intro!: quiet_silent)
  then show ?thesis by (rule quiet_election_step [OF _ r])
next
  case False
  define c0 where "c0 = c\<lparr>c_election_scheduled := False\<rparr>"
  have "run [(\<lambda>c. case c_leader_hint c of Some l \<Rightarrow> join E l c | None \<Rightarrow> skip c),
         when_act (\<lambda>c. cs_last_accepted_config (c_accepted c) \<noteq> [])
           (run [prevote, when_act prevote_quorum (start_election E)]),
         when_act (\<lambda>c. c_mode c = Candidate) schedule_election] c0 = Some (os, c')"
    using act False by (auto simp: on_election_timer_def Let_def eligible_def c0_def)
  then obtain o1 c1 o2 c2 o3 where
      jn: "(case c_leader_hint c0 of Some l \<Rightarrow> join E l c0 | None \<Rightarrow> skip c0) = Some (o1, c1)"
      and vt: "when_act (\<lambda>c. cs_last_accepted_config (c_accepted c) \<noteq> [])
           (run [prevote, when_act prevote_quorum (start_election E)]) c1 = Some (o2, c2)"
      and sc: "when_act (\<lambda>c. c_mode c = Candidate) schedule_election c2 = Some (o3, c')"
      and os: "os = o1 @ o2 @ o3"
    by (auto elim!: run_ConsE)
  from jn have c1: "\<exists>x. c1 = c0\<lparr>c_next_request := x\<rparr>"
    by (cases "c_leader_hint c0") (auto simp: skip_def dest: join_frame intro: exI [of _ "c_next_request c0"])
  have q1: "quiet c o1 c1"
  proof (rule quiet.R_trans [of c "[]" c0, simplified])
    show "quiet c [] c0" by (auto simp: c0_def replies_ok_def intro!: quiet_silent)
    show "quiet c0 o1 c1"
      using jn quiet_join [of c0 E] quiet_skip [of c0] by (cases "c_leader_hint c0") (auto simp: holds_def)
  qed
  have r1: "replies_ok c1" and n1: "c_notes c1" and ok1: "join_ok c1" and acc1: "c_accepted c1 = c_accepted c"
    and b1: "c_max_term_seen c1 < u64_max" "c_current_term c1 < u64_max"
    using c1 r nt ok below by (auto simp: c0_def replies_ok_def join_ok_def below_max_def)
  have s2: "election_step V S c1 o2 c2"
  proof (cases "cs_last_accepted_config (c_accepted c1) \<noteq> []")
    case False
    with vt have "o2 = [] \<and> c2 = c1" by (simp add: when_act_def skip_def)
    then show ?thesis using quiet_election_step [OF quiet.R_refl r1] by simp
  next
    case True
    with vt obtain p1 d1 p2 where pv: "prevote c1 = Some (p1, d1)"
        and se: "when_act prevote_quorum (start_election E) d1 = Some (p2, c2)" and o2: "o2 = p1 @ p2"
      by (auto simp: when_act_def elim!: run_ConsE)
    have qp: "quiet c1 p1 d1" using pv quiet_prevote [of c1] by simp
    from pv have d1: "c_accepted d1 = c_accepted c1" "replies_ok d1" "c_notes d1" "join_ok d1"
      "c_max_term_seen d1 < u64_max" "c_current_term d1 < u64_max"
      using r1 n1 ok1 b1 by (auto simp: prevote_def rid_def Let_def replies_ok_def join_ok_def)
    have "election_step V S d1 p2 c2"
    proof (cases "prevote_quorum d1")
      case True
      with se have "start_election E d1 = Some (p2, c2)" by (simp add: when_act_def)
      from start_election_step [OF this d1(2-6)] show ?thesis .
    next
      case False
      with se have "p2 = [] \<and> c2 = d1" by (simp add: when_act_def skip_def)
      then show ?thesis using quiet_election_step [OF quiet.R_refl d1(2)] by simp
    qed
    from quiet_election_step_after [OF qp d1(1) r1 this] o2 show ?thesis by simp
  qed
  have "holds quiet c2 (when_act (\<lambda>c. c_mode c = Candidate) schedule_election c2)"
    by (intro quiet.holds_intros quiet_acts)
  with sc have "quiet c2 o3 c'" by simp
  from election_step_quiet [OF quiet_election_step_after [OF q1 acc1 r s2] this] os
  show ?thesis by simp
qed

lemma prevote_response_step:
  assumes act: "on_prevote_response E e c = Some (os, c')"
    and r: "replies_ok c" and nt: "c_notes c" and ok: "join_ok c" and below: "below_max c"
    and t: "opt 0 (b_term (en_body e)) < u64_max"
  shows "election_step V S c os c'"
proof (cases "\<exists>c1. os = [] \<and> c' = c1 \<and> same_core c1 c")
  case True
  then show ?thesis using quiet_election_step [OF same_core_quiet r] by auto
next
  case False
  then obtain c1 where se: "start_election E c1 = Some (os, c')" and core: "same_core c1 c"
      and c1: "c_max_term_seen c1 = max (c_max_term_seen c) (opt 0 (b_term (en_body e)))"
        "c_accepted c1 = c_accepted c"
    using act unfolding on_prevote_response_def Let_def
    by (auto simp: skip_def same_core_def replies_ok_def split: if_splits)
  have "election_step V S c1 os c'"
    by (rule start_election_step [OF se])
      (use core c1 r nt ok below t in \<open>auto simp: same_core_def join_ok_def below_max_def\<close>)
  from quiet_election_step_after [OF same_core_quiet [OF core] c1(2) r this] show ?thesis by simp
qed

lemma start_join_request_step:
  assumes act: "on_start_join_request E e c = Some (os, c')" and req: "is_request START_JOIN e"
    and r: "replies_ok c" and nt: "c_notes c" and ok: "join_ok c"
  shows "election_step V (start_in (Message e)) c os c'"
proof (cases "knows c (en_from e)")
  case False
  with act have "quiet c os c'"
    using quiet_not_of_this_cluster [of c e] by (simp add: on_start_join_request_def)
  then show ?thesis by (rule quiet_election_step [OF _ r])
next
  case True
  with act obtain o1 c1 o2 where rp: "reply_ok e no_body c = Some (o1, c1)"
      and sj: "on_start_join E (opt 0 (b_term (en_body e))) (en_from e) c1 = Some (o2, c')"
      and os: "os = o1 @ o2"
    by (auto simp: on_start_join_request_def elim!: run_ConsE)
  have q: "quiet c o1 c1" and c1: "c1 = c" using rp quiet_reply_ok [of c e no_body] by (auto simp: reply_ok_def)
  have "election_step V (start_in (Message e)) c o2 c'"
  proof (cases "c_current_term c < opt 0 (b_term (en_body e))")
    case True
    from on_start_join_step [OF sj [unfolded c1] True r nt ok] req show ?thesis by simp
  next
    case False
    with sj c1 have "o2 = [] \<and> c' = c" by (simp add: on_start_join_def skip_def)
    then show ?thesis using quiet_election_step [OF quiet.R_refl r] by simp
  qed
  from quiet_election_step_after [OF q [unfolded c1] refl r this] os show ?thesis by simp
qed

lemma quiet_message:
  assumes "\<not> is_request START_JOIN e" and "\<not> is_request JOIN e"
    and "\<not> (en_kind e = Response \<and> en_action e = PRE_VOTE)"
  shows "holds quiet c (on_message E e c)"
proof (cases "en_kind e")
  case Request
  with assms show ?thesis
    unfolding on_message_def on_request_def Let_def
    by (auto simp: is_request_def shard_action_def intro!: quiet_acts)
next
  case Response
  with assms show ?thesis
    unfolding on_message_def on_response_def Let_def by (auto intro!: quiet_acts)
next
  case Error
  then show ?thesis unfolding on_message_def on_error_def Let_def by (auto intro!: quiet_acts)
qed

lemma message_step:
  assumes act: "on_message E e c = Some (os, c')"
    and r: "replies_ok c" and nt: "c_notes c" and ok: "join_ok c" and below: "below_max c"
    and t: "opt 0 (b_term (en_body e)) < u64_max"
  shows "election_step (vote_in (Message e)) (start_in (Message e)) c os c'"
proof -
  have distinct: "START_JOIN \<noteq> PEERS" "START_JOIN \<noteq> PRE_VOTE" "JOIN \<noteq> PEERS" "JOIN \<noteq> PRE_VOTE"
    "JOIN \<noteq> START_JOIN" "PRE_VOTE \<noteq> PEERS"
    by (simp_all add: action_defs)
  consider (sj) "is_request START_JOIN e" | (jn) "is_request JOIN e"
    | (pv) "en_kind e = Response" "en_action e = PRE_VOTE"
    | (other) "\<not> is_request START_JOIN e" "\<not> is_request JOIN e"
        "\<not> (en_kind e = Response \<and> en_action e = PRE_VOTE)"
    by blast
  then show ?thesis
  proof cases
    case sj
    with act distinct have "on_start_join_request E e c = Some (os, c')"
      by (simp add: on_message_def on_request_def is_request_def Let_def)
    from start_join_request_step [OF this sj r nt ok] show ?thesis .
  next
    case jn
    with act distinct have "on_join E (en_body e) (en_from e) c = Some (os, c')"
      by (simp add: on_message_def on_request_def is_request_def Let_def)
    moreover have "vote_in (Message e) = join_vote (en_body e)" by (intro ext) (simp add: jn)
    ultimately show ?thesis
      using on_join_step [OF _ r nt, of E "en_body e" "en_from e" os c' "start_in (Message e)"] by simp
  next
    case pv
    with act distinct have "on_prevote_response E e c = Some (os, c')"
      by (simp add: on_message_def on_response_def Let_def)
    from prevote_response_step [OF this r nt ok below t] show ?thesis .
  next
    case other
    with act quiet_message [OF other, of c E] have "quiet c os c'" by simp
    then show ?thesis by (rule quiet_election_step [OF _ r])
  qed
qed

lemma handle_step:
  assumes act: "handle E i wall c = Some (os, c')" and i: "i \<noteq> Start"
    and r: "replies_ok c" and nt: "c_notes c" and ok: "join_ok c" and below: "below_max c"
    and t: "term_below i"
  shows "election_step (vote_in i) (start_in i) c os c'"
proof -
  let ?c = "c\<lparr>c_last_wall := wall\<rparr>"
  have core: "same_core ?c c" by (simp add: same_core_def replies_ok_def)
  have pre: "replies_ok ?c" "c_notes ?c" "join_ok ?c" "below_max ?c"
    using r nt ok below by (simp_all add: replies_ok_def join_ok_def below_max_def)
  have "election_step (vote_in i) (start_in i) ?c os c'"
  proof (cases i)
    case Start
    with i show ?thesis by simp
  next
    case (Message e)
    with act have "on_message E e ?c = Some (os, c')" by (simp add: handle_def Let_def)
    from message_step [OF this pre] t Message show ?thesis by simp
  next
    case (TimerFired x)
    show ?thesis
    proof (cases "x = T_ELECTION")
      case True
      with act TimerFired have "on_election_timer E ?c = Some (os, c')"
        by (simp add: handle_def on_timer_def Let_def timer_defs)
      from election_timer_step [OF this pre] show ?thesis .
    next
      case False
      have "holds quiet ?c (on_timer E x ?c)"
        unfolding on_timer_def using False by (auto intro!: quiet_acts)
      with act TimerFired have "quiet ?c os c'" by (simp add: handle_def Let_def)
      then show ?thesis by (rule quiet_election_step [OF _ pre(1)])
    qed
  next
    case (PeerFound n)
    with act quiet_peer [of ?c n] have "quiet ?c os c'" by (simp add: handle_def Let_def)
    then show ?thesis by (rule quiet_election_step [OF _ pre(1)])
  next
    case (ShardDone aid f)
    with act quiet_shard_done [of ?c E aid f] have "quiet ?c os c'" by (simp add: handle_def Let_def)
    then show ?thesis by (rule quiet_election_step [OF _ pre(1)])
  qed
  from quiet_election_step_after [OF same_core_quiet [OF core] _ r this] show ?thesis by simp
qed

end
