(* ===== verification/Node_Contract.thy ===== *)
theory Node_Contract
  imports Election_Contract
begin

text \<open>
  What a node keeps on disk.  \<open>node_ok\<close> says that the term on disk is the term in memory, that
  the entries can be read back, and that no state the node holds, in memory or on disk, is from a
  later term; every input keeps it, and a start from such a disk brings the term back.
\<close>

section \<open>The invariant\<close>

definition node_at :: "nat \<times> nat \<Rightarrow> 'w coordinator \<Rightarrow> bool" where
  "node_at lo c =
     ((du_term (c_durable c) = Holds (c_current_term c)
       \<or> du_term (c_durable c) = Absent \<and> c_current_term c = 0)
      \<and> du_accepted (c_durable c) \<noteq> Unreadable
      \<and> (\<forall>s. du_accepted (c_durable c) = Holds s \<longrightarrow> cs_term s \<le> c_current_term c)
      \<and> (du_accepted (c_durable c) = Holds (c_accepted c) \<or> c_accepted c = c_committed c)
      \<and> (du_committed (c_durable c) = Holds (c_committed c)
          \<or> du_committed (c_durable c) = Absent \<and> cs_term (c_committed c) = 0 \<and> cs_version (c_committed c) = 0)
      \<and> cs_term (c_accepted c) \<le> c_current_term c \<and> cs_term (c_committed c) \<le> c_current_term c
      \<and> (\<forall>p. c_publishing c = Some p \<longrightarrow> cs_term (pb_state p) \<le> c_current_term c)
      \<and> \<not> fresher (fst lo) (snd lo) (cs_term (c_committed c)) (cs_version (c_committed c)))"

definition node_ok :: "'w coordinator \<Rightarrow> bool" where
  "node_ok c = node_at (0, 0) c"

definition steady :: "nat \<times> nat \<Rightarrow> 'w coordinator \<Rightarrow> out_msg list \<Rightarrow> 'w coordinator \<Rightarrow> bool" where
  "steady lo c os c' = (node_at lo c \<longrightarrow> node_at lo c')"

interpretation steady: act_relation "steady lo" for lo
  by unfold_locales (simp_all add: steady_def)

lemma node_ok_core: "core c' = core c \<Longrightarrow> node_at lo c' = node_at lo c"
  by (simp add: core_def node_at_def)

lemma steady_calm: "holds calm c r \<Longrightarrow> holds (steady lo) c r"
  by (auto simp: holds_def calm_def steady_def dest: node_ok_core)

lemma steady_upd: "(node_at lo c \<Longrightarrow> node_at lo (f c)) \<Longrightarrow> holds (steady lo) c (upd f c)"
  by (simp add: upd_def steady_def)

lemma steady_from: "holds (steady lo) c1 r \<Longrightarrow> (node_at lo c \<Longrightarrow> node_at lo c1) \<Longrightarrow> holds (steady lo) c r"
  by (simp add: holds_def steady_def)

lemmas node_defs = node_at_def

named_theorems steady_acts

lemmas steady_calm_acts [steady_acts] = calm_acts [THEN steady_calm]

lemma steady_persist [steady_acts]:
  "holds (steady lo) c (persist_accepted c)" "holds (steady lo) c (persist_committed c)"
  by (auto simp: persist_accepted_def persist_committed_def upd_def steady_def node_defs)

lemma node_ok_stop: "node_at lo c \<Longrightarrow> node_at lo (c\<lparr>c_mode := m, c_publishing := None\<rparr>)"
  by (simp add: node_defs)

lemma node_ok_raise:
  assumes "node_at lo c" and "c_current_term c < t" and "x = None \<or> x = c_publishing c"
  shows "node_at lo (c\<lparr>c_current_term := t, c_join_votes := [],
           c_durable := (c_durable c)\<lparr>du_term := Holds t\<rparr>, c_mode := m, c_publishing := x\<rparr>)"
proof -
  have "cs_term (pb_state p) \<le> t" if "x = Some p" for p
  proof -
    from that assms(3) have "c_publishing c = Some p" by auto
    with assms(1, 2) show ?thesis by (auto simp: node_at_def)
  qed
  then show ?thesis using assms by (auto simp: node_defs)
qed

lemma steady_become_candidate [steady_acts]: "holds (steady lo) c (become_candidate E c)"
  by (auto simp: holds_def steady_def node_ok_stop dest!: node_ok_core [OF become_candidate_core])

lemma steady_saw_term [steady_acts]: "holds (steady lo) c (saw_term E t c)"
  by (auto simp: holds_def steady_def node_ok_raise dest!: node_ok_core [OF saw_term_core] split: if_splits)

lemma steady_bootstrap [steady_acts]: "holds (steady lo) c (bootstrap c)"
proof -
  have "node_at lo c1 \<longleftrightarrow> node_at lo c" if "run [add_note n] (c\<lparr>c_accepted := set_config ids (c_accepted c),
      c_committed := set_config ids (c_committed c), c_durable := (c_durable c)
        \<lparr>du_accepted := Holds (set_config ids (c_accepted c)), du_committed := Holds (set_config ids (c_committed c))\<rparr>\<rparr>)
      = Some (os, c1)" and "node_at lo c" for n ids os c1
    using that by (auto simp: add_note_def when_act_def emit_def skip_def node_defs set_config_def split: if_splits)
  then show ?thesis
    unfolding bootstrap_def Let_def persist_accepted_def persist_committed_def
    by (auto simp: steady_def holds_def skip_def split: option.splits)
qed

text \<open>What committing a state leaves behind.\<close>

definition committed_form :: "cluster_state \<Rightarrow> cluster_state" where
  "committed_form s = s\<lparr>cs_last_committed_config := cs_last_accepted_config s\<rparr>"

definition adopt :: "cluster_state \<Rightarrow> 'w coordinator \<Rightarrow> 'w coordinator" where
  "adopt s c =
     (let c = (if fresher (cs_term s) (cs_version s) (cs_term (c_accepted c)) (cs_version (c_accepted c))
               then c\<lparr>c_accepted := committed_form s,
                      c_durable := (c_durable c)\<lparr>du_accepted := Holds (committed_form s)\<rparr>\<rparr>
               else c)
      in c\<lparr>c_committed := committed_form s,
           c_durable := (c_durable c)\<lparr>du_committed := Holds (committed_form s)\<rparr>\<rparr>)"

lemma apply_committed_eq:
  "apply_committed s c =
     Some ([], if fresher (cs_term s) (cs_version s) (cs_term (c_committed c)) (cs_version (c_committed c))
               then adopt s c else c)"
  by (auto simp: apply_committed_def adopt_def committed_form_def Let_def run.simps when_act_def upd_def
      skip_def persist_accepted_def persist_committed_def)

lemma fresher_below: "fresher t v t1 v1 \<Longrightarrow> \<not> fresher t0 v0 t1 v1 \<Longrightarrow> \<not> fresher t0 v0 t v"
  by (auto simp: fresher_def)

lemma adopt_ok:
  assumes "node_at lo c" and "cs_term s \<le> c_current_term c"
    and "fresher (cs_term s) (cs_version s) (cs_term (c_committed c)) (cs_version (c_committed c))"
  shows "node_at lo (adopt s c)"
  using assms fresher_below [OF assms(3), of "fst lo" "snd lo"]
  by (auto simp: node_defs adopt_def committed_form_def Let_def)

lemma steady_apply_committed:
  assumes "node_at lo c \<Longrightarrow> cs_term s \<le> c_current_term c"
  shows "holds (steady lo) c (apply_committed s c)"
  using assms by (simp add: apply_committed_eq steady_def adopt_ok)

lemma calm_told: "holds calm c (each (\<lambda>n c. emit (Send n (mk_request a (my_id c) r b)) c) xs c)"
  by (intro calm.holds_intros calm_acts)

lemma steady_commit_run:
  assumes "node_at lo c \<Longrightarrow> cs_term (pb_state p) \<le> c_current_term c"
  shows "holds (steady lo) c (commit_run E p r c)"
proof -
  have "node_at lo c'" if run: "commit_run E p r c = Some (os, c')" and n: "node_at lo c" for os c'
  proof -
    let ?s = "pb_state p"
    from run obtain o1 c1 o2 c2 o3 where
        each: "each (\<lambda>n c. emit (Send n (mk_request COMMIT (my_id c) r (commit_body ?s))) c)
          (filter (\<lambda>n. n \<noteq> my_id c \<and> n \<in> set (pb_acked p)) (bm_keys (cs_nodes ?s))) c = Some (o1, c1)"
        and com: "apply_committed ?s (c1\<lparr>c_lagging := filter (\<lambda>n. n \<notin> set (pb_acked p)) (bm_keys (cs_nodes ?s))\<rparr>)
          = Some (o2, c2)"
        and rest: "run [apply_shards E, answer_waiting, add_note (NCommitted (cs_term ?s) (cs_version ?s)
          (length (cs_nodes ?s)) (length (cs_last_accepted_config ?s)))] c2 = Some (o3, c')"
      unfolding commit_run_def Let_def by (elim run_ConsE) (simp add: run.simps upd_def)
    from calm_core [OF calm_told each] have c1: "core c1 = core c" .
    have n1: "node_at lo (c1\<lparr>c_lagging := l\<rparr>)" "cs_term ?s \<le> c_current_term (c1\<lparr>c_lagging := l\<rparr>)" for l
      using n assms [OF n] c1 node_ok_core [of "c1\<lparr>c_lagging := l\<rparr>" c] by (simp_all add: core_def)
    have "node_at lo c2"
      using steady_apply_committed [OF n1(2)] com n1(1) by (auto simp: holds_def steady_def)
    moreover have "holds (steady lo) c2 (run [apply_shards E, answer_waiting, add_note (NCommitted (cs_term ?s) (cs_version ?s)
          (length (cs_nodes ?s)) (length (cs_last_accepted_config ?s)))] c2)"
      by (intro steady.holds_intros steady_acts)
    ultimately show ?thesis using rest by (simp add: steady_def)
  qed
  then show ?thesis by (simp add: holds_def steady_def)
qed

lemma steady_commit_now [steady_acts]: "holds (steady lo) c (commit_now E c)"
proof (cases "c_publishing c")
  case None
  then show ?thesis by (simp add: commit_now_def steady.holds_skip)
next
  case (Some p)
  have "holds (steady lo) c (commit_run E p (Suc (c_next_request c))
      (c\<lparr>c_publishing := None, c_next_request := Suc (c_next_request c)\<rparr>))"
  proof (cases "node_at lo c")
    case True
    with Some have "cs_term (pb_state p) \<le> c_current_term (c\<lparr>c_publishing := None, c_next_request := Suc (c_next_request c)\<rparr>)"
      by (auto simp: node_defs)
    then show ?thesis
      by (rule steady_from [OF steady_commit_run]) (auto simp: node_defs)
  next
    case False
    then show ?thesis by (simp add: holds_def steady_def)
  qed
  with Some show ?thesis by (simp add: commit_now_def rid_def)
qed

lemma publish_start_steady: "publish_start s c = (os, c') \<Longrightarrow> steady lo c os c'"
  by (auto simp: publish_start_def rid_def Let_def stamp_def steady_def node_defs)

lemma place_protocol: "place E s c = (os, s', c') \<Longrightarrow> core c' = core c"
  by (auto simp: place_def Let_def core_def split: option.splits prod.splits)

lemma next_draft_protocol: "next_draft E c = (ch, s, c') \<Longrightarrow> core c' = core c"
  by (auto simp: next_draft_def Let_def core_def)

lemma next_state_core:
  assumes "next_state E c = (x, c')"
  shows "core c' = core c"
proof -
  obtain ch s c1 where d: "next_draft E c = (ch, s, c1)" by (cases "next_draft E c")
  obtain o2 s2 c2 where p: "place E s (c1\<lparr>c_republish_wanted := False\<rparr>) = (o2, s2, c2)"
    by (cases "place E s (c1\<lparr>c_republish_wanted := False\<rparr>)")
  from place_protocol [OF p] next_draft_protocol [OF d] assms d p show ?thesis
    by (auto simp: next_state_def core_def split: if_splits)
qed

lemma next_state_steady:
  "next_state E c = (x, c') \<Longrightarrow> steady lo c (case x of None \<Rightarrow> [] | Some (os, s) \<Rightarrow> os) c'"
  by (simp add: steady_def node_ok_core [OF next_state_core])

lemma steady_publish [steady_acts]: "holds (steady lo) c (publish E s c)"
  by (rule steady.holds_publish [OF publish_start_steady steady_commit_now next_state_steady])

lemma steady_next_publication [steady_acts]: "holds (steady lo) c (next_publication E c)"
  by (rule steady.holds_next_publication [OF publish_start_steady steady_commit_now next_state_steady])

lemma steady_commit_publication [steady_acts]: "holds (steady lo) c (commit_publication E c)"
  unfolding commit_publication_def by (intro holds_splits steady.holds_intros steady_acts)

section \<open>Every input\<close>

lemma steady_become_leader [steady_acts]: "holds (steady lo) c (become_leader E c)"
proof -
  have lay: "holds (steady lo) c2 (case place E s c2 of (o2, s2, c3) \<Rightarrow> run [(\<lambda>c. Some (o2, c)), publish E s2] c3)"
    for s and c2 :: "'a coordinator"
  proof -
    obtain o2 s2 c3 where p: "place E s c2 = (o2, s2, c3)" by (cases "place E s c2")
    have "holds (steady lo) c3 (run [(\<lambda>c. Some (o2, c)), publish E s2] c3)"
      by (intro steady.holds_intros steady_acts) (simp add: steady.R_refl steady_def)
    with p show ?thesis
      by (auto intro: steady_from simp: node_ok_core [OF place_protocol [OF p]])
  qed
  show ?thesis
    unfolding become_leader_def Let_def
    by (rule steady_from, rule steady.holds_run_Cons)
      ((intro steady.holds_intros holds_if steady_acts lay)+, simp add: node_defs)
qed

lemma steady_join_acts [steady_acts]:
  "holds (steady lo) c (join_candidate E node vote c)" "holds (steady lo) c (join_leader E node from c)"
  "holds (steady lo) c (join_behind from c)" "holds (steady lo) c (note_held b c)"
proof -
  show "holds (steady lo) c (join_candidate E node vote c)"
    unfolding join_candidate_def Let_def
    by (intro holds_splits steady_acts steady_from [OF steady_become_leader] steady_from [OF steady_calm_acts(1)])
      (auto simp: node_defs)
  show "holds (steady lo) c (join_leader E node from c)"
    unfolding join_leader_def Let_def
    by (intro holds_splits steady_acts steady_from [OF steady_next_publication]
        steady_from [OF steady_calm [OF calm_basic(6)]])
      (auto simp: node_defs)
  show "holds (steady lo) c (join_behind from c)"
    unfolding join_behind_def by (intro holds_splits steady_acts)
  show "holds (steady lo) c (note_held b c)"
    by (auto simp: note_held_def skip_def steady_def node_defs split: option.splits)
qed

lemma steady_on_join [steady_acts]: "holds (steady lo) c (on_join E b from c)"
  unfolding on_join_def by (intro steady.holds_intros holds_splits steady_acts)

lemma steady_on_start_join [steady_acts]: "holds (steady lo) c (on_start_join E t from c)"
  unfolding on_start_join_def
  by (intro holds_splits steady.holds_intros steady_acts steady_upd) (simp add: node_defs)

lemma steady_start_election [steady_acts]: "holds (steady lo) c (start_election E c)"
  unfolding start_election_def Let_def
  by (rule steady_from, rule steady.holds_run_Cons)
    ((intro steady.holds_intros steady_acts)+, simp add: node_defs)

lemma calm_report_metadata: "holds calm c (report_metadata E c)"
  by (auto simp: report_metadata_def calm_def core_def skip_def request_def rid_def Let_def
      split: option.splits mode.splits prod.splits)

lemma steady_timers [steady_acts]:
  "holds (steady lo) c (metadata_timer E c)" "holds (steady lo) c (on_discover_timer E c)"
  "holds (steady lo) c (on_election_timer E c)" "holds (steady lo) c (on_publish_timer E c)"
  "holds (steady lo) c (on_metadata_timer E c)" "holds (steady lo) c (on_allocate_timer E c)"
proof -
  have poll: "holds (steady lo) c1 (upd (poll_metadata E) c1)" for c1
    by (rule steady_upd) (simp add: poll_metadata_def node_defs Let_def split: option.splits)
  show "holds (steady lo) c (metadata_timer E c)"
    unfolding metadata_timer_def by (intro holds_splits steady_acts)
  then show "holds (steady lo) c (on_metadata_timer E c)"
    unfolding on_metadata_timer_def metadata_timer_def
    by (intro holds_splits steady.holds_intros steady_acts poll steady_calm [OF calm_report_metadata])
  show "holds (steady lo) c (on_discover_timer E c)"
    unfolding on_discover_timer_def
    by (intro steady.holds_intros steady_acts steady_upd) (simp add: node_defs)
  show "holds (steady lo) c (on_publish_timer E c)"
    unfolding on_publish_timer_def by (intro holds_splits steady.holds_intros steady_acts)
  show "holds (steady lo) c (on_allocate_timer E c)"
    unfolding on_allocate_timer_def
    by (intro holds_splits steady_acts) (rule steady_from [OF steady_next_publication], simp add: node_defs)
  show "holds (steady lo) c (on_election_timer E c)"
    unfolding on_election_timer_def Let_def
    by (rule steady_from [of _ "c\<lparr>c_election_scheduled := False\<rparr>"])
      (intro holds_if steady.holds_intros holds_option steady_acts, simp add: node_defs)
qed

lemma calm_checks:
  "holds calm c (count_miss n c)" "holds calm c (check_follower n c)"
  "holds calm c (on_follower_check_response e c)" "holds calm c (on_leader_check_response e c)"
  by (auto simp: count_miss_def check_follower_def on_follower_check_response_def
      on_leader_check_response_def calm_def core_def add_note_def when_act_def emit_def skip_def rid_def
      Let_def run.simps upd_def split: option.splits)

lemma steady_check_timers [steady_acts]:
  "holds (steady lo) c (on_follower_check_timer E c)" "holds (steady lo) c (on_leader_check_timer E c)"
proof -
  have miss: "holds (steady lo) c1 (each count_miss xs (c1\<lparr>c_pending_checks := []\<rparr>))"
    for c1 :: "'a coordinator" and xs
    by (rule steady_from [of _ "c1\<lparr>c_pending_checks := []\<rparr>"])
      (intro steady.holds_intros steady_calm [OF calm_checks(1)], simp add: node_defs)
  show "holds (steady lo) c (on_follower_check_timer E c)"
    unfolding on_follower_check_timer_def
    by (intro holds_splits steady.holds_intros steady_acts miss steady_calm [OF calm_checks(2)])
  have lost: "holds (steady lo) c (run [add_note n, become_candidate E] (c\<lparr>c_leader_misses := m\<rparr>))" for n m
    by (rule steady_from [of _ "c\<lparr>c_leader_misses := m\<rparr>"])
      (intro steady.holds_intros steady_acts, simp add: node_defs)
  show "holds (steady lo) c (on_leader_check_timer E c)"
    using lost by (auto simp: on_leader_check_timer_def Let_def rid_def skip_def steady_def node_defs
        split: mode.splits)
qed

lemma steady_inputs [steady_acts]:
  "holds (steady lo) c (on_peer n c)" "holds (steady lo) c (on_shard_done E aid f c)"
  unfolding on_peer_def on_shard_done_def
  by (intro holds_splits steady.holds_intros steady_acts steady_upd; simp add: node_defs)+

section \<open>Every message\<close>

lemma steady_not_here [steady_acts]:
  "holds (steady lo) c (not_of_this_cluster e c)" "holds (steady lo) c (not_the_manager e c)"
  unfolding not_of_this_cluster_def not_the_manager_def by (intro steady_acts)+

lemma steady_follow_hint [steady_acts]: "holds (steady lo) c (follow_hint E l c)"
  unfolding follow_hint_def by (rule steady_from) (rule steady_acts, simp add: node_defs)

lemma steady_discovery [steady_acts]:
  "holds (steady lo) c (on_peers_request e c)" "holds (steady lo) c (on_peers_response E e c)"
  "holds (steady lo) c (on_prevote_request e c)" "holds (steady lo) c (on_prevote_error E e c)"
  unfolding on_peers_request_def on_peers_response_def on_prevote_error_def
     apply (intro holds_splits steady.holds_intros steady_acts steady_upd; simp add: node_defs)+
   apply (simp add: on_prevote_request_def Let_def reply_ok_def reply_error_def not_of_this_cluster_def
      steady_def node_defs split: option.splits)
  apply (intro holds_splits steady.holds_intros steady_acts steady_upd; simp add: node_defs)
  done

lemma steady_prevote_response [steady_acts]: "holds (steady lo) c (on_prevote_response E e c)"
proof -
  have start: "holds (steady lo) c (start_election E (c\<lparr>c_max_term_seen := x, c_prevotes := y\<rparr>))" for x y
    by (rule steady_from [OF steady_start_election]) (simp add: node_defs)
  show ?thesis
    unfolding on_prevote_response_def Let_def
    using start by (auto simp: skip_def steady_def node_defs)
qed

lemma steady_joining [steady_acts]:
  "holds (steady lo) c (on_start_join_request E e c)" "holds (steady lo) c (on_join_error E e c)"
  unfolding on_start_join_request_def on_join_error_def
  by (intro holds_splits steady.holds_intros steady_acts; simp add: steady_def node_defs)+

lemma steady_heard_first [steady_acts]: "holds (steady lo) c (heard_first c)"
  unfolding heard_first_def leader_check_timer_def
  by (intro steady.holds_intros steady_acts steady_upd) (simp add: node_defs)

lemma steady_join_response [steady_acts]: "holds (steady lo) c (on_join_response E e c)"
proof -
  have go: "holds (steady lo) c (run [apply_committed s, upd (\<lambda>c. c\<lparr>c_mode := m, c_leader_hint := h\<rparr>), apply_shards E,
      if b then heard_first else skip] c)" if "cs_term s = c_current_term c" for s m h b
    by (rule steady.holds_run_Cons [OF steady_apply_committed])
      (simp add: that, intro steady.holds_intros holds_if_act steady_acts steady_upd, simp add: node_defs)
  show ?thesis
    unfolding on_join_response_def Let_def by (intro holds_option holds_if steady_acts go) simp
qed

lemma accept_ok:
  "node_at lo c \<Longrightarrow> cs_term s = c_current_term c \<Longrightarrow>
   node_at lo (c\<lparr>c_accepted := s, c_durable := (c_durable c)\<lparr>du_accepted := Holds s\<rparr>, c_mode := m,
     c_last_leader_ok := w, c_leader_hint := h, c_election_scheduled := b\<rparr>)"
  by (simp add: node_defs)

lemma steady_publish_request [steady_acts]: "holds (steady lo) c (on_publish_request E e c)"
proof -
  let ?c = "\<lambda>s l. c\<lparr>c_accepted := s, c_durable := (c_durable c)\<lparr>du_accepted := Holds s\<rparr>,
     c_mode := Follower l, c_last_leader_ok := c_last_wall c, c_leader_hint := Some l, c_election_scheduled := False\<rparr>"
  have "holds (steady lo) c (run [reply_ok e (commit_body s), if b then skip else heard_first] (?c s l))"
    if "cs_term s = c_current_term c" for s l b
    by (rule steady_from [of _ "?c s l"])
      (use that in \<open>auto intro!: steady.holds_intros steady_acts accept_ok\<close>)
  then show ?thesis
    unfolding on_publish_request_def Let_def persist_accepted_def publish_refusal_def
    by (auto split: option.splits intro: steady_acts)
qed

lemma ack_ok: "node_at lo (ack n r c) = node_at lo c"
  by (auto simp: ack_def node_defs split: option.splits)

lemma steady_publish_response [steady_acts]: "holds (steady lo) c (on_publish_response E e c)"
proof -
  let ?c = "ack (en_from e) (en_request_id e) c"
  have "holds (steady lo) c (commit_publication E ?c)"
    by (rule steady_from [OF steady_commit_publication]) (simp add: ack_ok)
  moreover have "node_at lo c \<Longrightarrow> node_at lo (?c\<lparr>c_lagging := l, c_next_request := r\<rparr>)" for l r
    using ack_ok [of lo "en_from e" "en_request_id e" c] by (simp add: node_at_def)
  ultimately show ?thesis
    unfolding on_publish_response_def Let_def
    by (auto simp: request_def rid_def skip_def steady_def ack_ok)
qed

lemma steady_commit_request [steady_acts]: "holds (steady lo) c (on_commit_request E e c)"
proof -
  have "holds (steady lo) c (run (apply_committed (c_accepted c) #
      [upd (\<lambda>c. c\<lparr>c_last_leader_ok := c_last_wall c\<rparr>), reply_ok e no_body, apply_shards E, (\<lambda>c. add_note (n c) c)]) c)" for n
    by (rule steady.holds_run_Cons [OF steady_apply_committed])
      (simp add: node_defs, intro steady.holds_intros steady_acts steady_upd, simp add: node_defs)
  then show ?thesis
    unfolding on_commit_request_def Let_def by (auto intro: steady_acts)
qed

lemma steady_errors [steady_acts]:
  "holds (steady lo) c (on_publish_error E e c)" "holds (steady lo) c (on_follower_check_error E e c)"
  "holds (steady lo) c (on_leader_check_error E e c)"
  unfolding on_publish_error_def on_follower_check_error_def on_leader_check_error_def
  by (intro holds_splits steady.holds_intros steady_acts steady_upd; simp add: node_defs)+

lemma steady_checks [steady_acts]:
  "holds (steady lo) c (on_follower_check_request E e c)" "holds (steady lo) c (on_leader_check_request e c)"
  unfolding on_follower_check_request_def on_leader_check_request_def Let_def follow_checker_def
    leader_check_timer_def
  by (intro holds_splits steady.holds_intros steady_acts steady_upd; simp add: node_defs)+

lemma steady_manager_requests [steady_acts]:
  "holds (steady lo) c (on_shard_request E e c)" "holds (steady lo) c (on_metadata_report E e c)"
  "holds (steady lo) c (on_leave E e c)" "holds (steady lo) c (on_reroute E e c)"
proof -
  have take: "holds (steady lo) c1 (next_publication E (c1\<lparr>c_shard_events := a, c_republish_wanted := True, c_event_replies := b\<rparr>))"
    and command: "holds (steady lo) c1 (next_publication E (c1\<lparr>c_command_table := t, c_republish_wanted := True\<rparr>))"
    for c1 :: "'a coordinator" and a b t
    by (rule steady_from [OF steady_next_publication], simp add: node_defs)+
  show "holds (steady lo) c (on_shard_request E e c)"
    unfolding on_shard_request_def Let_def
    by (auto split: report_verdict.splits intro!: steady_acts steady.holds_intros take)
  show "holds (steady lo) c (on_metadata_report E e c)" "holds (steady lo) c (on_leave E e c)"
    unfolding on_metadata_report_def on_leave_def Let_def
    by (intro holds_splits steady.holds_intros steady_acts steady_upd; simp add: node_defs)+
  show "holds (steady lo) c (on_reroute E e c)"
    unfolding on_reroute_def Let_def
    by (intro holds_splits steady.holds_intros steady_acts steady_upd command) (simp_all add: node_defs)
qed

lemma steady_on_message [steady_acts]: "holds (steady lo) c (on_message E e c)"
proof (cases "en_kind e")
  case Request
  then show ?thesis
    unfolding on_message_def on_request_def Let_def by (auto intro!: steady_acts)
next
  case Response
  then show ?thesis
    unfolding on_message_def on_response_def Let_def
    by (auto intro!: steady_acts steady_calm [OF calm_checks(3)] steady_calm [OF calm_checks(4)])
next
  case Error
  then show ?thesis unfolding on_message_def on_error_def Let_def by (auto intro!: steady_acts)
qed

lemma handle_steady:
  assumes "i \<noteq> Start"
  shows "holds (steady lo) c (handle E i wall c)"
proof -
  have "holds (steady lo) (c\<lparr>c_last_wall := wall\<rparr>) (handle E i wall c)"
    using assms unfolding handle_def on_timer_def Let_def by (auto split: in_msg.splits intro!: steady_acts)
  then show ?thesis by (rule steady_from) (simp add: node_defs)
qed

section \<open>A start from disk\<close>

text \<open>
  The logic is made fresh and reads back what was on disk: the term is the one it stopped in, and
  the vote it gave in it is forgotten.
\<close>

lemma restore_kept:
  "c_durable (restore c) = c_durable c" "c_publishing (restore c) = c_publishing c"
  "c_me (restore c) = c_me c" "c_notes (restore c) = c_notes c" "c_mode (restore c) = c_mode c"
  "c_last_join (restore c) = c_last_join c" "c_join_votes (restore c) = c_join_votes c"
  "c_event_replies (restore c) = c_event_replies c"
  by (simp_all add: restore_def Let_def split: option.split entry.split)

lemma restore_states:
  "c_committed (restore c) = opt (c_committed c) (readable (du_committed (c_durable c)))"
  "c_accepted (restore c) = c_committed (restore c)
   \<or> du_accepted (c_durable c) = Holds (c_accepted (restore c))"
  "c_current_term (restore c) =
     max (case du_term (c_durable c) of Absent \<Rightarrow> c_current_term c | Unreadable \<Rightarrow> 0 | Holds t \<Rightarrow> t)
       (cs_term (c_accepted (restore c)))"
  by (simp_all add: restore_def Let_def readable_def split: option.split entry.split)

definition behind :: "cluster_state \<Rightarrow> cluster_state \<Rightarrow> bool" where
  "behind s s' = (\<not> fresher (cs_term s) (cs_version s) (cs_term s') (cs_version s'))"

lemma behind_refl [simp]: "behind s s"
  by (simp add: behind_def fresher_def)

lemma behind_trans: "behind r s \<Longrightarrow> behind s t \<Longrightarrow> behind r t"
  by (auto simp: behind_def fresher_def)

lemma restore_freshest:
  "behind (c_committed (restore c)) (c_accepted (restore c))"
  "du_accepted (c_durable c) = Holds s \<Longrightarrow> behind s (c_accepted (restore c))"
  by (auto simp: restore_def Let_def readable_def behind_def fresher_def split: option.split entry.split)

lemma reborn_fresh:
  "c_durable (reborn la fresh c) = c_durable c" "c_publishing (reborn la fresh c) = None"
  "c_me (reborn la fresh c) = la_me la" "c_notes (reborn la fresh c)"
  "c_mode (reborn la fresh c) = Candidate" "c_last_join (reborn la fresh c) = None"
  "c_join_votes (reborn la fresh c) = []" "c_event_replies (reborn la fresh c) = []"
  "c_current_term (reborn la fresh c) = 0" "cs_term (c_committed (reborn la fresh c)) = 0"
  "cs_version (c_committed (reborn la fresh c)) = 0"
  by (simp_all add: reborn_def launched_def coordinator_new_def cs_empty_def Let_def)

lemma restore_reborn:
  fixes la :: launch and fresh :: string and c :: "'w coordinator" and w :: nat
  assumes ok: "node_at lo c"
  defines "r \<equiv> restore ((reborn la fresh c)\<lparr>c_last_wall := w\<rparr>)"
  shows "node_at lo r" and "c_current_term r = c_current_term c" and "c_me r = la_me la"
    and "c_notes r" and "c_last_join r = None" and "c_join_votes r = []"
    and "c_mode r = Candidate" and "replies_ok r"
    and "cs_term (c_committed r) = cs_term (c_committed c)" "cs_version (c_committed r) = cs_version (c_committed c)"
    and "behind (c_accepted c) (c_accepted r)"
    and "du_committed (c_durable c) = Absent \<or> c_committed r = c_committed c"
proof -
  let ?c = "(reborn la fresh c)\<lparr>c_last_wall := w\<rparr>"
  have disk: "du_committed (c_durable c) = Holds (c_committed c) \<and> c_committed r = c_committed c
      \<or> du_committed (c_durable c) = Absent \<and> cs_term (c_committed r) = 0 \<and> cs_version (c_committed r) = 0
        \<and> cs_term (c_committed c) = 0 \<and> cs_version (c_committed c) = 0"
    using ok restore_states(1) [of ?c]
    by (auto simp: r_def node_at_def reborn_fresh opt_def readable_def)
  then show "du_committed (c_durable c) = Absent \<or> c_committed r = c_committed c" by blast
  from disk have com: "cs_term (c_committed r) \<le> c_current_term c" using ok by (auto simp: node_at_def)
  have held: "c_accepted r = c_committed r \<or> du_accepted (c_durable c) = Holds (c_accepted r)"
    using restore_states(2) [of ?c] by (simp add: r_def reborn_fresh)
  have acc: "cs_term (c_accepted r) \<le> c_current_term c"
    using ok restore_states(2) [of ?c] com by (auto simp: r_def node_at_def reborn_fresh)
  show T: "c_current_term r = c_current_term c"
    using ok restore_states(3) [of ?c] acc by (auto simp: r_def node_at_def reborn_fresh)
  show "node_at lo r"
  proof -
    have kept: "c_durable r = c_durable c" "c_publishing r = None"
      by (simp_all add: r_def restore_kept reborn_fresh)
    show ?thesis
      unfolding node_at_def T kept using ok com acc disk held by (auto simp: node_at_def)
  qed
  show "c_me r = la_me la" "c_notes r" "c_last_join r = None" "c_join_votes r = []"
    "c_mode r = Candidate" "replies_ok r"
    by (simp_all add: r_def restore_kept reborn_fresh replies_ok_def)
  show same: "cs_term (c_committed r) = cs_term (c_committed c)" "cs_version (c_committed r) = cs_version (c_committed c)"
    using disk by auto
  have up: "behind (c_committed r) (c_accepted r)" unfolding r_def by (rule restore_freshest(1))
  show "behind (c_accepted c) (c_accepted r)"
  proof (cases "c_accepted c = c_committed c")
    case True
    with up same show ?thesis by (simp add: behind_def)
  next
    case False
    with ok have "du_accepted (c_durable ?c) = Holds (c_accepted c)" by (auto simp: node_at_def reborn_fresh)
    from restore_freshest(2) [OF this] show ?thesis by (simp add: r_def)
  qed
qed

text \<open>
  What follows the restore changes neither the term nor the states, but for the voting configurations, which a bootstrap
  may set; and a candidate stays one.
\<close>

definition still :: "'w coordinator \<Rightarrow> out_msg list \<Rightarrow> 'w coordinator \<Rightarrow> bool" where
  "still c os c' =
     (c_current_term c' = c_current_term c
      \<and> set_config [] (c_committed c') = set_config [] (c_committed c)
      \<and> set_config [] (c_accepted c') = set_config [] (c_accepted c)
      \<and> (c_mode c = Candidate \<longrightarrow> c_mode c' = Candidate))"

lemma set_config_same: "set_config ids s = set_config ids s' \<Longrightarrow> cs_term s = cs_term s' \<and> cs_version s = cs_version s'"
  by (drule arg_cong [where f = "\<lambda>s. (cs_term s, cs_version s)"]) (simp add: set_config_def)

interpretation still: act_relation still
  by unfold_locales (simp_all add: still_def)

lemma still_core: "core c' = core c \<Longrightarrow> still c os c'"
  by (simp add: still_def core_def)

lemma still_calm: "holds calm c r \<Longrightarrow> holds still c r"
  by (simp add: holds_def calm_def still_core)

lemma still_start:
  "holds still c (run [(\<lambda>c. each learn (bm_values (cs_nodes (c_accepted c))) c), bootstrap, become_candidate E,
      metadata_timer E] c)"
proof -
  have boot: "holds still c1 (bootstrap c1)" for c1 :: "'a coordinator"
    unfolding bootstrap_def Let_def persist_accepted_def persist_committed_def
    by (intro holds_splits still_calm [OF calm_skip] still.holds_intros still_calm [OF calm_note] still.holds_upd)
      (simp_all add: still_def set_config_def)
  have down: "holds still c1 (become_candidate E c1)" for c1
  proof -
    have "still c1 os c2" if "become_candidate E c1 = Some (os, c2)" for os c2
      using become_candidate_core [OF that] by (simp add: still_def core_def)
    then show ?thesis by (simp add: holds_def)
  qed
  have meta: "holds still c1 (metadata_timer E c1)" for c1
    unfolding metadata_timer_def by (intro holds_splits still_calm calm_acts)
  show ?thesis
    by (intro still.holds_intros boot down meta still_calm [OF calm_basic(8)])
qed

lemma start_shape:
  fixes c0 :: "'w coordinator" and w :: nat
  assumes "handle E Start w c0 = Some (os, c')"
  defines "r \<equiv> restore (c0\<lparr>c_last_wall := w\<rparr>)"
  shows "quiet r os c' \<and> steady lo r os c' \<and> still r os c'"
proof -
  have go: "run [(\<lambda>c. each learn (bm_values (cs_nodes (c_accepted c))) c), bootstrap, become_candidate E,
      metadata_timer E] r = Some (os, c')"
    using assms by (simp add: handle_def on_start_def Let_def)
  have "holds quiet r (run [(\<lambda>c. each learn (bm_values (cs_nodes (c_accepted c))) c), bootstrap,
      become_candidate E, metadata_timer E] r)"
    by (intro quiet.holds_intros quiet_acts)
  moreover have "holds (steady lo) r (run [(\<lambda>c. each learn (bm_values (cs_nodes (c_accepted c))) c), bootstrap,
      become_candidate E, metadata_timer E] r)"
    by (intro steady.holds_intros steady_acts)
  moreover note still_start [of r E]
  ultimately show ?thesis using go by simp
qed

lemma restart_step:
  assumes act: "handle E Start w (reborn la fresh c) = Some (os, c')" and ok: "node_at lo c"
    and me: "dn_id (la_me la) = my_id c"
  shows "my_id c' = my_id c" and "c_notes c'" and "replies_ok c'" and "node_at lo c'"
    and "c_current_term c' = c_current_term c" and "c_last_join c' = None" and "c_join_votes c' = []"
    and "c_mode c' = Candidate" and "\<not> pledges (my_id c) os t n" and "Note (NLeader t) \<notin> set os"
    and "Send to e \<in> set os \<Longrightarrow> en_from e = my_id c \<and> \<not> is_request START_JOIN e"
    and "Send to e \<in> set os \<Longrightarrow> is_request JOIN e \<Longrightarrow>
      b_node (en_body e) = NodeOf (la_me la) \<and> b_vote (en_body e) \<noteq> Some True"
    and "cs_term (c_committed c') = cs_term (c_committed c)" and "cs_version (c_committed c') = cs_version (c_committed c)"
    and "behind (c_accepted c) (c_accepted c')"
    and "du_committed (c_durable c) = Absent \<or> set_config [] (c_committed c') = set_config [] (c_committed c)"
proof -
  let ?r = "restore ((reborn la fresh c)\<lparr>c_last_wall := w\<rparr>)"
  note r = restore_reborn [where la = la and fresh = fresh and w = w, OF ok]
  have q: "quiet ?r os c'" and s: "steady lo ?r os c'" and st: "still ?r os c'" using start_shape [OF act] by auto
  have m': "my_id ?r = my_id c" using r(3) me by (simp add: my_id_def)
  show "my_id c' = my_id c" "c_notes c'" "replies_ok c'" "c_last_join c' = None" "node_at lo c'"
    using q s r me by (auto simp: quiet_def steady_def my_id_def)
  show "c_mode c' = Candidate" using st r(7) by (simp add: still_def)
  show "du_committed (c_durable c) = Absent \<or> set_config [] (c_committed c') = set_config [] (c_committed c)"
    using st r(12) by (auto simp: still_def)
  show "c_current_term c' = c_current_term c" "cs_term (c_committed c') = cs_term (c_committed c)"
      "cs_version (c_committed c') = cs_version (c_committed c)" "behind (c_accepted c) (c_accepted c')"
    using st r set_config_same [of "[]" "c_committed c'"] set_config_same [of "[]" "c_accepted c'"] by (simp_all add: still_def behind_def)
  have "set (bm_keys (c_join_votes c')) = {}"
    using q r by (auto simp: quiet_def bm_keys_def split: if_splits)
  then show "c_join_votes c' = []" by (simp add: bm_keys_def)
  show "\<not> pledges (my_id c) os t n" using quiet_pledges [OF q r(8)] r(5) m' by auto
  show "Note (NLeader t) \<notin> set os" by (rule quiet_no_claims(1) [OF q r(8)])
  have m: "quiet_msg ?r c' m" if "m \<in> set os" for m using that q r(8) by (simp add: quiet_def)
  show "en_from e = my_id c \<and> \<not> is_request START_JOIN e" if "Send to e \<in> set os"
    using m [OF that] r(7) m' by auto
  show "b_node (en_body e) = NodeOf (la_me la) \<and> b_vote (en_body e) \<noteq> Some True"
    if "Send to e \<in> set os" and "is_request JOIN e"
    using m [OF that(1)] that(2) r(3, 5) by auto
qed

end
