(* ===== verification/Election_Safety.thy ===== *)
theory Election_Safety
  imports Node_Contract
begin

text \<open>
  One manager per term.  The messages sent and the notes written so far are the record of who
  pledged itself to whom; the contract of every input (\<open>handle_step\<close>, \<open>restart_step\<close>) says how a
  step extends it, and quorums that meet do the rest.  The voting configurations in use have to be
  such that a quorum of one meets a quorum of any other.
\<close>

section \<open>The record of pledges\<close>

definition vote_sent :: "'w network \<Rightarrow> node_id \<Rightarrow> nat \<Rightarrow> node_id \<Rightarrow> bool" where
  "vote_sent N v t n =
     (\<exists>(to, e) \<in> set (nw_sent N).
        to = n \<and> en_from e = v \<and> is_request JOIN e \<and> b_term (en_body e) = Some t
        \<and> b_vote (en_body e) = Some True)"

definition pledged :: "'w network \<Rightarrow> node_id \<Rightarrow> nat \<Rightarrow> node_id \<Rightarrow> bool" where
  "pledged N v t n = (vote_sent N v t n \<or> v = n \<and> (n, NElection t) \<in> set (nw_notes N))"

lemma sends_iff [simp]: "(to, e) \<in> set (sends os) = (Send to e \<in> set os)"
  by (induction os rule: sends.induct) auto

lemma notes_of_iff [simp]: "x \<in> set (notes_of os) = (Note x \<in> set os)"
  by (induction os rule: notes_of.induct) auto

lemma absorb_simps [simp]:
  "bm_get (nw_nodes (absorb n r N)) k = (if k = n then Some (snd r) else bm_get (nw_nodes N) k)"
  "set (nw_sent (absorb n r N)) = set (nw_sent N) \<union> set (sends (fst r))"
  "set (nw_notes (absorb n r N)) = set (nw_notes N) \<union> Pair n ` set (notes_of (fst r))"
  by (simp_all add: absorb_def bm_insert_get)

lemma vote_sent_iff:
  "vote_sent N v t n =
     (\<exists>e. (n, e) \<in> set (nw_sent N) \<and> en_from e = v \<and> is_request JOIN e
        \<and> b_term (en_body e) = Some t \<and> b_vote (en_body e) = Some True)"
  by (auto simp: vote_sent_def)

lemma pledges_iff:
  "pledges n os t m =
     ((\<exists>e. Send m e \<in> set os \<and> is_request JOIN e \<and> b_term (en_body e) = Some t
         \<and> b_vote (en_body e) = Some True)
      \<or> m = n \<and> Note (NElection t) \<in> set os)"
  by (induction os rule: notes_of.induct) (auto simp: pledges_def)

lemma pledged_absorb:
  assumes "\<And>to e. Send to e \<in> set os \<Longrightarrow> en_from e = n"
  shows "pledged (absorb n (os, c') N) v t m = (pledged N v t m \<or> v = n \<and> pledges n os t m)"
  using assms by (auto simp: pledges_iff pledged_def vote_sent_iff)

lemma pledged_mono: "pledged N v t m \<Longrightarrow> pledged (absorb n r N) v t m"
  by (auto simp: pledged_def vote_sent_iff)

section \<open>One step of one node\<close>

text \<open>What a handled input and a start from disk have in common.\<close>

definition safe_step ::
  "evidence \<Rightarrow> evidence \<Rightarrow> 'w coordinator \<Rightarrow> out_msg list \<Rightarrow> 'w coordinator \<Rightarrow> bool" where
  "safe_step V S c os c' =
     (my_id c' = my_id c \<and> (c_notes c \<longrightarrow> c_notes c') \<and> replies_ok c'
      \<and> (\<forall>lo. node_at lo c \<longrightarrow> node_at lo c')
      \<and> c_current_term c \<le> c_current_term c'
      \<and> (\<forall>m \<in> set os. sound_msg S c os m)
      \<and> pledge_ok S c os c'
      \<and> (\<forall>t n. c_last_join c' = Some (t, n) \<longrightarrow>
           c_last_join c = Some (t, n)
           \<or> c_current_term c < t \<and> t \<le> c_current_term c' \<and> told S (my_id c) os t n)
      \<and> set (bm_keys (c_join_votes c')) \<subseteq> allowed V S c os (c_current_term c')
      \<and> lead_ok V S c os c' \<and> mode_ok c os c')"

lemma handle_safe:
  assumes "handle E i wall c = Some (os, c')" and "i \<noteq> Start" and "replies_ok c" and "c_notes c"
    and "join_ok c" and "below_max c" and "term_below i"
  shows "safe_step (vote_in i) (start_in i) c os c'"
proof -
  have "node_at lo c \<longrightarrow> node_at lo c'" for lo
    using handle_steady [OF assms(2), of lo c E wall] assms(1) by (simp add: steady_def)
  then show ?thesis
    using handle_step [OF assms(1-7)] by (auto simp: election_step_def safe_step_def answer_ok_def my_id_def)
qed

lemma restart_safe:
  assumes act: "handle E Start w (reborn la fresh c) = Some (os, c')" and ok: "node_ok c"
    and me: "dn_id (la_me la) = my_id c"
  shows "safe_step V S c os c'"
proof -
  note r = restart_step [OF act ok [unfolded node_ok_def] me]
  have "sound_msg S c os m" if "m \<in> set os" for m
  proof (cases m)
    case (Send to e)
    let ?r = "restore ((reborn la fresh c)\<lparr>c_last_wall := w\<rparr>)"
    note rr = restore_reborn [where la = la and fresh = fresh and w = w, OF ok [unfolded node_ok_def]]
    have "quiet ?r os c'" using start_shape [OF act] by simp
    from quiet_sound [OF this rr(8) that, of S os] Send rr(3) me r(11) [of to e] that
    show ?thesis by (auto simp: my_id_def)
  qed simp_all
  then show ?thesis
    using r restart_step(4) [OF act _ me] by (simp add: safe_step_def pledge_ok_def lead_ok_def mode_ok_def bm_keys_def)
qed

section \<open>The invariant\<close>

definition node_inv :: "'w network \<Rightarrow> node_id \<Rightarrow> 'w coordinator \<Rightarrow> bool" where
  "node_inv N n c =
     (my_id c = n \<and> c_notes c \<and> replies_ok c \<and> join_ok c \<and> node_ok c
      \<and> (\<forall>t a. c_last_join c = Some (t, a) \<longrightarrow> pledged N a t a)
      \<and> (\<forall>v \<in> set (bm_keys (c_join_votes c)). pledged N v (c_current_term c) n)
      \<and> (c_mode c = Leader \<longrightarrow> (n, NLeader (c_current_term c)) \<in> set (nw_notes N)))"

definition pledge_inv :: "'w network \<Rightarrow> bool" where
  "pledge_inv N =
     (\<forall>v t n. pledged N v t n \<longrightarrow>
        pledged N n t n \<and> (\<forall>n'. pledged N v t n' \<longrightarrow> n' = n)
        \<and> (\<exists>c. bm_get (nw_nodes N) v = Some c \<and> t \<le> c_current_term c
              \<and> (\<forall>n'. c_last_join c = Some (t, n') \<longrightarrow> n' = n)))"

definition message_inv :: "'w network \<Rightarrow> bool" where
  "message_inv N =
     (\<forall>(to, e) \<in> set (nw_sent N).
        (is_request JOIN e \<longrightarrow>
           (\<exists>t d. b_term (en_body e) = Some t \<and> b_node (en_body e) = NodeOf d \<and> dn_id d = en_from e))
        \<and> (is_request START_JOIN e \<longrightarrow>
             (\<exists>t. b_term (en_body e) = Some t \<and> pledged N (en_from e) t (en_from e))))"

definition lead_inv :: "node_id list set \<Rightarrow> 'w network \<Rightarrow> bool" where
  "lead_inv K N =
     (\<forall>n t. (n, NLeader t) \<in> set (nw_notes N) \<longrightarrow>
        pledged N n t n \<and> (\<exists>C \<in> K. has_quorum C {v. pledged N v t n}))"

definition election_inv :: "node_id list set \<Rightarrow> 'w network \<Rightarrow> bool" where
  "election_inv K N =
     ((\<forall>n c. bm_get (nw_nodes N) n = Some c \<longrightarrow> node_inv N n c)
      \<and> pledge_inv N \<and> message_inv N \<and> lead_inv K N)"

section \<open>The invariant is kept\<close>

text \<open>The node \<open>me\<close> takes one safe step; the evidence it used is in the record.\<close>

definition step_of ::
  "evidence \<Rightarrow> evidence \<Rightarrow> node_id list set \<Rightarrow> 'w network \<Rightarrow> node_id \<Rightarrow> 'w coordinator \<Rightarrow>
   out_msg list \<Rightarrow> 'w coordinator \<Rightarrow> bool" where
  "step_of V S K N me c os c' =
     (election_inv K N \<and> bm_get (nw_nodes N) me = Some c \<and> safe_step V S c os c'
      \<and> (\<forall>t v. V t v \<longrightarrow> vote_sent N v t me) \<and> (\<forall>t n. S t n \<longrightarrow> pledged N n t n)
      \<and> (cs_last_accepted_config (c_accepted c) \<noteq> [] \<longrightarrow> cs_last_accepted_config (c_accepted c) \<in> K))"

lemma step_me: "step_of V S K N me c os c' \<Longrightarrow> node_inv N me c \<and> my_id c = me"
  by (auto simp: step_of_def election_inv_def node_inv_def)

lemma step_pledged:
  assumes "step_of V S K N me c os c'"
  shows "pledged (absorb me (os, c') N) v t m = (pledged N v t m \<or> v = me \<and> pledges me os t m)"
proof (rule pledged_absorb)
  fix to e
  assume "Send to e \<in> set os"
  then have "sound_msg S c os (Send to e)" using assms by (auto simp: step_of_def safe_step_def)
  then show "en_from e = me" using step_me [OF assms] by simp
qed

lemma step_told:
  assumes "step_of V S K N me c os c'" and "told S me os t n"
  shows "pledged (absorb me (os, c') N) n t n"
  using assms by (auto simp: step_pledged [OF assms(1)] told_def step_of_def pledges_iff)

lemma step_counted:
  assumes "step_of V S K N me c os c'" and "v \<in> allowed V S c os t"
  shows "pledged (absorb me (os, c') N) v t me"
proof -
  have m: "node_inv N me c" "my_id c = me" using step_me [OF assms(1)] by auto
  from assms(2) m(2) consider "t = c_current_term c" "v \<in> set (bm_keys (c_join_votes c))"
    | "V t v" | "v = me" "told S me os t me"
    by (auto simp: allowed_def split: if_splits)
  then show ?thesis
  proof cases
    case 1
    with m(1) show ?thesis by (auto simp: node_inv_def intro!: pledged_mono)
  next
    case 2
    with assms(1) have "pledged N v t me" by (simp add: step_of_def pledged_def)
    then show ?thesis by (rule pledged_mono)
  next
    case 3
    with step_told [OF assms(1)] show ?thesis by auto
  qed
qed

lemma step_leads:
  assumes st: "step_of V S K N me c os c'" and "Note (NLeader t) \<in> set os"
  shows "pledged (absorb me (os, c') N) me t me"
    and "\<exists>C \<in> K. has_quorum C {v. pledged (absorb me (os, c') N) v t me}"
proof -
  let ?N = "absorb me (os, c') N" and ?C = "cs_last_accepted_config (c_accepted c)"
  have m: "my_id c = me" using step_me [OF st] by simp
  from st assms(2) m have l: "(\<exists>v. V t v) \<or> told S me os t me"
      "election_quorum (c_accepted c) (insert me (allowed V S c os t))"
    by (auto simp: step_of_def safe_step_def lead_ok_def)
  have "pledged N me t me" if "V t v" for v
  proof -
    from that st have "pledged N v t me" by (auto simp: step_of_def pledged_def)
    with st show ?thesis by (auto simp: step_of_def election_inv_def pledge_inv_def)
  qed
  with l(1) show p: "pledged ?N me t me" using step_told [OF st] by (auto intro: pledged_mono)
  have "insert me (allowed V S c os t) \<subseteq> {v. pledged ?N v t me}"
    using p step_counted [OF st] by blast
  then have "has_quorum ?C {v. pledged ?N v t me}"
    using l(2) by (auto simp: election_quorum_def intro: majority.quorum_mono)
  moreover from this have "?C \<in> K" using st by (auto simp: step_of_def has_quorum_def)
  ultimately show "\<exists>C \<in> K. has_quorum C {v. pledged ?N v t me}" by blast
qed

lemma step_nodes:
  assumes st: "step_of V S K N me c os c'" and n: "bm_get (nw_nodes (absorb me (os, c') N)) n = Some d"
  shows "node_inv (absorb me (os, c') N) n d"
proof (cases "n = me")
  case False
  with n st have "node_inv N n d" by (auto simp: step_of_def election_inv_def)
  then show ?thesis by (auto simp: node_inv_def intro: pledged_mono)
next
  case True
  with n have d: "d = c'" by simp
  have m: "node_inv N me c" "my_id c = me" using step_me [OF st] by auto
  from st have s: "safe_step V S c os c'" by (simp add: step_of_def)
  have "pledged (absorb me (os, c') N) a t a" if "c_last_join c' = Some (t, a)" for t a
    using s that m step_told [OF st, of t a] by (auto simp: safe_step_def node_inv_def intro: pledged_mono)
  moreover have "pledged (absorb me (os, c') N) v (c_current_term c') me"
    if "v \<in> set (bm_keys (c_join_votes c'))" for v
    using s that by (auto simp: safe_step_def intro!: step_counted [OF st])
  moreover have "(me, NLeader (c_current_term c')) \<in> set (nw_notes (absorb me (os, c') N))"
    if "c_mode c' = Leader"
    using s that m by (auto simp: safe_step_def mode_ok_def node_inv_def)
  moreover have "join_ok c'"
    using s m by (fastforce simp: safe_step_def join_ok_def node_inv_def)
  ultimately show ?thesis
    using s m True d by (auto simp: node_inv_def safe_step_def my_id_def node_ok_def)
qed

lemma step_pledge_inv:
  assumes st: "step_of V S K N me c os c'"
  shows "pledge_inv (absorb me (os, c') N)"
  unfolding pledge_inv_def
proof (intro allI impI)
  let ?N = "absorb me (os, c') N"
  note P = step_pledged [OF st]
  have m: "node_inv N me c" "my_id c = me" using step_me [OF st] by auto
  have inv: "pledge_inv N" and at: "bm_get (nw_nodes N) me = Some c" and s: "safe_step V S c os c'"
    using st by (auto simp: step_of_def election_inv_def)
  have old: "pledged N n t n" "\<And>n'. pledged N v t n' \<Longrightarrow> n' = n"
      "\<exists>c. bm_get (nw_nodes N) v = Some c \<and> t \<le> c_current_term c
         \<and> (\<forall>n'. c_last_join c = Some (t, n') \<longrightarrow> n' = n)"
    if "pledged N v t n" for v t n
    using inv that unfolding pledge_inv_def by blast+
  have own: "t \<le> c_current_term c" "c_last_join c = Some (t, n') \<Longrightarrow> n' = n"
    if "pledged N me t n" for t n n'
    using old(3) [OF that] at by auto
  have new: "t \<le> c_current_term c'"
      "c_last_join c = Some (t, n) \<or> c_current_term c < t \<and> told S me os t n"
      "\<And>n'. pledges me os t n' \<Longrightarrow> n' = n" "\<And>n'. c_last_join c' = Some (t, n') \<Longrightarrow> n' = n"
    if "pledges me os t n" for t n
    using s that m(2) unfolding safe_step_def pledge_ok_def by blast+
  have both: "n' = n" if "pledged N me t n'" "pledges me os t n" for t n n'
    using new(2) [OF that(2)] own(1) [OF that(1)] own(2) [OF that(1)] by auto
  have kept: "n' = n" if "pledged N me t n" "c_last_join c' = Some (t, n')" for t n n'
    using s that own [OF that(1)] by (auto simp: safe_step_def)
  fix v t n
  assume p: "pledged ?N v t n"
  have a: "pledged ?N n t n"
  proof (cases "pledged N v t n")
    case True
    from old(1) [OF this] show ?thesis by (rule pledged_mono)
  next
    case False
    with p have "pledges me os t n" by (simp add: P)
    from new(2) [OF this] m(1) step_told [OF st] show ?thesis
      by (auto simp: node_inv_def intro: pledged_mono)
  qed
  have b: "n' = n" if "pledged ?N v t n'" for n'
    using p that old(2) new(3) both unfolding P by metis
  have d: "\<exists>c. bm_get (nw_nodes ?N) v = Some c \<and> t \<le> c_current_term c
         \<and> (\<forall>n'. c_last_join c = Some (t, n') \<longrightarrow> n' = n)"
  proof (cases "v = me")
    case True
    have le: "c_current_term c \<le> c_current_term c'" using s by (simp add: safe_step_def)
    have "t \<le> c_current_term c' \<and> (\<forall>n'. c_last_join c' = Some (t, n') \<longrightarrow> n' = n)"
      using p True new(1, 4) own(1) kept le unfolding P by (meson order_trans)
    with True show ?thesis by simp
  next
    case False
    with p have "pledged N v t n" by (simp add: P)
    from old(3) [OF this] False show ?thesis by auto
  qed
  from a b d show "pledged ?N n t n \<and> (\<forall>n'. pledged ?N v t n' \<longrightarrow> n' = n)
      \<and> (\<exists>c. bm_get (nw_nodes ?N) v = Some c \<and> t \<le> c_current_term c
         \<and> (\<forall>n'. c_last_join c = Some (t, n') \<longrightarrow> n' = n))"
    by blast
qed

lemma step_lead_inv:
  assumes st: "step_of V S K N me c os c'"
  shows "lead_inv K (absorb me (os, c') N)"
  unfolding lead_inv_def
proof (intro allI impI)
  let ?N = "absorb me (os, c') N"
  fix n t
  assume "(n, NLeader t) \<in> set (nw_notes ?N)"
  then consider "(n, NLeader t) \<in> set (nw_notes N)" | "n = me" "Note (NLeader t) \<in> set os" by auto
  then show "pledged ?N n t n \<and> (\<exists>C \<in> K. has_quorum C {v. pledged ?N v t n})"
  proof cases
    case 1
    moreover have "lead_inv K N" using st by (simp add: step_of_def election_inv_def)
    ultimately obtain C where "pledged N n t n" "C \<in> K" "has_quorum C {v. pledged N v t n}"
      unfolding lead_inv_def by blast
    moreover have "{v. pledged N v t n} \<subseteq> {v. pledged ?N v t n}" by (auto intro: pledged_mono)
    ultimately show ?thesis by (auto intro: pledged_mono majority.quorum_mono)
  next
    case 2
    with step_leads [OF st] show ?thesis by auto
  qed
qed

lemma step_message_inv:
  assumes st: "step_of V S K N me c os c'"
  shows "message_inv (absorb me (os, c') N)"
  unfolding message_inv_def
proof (intro ballI)
  let ?N = "absorb me (os, c') N"
  fix x
  assume new: "x \<in> set (nw_sent ?N)"
  obtain to e where x1: "x = (to, e)" by (cases x)
  with new have x: "x = (to, e)" "(to, e) \<in> set (nw_sent N) \<or> Send to e \<in> set os" by auto
  have m: "node_inv N me c" "my_id c = me" using step_me [OF st] by auto
  from x(2) have "(is_request JOIN e \<longrightarrow>
           (\<exists>t d. b_term (en_body e) = Some t \<and> b_node (en_body e) = NodeOf d \<and> dn_id d = en_from e))
        \<and> (is_request START_JOIN e \<longrightarrow>
             (\<exists>t. b_term (en_body e) = Some t \<and> pledged ?N (en_from e) t (en_from e)))"
  proof
    assume "(to, e) \<in> set (nw_sent N)"
    with st show ?thesis
      by (fastforce simp: step_of_def election_inv_def message_inv_def intro: pledged_mono)
  next
    assume "Send to e \<in> set os"
    with st have s: "sound_msg S c os (Send to e)" by (auto simp: step_of_def safe_step_def)
    have lead: "pledged ?N me (c_current_term c) me" if "c_mode c = Leader"
      using that m(1) st
      by (auto simp: step_of_def election_inv_def lead_inv_def node_inv_def intro: pledged_mono)
    from s m(2) lead step_told [OF st] step_leads(1) [OF st] show ?thesis
      by (auto simp: my_id_def)
  qed
  with x show "case x of (to, e) \<Rightarrow>
        (is_request JOIN e \<longrightarrow>
           (\<exists>t d. b_term (en_body e) = Some t \<and> b_node (en_body e) = NodeOf d \<and> dn_id d = en_from e))
        \<and> (is_request START_JOIN e \<longrightarrow>
             (\<exists>t. b_term (en_body e) = Some t \<and> pledged ?N (en_from e) t (en_from e)))"
    by simp
qed

lemma inv_step:
  assumes st: "step_of V S K N me c os c'"
  shows "election_inv K (absorb me (os, c') N)"
  unfolding election_inv_def
  using step_nodes [OF st] step_pledge_inv [OF st] step_message_inv [OF st] step_lead_inv [OF st]
  by blast

section \<open>Runs of the network\<close>

text \<open>
  A network that has just been set up: no messages, and every node as \<open>coordinator_new\<close> makes it
  from an empty disk.
\<close>

definition newborn :: "'w coordinator \<Rightarrow> bool" where
  "newborn c =
     (c_notes c \<and> c_mode c = Candidate \<and> c_current_term c = 0 \<and> c_last_join c = None
      \<and> c_join_votes c = [] \<and> c_event_replies c = [] \<and> c_publishing c = None
      \<and> du_term (c_durable c) = Absent \<and> du_accepted (c_durable c) = Absent
      \<and> du_committed (c_durable c) = Absent
      \<and> c_accepted c = c_committed c \<and> cs_term (c_committed c) = 0 \<and> cs_version (c_committed c) = 0)"

definition fresh_network :: "'w network \<Rightarrow> bool" where
  "fresh_network N =
     (nw_sent N = [] \<and> nw_notes N = [] \<and> (\<forall>(n, c) \<in> set (nw_nodes N). newborn c \<and> my_id c = n))"

text \<open>
  The two conditions a run is checked against: the voting configurations the nodes hold are among
  \<open>K\<close>, and no term, of a node or of the message being delivered, has reached the largest a word holds.
\<close>

definition configs_in :: "node_id list set \<Rightarrow> 'w network \<Rightarrow> bool" where
  "configs_in K N =
     (\<forall>(n, c) \<in> set (nw_nodes N). cs_last_accepted_config (c_accepted c) \<in> insert [] K)"

definition terms_below :: "action \<Rightarrow> 'w network \<Rightarrow> bool" where
  "terms_below a N =
     ((\<forall>(n, c) \<in> set (nw_nodes N). below_max c)
      \<and> (case a of
           Deliver i \<Rightarrow> i < length (nw_sent N) \<longrightarrow> opt 0 (b_term (en_body (snd (nw_sent N ! i)))) < u64_max
         | _ \<Rightarrow> True))"

inductive network_run ::
  "(node_id \<Rightarrow> 'w env) \<Rightarrow> node_id list set \<Rightarrow> 'w network \<Rightarrow> bool" for E K where
  set_up: "fresh_network N \<Longrightarrow> network_run E K N"
| step: "network_run E K N \<Longrightarrow> configs_in K N \<Longrightarrow> terms_below a N \<Longrightarrow> net_step E wall a N = Some N' \<Longrightarrow>
    network_run E K N'"

lemma terms_below_nodes: "terms_below a N \<Longrightarrow> \<forall>(n, c) \<in> set (nw_nodes N). below_max c"
  by (simp add: terms_below_def)

lemma newborn_inv: "newborn c \<Longrightarrow> my_id c = n \<Longrightarrow> node_inv N n c"
  by (simp add: newborn_def node_inv_def replies_ok_def join_ok_def node_ok_def node_at_def fresher_def bm_keys_def)

lemma fresh_inv: "fresh_network N \<Longrightarrow> election_inv K N"
  by (auto simp: fresh_network_def election_inv_def pledge_inv_def message_inv_def lead_inv_def pledged_def
      vote_sent_iff intro: newborn_inv dest!: bm_get_in_set)

lemma tell_step:
  assumes t: "tell E n i wall (\<lambda>c. c) N = Some N'" and inv: "election_inv K N"
    and K: "configs_in K N" and below: "\<forall>(n, c) \<in> set (nw_nodes N). below_max c" and i: "i \<noteq> Start" "term_below i"
    and V: "\<And>t v. vote_in i t v \<Longrightarrow> vote_sent N v t n" and S: "\<And>t m. start_in i t m \<Longrightarrow> pledged N m t m"
  shows "\<exists>V S me c os c'. step_of V S K N me c os c' \<and> N' = absorb me (os, c') N"
proof -
  from t obtain c os c' where c: "bm_get (nw_nodes N) n = Some c"
      and h: "handle (E n) i wall c = Some (os, c')" and N': "N' = absorb n (os, c') N"
    by (auto simp: tell_def split: option.splits)
  from bm_get_in_set [OF c] have c_in: "(n, c) \<in> set (nw_nodes N)" .
  have ok: "node_inv N n c" using inv c by (auto simp: election_inv_def)
  then have "safe_step (vote_in i) (start_in i) c os c'"
    by (intro handle_safe [OF h i(1)]) (use below c_in i in \<open>auto simp: node_inv_def\<close>)
  then have "step_of (vote_in i) (start_in i) K N n c os c'"
    using inv c V S K c_in by (auto simp: step_of_def configs_in_def)
  with N' show ?thesis by blast
qed

lemma restart_of:
  assumes t: "tell E n Start wall (\<lambda>c. reborn la (f c) c) N = Some N'" and inv: "election_inv K N"
    and K: "configs_in K N" and me: "dn_id (la_me la) = n"
  shows "\<exists>V S me c os c'. step_of V S K N me c os c' \<and> N' = absorb me (os, c') N"
proof -
  from t obtain c os c' where c: "bm_get (nw_nodes N) n = Some c"
      and h: "handle (E n) Start wall (reborn la (f c) c) = Some (os, c')" and N': "N' = absorb n (os, c') N"
    by (auto simp: tell_def split: option.splits)
  from bm_get_in_set [OF c] have c_in: "(n, c) \<in> set (nw_nodes N)" .
  have "node_ok c" "dn_id (la_me la) = my_id c" using inv c me by (auto simp: election_inv_def node_inv_def)
  from restart_safe [OF h this] have "step_of (\<lambda>_ _. False) (\<lambda>_ _. False) K N n c os c'"
    using inv c K c_in by (auto simp: step_of_def configs_in_def)
  with N' show ?thesis by blast
qed

lemma net_step_of:
  assumes "net_step E wall a N = Some N'" and inv: "election_inv K N"
    and "configs_in K N" and "terms_below a N"
  shows "\<exists>V S me c os c'. step_of V S K N me c os c' \<and> N' = absorb me (os, c') N"
proof (cases a)
  case (Deliver i)
  obtain to e where e: "nw_sent N ! i = (to, e)" by (cases "nw_sent N ! i")
  with assms(1) Deliver have sent: "(to, e) \<in> set (nw_sent N)"
      and t: "tell E to (Message e) wall (\<lambda>c. c) N = Some N'"
    by (auto simp: net_step_def in_set_conv_nth split: if_splits)
  have msg: "message_inv N" using inv by (simp add: election_inv_def)
  show ?thesis
  proof (rule tell_step [OF t inv assms(3) terms_below_nodes [OF assms(4)]])
    show "term_below (Message e)" using assms(1, 4) Deliver e by (auto simp: terms_below_def net_step_def split: if_splits)
    show "vote_sent N v u to" if "vote_in (Message e) u v" for u v
    proof -
      from that have j: "is_request JOIN e" "join_vote (en_body e) u v" by simp_all
      with msg sent obtain d where "b_node (en_body e) = NodeOf d" "dn_id d = en_from e"
          "b_term (en_body e) \<noteq> None"
        unfolding message_inv_def by force
      with j sent show ?thesis by (auto simp: vote_sent_iff join_vote_def body_node_def opt_def)
    qed
    show "pledged N m u m" if "start_in (Message e) u m" for u m
    proof -
      from that have "is_request START_JOIN e" "opt 0 (b_term (en_body e)) = u" "en_from e = m" by simp_all
      with msg sent show ?thesis unfolding message_inv_def by (force simp: opt_def)
    qed
  qed simp
next
  case (Restart n la)
  with assms show ?thesis by (auto simp: net_step_def split: if_splits intro: restart_of)
qed (use assms terms_below_nodes [OF assms(4)] in \<open>auto simp: net_step_def intro: tell_step\<close>)

lemma net_step_inv:
  assumes "net_step E wall a N = Some N'" and "election_inv K N" and "configs_in K N" and "terms_below a N"
  shows "election_inv K N'"
  using net_step_of [OF assms] inv_step by blast

lemma run_inv: "network_run E K N \<Longrightarrow> election_inv K N"
  by (induction rule: network_run.induct) (auto intro: fresh_inv net_step_inv)

text \<open>Configurations any two of whose quorums meet.\<close>

definition crossing :: "node_id list set \<Rightarrow> bool" where
  "crossing K = (\<forall>C \<in> K. \<forall>D \<in> K. \<forall>Q Q'. has_quorum C Q \<longrightarrow> has_quorum D Q' \<longrightarrow> Q \<inter> Q' \<noteq> {})"

lemma crossing_single: "crossing {C}"
proof -
  have "Q \<inter> Q' \<noteq> {}" if "has_quorum C Q" "has_quorum C Q'" for Q Q'
    using majority.quorum_meet [OF that] by blast
  then show ?thesis by (simp add: crossing_def)
qed

text \<open>A configuration and the same with one node more.\<close>

lemma crossing_one_more: "crossing {xs @ ys, xs @ x # ys}"
proof -
  let ?C = "xs @ ys" and ?D = "xs @ x # ys"
  have meet: "Q \<inter> Q' \<noteq> {}" if q: "has_quorum ?C Q" and q': "has_quorum ?D Q'" for Q Q'
  proof
    assume "Q \<inter> Q' = {}"
    then have "votes_in ?C Q + votes_in ?C Q' \<le> length ?C" by (intro votes_in_disjoint) auto
    moreover have "votes_in ?D Q' \<le> Suc (votes_in ?C Q')" by (simp add: votes_in_def)
    ultimately show False using q q' by (auto simp: has_quorum_def)
  qed
  show ?thesis
    unfolding crossing_def
  proof (intro ballI allI impI)
    fix C D Q Q'
    assume m: "C \<in> {?C, ?D}" "D \<in> {?C, ?D}" and q: "has_quorum C Q" "has_quorum D Q'"
    show "Q \<inter> Q' \<noteq> {}"
    proof (cases "C = D")
      case True
      with q majority.quorum_meet [of C Q Q'] show ?thesis by blast
    next
      case False
      with m consider "C = ?C" "D = ?D" | "C = ?D" "D = ?C" by auto
      then show ?thesis
      proof cases
        case 1
        with meet q show ?thesis by simp
      next
        case 2
        with meet [of Q' Q] q show ?thesis by (simp add: Int_commute)
      qed
    qed
  qed
qed

lemma election_unique:
  assumes "election_inv K N" and "crossing K"
    and "(a, NLeader t) \<in> set (nw_notes N)" and "(b, NLeader t) \<in> set (nw_notes N)"
  shows "a = b"
proof -
  have l: "lead_inv K N" and p: "pledge_inv N" using assms(1) by (simp_all add: election_inv_def)
  obtain C where C: "C \<in> K" "has_quorum C {v. pledged N v t a}" using l assms(3) by (auto simp: lead_inv_def)
  obtain D where D: "D \<in> K" "has_quorum D {v. pledged N v t b}" using l assms(4) by (auto simp: lead_inv_def)
  from assms(2) C D have "{v. pledged N v t a} \<inter> {v. pledged N v t b} \<noteq> {}" by (simp add: crossing_def)
  then obtain v where "pledged N v t a" "pledged N v t b" by blast
  with p show ?thesis unfolding pledge_inv_def by metis
qed

section \<open>What holds of every run\<close>

text \<open>
  \<^bold>\<open>C2.\<close> Whatever is lost, late, delivered twice or restarted, and whatever the voting
  configurations are: a node gives its voice in a term, by a vote or by standing itself, to one node.
\<close>

theorem one_voice_per_term:
  assumes "network_run E UNIV N" and "pledged N v t a" and "pledged N v t b"
  shows "a = b"
  using run_inv [OF assms(1)] assms(2, 3) unfolding election_inv_def pledge_inv_def by metis

text \<open>
  \<^bold>\<open>C3.\<close> A node that came to lead in a term has the voices, given to it in that term, of more
  than half of one of the voting configurations in use.
\<close>

theorem manager_has_quorum:
  assumes "network_run E K N" and "(n, NLeader t) \<in> set (nw_notes N)"
  shows "\<exists>C \<in> K. has_quorum C {v. pledged N v t n}"
  using run_inv [OF assms(1)] assms(2) unfolding election_inv_def lead_inv_def by blast

text \<open>
  \<^bold>\<open>C1.\<close> One manager per term: when a quorum of any voting configuration in use meets a quorum of
  any other, no two nodes come to lead in the same term.
\<close>

theorem one_manager_per_term:
  assumes "network_run E K N" and "crossing K"
    and "(a, NLeader t) \<in> set (nw_notes N)" and "(b, NLeader t) \<in> set (nw_notes N)"
  shows "a = b"
  by (rule election_unique [OF run_inv [OF assms(1)] assms(2-4)])

text \<open>
  At no moment do two nodes both hold themselves the manager in the same term.
\<close>

theorem no_two_managers:
  assumes "network_run E K N" and "crossing K"
    and "bm_get (nw_nodes N) a = Some c" and "bm_get (nw_nodes N) b = Some d"
    and "c_mode c = Leader" and "c_mode d = Leader" and "c_current_term c = c_current_term d"
  shows "a = b"
proof -
  note inv = run_inv [OF assms(1)]
  have "node_inv N a c" "node_inv N b d" using inv assms(3, 4) by (auto simp: election_inv_def)
  then have "(a, NLeader (c_current_term c)) \<in> set (nw_notes N)" "(b, NLeader (c_current_term c)) \<in> set (nw_notes N)"
    using assms(5-7) by (simp_all add: node_inv_def)
  from election_unique [OF inv assms(2) this] show ?thesis .
qed

text \<open>
  A node never goes back to an earlier term, not even when it is stopped and started from
  what it wrote to disk.
\<close>

theorem term_never_falls:
  assumes "network_run E UNIV N" and "terms_below a N" and "net_step E wall a N = Some N'"
    and "bm_get (nw_nodes N) n = Some c"
  shows "\<exists>c'. bm_get (nw_nodes N') n = Some c' \<and> c_current_term c \<le> c_current_term c'"
proof -
  have "configs_in UNIV N" by (simp add: configs_in_def)
  from net_step_of [OF assms(3) run_inv [OF assms(1)] this assms(2)] obtain V S me d os d'
    where "step_of V S UNIV N me d os d'" and "N' = absorb me (os, d') N" by blast
  with assms(4) show ?thesis by (auto simp: step_of_def safe_step_def)
qed

text \<open>
  \<^bold>\<open>C4.\<close> A committed state is never taken back: after any step, a restart included, a node's
  committed state is at least as far, by term and then version, as it was before.
\<close>

theorem committed_never_goes_back:
  assumes "network_run E UNIV N" and "terms_below a N" and "net_step E wall a N = Some N'"
    and "bm_get (nw_nodes N) n = Some c"
  shows "\<exists>c'. bm_get (nw_nodes N') n = Some c' \<and> behind (c_committed c) (c_committed c')"
proof -
  have "configs_in UNIV N" by (simp add: configs_in_def)
  from net_step_of [OF assms(3) run_inv [OF assms(1)] this assms(2)] obtain V S me d os d'
    where st: "step_of V S UNIV N me d os d'" and N': "N' = absorb me (os, d') N" by blast
  show ?thesis
  proof (cases "n = me")
    case False
    with N' assms(4) show ?thesis by simp
  next
    case True
    with st assms(4) have "d = c" by (simp add: step_of_def)
    have "node_ok c" using step_me [OF st] \<open>d = c\<close> by (simp add: node_inv_def)
    then have "node_at (cs_term (c_committed c), cs_version (c_committed c)) c"
      by (simp add: node_ok_def node_at_def fresher_def)
    with st \<open>d = c\<close> have "node_at (cs_term (c_committed c), cs_version (c_committed c)) d'"
      by (simp add: step_of_def safe_step_def)
    with N' True show ?thesis by (simp add: node_at_def behind_def)
  qed
qed


section \<open>The specification\<close>

text \<open>
  What an election promises, without the messages: an office for each term, which is filled once.
  \<open>elect\<close> refuses a second holder.
\<close>

type_synonym offices = "nat \<Rightarrow> node_id option"

definition elect :: "node_id \<Rightarrow> nat \<Rightarrow> offices \<Rightarrow> offices option" where
  "elect n t M = (if M t = None \<or> M t = Some n then Some (M(t := Some n)) else None)"

fun elections :: "(node_id \<times> nat) list \<Rightarrow> offices \<Rightarrow> offices option" where
  "elections [] M = Some M"
| "elections ((n, t) # es) M = (case elect n t M of None \<Rightarrow> None | Some M' \<Rightarrow> elections es M')"

fun elected_by :: "(node_id \<times> node_note) list \<Rightarrow> (node_id \<times> nat) list" where
  "elected_by [] = []"
| "elected_by ((n, NLeader t) # xs) = (n, t) # elected_by xs"
| "elected_by (_ # xs) = elected_by xs"

definition office_of :: "(node_id \<times> nat) list \<Rightarrow> offices" where
  "office_of es t = map_of (map prod.swap es) t"

lemma elected_by_iff [simp]: "((n, t) \<in> set (elected_by xs)) = ((n, NLeader t) \<in> set xs)"
  by (induction xs rule: elected_by.induct) auto

lemma elected_by_append [simp]: "elected_by (xs @ ys) = elected_by xs @ elected_by ys"
  by (induction xs rule: elected_by.induct) auto

lemma office_of_append: "office_of (es @ [(n, t)]) = (office_of es)(t := Some (opt n (office_of es t)))"
  by (auto simp: office_of_def fun_eq_iff opt_def map_add_def split: option.splits)

lemma elections_refine:
  assumes "\<And>t a b. (a, t) \<in> set (es @ xs) \<Longrightarrow> (b, t) \<in> set (es @ xs) \<Longrightarrow> a = b"
  shows "elections xs (office_of es) = Some (office_of (es @ xs))"
  using assms
proof (induction xs arbitrary: es)
  case Nil
  then show ?case by simp
next
  case (Cons x xs)
  obtain n t where x: "x = (n, t)" by (cases x)
  have "office_of es t = None \<or> office_of es t = Some n"
  proof (cases "office_of es t")
    case (Some m)
    then have "(m, t) \<in> set es" by (auto simp: office_of_def dest: map_of_SomeD)
    with Cons.prems [of m t n] x Some show ?thesis by simp
  qed simp
  then have "elect n t (office_of es) = Some (office_of (es @ [(n, t)]))"
    by (auto simp: elect_def office_of_append opt_def)
  moreover have "elections xs (office_of (es @ [x])) = Some (office_of ((es @ [x]) @ xs))"
    by (rule Cons.IH) (use Cons.prems in auto)
  ultimately show ?case by (simp add: x)
qed

text \<open>
  Every step of the network is a sequence of elections the specification accepts: the
  managers it adds to the record take offices that were empty or already theirs.
\<close>

theorem network_refines_offices:
  assumes "network_run E K N" and "crossing K" and "configs_in K N" and "terms_below a N"
    and "net_step E wall a N = Some N'"
  shows "\<exists>es. elected_by (nw_notes N') = elected_by (nw_notes N) @ es
    \<and> elections es (office_of (elected_by (nw_notes N))) = Some (office_of (elected_by (nw_notes N')))"
proof -
  note inv = run_inv [OF assms(1)]
  have inv': "election_inv K N'" by (rule net_step_inv [OF assms(5) inv assms(3, 4)])
  from net_step_of [OF assms(5) inv assms(3, 4)] obtain n os c' where "N' = absorb n (os, c') N" by blast
  then obtain ys where ys: "nw_notes N' = nw_notes N @ ys" by (simp add: absorb_def)
  have "elections (elected_by ys) (office_of (elected_by (nw_notes N)))
      = Some (office_of (elected_by (nw_notes N) @ elected_by ys))"
    by (rule elections_refine)
      (use election_unique [OF inv' assms(2)] in \<open>simp add: ys flip: elected_by_append\<close>)
  with ys show ?thesis by auto
qed

end
