(* ===== verification/Election_Examples.thy ===== *)
theory Election_Examples
  imports Election_Safety Samples
begin

text \<open>
  Concrete networks: the nodes, what they are set up with, and schedules that are run by evaluation.
  The first elects a manager; the last shows that the condition on the voting configurations is one
  the code does not keep by itself.
\<close>

section \<open>Networks to run\<close>

definition sample_env :: "unit env" where
  "sample_env =
     \<lparr>ev_source = None, ev_host = None, ev_lib = sample_lib, ev_hash = (\<lambda>_. 0), ev_rand = (\<lambda>_. [])\<rparr>"

definition sample_launch :: "string list \<Rightarrow> node_id list \<Rightarrow> node_id \<Rightarrow> launch" where
  "sample_launch names seeds i =
     \<lparr>la_me = sample_node i [''cluster_manager''], la_cluster_name = ''c'', la_cluster_uuid = ''u'',
      la_initial_names = names, la_seeds = seeds, la_timings = timings_default, la_seed_hosts = [],
      la_auto_shrink = True, la_metadata_poll = 500\<rparr>"

definition sample_member :: "launch \<Rightarrow> node_id \<times> unit coordinator" where
  "sample_member la = (dn_id (la_me la), launched la [] durable_default () 0)"

definition sample_network :: "(node_id \<times> unit coordinator) list \<Rightarrow> unit network" where
  "sample_network nodes = \<lparr>nw_nodes = nodes, nw_sent = [], nw_notes = []\<rparr>"

text \<open>A schedule all of whose steps are allowed in a run under the configurations \<open>Ks\<close>.\<close>

fun checked_play ::
  "(node_id \<Rightarrow> 'w env) \<Rightarrow> node_id list list \<Rightarrow> (millis \<times> action) list \<Rightarrow> 'w network \<Rightarrow> 'w network option"
where
  "checked_play E Ks [] N = Some N"
| "checked_play E Ks ((wall, a) # as) N =
     (if configs_in (set Ks) N \<and> terms_below a N
      then (case net_step E wall a N of None \<Rightarrow> None | Some N' \<Rightarrow> checked_play E Ks as N')
      else None)"

lemma checked_play_continues:
  "network_run E (set Ks) N \<Longrightarrow> checked_play E Ks as N = Some N' \<Longrightarrow> network_run E (set Ks) N'"
  by (induction E Ks as N rule: checked_play.induct)
    (auto split: if_splits option.splits intro: network_run.step)

lemma checked_play_run:
  "fresh_network N \<Longrightarrow> checked_play E Ks as N = Some N' \<Longrightarrow> network_run E (set Ks) N'"
  by (rule checked_play_continues [OF network_run.set_up])

definition at_second :: "action list \<Rightarrow> (millis \<times> action) list" where
  "at_second as = map (Pair 1000) as"

definition standing :: "'w network \<Rightarrow> node_id \<Rightarrow> (mode \<times> nat) option" where
  "standing N n = map_option (\<lambda>c. (c_mode c, c_current_term c)) (bm_get (nw_nodes N) n)"

section \<open>An election among three\<close>

text \<open>
  Three nodes that name each other; the first finds the two others, asks whether it may stand, stands
  and is elected with the vote of the second.
\<close>

definition trio_ids :: "node_id list" where
  "trio_ids = [''1'', ''2'', ''3'']"

definition trio_launch :: "node_id \<Rightarrow> launch" where
  "trio_launch i = sample_launch trio_ids (filter (\<lambda>j. j \<noteq> i) trio_ids) i"

definition trio_network :: "unit network" where
  "trio_network = sample_network (map (\<lambda>i. sample_member (trio_launch i)) trio_ids)"

abbreviation trio_start :: "node_id \<Rightarrow> action" where
  "trio_start i \<equiv> Restart i (trio_launch i)"

definition trio_schedule :: "(millis \<times> action) list" where
  "trio_schedule =
     at_second
       [trio_start ''1'', trio_start ''2'', trio_start ''3'', Deliver 0, Deliver 1, Deliver 6, Deliver 7,
        Fire ''1'' T_DISCOVER, Fire ''1'' T_ELECTION, Deliver 10, Deliver 12, Deliver 13]"

abbreviation trio_env :: "node_id \<Rightarrow> unit env" where
  "trio_env \<equiv> \<lambda>_. sample_env"

text \<open>The network before the vote arrives, and after.\<close>

definition trio_votes :: "unit network" where
  "trio_votes = opt trio_network (checked_play trio_env [trio_ids] trio_schedule trio_network)"

definition trio_elects :: "unit network" where
  "trio_elects = opt trio_network (net_step trio_env 1000 (Deliver 16) trio_votes)"

text \<open>Then the second node accepts the first publication and the first commits it.\<close>

definition commit_schedule :: "(millis \<times> action) list" where
  "commit_schedule = trio_schedule @ at_second [Deliver 16, Deliver 17, Deliver 18]"

definition trio_commits :: "unit network" where
  "trio_commits = opt trio_network (checked_play trio_env [trio_ids] commit_schedule trio_network)"

definition holdings :: "'w network \<Rightarrow> node_id \<Rightarrow> ((nat \<times> nat) \<times> (nat \<times> nat)) option" where
  "holdings N n =
     map_option (\<lambda>c. ((cs_term (c_accepted c), cs_version (c_accepted c)),
                      (cs_term (c_committed c), cs_version (c_committed c)))) (bm_get (nw_nodes N) n)"

definition commit_check :: bool where
  "commit_check =
     (case checked_play trio_env [trio_ids] commit_schedule trio_network of
        None \<Rightarrow> False
      | Some N \<Rightarrow>
          terms_below (trio_start ''1'') N \<and> standing N ''1'' = Some (Leader, 1) \<and> holdings N ''1'' = Some ((1, 1), (1, 1))
          \<and> net_step trio_env 2000 (trio_start ''1'') N \<noteq> None)"

definition trio_check :: bool where
  "trio_check =
     (case checked_play trio_env [trio_ids] trio_schedule trio_network of
        None \<Rightarrow> False
      | Some N \<Rightarrow>
          configs_in {trio_ids} N \<and> terms_below (Deliver 16) N \<and> elected_by (nw_notes N) = []
          \<and> (case net_step trio_env 1000 (Deliver 16) N of
               None \<Rightarrow> False
             | Some N' \<Rightarrow>
                 configs_in {trio_ids} N' \<and> terms_below (trio_start ''2'') N' \<and> elected_by (nw_notes N') = [(''1'', 1)]
                 \<and> standing N' ''1'' = Some (Leader, 1) \<and> pledged N' ''2'' 1 ''1''
                 \<and> standing N' ''2'' = Some (Candidate, 1)
                 \<and> net_step trio_env 2000 (trio_start ''2'') N' \<noteq> None))"

lemma trio_fresh: "fresh_network trio_network"
  by code_simp

lemma trio_check: "trio_check"
  by code_simp

lemma commit_check: "commit_check"
  by code_simp

lemma commit_facts:
  "checked_play trio_env [trio_ids] commit_schedule trio_network = Some trio_commits"
  "terms_below (trio_start ''1'') trio_commits" "standing trio_commits ''1'' = Some (Leader, 1)"
  "holdings trio_commits ''1'' = Some ((1, 1), (1, 1))"
  "net_step trio_env 2000 (trio_start ''1'') trio_commits \<noteq> None"
  using commit_check unfolding commit_check_def trio_commits_def
  by (simp_all add: opt_def split: option.splits)

lemma trio_facts:
  "checked_play trio_env [trio_ids] trio_schedule trio_network = Some trio_votes"
  "configs_in {trio_ids} trio_votes" "terms_below (Deliver 16) trio_votes" "elected_by (nw_notes trio_votes) = []"
  "net_step trio_env 1000 (Deliver 16) trio_votes = Some trio_elects"
  "terms_below (trio_start ''2'') trio_elects" "elected_by (nw_notes trio_elects) = [(''1'', 1)]"
  "standing trio_elects ''1'' = Some (Leader, 1)" "pledged trio_elects ''2'' 1 ''1''"
  "standing trio_elects ''2'' = Some (Candidate, 1)"
  "net_step trio_env 2000 (trio_start ''2'') trio_elects \<noteq> None"
  using trio_check unfolding trio_check_def trio_elects_def trio_votes_def
  by (simp_all add: opt_def split: option.splits)

lemma trio_run: "network_run trio_env {trio_ids} trio_votes" "network_run trio_env {trio_ids} trio_elects"
proof -
  show r: "network_run trio_env {trio_ids} trio_votes"
    using checked_play_run [OF trio_fresh trio_facts(1)] by simp
  show "network_run trio_env {trio_ids} trio_elects"
    by (rule network_run.step [OF r trio_facts(2, 3, 5)])
qed

lemma network_run_any: "network_run E K N \<Longrightarrow> network_run E UNIV N"
  by (induction rule: network_run.induct)
    (auto intro: network_run.intros simp: configs_in_def)

lemma trio_run_any: "network_run trio_env UNIV trio_elects"
  by (rule network_run_any [OF trio_run(2)])

lemma commit_run: "network_run trio_env UNIV trio_commits"
  by (rule network_run_any [OF checked_play_run [OF trio_fresh commit_facts(1)]])

lemma commit_next:
  obtains N' c where "net_step trio_env 2000 (trio_start ''1'') trio_commits = Some N'"
    and "bm_get (nw_nodes trio_commits) ''1'' = Some c" and "c_current_term c = 1"
    and "cs_term (c_accepted c) = 1" and "cs_version (c_accepted c) = 1"
    and "cs_term (c_committed c) = 1" and "cs_version (c_committed c) = 1"
  using commit_facts(3-5) by (auto simp: standing_def holdings_def)

lemma trio_led: "(''1'', NLeader 1) \<in> set (nw_notes trio_elects)"
  by (simp add: trio_facts(7) flip: elected_by_iff)

section \<open>The theorems on it\<close>

theorem one_voice_per_term_witness: "{a. pledged trio_elects ''2'' 1 a} = {''1''}"
proof -
  have "a = ''1''" if "pledged trio_elects ''2'' 1 a" for a
    by (rule one_voice_per_term [OF trio_run_any that trio_facts(9)])
  with trio_facts(9) show ?thesis by blast
qed

theorem manager_has_quorum_witness: "has_quorum trio_ids {v. pledged trio_elects v 1 ''1''}"
  using manager_has_quorum [OF trio_run(2) trio_led] by simp

theorem one_manager_per_term_witness: "{b. (b, NLeader 1) \<in> set (nw_notes trio_elects)} = {''1''}"
proof -
  have "b = ''1''" if "(b, NLeader 1) \<in> set (nw_notes trio_elects)" for b
    by (rule one_manager_per_term [OF trio_run(2) crossing_single that trio_led])
  with trio_led show ?thesis by blast
qed

theorem no_two_managers_witness: "{b. standing trio_elects b = Some (Leader, 1)} = {''1''}"
proof -
  from trio_facts(8) obtain c where c: "bm_get (nw_nodes trio_elects) ''1'' = Some c" "c_mode c = Leader"
      "c_current_term c = 1"
    by (auto simp: standing_def)
  have "b = ''1''" if "standing trio_elects b = Some (Leader, 1)" for b
  proof -
    from that obtain d where d: "bm_get (nw_nodes trio_elects) b = Some d" "c_mode d = Leader"
        "c_current_term d = c_current_term c"
      using c(3) by (auto simp: standing_def)
    from no_two_managers [OF trio_run(2) crossing_single d(1) c(1) d(2) c(2) d(3)] show ?thesis .
  qed
  with trio_facts(8) show ?thesis by blast
qed

theorem term_never_falls_witness:
  "\<exists>N' c'. net_step trio_env 2000 (trio_start ''2'') trio_elects = Some N'
     \<and> bm_get (nw_nodes N') ''2'' = Some c' \<and> 1 \<le> c_current_term c'"
proof -
  obtain N' where N': "net_step trio_env 2000 (trio_start ''2'') trio_elects = Some N'"
    using trio_facts(11) by blast
  obtain c where "bm_get (nw_nodes trio_elects) ''2'' = Some c" "c_current_term c = 1"
    using trio_facts(10) by (auto simp: standing_def)
  with term_never_falls [OF trio_run_any trio_facts(6) N'] N' show ?thesis by force
qed

theorem committed_never_goes_back_witness:
  "\<exists>N' c'. net_step trio_env 2000 (trio_start ''1'') trio_commits = Some N'
     \<and> bm_get (nw_nodes N') ''1'' = Some c'
     \<and> \<not> fresher 1 1 (cs_term (c_committed c')) (cs_version (c_committed c'))"
proof (rule commit_next)
  fix N' c
  assume N': "net_step trio_env 2000 (trio_start ''1'') trio_commits = Some N'"
    and c: "bm_get (nw_nodes trio_commits) ''1'' = Some c"
    and "cs_term (c_committed c) = 1" "cs_version (c_committed c) = 1"
  with committed_never_goes_back [OF commit_run commit_facts(2) N' c] show ?thesis
    by (auto simp: behind_def)
qed


theorem network_refines_offices_witness:
  "elections [(''1'', 1)] (\<lambda>_. None) = Some (office_of (elected_by (nw_notes trio_elects)))"
proof -
  have "office_of [] = (\<lambda>_. None)" by (simp add: office_of_def fun_eq_iff)
  then show ?thesis
    using network_refines_offices [OF trio_run(1) crossing_single trio_facts(2, 3, 5)]
    by (simp add: trio_facts(4, 7))
qed

end
