(* ===== verification/Election_Gaps.thy ===== *)
theory Election_Gaps
  imports Election_Examples
begin

text \<open>
  Two schedules the code does not stand up to: a voting configuration that grows from one node to
  three in a single publication, and an acknowledgement that outlives the process it was meant for.
\<close>

section \<open>Two managers in one term\<close>

text \<open>Only the third node is named for the first configuration; the two others find it.\<close>

definition grown_launch :: "node_id \<Rightarrow> launch" where
  "grown_launch i = sample_launch (if i = ''3'' then [''3''] else []) (filter (\<lambda>j. j \<noteq> i) trio_ids) i"

definition grown_network :: "unit network" where
  "grown_network = sample_network (map (\<lambda>i. sample_member (grown_launch i)) trio_ids)"

abbreviation grown_start :: "node_id \<Rightarrow> action" where
  "grown_start i \<equiv> Restart i (grown_launch i)"

definition grown_schedule :: "(millis \<times> action) list" where
  "grown_schedule =
     at_second
       ([grown_start ''1'', grown_start ''2'', grown_start ''3'', Fire ''3'' T_ELECTION, Deliver 8, Deliver 11,
         Deliver 12, grown_start ''3'', Fire ''1'' T_LEADER_CHECK, Deliver 16, Deliver 17,
         Fire ''1'' T_ELECTION, Deliver 21, Deliver 22, Deliver 23, Fire ''3'' T_ELECTION,
         Deliver 31, Deliver 3, Deliver 33, Deliver 34, Deliver 35, Deliver 37, Fire ''2'' T_DISCOVER,
         Deliver 40, Deliver 41, Deliver 42, Deliver 43]
        @ replicate 5 (Fire ''1'' T_LEADER_CHECK) @ [Deliver 26])"

text \<open>
  Two nodes lead in one term: after this schedule, from nodes with an empty disk, each of the two
  is the manager of term 2: the first was elected by the configuration of
  three, the third by the configuration it held before, in which it was alone.
\<close>

theorem two_managers_in_one_term:
  "fresh_network grown_network
   \<and> map_option (\<lambda>N. (standing N ''1'', standing N ''3''))
       (play (\<lambda>_. sample_env) grown_schedule grown_network)
     = Some (Some (Leader, 2), Some (Leader, 2))"
  by code_simp

section \<open>A commit nobody else has accepted\<close>

text \<open>
  The first node publishes in term 1 and is stopped before the second one's acknowledgement arrives.
  It is elected again, by the third, and its new publication carries the request number of the old
  one, since the numbers start again with the process.
\<close>

definition stale_schedule :: "(millis \<times> action) list" where
  "stale_schedule =
     trio_schedule
     @ at_second
         [Deliver 16, Deliver 17, trio_start ''1'', Fire ''1'' T_DISCOVER, Fire ''1'' T_ELECTION, Deliver 24,
          Deliver 25, Deliver 27, Deliver 29, Deliver 18]"

text \<open>
  A late acknowledgement commits a state nobody else has: by the term and version accepted and
  those committed, the first node ends with a committed state that neither other node has accepted.
\<close>

theorem stale_acknowledgement_commits:
  "map_option (\<lambda>N. (holdings N ''1'', holdings N ''2'', holdings N ''3''))
     (play (\<lambda>_. sample_env) stale_schedule trio_network)
   = Some (Some ((2, 2), (2, 2)), Some ((1, 1), (0, 0)), Some ((0, 0), (0, 0)))"
  by code_simp

end
