(* ===== verification/Coordinator_Properties.thy ===== *)
theory Coordinator_Properties
  imports Election_Examples
begin

text \<open>
  What single operations of a coordinator promise: who is heard, what is accepted and committed, how
  the voting configuration moves, when a node is given up on, and the bounds of what is drawn and
  counted.
\<close>

section \<open>Strangers\<close>

definition guarded_actions :: "string list" where
  "guarded_actions = [PRE_VOTE, START_JOIN, PUBLISH, COMMIT, FOLLOWER_CHECK]"

lemma knows_wall [simp]: "knows (c\<lparr>c_last_wall := w\<rparr>) n = knows c n"
  by (simp add: knows_def everyone_def my_id_def)

lemma my_id_wall [simp]: "my_id (c\<lparr>c_last_wall := w\<rparr>) = my_id c"
  by (simp add: my_id_def)

lemma handle_request:
  "en_kind e = Request \<Longrightarrow> handle E (Message e) wall c = on_request E e (c\<lparr>c_last_wall := wall\<rparr>)"
  by (simp add: handle_def on_message_def Let_def)

lemma handle_response:
  "en_kind e = Response \<Longrightarrow> handle E (Message e) wall c = on_response E e (c\<lparr>c_last_wall := wall\<rparr>)"
  by (simp add: handle_def on_message_def Let_def)

text \<open>
  A node this one does not know has no say: its pre-votes, start-joins, publications, commits
  and checks get an error with the term, and nothing but the clock changes here.
\<close>

theorem stranger_changes_nothing:
  assumes "en_kind e = Request" and "en_action e \<in> set guarded_actions" and "\<not> knows c (en_from e)"
  shows "handle E (Message e) wall c =
    Some ([Send (en_from e) (mk_error e (my_id c) (term_reason c ''not a node of this cluster''))],
          c\<lparr>c_last_wall := wall\<rparr>)"
proof -
  have "term_reason (c\<lparr>c_last_wall := wall\<rparr>) w = term_reason c w" for w by (simp add: term_reason_def)
  then show ?thesis
    using assms(2, 3)
    by (auto simp: handle_request [OF assms(1)] on_request_def guarded_actions_def action_defs Let_def
        on_prevote_request_def on_start_join_request_def on_publish_request_def on_commit_request_def
        on_follower_check_request_def not_of_this_cluster_def reply_error_def)
qed

definition stranger_envelope :: "body envelope" where
  "stranger_envelope = mk_request START_JOIN ''9'' 7 (no_body\<lparr>b_term := Some 5\<rparr>)"

theorem stranger_changes_nothing_witness:
  "handle sample_env (Message stranger_envelope) 1000 (snd (sample_member (sample_launch [] [''2''] ''1''))) =
     Some ([Send ''9'' (mk_error stranger_envelope ''1''
              (term_reason (snd (sample_member (sample_launch [] [''2''] ''1''))) ''not a node of this cluster''))],
           (snd (sample_member (sample_launch [] [''2''] ''1'')))\<lparr>c_last_wall := 1000\<rparr>)"
proof -
  have e: "en_kind stranger_envelope = Request" "en_action stranger_envelope \<in> set guarded_actions"
    "en_from stranger_envelope = ''9''" "my_id (snd (sample_member (sample_launch [] [''2''] ''1''))) = ''1''"
    by (simp_all add: stranger_envelope_def mk_request_def guarded_actions_def my_id_def sample_member_def launched_def sample_launch_def
        coordinator_new_def sample_node_def Let_def)
  have k: "\<not> knows (snd (sample_member (sample_launch [] [''2''] ''1''))) (en_from stranger_envelope)"
    by code_simp
  from stranger_changes_nothing [OF e(1, 2) k, of sample_env 1000] show ?thesis by (simp add: e)
qed

section \<open>Accepting and committing\<close>

text \<open>
  A publication is accepted only from a known node, in this node's own term, when it is fresher
  than the state accepted so far and of the same cluster; it is on disk before it is acknowledged.
\<close>

theorem publication_accepted_when:
  assumes "is_request PUBLISH e" and "handle E (Message e) wall c = Some (os, c')"
    and "c_accepted c' \<noteq> c_accepted c" and "cs_term (c_accepted c) \<le> c_current_term c"
  shows "\<exists>s. knows c (en_from e) \<and> b_state (en_body e) = Some s \<and> c_accepted c' = s
    \<and> du_accepted (c_durable c') = Holds s \<and> cs_term s = c_current_term c
    \<and> fresher (cs_term s) (cs_version s) (cs_term (c_accepted c)) (cs_version (c_accepted c))
    \<and> (cs_cluster_uuid_committed (c_committed c) \<longrightarrow> cs_cluster_uuid s = cs_cluster_uuid (c_committed c))
    \<and> Send (en_from e) (mk_response e (my_id c) (commit_body s)) \<in> set os"
proof -
  let ?c = "c\<lparr>c_last_wall := wall\<rparr>"
  from assms(1, 2) have act: "on_publish_request E e ?c = Some (os, c')"
    by (simp add: is_request_def handle_request on_request_def action_defs Let_def)
  with assms(3) obtain s where s: "knows c (en_from e)" "b_state (en_body e) = Some s"
      "publish_refusal ?c s = None"
    by (auto simp: on_publish_request_def not_of_this_cluster_def reply_error_def skip_def
        split: option.splits if_splits)
  have heard: "holds calm d (heard_first d)" for d :: "'a coordinator"
    unfolding heard_first_def leader_check_timer_def
    by (intro calm.holds_intros calm_acts calm_upd) (simp add: core_def)
  define d where "d = ?c\<lparr>c_accepted := s, c_durable := (c_durable c)\<lparr>du_accepted := Holds s\<rparr>,
      c_mode := Follower (opt (en_from e) (cs_cluster_manager s)), c_last_leader_ok := wall,
      c_leader_hint := Some (opt (en_from e) (cs_cluster_manager s)), c_election_scheduled := False\<rparr>"
  from act s obtain b where "run [reply_ok e (commit_body s), if b then skip else heard_first] d = Some (os, c')"
    by (auto simp: on_publish_request_def Let_def persist_accepted_def d_def split: if_splits)
  then obtain o2 where os: "os = Send (en_from e) (mk_response e (my_id d) (commit_body s)) # o2"
      and c': "(if b then skip else heard_first) d = Some (o2, c')"
    by (auto simp: reply_ok_def elim!: run_ConsE)
  have "core c' = core d" using c' calm_core [OF heard] calm_core [OF calm_skip] by (auto split: if_splits)
  then have "c_accepted c' = s" "du_accepted (c_durable c') = Holds s" by (simp_all add: core_def d_def)
  moreover have "my_id d = my_id c" by (simp add: my_id_def d_def)
  ultimately show ?thesis
    using s(3) assms(4) os
    by (intro exI [of _ s]) (auto simp: s(1, 2) publish_refusal_def fresher_def split: if_splits)
qed

definition sample_one :: "unit coordinator" where
  "sample_one = snd (sample_member (sample_launch [] [''2''] ''1''))"

definition sample_state :: cluster_state where
  "sample_state = (cs_empty ''c'' ''u'' [])\<lparr>cs_version := 1\<rparr>"

definition sample_publish :: "body envelope" where
  "sample_publish = mk_request PUBLISH ''2'' 7 (no_body\<lparr>b_state := Some sample_state\<rparr>)"

lemma sample_published:
  "map_option (\<lambda>(_, c'). cs_version (c_accepted c')) (handle sample_env (Message sample_publish) 1000 sample_one)
   = Some 1"
  by code_simp

theorem publication_accepted_when_witness:
  "\<exists>os c'. handle sample_env (Message sample_publish) 1000 sample_one = Some (os, c')
     \<and> c_accepted c' = sample_state \<and> du_accepted (c_durable c') = Holds sample_state
     \<and> Send ''2'' (mk_response sample_publish ''1'' (commit_body sample_state)) \<in> set os"
proof -
  from sample_published obtain os c' where
      h: "handle sample_env (Message sample_publish) 1000 sample_one = Some (os, c')"
      and v: "cs_version (c_accepted c') = 1" by auto
  have one: "cs_version (c_accepted sample_one) = 0" "cs_term (c_accepted sample_one) = 0"
    "my_id sample_one = ''1''"
    by (simp_all add: sample_one_def sample_member_def launched_def sample_launch_def coordinator_new_def cs_empty_def sample_node_def my_id_def Let_def)
  have "is_request PUBLISH sample_publish" "en_from sample_publish = ''2''"
    "b_state (en_body sample_publish) = Some sample_state"
    by (simp_all add: is_request_def sample_publish_def mk_request_def)
  moreover have "c_accepted c' \<noteq> c_accepted sample_one" using v one by auto
  ultimately show ?thesis
    using publication_accepted_when [of sample_publish, OF _ h] h one by auto
qed

text \<open>
  An acknowledgement makes a manager commit only when those who acknowledged the publication
  it answers, with this one, are more than half of both voting configurations of the published state.
\<close>

theorem commit_needs_quorum:
  assumes "en_kind e = Response" and "en_action e = PUBLISH" and "handle E (Message e) wall c = Some (os, c')"
    and "c_committed c' \<noteq> c_committed c"
  shows "c_mode c = Leader \<and> (\<exists>p. c_publishing c = Some p \<and> pb_rid p = en_request_id e
    \<and> election_quorum (pb_state p) (insert (en_from e) (set (pb_acked p))))"
proof -
  let ?c = "c\<lparr>c_last_wall := wall\<rparr>"
  have act: "on_publish_response E e ?c = Some (os, c')"
    using assms(1-3) by (simp add: handle_response on_response_def action_defs Let_def)
  have ack: "c_committed (ack n r d) = c_committed d" for n r and d :: "'a coordinator"
    by (simp add: ack_def split: option.splits)
  have req: "request to a b d = Some (o2, d') \<Longrightarrow> c_committed d' = c_committed d"
    for to a b o2 and d d' :: "'a coordinator"
    by (auto simp: request_def rid_def Let_def)
  have "c_mode c = Leader" "acked_quorum (en_request_id e) (ack (en_from e) (en_request_id e) ?c)"
    using act assms(4) by (auto simp: on_publish_response_def Let_def skip_def ack dest!: req split: if_splits)
  then show ?thesis
    by (auto simp: acked_quorum_def ack_def split: option.splits if_splits)
qed

definition sample_publication :: publication where
  "sample_publication =
     \<lparr>pb_state = set_config [''1'', ''2''] sample_state, pb_rid = 7, pb_seq = 1, pb_acked = [''1'']\<rparr>"

definition sample_manager :: "unit coordinator" where
  "sample_manager = sample_one\<lparr>c_mode := Leader, c_publishing := Some sample_publication\<rparr>"

definition sample_ack :: "body envelope" where
  "sample_ack = mk_response (mk_request PUBLISH ''1'' 7 no_body) ''2'' (commit_body sample_state)"

lemma sample_acked:
  "map_option (\<lambda>(_, c'). cs_version (c_committed c')) (handle sample_env (Message sample_ack) 1000 sample_manager)
   = Some 1"
  by code_simp

theorem commit_needs_quorum_witness:
  "\<exists>os c'. handle sample_env (Message sample_ack) 1000 sample_manager = Some (os, c')
     \<and> c_committed c' \<noteq> c_committed sample_manager \<and> c_mode sample_manager = Leader
     \<and> (\<exists>p. c_publishing sample_manager = Some p \<and> election_quorum (pb_state p) (insert ''2'' (set (pb_acked p))))"
proof -
  from sample_acked obtain os c' where
      h: "handle sample_env (Message sample_ack) 1000 sample_manager = Some (os, c')"
      and v: "cs_version (c_committed c') = 1" by auto
  have "cs_version (c_committed sample_manager) = 0"
    by (simp add: sample_manager_def sample_one_def sample_member_def launched_def sample_launch_def coordinator_new_def cs_empty_def Let_def)
  with v have ne: "c_committed c' \<noteq> c_committed sample_manager" by auto
  have "en_kind sample_ack = Response" "en_action sample_ack = PUBLISH" "en_from sample_ack = ''2''"
    by (simp_all add: sample_ack_def mk_response_def mk_request_def)
  with commit_needs_quorum [OF _ _ h ne] h ne show ?thesis by auto
qed

text \<open>
  A commit from the manager takes in the state accepted here and nothing else: the term and the
  version it names are those of the accepted state, and the term is this node's.
\<close>

theorem commit_takes_the_accepted:
  assumes "is_request COMMIT e" and "handle E (Message e) wall c = Some (os, c')"
    and "c_committed c' \<noteq> c_committed c"
  shows "knows c (en_from e) \<and> opt 0 (b_term (en_body e)) = c_current_term c
    \<and> cs_term (c_accepted c) = opt 0 (b_term (en_body e))
    \<and> cs_version (c_accepted c) = opt 0 (b_version (en_body e))
    \<and> c_committed c' = committed_form (c_accepted c) \<and> du_committed (c_durable c') = Holds (c_committed c')"
proof -
  let ?c = "c\<lparr>c_last_wall := wall\<rparr>"
  have act: "on_commit_request E e ?c = Some (os, c')"
    using assms(1, 2) by (simp add: is_request_def handle_request on_request_def action_defs Let_def)
  with assms(3) have g: "knows c (en_from e)" "opt 0 (b_term (en_body e)) = c_current_term c"
      "cs_term (c_accepted c) = opt 0 (b_term (en_body e))"
      "cs_version (c_accepted c) = opt 0 (b_version (en_body e))"
    by (auto simp: on_commit_request_def Let_def not_of_this_cluster_def reply_error_def skip_def
        split: if_splits)
  with act obtain o1 d o2 where com: "apply_committed (c_accepted c) ?c = Some (o1, d)"
      and rest: "run [upd (\<lambda>c. c\<lparr>c_last_leader_ok := c_last_wall c\<rparr>), reply_ok e no_body, apply_shards E,
        (\<lambda>c. add_note (NCommitted (opt 0 (b_term (en_body e))) (opt 0 (b_version (en_body e)))
           (length (cs_nodes (c_committed c))) (length (cs_last_accepted_config (c_committed c)))) c)] d
        = Some (o2, c')"
    by (auto simp: on_commit_request_def Let_def elim!: run_ConsE [of "apply_committed _"])
  have "holds calm d (run [upd (\<lambda>c. c\<lparr>c_last_leader_ok := c_last_wall c\<rparr>), reply_ok e no_body, apply_shards E,
        (\<lambda>c. add_note (NCommitted (opt 0 (b_term (en_body e))) (opt 0 (b_version (en_body e)))
           (length (cs_nodes (c_committed c))) (length (cs_last_accepted_config (c_committed c)))) c)] d)"
    by (intro calm.holds_intros calm_acts calm_upd) (simp add: core_def)
  from calm_core [OF this rest] have core: "core c' = core d" .
  with assms(3) com have "d = adopt (c_accepted c) ?c"
    by (auto simp: apply_committed_eq core_def split: if_splits)
  with core show ?thesis using g by (simp add: core_def adopt_def Let_def)
qed

definition sample_follower :: "unit coordinator" where
  "sample_follower = sample_one\<lparr>c_accepted := sample_state\<rparr>"

definition sample_commit :: "body envelope" where
  "sample_commit = mk_request COMMIT ''2'' 9 (commit_body sample_state)"

lemma sample_committed:
  "map_option (\<lambda>(_, c'). cs_version (c_committed c')) (handle sample_env (Message sample_commit) 1000 sample_follower)
   = Some 1"
  by code_simp

theorem commit_takes_the_accepted_witness:
  "\<exists>os c'. handle sample_env (Message sample_commit) 1000 sample_follower = Some (os, c')
     \<and> c_committed c' = committed_form sample_state \<and> du_committed (c_durable c') = Holds (c_committed c')"
proof -
  from sample_committed obtain os c' where
      h: "handle sample_env (Message sample_commit) 1000 sample_follower = Some (os, c')"
      and v: "cs_version (c_committed c') = 1" by auto
  have "cs_version (c_committed sample_follower) = 0" "c_accepted sample_follower = sample_state"
    by (simp_all add: sample_follower_def sample_one_def sample_member_def launched_def sample_launch_def coordinator_new_def cs_empty_def Let_def)
  moreover with v have "c_committed c' \<noteq> c_committed sample_follower" by auto
  moreover have "is_request COMMIT sample_commit"
    by (simp add: sample_commit_def mk_request_def is_request_def)
  ultimately show ?thesis using commit_takes_the_accepted [OF _ h] h by auto
qed

section \<open>The voting configuration\<close>

lemma live_nodes_set:
  "set (live_nodes c s) =
     {dn_id n |n. n \<in> set (bm_values (cs_nodes s)) \<and> is_cluster_manager_eligible n \<and> \<not> excluded c s (dn_id n)}"
  by (auto simp: live_nodes_def)

text \<open>
  \<^bold>\<open>C34.\<close> The next voting configuration is the committed one, or one the live nodes have a quorum of.
  In the latter case every member is live or was a member that is not excluded, and a node that
  is not live stays only when every live one is in.
\<close>

theorem reconfigure_keeps_quorum:
  assumes "new = reconfigure c s" and "new \<noteq> cs_last_committed_config s"
  shows "has_quorum new (set (live_nodes c s))
    \<and> set new \<subseteq> set (live_nodes c s) \<union> {i \<in> set (cs_last_committed_config s). \<not> excluded c s i}
    \<and> (set new \<subseteq> set (live_nodes c s) \<or> set (live_nodes c s) \<subseteq> set new)"
proof -
  define current where "current = cs_last_committed_config s"
  define live where "live = live_nodes c s"
  define kept where "kept = filter (\<lambda>i. \<not> excluded c s i) current"
  define target where "target = reconfigure_target c (length live) (length kept)"
  define ins where "ins = filter (\<lambda>i. i \<in> set live) current @ filter (\<lambda>i. i \<notin> set current) live"
  define dead where "dead = filter (\<lambda>i. i \<notin> set live) kept"
  have new: "new = sort (take target (ins @ dead))" and q: "has_quorum new (set live)"
    using assms unfolding reconfigure_def Let_def current_def live_def kept_def target_def ins_def dead_def
    by (auto split: if_splits)
  have live: "set ins = set live" by (auto simp: ins_def)
  have "set new \<subseteq> set ins \<union> set dead" unfolding new by (auto dest!: in_set_takeD)
  moreover have "set dead \<subseteq> {i \<in> set current. \<not> excluded c s i}" by (auto simp: dead_def kept_def)
  moreover have "set new \<subseteq> set ins \<or> set ins \<subseteq> set new"
    by (cases "target \<le> length ins") (auto simp: new dest!: in_set_takeD)
  ultimately show ?thesis
    using q live unfolding current_def [symmetric] live_def [symmetric] by blast
qed

definition sample_voters :: cluster_state where
  "sample_voters =
     set_config [''1'', ''2'']
       (sample_state\<lparr>cs_nodes := map (\<lambda>i. (i, sample_node i [''cluster_manager''])) [''1'', ''3'', ''4'']\<rparr>)"

theorem reconfigure_keeps_quorum_witness:
  "reconfigure sample_one sample_voters = [''1'', ''3'', ''4'']
   \<and> has_quorum (reconfigure sample_one sample_voters) (set (live_nodes sample_one sample_voters))"
proof -
  have r: "reconfigure sample_one sample_voters = [''1'', ''3'', ''4'']"
    "cs_last_committed_config sample_voters = [''1'', ''2'']"
    by code_simp+
  with reconfigure_keeps_quorum [OF refl, of sample_one sample_voters] show ?thesis by simp
qed

section \<open>Fault detection\<close>

definition misses :: "'w coordinator \<Rightarrow> node_id \<Rightarrow> nat" where
  "misses c n = fh_misses (opt fh_default (bm_get (c_followers c) n))"

lemma count_miss_one:
  "\<exists>os c'. count_miss n c = Some (os, c') \<and> misses c' n = misses c n + 1 \<and> c_timings c' = c_timings c
     \<and> set (c_pending_removals c') =
         (if misses c n \<ge> tm_follower_check_retries (c_timings c) then insert n (set (c_pending_removals c))
          else set (c_pending_removals c))"
  by (auto simp: count_miss_def Let_def misses_def add_note_def when_act_def emit_def skip_def run.simps upd_def
      opt_def bm_insert_get split: option.split)

text \<open>
  A manager gives a follower up after more missed checks in a row than the retries, and not
  before: \<open>k\<close> misses are counted one by one, and the node is to be removed exactly when the count
  passes the limit.
\<close>

theorem removed_after_retries:
  "\<exists>os c'. run (replicate k (count_miss n)) c = Some (os, c') \<and> misses c' n = misses c n + k
     \<and> (n \<in> set (c_pending_removals c') \<longleftrightarrow>
          n \<in> set (c_pending_removals c) \<or> 0 < k \<and> misses c n + k > tm_follower_check_retries (c_timings c))"
proof (induction k arbitrary: c)
  case 0
  then show ?case by simp
next
  case (Suc k)
  obtain o1 c1 where one: "count_miss n c = Some (o1, c1)" "misses c1 n = misses c n + 1"
      "c_timings c1 = c_timings c"
      "set (c_pending_removals c1) =
         (if misses c n \<ge> tm_follower_check_retries (c_timings c) then insert n (set (c_pending_removals c))
          else set (c_pending_removals c))"
    using count_miss_one by blast
  moreover obtain o2 c2 where "run (replicate k (count_miss n)) c1 = Some (o2, c2)"
      "misses c2 n = misses c1 n + k"
      "n \<in> set (c_pending_removals c2) \<longleftrightarrow> n \<in> set (c_pending_removals c1)
         \<or> 0 < k \<and> misses c1 n + k > tm_follower_check_retries (c_timings c1)"
    using Suc [of c1] by blast
  ultimately show ?case by (cases k) (auto simp: run.simps)
qed

text \<open>
  A manager holds itself one exactly while more than half of the committed voting configuration
  answers within the lease, itself included.
\<close>

theorem manager_here_quorum:
  assumes "c_mode c = Leader" and "cs_last_committed_config (c_committed c) \<noteq> []"
  shows "manager_here c = has_quorum (cs_last_committed_config (c_committed c)) {n. answering c n}"
  using assms by (simp add: manager_here_def has_quorum_def votes_in_def Let_def mult.commute)

theorem manager_here_quorum_witness:
  "\<not> has_quorum [''1'', ''2'', ''3'']
       {n. answering (sample_manager\<lparr>c_committed := set_config [''1'', ''2'', ''3''] sample_state\<rparr>) n}"
proof -
  let ?c = "sample_manager\<lparr>c_committed := set_config [''1'', ''2'', ''3''] sample_state\<rparr>"
  have "\<not> manager_here ?c" by code_simp
  moreover have "c_mode ?c = Leader" "cs_last_committed_config (c_committed ?c) = [''1'', ''2'', ''3'']"
    by (simp_all add: sample_manager_def set_config_def)
  ultimately show ?thesis using manager_here_quorum [of ?c] by simp
qed

section \<open>Reports about copies\<close>

text \<open>
  The manager takes a report that a copy started only from the node the copy was placed on, and
  one that a copy failed or is stale only from a node holding a copy of that shard or its primary; a
  report about the primary itself is never taken, whoever sends it.
\<close>

theorem report_taken_when:
  assumes "judge_report c action index shard aid sender = Taken"
  shows "(if action = SHARD_STARTED
    then \<exists>r \<in> set (rt_shards_of (cs_routing (c_committed c)) index).
           sr_shard r = shard \<and> sr_allocation_id r = Some aid \<and> sr_node r = Some sender
    else (\<forall>p. rt_primary (cs_routing (c_committed c)) index shard = Some p \<longrightarrow> sr_allocation_id p \<noteq> Some aid)
      \<and> ((\<exists>r \<in> set (rt_shards_of (cs_routing (c_committed c)) index). sr_shard r = shard \<and> sr_node r = Some sender)
          \<or> (\<exists>p. rt_primary (cs_routing (c_committed c)) index shard = Some p \<and> sr_node p = Some sender)))"
  using assms by (auto simp: judge_report_def Let_def bind_eq_Some_conv split: if_splits)

definition sample_routed :: "unit coordinator" where
  "sample_routed =
     sample_manager\<lparr>c_committed := sample_state\<lparr>cs_routing :=
       [(''i'', [(0, [sample_copy 0 True Started (Some ''1'') (Some ''a''),
                      sample_copy 0 False Initializing (Some ''2'') (Some ''b'')])])]\<rparr>\<rparr>"

theorem report_taken_when_witness:
  "judge_report sample_routed SHARD_STARTED ''i'' 0 ''b'' ''2'' = Taken
   \<and> (\<exists>r \<in> set (rt_shards_of (cs_routing (c_committed sample_routed)) ''i'').
        sr_shard r = 0 \<and> sr_allocation_id r = Some ''b'' \<and> sr_node r = Some ''2'')"
proof -
  have "judge_report sample_routed SHARD_STARTED ''i'' 0 ''b'' ''2'' = Taken" by code_simp
  with report_taken_when [OF this] show ?thesis by simp
qed

text \<open>
  A copy that becomes the primary writes under a term above every term its shard had, both the
  one the index carries and the one this manager counted.
\<close>

theorem promotion_raises_term:
  "\<exists>t. bm_get (count_promotion base (index, shard, node) terms) (index, shard) = Some t
     \<and> opt 0 (bm_get terms (index, shard)) < t
     \<and> opt 1 (Option.bind (bm_get base index) (\<lambda>m. bm_get (im_primary_terms m) shard)) < t"
  by (auto simp: count_promotion_def Let_def bm_insert_get next_term_def opt_def max_def split: option.split)

section \<open>Bounds\<close>

lemma rng_range_bounds: "lo \<le> hi \<Longrightarrow> lo \<le> fst (rng_range lo hi r) \<and> fst (rng_range lo hi r) \<le> hi"
proof -
  assume "lo \<le> hi"
  have "lo + x mod (hi - lo + 1) \<le> hi" for x :: nat
    using \<open>lo \<le> hi\<close> mod_less_divisor [of "hi - lo + 1" x] by linarith
  with \<open>lo \<le> hi\<close> show ?thesis by (auto simp: rng_range_def split: prod.split)
qed

text \<open>
  The wait before an election is drawn between the initial wait and the initial wait plus a cap
  that grows with the attempts and never passes the longest.
\<close>

theorem election_delay_bounds:
  "\<exists>d c'. schedule_election c = Some ([Timer T_ELECTION d], c') \<and> tm_election_initial (c_timings c) \<le> d
     \<and> d \<le> tm_election_initial (c_timings c)
         + min (tm_election_max (c_timings c))
             (tm_election_initial (c_timings c) + tm_election_backoff (c_timings c) * (c_election_attempt c + 1))
     \<and> c_election_attempt c' = c_election_attempt c + 1 \<and> c_election_scheduled c'"
proof -
  let ?cap = "min (tm_election_max (c_timings c))
      (tm_election_initial (c_timings c) + tm_election_backoff (c_timings c) * (c_election_attempt c + 1))"
  obtain x r where x: "rng_range 0 ?cap (c_rng c) = (x, r)" by (cases "rng_range 0 ?cap (c_rng c)")
  with rng_range_bounds [of 0 ?cap "c_rng c"] have "x \<le> ?cap" by simp
  with x show ?thesis by (simp add: schedule_election_def Let_def)
qed

section \<open>Publication\<close>

text \<open>
  \<^bold>\<open>C33.\<close> A publication returns whenever the manager alone is not a quorum of both configurations of
  the state it publishes: the state is sent to every other node in it, the manager waits for their
  acknowledgements, and nothing is committed yet.
\<close>

theorem publish_returns:
  assumes "\<not> election_quorum (stamp c s) {my_id c}"
  shows "\<exists>os c'. publish E s c = Some (os, c') \<and> c_committed c' = c_committed c
    \<and> c_accepted c' = stamp c s \<and> du_accepted (c_durable c') = Holds (stamp c s)
    \<and> (\<forall>n. (\<exists>e. Send n e \<in> set os \<and> is_request PUBLISH e \<and> b_state (en_body e) = Some (stamp c s))
          \<longleftrightarrow> n \<in> set (bm_keys (cs_nodes s)) \<and> n \<noteq> my_id c)"
proof -
  obtain o1 c1 where st: "publish_start s c = (o1, c1)" by (cases "publish_start s c")
  have kept: "stamp (c\<lparr>c_next_request := r\<rparr>) s = stamp c s" "my_id (c\<lparr>c_next_request := r\<rparr>) = my_id c" for r
    by (simp_all add: stamp_def my_id_def)
  have nodes: "cs_nodes (stamp c s) = cs_nodes s" by (simp add: stamp_def)
  have c1: "c_accepted c1 = stamp c s" "c_committed c1 = c_committed c"
      "du_accepted (c_durable c1) = Holds (stamp c s)"
      "\<exists>p. c_publishing c1 = Some p \<and> pb_acked p = [my_id c]"
    using st by (auto simp: publish_start_def Let_def rid_def my_id_def)
  with assms have "\<not> publication_quorum c1" by (auto simp: publication_quorum_def)
  with st have "publish E s c = Some (o1, c1)" by (simp add: publish.simps)
  moreover have "(\<exists>e. Send n e \<in> set o1 \<and> is_request PUBLISH e \<and> b_state (en_body e) = Some (stamp c s))
      \<longleftrightarrow> n \<in> set (bm_keys (cs_nodes s)) \<and> n \<noteq> my_id c" for n
    using st by (auto simp: publish_start_def Let_def rid_def kept nodes mk_request_def is_request_def image_iff)
  ultimately show ?thesis using c1 by blast
qed

theorem publish_returns_witness:
  "\<exists>os c'. publish sample_env sample_voters sample_manager = Some (os, c')
     \<and> c_accepted c' = stamp sample_manager sample_voters"
proof -
  have "\<not> election_quorum (stamp sample_manager sample_voters) {my_id sample_manager}" by code_simp
  from publish_returns [OF this] show ?thesis by blast
qed

end
