(* ===== verification/Allocation_Properties.thy ===== *)
theory Allocation_Properties
  imports Allocation_Commands
begin

text \<open>
  What the passes of \<^verbatim>\<open>reroute\<close> and the events promise: the copies a shard has after the first pass,
  who may become a primary, where a lost primary may be put back, how a started or failed copy leaves
  the table, and that every shard of an index is where its first one is.
\<close>

section \<open>Replicas as many as asked for\<close>

definition replicas :: "shard_routing list \<Rightarrow> shard_routing list" where
  "replicas cs = filter (\<lambda>c. \<not> sr_primary c) cs"

definition primaries :: "shard_routing list \<Rightarrow> shard_routing list" where
  "primaries cs = filter sr_primary cs"

lemma copies_split: "i < length cs \<Longrightarrow> cs = take i cs @ cs ! i # drop (Suc i) cs"
  by (rule id_take_nth_drop)

lemma remove_replica:
  assumes "i < length cs" and "\<not> sr_primary (cs ! i)"
  shows "length (replicas (remove_at i cs)) = length (replicas cs) - 1"
    and "primaries (remove_at i cs) = primaries cs" and "0 < length (replicas cs)"
proof -
  have s: "cs = take i cs @ cs ! i # drop (Suc i) cs" by (rule copies_split [OF assms(1)])
  have "replicas cs = replicas (take i cs) @ cs ! i # replicas (drop (Suc i) cs)"
    and p: "primaries cs = primaries (take i cs) @ primaries (drop (Suc i) cs)"
    by (subst s, simp add: replicas_def primaries_def assms(2))+
  then show "length (replicas (remove_at i cs)) = length (replicas cs) - 1" "0 < length (replicas cs)"
    "primaries (remove_at i cs) = primaries cs"
    by (simp_all add: remove_at_def replicas_def primaries_def)
qed

lemma drop_unassigned_keeps:
  assumes "i \<le> length cs" and "extra \<le> length (replicas cs)"
    and "drop_unassigned extra i cs = (cs', extra')"
  shows "length (replicas cs') + extra = length (replicas cs) + extra' \<and> primaries cs' = primaries cs
    \<and> extra' \<le> length (replicas cs')"
  using assms
proof (induction extra i cs rule: drop_unassigned.induct)
  case (1 extra cs)
  then show ?case by simp
next
  case (2 extra i cs)
  show ?case
  proof (cases "extra \<noteq> 0 \<and> \<not> sr_primary (cs ! i) \<and> sr_state (cs ! i) = Unassigned")
    case True
    with 2(3) have r: "length (replicas (remove_at i cs)) = length (replicas cs) - 1"
      "primaries (remove_at i cs) = primaries cs" "0 < length (replicas cs)"
      using remove_replica [of i cs] by auto
    have "i \<le> length (remove_at i cs)" using 2(3) by (simp add: remove_at_def)
    moreover have "drop_unassigned (extra - 1) i (remove_at i cs) = (cs', extra')" using 2(5) True by auto
    ultimately have "length (replicas cs') + (extra - 1) = length (replicas (remove_at i cs)) + extra'
        \<and> primaries cs' = primaries (remove_at i cs) \<and> extra' \<le> length (replicas cs')"
      using True r 2(4) by (intro 2(1)) auto
    with True r 2(4) show ?thesis by auto
  next
    case False
    with 2 show ?thesis by (auto split: if_splits)
  qed
qed

lemma rposition_last:
  assumes "\<exists>c \<in> set cs. P c"
  shows "\<exists>i < length cs. rposition P cs = Some i \<and> P (cs ! i)"
proof (cases "position P (rev cs)")
  case None
  with assms show ?thesis by (auto dest: position_None)
next
  case (Some j)
  from position_Some [OF this] have "j < length cs" "P (rev cs ! j)" by auto
  with Some show ?thesis by (simp add: rposition_def rev_nth)
qed

lemma drop_replicas_keeps:
  assumes "extra \<le> length (replicas cs)"
  shows "length (replicas (drop_replicas extra cs)) = length (replicas cs) - extra
    \<and> primaries (drop_replicas extra cs) = primaries cs"
  using assms
proof (induction extra arbitrary: cs)
  case 0
  then show ?case by simp
next
  case (Suc extra)
  then have "replicas cs \<noteq> []" by auto
  then have "\<exists>c \<in> set cs. \<not> sr_primary c" by (auto simp: replicas_def filter_empty_conv)
  from rposition_last [OF this] obtain i where i: "i < length cs"
      "rposition (\<lambda>c. \<not> sr_primary c) cs = Some i" "\<not> sr_primary (cs ! i)" by blast
  note r = remove_replica [OF i(1, 3)]
  from Suc.IH [of "remove_at i cs"] Suc.prems r i show ?case by simp
qed

lemma adjust_replicas_exact:
  "length (replicas (adjust_replicas ctx name m shard fresh cs)) = im_number_of_replicas m
   \<and> primaries (adjust_replicas ctx name m shard fresh cs) = primaries cs"
proof -
  let ?have = "length (replicas cs)" and ?want = "im_number_of_replicas m"
  show ?thesis
  proof (cases "?want < ?have")
    case True
    obtain cs' ex where d: "drop_unassigned (?have - ?want) (length cs) cs = (cs', ex)"
      by (cases "drop_unassigned (?have - ?want) (length cs) cs")
    from drop_unassigned_keeps [OF _ _ this] have
      "length (replicas cs') + (?have - ?want) = ?have + ex" "primaries cs' = primaries cs" "ex \<le> length (replicas cs')"
      by auto
    with drop_replicas_keeps [of ex cs'] True d show ?thesis
      by (simp add: adjust_replicas_def Let_def replicas_def)
  next
    case False
    then show ?thesis
      by (auto simp: adjust_replicas_def Let_def replicas_def primaries_def mk_copy_def)
  qed
qed

definition shard_synced :: "index_metadata \<Rightarrow> shard_routing list option \<Rightarrow> bool" where
  "shard_synced m cs =
     (case cs of None \<Rightarrow> False
      | Some cs \<Rightarrow> length (replicas cs) = im_number_of_replicas m \<and> primaries cs \<noteq> [])"

lemma ensure_primary_has:
  "ensure_primary ctx table name m shard (cs, k) = (cs', k') \<Longrightarrow> primaries cs' \<noteq> []"
  by (auto simp: ensure_primary_def Let_def primaries_def mk_copy_def fresh_primary_def filter_empty_conv
      split: if_splits option.splits)

lemma sync_shard_get:
  assumes "sync_shard ctx table name m n (shards, k) = (shards', k')"
  shows "shard_synced m (bm_get shards' n)" and "s \<noteq> n \<Longrightarrow> bm_get shards' s = bm_get shards s"
proof -
  obtain cs k1 where e: "ensure_primary ctx table name m n
      ((case bm_get shards n of None \<Rightarrow> [] | Some cs \<Rightarrow> cs), k) = (cs, k1)"
    by (cases "ensure_primary ctx table name m n ((case bm_get shards n of None \<Rightarrow> [] | Some cs \<Rightarrow> cs), k)")
  have s': "shards' = bm_insert n (adjust_replicas ctx name m n (\<not> bm_has shards n) cs) shards"
    using assms e by (simp add: sync_shard_def Let_def split: option.splits)
  show "shard_synced m (bm_get shards' n)"
    using ensure_primary_has [OF e] adjust_replicas_exact [of ctx name m n "\<not> bm_has shards n" cs]
    by (simp add: s' shard_synced_def bm_insert_get)
  show "s \<noteq> n \<Longrightarrow> bm_get shards' s = bm_get shards s"
    by (simp add: s' bm_insert_get)
qed

lemma sync_shards_get:
  assumes "fold (sync_shard ctx table name m) ns (shards, k) = (shards', k')"
  shows "(s \<in> set ns \<longrightarrow> shard_synced m (bm_get shards' s))
    \<and> (s \<notin> set ns \<longrightarrow> bm_get shards' s = bm_get shards s)"
  using assms
proof (induction ns arbitrary: shards k)
  case Nil
  then show ?case by simp
next
  case (Cons n ns)
  obtain sh1 k1 where one: "sync_shard ctx table name m n (shards, k) = (sh1, k1)"
    by (cases "sync_shard ctx table name m n (shards, k)")
  from Cons.IH [of sh1 k1] Cons.prems one sync_shard_get [OF one] show ?case by auto
qed

lemma sync_index_get:
  assumes "sync_index ctx table (name, m) (t, k) = (t', k')"
  shows "(shard < im_number_of_shards m \<longrightarrow> shard_synced m (rt_copies t' name shard))
    \<and> (\<not> shard < im_number_of_shards m \<longrightarrow> rt_copies t' name shard = None)"
    and "n \<noteq> name \<Longrightarrow> rt_copies t' n shard = rt_copies t n shard"
proof -
  define sh0 where "sh0 = (case bm_get t name of None \<Rightarrow> [] | Some s \<Rightarrow> s)"
  obtain sh k1 where f: "fold (sync_shard ctx table name m) [0..<im_number_of_shards m] (sh0, k) = (sh, k1)"
    by (cases "fold (sync_shard ctx table name m) [0..<im_number_of_shards m] (sh0, k)")
  have t': "t' = bm_insert name (bm_retain_keys (\<lambda>s. s < im_number_of_shards m) sh) t"
    using assms f by (simp add: sync_index_def Let_def sh0_def split: option.splits)
  show "(shard < im_number_of_shards m \<longrightarrow> shard_synced m (rt_copies t' name shard))
    \<and> (\<not> shard < im_number_of_shards m \<longrightarrow> rt_copies t' name shard = None)"
    using sync_shards_get [OF f, of shard]
    by (auto simp: t' rt_copies_def bm_insert_get bm_retain_get)
  show "n \<noteq> name \<Longrightarrow> rt_copies t' n shard = rt_copies t n shard"
    by (simp add: t' rt_copies_def bm_insert_get)
qed

lemma sync_indices_get:
  assumes "fold (sync_index ctx table) nms (t, k) = (t', k')" and "distinct (map fst nms)"
  shows "case map_of nms name of
      Some m \<Rightarrow> (shard < im_number_of_shards m \<longrightarrow> shard_synced m (rt_copies t' name shard))
        \<and> (\<not> shard < im_number_of_shards m \<longrightarrow> rt_copies t' name shard = None)
    | None \<Rightarrow> rt_copies t' name shard = rt_copies t name shard"
  using assms
proof (induction nms arbitrary: t k)
  case Nil
  then show ?case by simp
next
  case (Cons nm nms)
  obtain n m where nm: "nm = (n, m)" by (cases nm)
  obtain t1 k1 where one: "sync_index ctx table (n, m) (t, k) = (t1, k1)"
    by (cases "sync_index ctx table (n, m) (t, k)")
  from Cons.prems one nm have rest: "fold (sync_index ctx table) nms (t1, k1) = (t', k')"
      "distinct (map fst nms)" "n \<notin> fst ` set nms"
    by auto
  have "map_of nms n = None" using rest(3) by (simp add: map_of_eq_None_iff)
  with Cons.IH [OF rest(1, 2)] sync_index_get(1) [OF one, of shard] sync_index_get(2) [OF one, of name shard] nm show ?case
    by (cases "name = n") (auto split: option.splits)
qed

text \<open>
  \<^bold>\<open>C36.\<close> After the first pass the table is the metadata's: every shard of every index has a primary and
  exactly the replicas its setting asks for, and no index and no shard is in it that the metadata
  does not have.
\<close>

theorem reroute_sync_complete:
  assumes "reroute_sync ctx table k = (t, k')" and "distinct (map fst (cx_indices ctx))"
  shows "case bm_get (cx_indices ctx) name of
      Some m \<Rightarrow>
        (case rt_copies t name shard of
           Some cs \<Rightarrow> shard < im_number_of_shards m \<and> length (replicas cs) = im_number_of_replicas m
             \<and> primaries cs \<noteq> []
         | None \<Rightarrow> im_number_of_shards m \<le> shard)
    | None \<Rightarrow> rt_copies t name shard = None"
proof -
  have f: "fold (sync_index ctx table) (cx_indices ctx) (bm_retain_keys (bm_has (cx_indices ctx)) table, k) = (t, k')"
    using assms(1) by (simp add: reroute_sync_def)
  have none: "rt_copies (bm_retain_keys (bm_has (cx_indices ctx)) table) name shard = None"
    if "bm_get (cx_indices ctx) name = None"
    using that by (simp add: rt_copies_def bm_retain_get bm_has_get)
  show ?thesis
    using sync_indices_get [OF f assms(2), of name shard] none
    by (cases "shard < (case bm_get (cx_indices ctx) name of Some m \<Rightarrow> im_number_of_shards m | None \<Rightarrow> 0)")
      (auto simp: bm_get_def shard_synced_def split: option.splits)
qed

definition two_shards :: alloc_context where
  "two_shards = sample_context [] [(''i'', sample_index ''i'' 2 3 [])]"

theorem reroute_sync_complete_witness:
  "case rt_copies (fst (reroute_sync two_shards [] 0)) ''i'' 1 of
     Some cs \<Rightarrow> length (replicas cs) = 3 \<and> primaries cs \<noteq> []
   | None \<Rightarrow> False"
proof -
  obtain t k where r: "reroute_sync two_shards [] 0 = (t, k)" by (cases "reroute_sync two_shards [] 0")
  have i: "bm_get (cx_indices two_shards) ''i'' = Some (sample_index ''i'' 2 3 [])"
    "im_number_of_shards (sample_index ''i'' 2 3 []) = 2" "im_number_of_replicas (sample_index ''i'' 2 3 []) = 3"
    "distinct (map fst (cx_indices two_shards))"
    by (simp_all add: two_shards_def sample_context_def sample_index_def bm_get_def)
  from reroute_sync_complete [OF r i(4), of "''i''" 1] show ?thesis
    by (simp add: r i split: option.splits)
qed

section \<open>Who may become the primary\<close>

lemma leave_fold_kept:
  assumes "c \<in> set (fst (fold (leave_copy ctx is name shard) gone (cs, ch, d)))" and "sr_state c \<noteq> Unassigned"
  shows "c \<in> set cs"
  using assms
proof (induction gone arbitrary: cs ch d)
  case Nil
  then show ?case by simp
next
  case (Cons i gone)
  obtain cs1 ch1 d1 where one: "leave_copy ctx is name shard i (cs, ch, d) = (cs1, ch1, d1)"
    by (cases "leave_copy ctx is name shard i (cs, ch, d)")
  with Cons.IH [of cs1 ch1 d1] Cons.prems have "c \<in> set cs1" by simp
  with one Cons.prems(2) show ?case
    by (auto simp: leave_copy_def Let_def unassign_copy_def dest!: set_update_subset_insert [THEN subsetD])
qed

lemma promote_result:
  assumes "c \<in> set (fst (promote ctx name shard (cs, ch, d)))" and "sr_primary c" and "sr_state c \<noteq> Unassigned"
  shows "c \<in> set cs \<or> (\<exists>r \<in> set cs. promotable (in_sync_of ctx name shard) r
    \<and> c = r\<lparr>sr_primary := True, sr_relocating_node := None, sr_state := Started\<rparr>)"
proof (cases "position (\<lambda>c. sr_primary c \<and> sr_state c = Unassigned) cs")
  case None
  with assms show ?thesis by (simp add: promote_def Let_def)
next
  case (Some pi)
  note pi = Some
  from position_Some [OF pi] have p: "pi < length cs" "sr_primary (cs ! pi)" "sr_state (cs ! pi) = Unassigned"
    by auto
  show ?thesis
  proof (cases "position (promotable (in_sync_of ctx name shard)) cs")
    case None
    with pi assms p show ?thesis
      by (auto simp: promote_def Let_def update_at_def set_status_def split: if_splits option.splits
          dest!: set_update_subset_insert [THEN subsetD])
  next
    case (Some ri)
    let ?f = "\<lambda>c. c\<lparr>sr_primary := True, sr_relocating_node := None, sr_state := Started\<rparr>"
    from position_Some [OF Some] have r: "ri < length cs" "promotable (in_sync_of ctx name shard) (cs ! ri)" by auto
    with p have ne: "ri \<noteq> pi" by (auto simp: promotable_def)
    have "c \<in> set (update_at pi (\<lambda>c. c\<lparr>sr_primary := False\<rparr>) (update_at ri ?f cs))"
      using assms(1) pi Some by (simp add: promote_def Let_def)
    then obtain j where j: "j < length cs"
        "c = update_at pi (\<lambda>c. c\<lparr>sr_primary := False\<rparr>) (update_at ri ?f cs) ! j"
      by (auto simp: in_set_conv_nth)
    then have "j \<noteq> pi" using assms(2) p by (auto simp: update_at_nth)
    with j have "c = (if j = ri then ?f (cs ! j) else cs ! j)" by (simp add: update_at_nth)
    with j(1) r show ?thesis by (metis nth_mem)
  qed
qed

text \<open>
  \<^bold>\<open>C35.\<close> When nodes leave, no copy comes to be an assigned primary but one that was the primary, or one
  that was active and, when the in-sync set of the shard is known, is in it.
\<close>

theorem only_in_sync_promoted:
  assumes "leave_shard ctx name shard (copies, ch) = (copies', ch')"
    and "c \<in> set copies'" and "sr_primary c" and "sr_state c \<noteq> Unassigned"
  shows "\<exists>c0 \<in> set copies. sr_node c0 = sr_node c \<and> sr_allocation_id c0 = sr_allocation_id c
    \<and> (sr_primary c0 \<or> active_state (sr_state c0)
        \<and> (\<exists>a. sr_allocation_id c = Some a
             \<and> (case in_sync_of ctx name shard of None \<Rightarrow> True | Some s \<Rightarrow> a \<in> set s)))"
proof -
  define kept where "kept = filter (\<lambda>c. \<not> lost_target ctx c) (map (cancel_lost_target ctx) copies)"
  define st where "st = fold (leave_copy ctx (cx_index_settings ctx name) name shard)
      (filter (\<lambda>i. copy_gone ctx (kept ! i)) [0..<length kept]) (kept, ch, None)"
  obtain cs ch1 d where cs: "st = (cs, ch1, d)" by (cases st)
  have "(copies', ch') = promote ctx name shard (cs, ch1, d)"
    using assms(1) cs by (simp add: leave_shard_def Let_def kept_def st_def)
  then have c: "c \<in> set (fst (promote ctx name shard (cs, ch1, d)))" using assms(2) by (metis fst_conv)
  have came: "\<exists>c0 \<in> set copies. sr_node c0 = sr_node x \<and> sr_allocation_id c0 = sr_allocation_id x
      \<and> sr_primary c0 = sr_primary x \<and> (active_state (sr_state x) \<longrightarrow> active_state (sr_state c0))"
    if x: "x \<in> set cs" "sr_state x \<noteq> Unassigned" for x
  proof -
    from x(1) cs have "x \<in> set (fst st)" by simp
    from leave_fold_kept [OF this [unfolded st_def] x(2)] obtain c0 where "c0 \<in> set copies" "x = cancel_lost_target ctx c0" by (auto simp: kept_def)
    then show ?thesis by (auto simp: cancel_lost_target_def active_state_def intro!: bexI [of _ c0])
  qed
  from promote_result [OF c assms(3, 4)] show ?thesis
  proof
    assume "c \<in> set cs"
    from came [OF this assms(4)] assms(3) show ?thesis by auto
  next
    assume "\<exists>r \<in> set cs. promotable (in_sync_of ctx name shard) r
      \<and> c = r\<lparr>sr_primary := True, sr_relocating_node := None, sr_state := Started\<rparr>"
    then obtain r where r: "r \<in> set cs" "promotable (in_sync_of ctx name shard) r"
        "c = r\<lparr>sr_primary := True, sr_relocating_node := None, sr_state := Started\<rparr>" by blast
    then have "sr_state r \<noteq> Unassigned" by (auto simp: promotable_def active_state_def)
    from came [OF r(1) this] r(2, 3) show ?thesis
      by (auto simp: promotable_def split: option.splits)
  qed
qed

text \<open>The primary's node has left; its replica, in the in-sync set, takes over.\<close>

definition left_context :: alloc_context where
  "left_context = sample_context (sample_nodes [''2'']) [(''i'', sample_index ''i'' 1 1 [(0, [''a'', ''b''])])]"

definition left_copies :: "shard_routing list" where
  "left_copies = [sample_copy 0 True Started (Some ''1'') (Some ''a''),
                  sample_copy 0 False Started (Some ''2'') (Some ''b'')]"

theorem only_in_sync_promoted_witness:
  "\<exists>c0 \<in> set left_copies. sr_node c0 = Some ''2'' \<and> sr_allocation_id c0 = Some ''b''
     \<and> (sr_primary c0 \<or> active_state (sr_state c0)
         \<and> (\<exists>a. Some ''b'' = Some a
              \<and> (case in_sync_of left_context ''i'' 0 of None \<Rightarrow> True | Some s \<Rightarrow> a \<in> set s)))"
proof -
  obtain cs ch where l: "leave_shard left_context ''i'' 0 (left_copies, changes_default) = (cs, ch)"
    by (cases "leave_shard left_context ''i'' 0 (left_copies, changes_default)")
  have "hd (fst (leave_shard left_context ''i'' 0 (left_copies, changes_default)))
      = sample_copy 0 True Started (Some ''2'') (Some ''b'')
    \<and> fst (leave_shard left_context ''i'' 0 (left_copies, changes_default)) \<noteq> []"
    by code_simp
  with l have "sample_copy 0 True Started (Some ''2'') (Some ''b'') \<in> set cs" by (metis fst_conv list.set_sel(1))
  from only_in_sync_promoted [OF l this] show ?thesis by (simp add: sample_copy_def)
qed

section \<open>A lost primary\<close>

lemma copies_at_set:
  assumes "rt_copies t name shard \<noteq> None"
  shows "copies_at (rt_set_copies name shard cs t) name shard = cs"
  using assms by (auto simp: copies_at_def rt_set_copies_def rt_copies_def bm_insert_get split: option.splits)

text \<open>
  A primary that was lost (neither new nor forced) is put back only on a data node that still holds
  the data of an in-sync copy of the shard and that the deciders say yes to; otherwise it stays
  unassigned.
\<close>

theorem lost_primary_only_in_sync:
  assumes "place_one ctx (name, shard, i) (t, ch, k) = (t', ch', k')"
    and "i < length (copies_at t name shard)" and "sr_primary (copies_at t name shard ! i)"
    and "sr_state (copies_at t name shard ! i) = Unassigned"
    and "unassigned_reason (copies_at t name shard ! i) \<noteq> ''INDEX_CREATED''"
    and "unassigned_reason (copies_at t name shard ! i) \<noteq> ''FORCED_EMPTY_PRIMARY''"
  shows "sr_state (copies_at t' name shard ! i) = Unassigned
    \<or> (\<exists>n \<in> set (cx_data_nodes ctx). sr_node (copies_at t' name shard ! i) = Some (dn_id n)
        \<and> sr_state (copies_at t' name shard ! i) = Initializing
        \<and> holds_in_sync ctx name shard (dn_id n)
        \<and> overall (can_allocate ctx t (copies_at t name shard ! i) n) = Yes)"
proof -
  let ?copy = "copies_at t name shard ! i"
  have "rt_copies t name shard \<noteq> None" using assms(2) by (auto simp: copies_at_def split: option.splits)
  note at = copies_at_set [OF this]
  from assms have p: "place_lost_primary ctx name shard i ?copy (t, ch, k) = (t', ch', k')"
    by (simp add: place_one_def Let_def)
  show ?thesis
  proof (cases "keeper ctx t name shard ?copy")
    case None
    with p have "t' = rt_set_copies name shard (update_at i (set_status ''no_valid_shard_copy'') (copies_at t name shard)) t"
      by (simp add: place_lost_primary_def Let_def)
    with assms(2, 4) show ?thesis by (simp add: at update_at_nth set_status_def)
  next
    case (Some n)
    with p have "t' = rt_set_copies name shard
        (update_at i (assign_copy (dn_id n) (cx_rand ctx k)) (copies_at t name shard)) t"
      by (simp add: place_lost_primary_def Let_def)
    moreover from Some have "n \<in> set (cx_data_nodes ctx)" "holds_in_sync ctx name shard (dn_id n)"
      "overall (can_allocate ctx t ?copy n) = Yes"
      by (auto simp: keeper_def dest: find_first_Some)
    ultimately show ?thesis
      using assms(2) by (intro disjI2 bexI [of _ n]) (auto simp: at update_at_nth assign_copy_def clear_delayed_def)
  qed
qed

definition lost_context :: alloc_context where
  "lost_context =
     (sample_context (sample_nodes [''2'', ''3'']) [(''i'', sample_index ''i'' 1 0 [(0, [''b''])])])
       \<lparr>cx_held := [(''3'', [(''i'', ''u'', ''b'')])]\<rparr>"

definition lost_table :: routing_table where
  "lost_table =
     [(''i'', [(0, [unassign_copy (mk_unassigned_info ''NODE_LEFT'' 0 ''no_attempt'' 0)
                      (sample_copy 0 True Started (Some ''1'') (Some ''b''))])])]"

lemma lost_placed:
  "sr_node (copies_at (fst (place_one lost_context (''i'', 0, 0) (lost_table, changes_default, 0))) ''i'' 0 ! 0) = Some ''3''"
  "sr_state (copies_at (fst (place_one lost_context (''i'', 0, 0) (lost_table, changes_default, 0))) ''i'' 0 ! 0) = Initializing"
  "copies_at lost_table ''i'' 0 = [unassign_copy (mk_unassigned_info ''NODE_LEFT'' 0 ''no_attempt'' 0)
      (sample_copy 0 True Started (Some ''1'') (Some ''b''))]"
  by code_simp+

theorem lost_primary_only_in_sync_witness: "holds_in_sync lost_context ''i'' 0 ''3''"
proof -
  obtain t ch k where p: "place_one lost_context (''i'', 0, 0) (lost_table, changes_default, 0) = (t, ch, k)"
    by (cases "place_one lost_context (''i'', 0, 0) (lost_table, changes_default, 0)")
  from lost_primary_only_in_sync [OF p] lost_placed p show ?thesis
    by (auto simp: unassign_copy_def unassigned_reason_def mk_unassigned_info_def sample_copy_def)
qed

section \<open>Copies that start and fail\<close>

lemma nth_in_remove_at: "j \<noteq> i \<Longrightarrow> j < length xs \<Longrightarrow> xs ! j \<in> set (remove_at i xs)"
proof (cases "j < i")
  case True
  assume "j < length xs"
  with True have "xs ! j = take i xs ! j" "j < length (take i xs)" by simp_all
  then show ?thesis unfolding remove_at_def by (metis UnCI nth_mem set_append)
next
  case False
  assume "j \<noteq> i" "j < length xs"
  with False have "xs ! j = drop (Suc i) xs ! (j - Suc i)" "j - Suc i < length (drop (Suc i) xs)" by simp_all
  then show ?thesis unfolding remove_at_def by (metis UnCI nth_mem set_append)
qed

lemma length_remove_at: "i < length xs \<Longrightarrow> length (remove_at i xs) = length xs - 1"
  by (simp add: remove_at_def)

definition as_started :: "shard_routing \<Rightarrow> shard_routing" where
  "as_started c = c\<lparr>sr_state := Started, sr_relocating_node := None, sr_unassigned := None\<rparr>"

lemma started_copies_spec:
  assumes "pos < length cs" and "started_copies pos cs = (cs', ret)"
  shows "as_started (cs ! pos) \<in> set cs' \<and>
    (case ret of
       None \<Rightarrow> True
     | Some a \<Rightarrow> length cs' = length cs - 1
         \<and> (\<exists>src \<in> set cs. sr_allocation_id src = Some a \<and> sr_state src = Relocating
              \<and> sr_node src = sr_relocating_node (cs ! pos)))"
proof -
  define cs1 where "cs1 = update_at pos as_started cs"
  have at: "cs1 ! pos = as_started (cs ! pos)" "pos < length cs1" "length cs1 = length cs"
    using assms(1) by (simp_all add: cs1_def update_at_nth)
  have f: "(\<lambda>c. c\<lparr>sr_state := Started, sr_relocating_node := None, sr_unassigned := None\<rparr>) = as_started"
    by (simp add: as_started_def fun_eq_iff)
  have kept: "as_started (cs ! pos) \<in> set cs1" using at by (metis nth_mem)
  show ?thesis
  proof (cases "sr_relocating_node (cs ! pos)")
    case None
    with assms(2) kept show ?thesis by (auto simp: started_copies_def f cs1_def)
  next
    case (Some src)
    note src = Some
    show ?thesis
    proof (cases "position (\<lambda>c. sr_state c = Relocating \<and> sr_node c = Some src) cs1")
      case None
      with src assms(2) kept show ?thesis by (auto simp: started_copies_def f cs1_def)
    next
      case (Some sp)
      from position_Some [OF Some] have sp: "sp < length cs1" "sr_state (cs1 ! sp) = Relocating"
        "sr_node (cs1 ! sp) = Some src" by auto
      with at have ne: "sp \<noteq> pos" by (auto simp: as_started_def)
      then have same: "cs1 ! sp = cs ! sp" using sp(1) at(3) by (simp add: cs1_def update_at_nth)
      have r: "cs' = remove_at sp cs1" "ret = sr_allocation_id (cs1 ! sp)"
        using Some src assms(2) by (auto simp: started_copies_def f cs1_def Let_def)
      moreover have "as_started (cs ! pos) \<in> set (remove_at sp cs1)"
        using nth_in_remove_at [of pos sp cs1] ne at by auto
      moreover have "cs ! sp \<in> set cs" using sp(1) at(3) by simp
      ultimately show ?thesis
        using sp same src at(3) by (auto simp: length_remove_at split: option.splits)
    qed
  qed
qed

lemma rt_set_copies_other:
  "(i, s) \<noteq> (index, shard) \<Longrightarrow> rt_copies (rt_set_copies index shard cs t) i s = rt_copies t i s"
  by (auto simp: rt_set_copies_def rt_copies_def bm_insert_get split: option.splits)

text \<open>
  A report that a copy started is taken once, and only for a copy that is being filled: then the
  copy is started where it is, the primaries come first, no other shard changes, and when the copy was
  the target of a move, the source leaves the table and its allocation is retired.
\<close>

theorem started_takes_over:
  assumes "shard_started t index shard aid = (t', Some st)"
  shows "\<exists>c. c \<in> set (copies_at t index shard) \<and> sr_allocation_id c = Some aid \<and> sr_state c = Initializing
    \<and> as_started c \<in> set (copies_at t' index shard)
    \<and> (\<exists>ps rs. copies_at t' index shard = ps @ rs \<and> (\<forall>p \<in> set ps. sr_primary p) \<and> (\<forall>r \<in> set rs. \<not> sr_primary r))
    \<and> (\<forall>i s. (i, s) \<noteq> (index, shard) \<longrightarrow> rt_copies t' i s = rt_copies t i s)
    \<and> (case sd_retired st of
         None \<Rightarrow> True
       | Some a \<Rightarrow> length (copies_at t' index shard) = length (copies_at t index shard) - 1
           \<and> (\<exists>src \<in> set (copies_at t index shard). sr_allocation_id src = Some a \<and> sr_state src = Relocating
                \<and> sr_node src = sr_relocating_node c))"
proof -
  from assms obtain cs pos where cs: "rt_copies t index shard = Some cs"
      and pos: "position (\<lambda>c. sr_allocation_id c = Some aid) cs = Some pos"
      and init: "sr_state (cs ! pos) = Initializing"
    by (auto simp: shard_started_def split: option.splits if_splits)
  obtain cs' ret where st: "started_copies pos cs = (cs', ret)" by (cases "started_copies pos cs")
  from assms cs pos init st have t': "t' = rt_set_copies index shard (primaries_first cs') t"
      and ret: "sd_retired st = ret"
    by (auto simp: shard_started_def Let_def)
  from position_Some [OF pos] have p: "pos < length cs" "sr_allocation_id (cs ! pos) = Some aid" by auto
  have at: "copies_at t index shard = cs" by (simp add: copies_at_def cs)
  have at': "copies_at t' index shard = primaries_first cs'" unfolding t' by (rule copies_at_set) (simp add: cs)
  have len: "length (primaries_first cs') = length cs'"
    by (simp add: primaries_first_def sum_length_filter_compl)
  have set: "set (primaries_first cs') = set cs'" by (auto simp: primaries_first_def)
  note spec = started_copies_spec [OF p(1) st]
  show ?thesis
    unfolding at at' len set ret
  proof (intro exI [of _ "cs ! pos"] conjI)
    show "\<exists>ps rs. primaries_first cs' = ps @ rs \<and> (\<forall>p \<in> set ps. sr_primary p) \<and> (\<forall>r \<in> set rs. \<not> sr_primary r)"
      unfolding primaries_first_def by (intro exI conjI) auto
    show "\<forall>i s. (i, s) \<noteq> (index, shard) \<longrightarrow> rt_copies t' i s = rt_copies t i s"
      unfolding t' using rt_set_copies_other by blast
  qed (use p init spec in \<open>simp_all add: nth_mem\<close>)
qed

definition moving_table :: routing_table where
  "moving_table =
     [(''i'', [(0, [sample_copy 0 True Started (Some ''1'') (Some ''a''),
                    (sample_copy 0 False Relocating (Some ''2'') (Some ''b''))\<lparr>sr_relocating_node := Some ''3''\<rparr>,
                    (sample_copy 0 False Initializing (Some ''3'') (Some ''c''))\<lparr>sr_relocating_node := Some ''2''\<rparr>])])]"

lemma moving_started: "map_option sd_retired (snd (shard_started moving_table ''i'' 0 ''c'')) = Some (Some ''b'')"
  by code_simp

theorem started_takes_over_witness:
  "length (copies_at (fst (shard_started moving_table ''i'' 0 ''c'')) ''i'' 0) = length (copies_at moving_table ''i'' 0) - 1"
proof -
  from moving_started obtain t st where s: "shard_started moving_table ''i'' 0 ''c'' = (t, Some st)"
      and "sd_retired st = Some ''b''"
    by (cases "shard_started moving_table ''i'' 0 ''c''") auto
  with started_takes_over [OF s] show ?thesis by auto
qed

text \<open>The copy an allocation id names, when ids are not shared.\<close>

definition unshared :: "string \<Rightarrow> shard_routing list \<Rightarrow> bool" where
  "unshared aid cs = (\<forall>i < length cs. \<forall>j < length cs.
     sr_allocation_id (cs ! i) = Some aid \<and> sr_allocation_id (cs ! j) = Some aid \<longrightarrow> i = j)"

lemma unshared_distinct:
  assumes "distinct (map sr_allocation_id cs)"
  shows "unshared aid cs"
  unfolding unshared_def
proof (intro allI impI)
  fix i j
  assume "i < length cs" "j < length cs"
    and "sr_allocation_id (cs ! i) = Some aid \<and> sr_allocation_id (cs ! j) = Some aid"
  with nth_eq_iff_index_eq [OF assms, of i j] show "i = j" by simp
qed

lemma restart_source_ids: "map sr_allocation_id (restart_source src cs) = map sr_allocation_id cs"
  by (auto simp: restart_source_def update_at_def map_update split: option.splits)
    (metis list_update_id map_update nth_map position_lt)

lemma in_remove_at:
  assumes "x \<in> set (remove_at i xs)"
  shows "\<exists>j < length xs. j \<noteq> i \<and> x = xs ! j"
  using assms
proof (cases "x \<in> set (take i xs)")
  case True
  then obtain j where "j < length (take i xs)" "x = take i xs ! j" by (auto simp: in_set_conv_nth)
  then show ?thesis by (auto intro!: exI [of _ j])
next
  case False
  with assms have "x \<in> set (drop (Suc i) xs)" by (simp add: remove_at_def)
  then obtain j where "j < length (drop (Suc i) xs)" "x = drop (Suc i) xs ! j" by (auto simp: in_set_conv_nth)
  then show ?thesis by (auto intro!: exI [of _ "Suc i + j"])
qed

text \<open>
  A copy reported failed leaves its node: no copy of the shard carries its allocation id any more.
  The target of a move is dropped; any other copy stays in the table, unassigned and with one more
  failure counted.  No other shard changes.
\<close>

theorem failed_copy_leaves:
  assumes "shard_failed t index shard aid now message = (t', True)" and "unshared aid (copies_at t index shard)"
  shows "(\<forall>c \<in> set (copies_at t' index shard). sr_allocation_id c \<noteq> Some aid)
    \<and> (\<forall>i s. (i, s) \<noteq> (index, shard) \<longrightarrow> rt_copies t' i s = rt_copies t i s)
    \<and> (\<exists>c \<in> set (copies_at t index shard). sr_allocation_id c = Some aid
        \<and> (if sr_state c = Initializing \<and> sr_relocating_node c \<noteq> None
           then length (copies_at t' index shard) = length (copies_at t index shard) - 1
           else \<exists>c' \<in> set (copies_at t' index shard). sr_state c' = Unassigned \<and> sr_node c' = None
             \<and> sr_primary c' = sr_primary c \<and> failed_allocations_of c' = failed_allocations_of c + 1))"
proof -
  from assms(1) obtain cs pos where cs: "rt_copies t index shard = Some cs"
      and pos: "position (\<lambda>c. sr_allocation_id c = Some aid) cs = Some pos"
    by (auto simp: shard_failed_def split: option.splits)
  let ?c = "cs ! pos"
  from position_Some [OF pos] have p: "pos < length cs" "sr_allocation_id ?c = Some aid" by auto
  have at: "copies_at t index shard = cs" by (simp add: copies_at_def cs)
  define info where "info = (mk_unassigned_info ''ALLOCATION_FAILED'' now ''no_attempt'' (failed_allocations_of ?c + 1))
      \<lparr>ui_details := Some (''failed shard on node: '' @ message)\<rparr>"
  define cs' where "cs' = (if sr_state ?c = Initializing \<and> sr_relocating_node ?c \<noteq> None
      then restart_source (sr_relocating_node ?c) (remove_at pos cs) else cs[pos := unassign_copy info ?c])"
  have t': "t' = rt_set_copies index shard cs' t"
    using assms(1) cs pos by (auto simp: shard_failed_def Let_def cs'_def info_def split: if_splits)
  have at': "copies_at t' index shard = cs'" unfolding t' by (rule copies_at_set) (simp add: cs)
  have other: "sr_allocation_id (cs ! j) \<noteq> Some aid" if "j < length cs" "j \<noteq> pos" for j
    using assms(2) that p by (auto simp: at unshared_def)
  have gone: "sr_allocation_id c \<noteq> Some aid" if "c \<in> set cs'" for c
  proof (cases "sr_state ?c = Initializing \<and> sr_relocating_node ?c \<noteq> None")
    case True
    with that have "sr_allocation_id c \<in> set (map sr_allocation_id (restart_source (sr_relocating_node ?c) (remove_at pos cs)))"
      by (simp add: cs'_def)
    then have "sr_allocation_id c \<in> set (map sr_allocation_id (remove_at pos cs))" unfolding restart_source_ids .
    then obtain x where "x \<in> set (remove_at pos cs)" "sr_allocation_id c = sr_allocation_id x" by auto
    with in_remove_at [OF this(1)] other show ?thesis by auto
  next
    case False
    with that obtain j where "j < length cs" "c = cs[pos := unassign_copy info ?c] ! j"
      by (auto simp: cs'_def in_set_conv_nth)
    then show ?thesis using other [of j] p by (cases "j = pos") (auto simp: unassign_copy_def)
  qed
  have len: "length (restart_source src xs) = length xs" for src xs
    by (metis length_map restart_source_ids)
  have "if sr_state ?c = Initializing \<and> sr_relocating_node ?c \<noteq> None then length cs' = length cs - 1
     else \<exists>c' \<in> set cs'. sr_state c' = Unassigned \<and> sr_node c' = None \<and> sr_primary c' = sr_primary ?c
       \<and> failed_allocations_of c' = failed_allocations_of ?c + 1"
  proof (cases "sr_state ?c = Initializing \<and> sr_relocating_node ?c \<noteq> None")
    case True
    then show ?thesis using p(1) by (simp add: cs'_def len length_remove_at)
  next
    case False
    have "unassign_copy info ?c \<in> set (cs[pos := unassign_copy info ?c])" using p(1) by (rule set_update_memI)
    moreover have "sr_state (unassign_copy info ?c) = Unassigned" "sr_node (unassign_copy info ?c) = None"
        "sr_primary (unassign_copy info ?c) = sr_primary ?c"
        "failed_allocations_of (unassign_copy info ?c) = failed_allocations_of ?c + 1"
      by (simp_all add: unassign_copy_def info_def mk_unassigned_info_def failed_allocations_of_def)
    ultimately show ?thesis unfolding cs'_def if_not_P [OF False] by blast
  qed
  moreover have "?c \<in> set cs" using p(1) by simp
  moreover have "\<forall>i s. (i, s) \<noteq> (index, shard) \<longrightarrow> rt_copies t' i s = rt_copies t i s"
    unfolding t' using rt_set_copies_other by blast
  ultimately show ?thesis unfolding at at' using gone p(2) by blast
qed

theorem failed_copy_leaves_witness:
  "length (copies_at (fst (shard_failed moving_table ''i'' 0 ''c'' 5 ''disk'')) ''i'' 0) = 2"
proof -
  have f: "snd (shard_failed moving_table ''i'' 0 ''c'' 5 ''disk'')" by code_simp
  have c: "length (copies_at moving_table ''i'' 0) = 3"
    "map sr_allocation_id (copies_at moving_table ''i'' 0) = [Some ''a'', Some ''b'', Some ''c'']"
    "list_all (\<lambda>c. sr_allocation_id c = Some ''c'' \<longrightarrow> sr_state c = Initializing \<and> sr_relocating_node c \<noteq> None)
       (copies_at moving_table ''i'' 0)"
    by (simp_all add: moving_table_def copies_at_def rt_copies_def bm_get_def sample_copy_def)
  have u: "unshared ''c'' (copies_at moving_table ''i'' 0)"
    by (rule unshared_distinct) (simp add: c del: map_map)
  obtain t' where s: "shard_failed moving_table ''i'' 0 ''c'' 5 ''disk'' = (t', True)"
    using f by (cases "shard_failed moving_table ''i'' 0 ''c'' 5 ''disk''") auto
  from failed_copy_leaves [OF s u] c s show ?thesis by (auto simp: list_all_iff split: if_splits)
qed

section \<open>Every shard where the first one is\<close>

definition stand :: "shard_routing \<Rightarrow> node_id option \<times> shard_state \<times> bool" where
  "stand c = (sr_node c, sr_state c, sr_primary c)"

lemma follow_copies_stand:
  assumes "follow_copies ctx name shard models (cs, ch, k) = (cs', ch', k')"
  shows "length cs' = length cs \<and> take (length models) (map stand cs') = take (length cs) (map stand models)"
  using assms
proof (induction models arbitrary: cs ch k cs' ch' k')
  case Nil
  then show ?case by simp
next
  case (Cons model models)
  show ?case
  proof (cases cs)
    case Nil
    with Cons.prems show ?thesis by simp
  next
    case (Cons c cs1)
    obtain c1 ch1 k1 where one: "follow_copy ctx name shard model (c, ch, k) = (c1, ch1, k1)"
      by (cases "follow_copy ctx name shard model (c, ch, k)")
    obtain cs2 ch2 k2 where two: "follow_copies ctx name shard models (cs1, ch1, k1) = (cs2, ch2, k2)"
      by (cases "follow_copies ctx name shard models (cs1, ch1, k1)")
    have "stand c1 = stand model"
      using one by (auto simp: follow_copy_def stand_def Let_def split: if_splits option.splits)
    moreover have "cs' = c1 # cs2" using Cons.prems Cons one two by simp
    ultimately show ?thesis using Cons.IH [OF two] Cons by simp
  qed
qed

lemma gain_copies_stand: "map stand (fst (gain_copies ctx name shard models k)) = map stand models"
  by (induction models arbitrary: k) (simp_all add: Let_def mk_copy_def stand_def case_prod_unfold)

lemma follow_shard_stand:
  assumes "shard \<noteq> 0"
  shows "map stand (fst (follow_shard ctx name first shard (cs, ch, k))) = map stand first"
proof -
  obtain cs1 ch1 k1 where one: "follow_copies ctx name shard first (cs, ch, k) = (cs1, ch1, k1)"
    by (cases "follow_copies ctx name shard first (cs, ch, k)")
  obtain more k2 where two: "gain_copies ctx name shard (drop (length cs1) first) k1 = (more, k2)"
    by (cases "gain_copies ctx name shard (drop (length cs1) first) k1")
  have m: "map stand more = map stand (drop (length cs1) first)"
    using gain_copies_stand [of ctx name shard "drop (length cs1) first" k1] two by simp
  have f: "length cs1 = length cs" "take (length first) (map stand cs1) = take (length cs) (map stand first)"
    using follow_copies_stand [OF one] by auto
  have r: "fst (follow_shard ctx name first shard (cs, ch, k)) = take (length first) (cs1 @ more)"
    using assms one two by (simp add: follow_shard_def)
  have "map stand (take (length first) (cs1 @ more))
      = take (length first) (map stand cs1) @ take (length first - length cs1) (map stand more)"
    by (simp add: take_map)
  also have "\<dots> = take (length cs1) (map stand first) @ drop (length cs1) (map stand first)"
    by (simp add: f m flip: f(1)) (simp add: f(2) flip: drop_map)
  finally show ?thesis by (simp add: r)
qed

lemma over_shards_get:
  "\<exists>s'. bm_get (fst (over_shards f (m, s))) n = map_option (\<lambda>cs. fst (f n (cs, s'))) (bm_get m n)"
proof (induction m arbitrary: s)
  case Nil
  then show ?case by simp
next
  case (Cons e m)
  obtain a cs where e: "e = (a, cs)" by (cases e)
  obtain cs1 s1 where one: "f a (cs, s) = (cs1, s1)" by (cases "f a (cs, s)")
  obtain m2 s2 where two: "over_shards f (m, s1) = (m2, s2)" by (cases "over_shards f (m, s1)")
  from Cons [of s1] two e one show ?case by (auto simp: bm_get_def intro: exI [of _ s])
qed

lemma over_indices_get:
  "\<exists>s'. bm_get (fst (over_indices f (m, s))) n = map_option (\<lambda>sh. fst (f n (sh, s'))) (bm_get m n)"
proof (induction m arbitrary: s)
  case Nil
  then show ?case by simp
next
  case (Cons e m)
  obtain a sh where e: "e = (a, sh)" by (cases e)
  obtain sh1 s1 where one: "f a (sh, s) = (sh1, s1)" by (cases "f a (sh, s)")
  obtain m2 s2 where two: "over_indices f (m, s1) = (m2, s2)" by (cases "over_indices f (m, s1)")
  from Cons [of s1] two e one show ?case by (auto simp: bm_get_def intro: exI [of _ s])
qed

text \<open>
  \<^bold>\<open>C37.\<close>  After \<^verbatim>\<open>reroute\<close> the copies of every shard of an index stand where those of its first shard do: on
  the same nodes, in the same states, the same one the primary.
\<close>

theorem reroute_colocates:
  assumes "reroute ctx table k = (t, ch, k')" and "rt_copies t name 0 = Some first"
    and "rt_copies t name shard = Some cs"
  shows "map stand cs = map stand first"
proof -
  obtain t0 s0 where "reroute_follow ctx (t0, s0) = (t, ch, k')"
    using assms(1) by (auto simp: reroute_def Let_def split: prod.splits) (metis surj_pair)
  then have t: "t = fst (over_indices (follow_index ctx) (t0, s0))" by (simp add: reroute_follow_def)
  obtain s1 where s1: "bm_get t name = map_option (\<lambda>sh. fst (follow_index ctx name (sh, s1))) (bm_get t0 name)"
    using over_indices_get [of "follow_index ctx" t0 s0 name] t by auto
  obtain sh' where sh': "bm_get t name = Some sh'" "bm_get sh' 0 = Some first" "bm_get sh' shard = Some cs"
    using assms(2, 3) by (auto simp: rt_copies_def split: option.splits)
  with s1 obtain sh where sh: "sh' = fst (follow_index ctx name (sh, s1))"
    by (cases "bm_get t0 name") auto
  show ?thesis
  proof (cases "bm_get sh 0")
    case None
    with sh sh'(2) show ?thesis by (simp add: follow_index_def)
  next
    case (Some f0)
    let ?f = "follow_shard ctx name f0"
    have o: "sh' = fst (over_shards ?f (sh, s1))" using sh Some by (simp add: follow_index_def)
    obtain s2 s3 where g: "bm_get sh' 0 = map_option (\<lambda>cs. fst (?f 0 (cs, s2))) (bm_get sh 0)"
        "bm_get sh' shard = map_option (\<lambda>cs. fst (?f shard (cs, s3))) (bm_get sh shard)"
      using over_shards_get [of ?f sh s1] o by blast
    have first: "first = f0" using g(1) sh'(2) Some by (simp add: follow_shard_def)
    show ?thesis
    proof (cases "shard = 0")
      case True
      with sh' show ?thesis by simp
    next
      case False
      obtain c3 k3 where "s3 = (c3, k3)" by (cases s3)
      with g(2) sh'(3) first follow_shard_stand [OF False] show ?thesis by (cases "bm_get sh shard") auto
    qed
  qed
qed

definition pair_context :: alloc_context where
  "pair_context = sample_context (sample_nodes [''1'', ''2'']) [(''i'', sample_index ''i'' 2 1 [])]"

lemma pair_placed:
  "map_option length (rt_copies (fst (reroute pair_context [] 0)) ''i'' 0) = Some 2"
  "map_option length (rt_copies (fst (reroute pair_context [] 0)) ''i'' 1) = Some 2"
  by code_simp+

theorem reroute_colocates_witness:
  "\<exists>t first cs. fst (reroute pair_context [] 0) = t \<and> rt_copies t ''i'' 0 = Some first
     \<and> rt_copies t ''i'' 1 = Some cs \<and> length cs = 2 \<and> map stand cs = map stand first"
proof -
  obtain t ch k where r: "reroute pair_context [] 0 = (t, ch, k)" by (cases "reroute pair_context [] 0")
  with pair_placed obtain first cs where c: "rt_copies t ''i'' 0 = Some first" "rt_copies t ''i'' 1 = Some cs"
      "length cs = 2" by auto
  from reroute_colocates [OF r c(1, 2)] r c show ?thesis by auto
qed

section \<open>A gap\<close>

definition moving_context :: alloc_context where
  "moving_context = sample_context (sample_nodes [''1'', ''2'', ''3'']) [(''i'', sample_index ''i'' 1 1 [(0, [''a'', ''b''])])]"

text \<open>
  A replica that is moving loses its target.  The first pass counts the target of a replica's move among the replicas, so the next \<^verbatim>\<open>reroute\<close> drops
  it: the source is left moving to a node that has no copy, and the report of the copy being filled
  there is not taken any more.
\<close>

theorem moving_replica_loses_target:
  "map (\<lambda>c. (sr_allocation_id c, sr_state c, sr_node c, sr_relocating_node c))
     (copies_at (fst (reroute moving_context moving_table 0)) ''i'' 0)
     = [(Some ''a'', Started, Some ''1'', None), (Some ''b'', Relocating, Some ''2'', Some ''3'')]
   \<and> snd (shard_started (fst (reroute moving_context moving_table 0)) ''i'' 0 ''c'') = None"
  by code_simp

end
