(* ===== verification/Wildcards.thy ===== *)
theory Wildcards
  imports Allocation_Settings
begin

text \<open>
  \<^verbatim>\<open>glob_match\<close> splits the pattern and looks for each part where it first occurs, never going back.  It
  is compared with the definition of a wildcard, a star standing for any text, which tries every text.
\<close>

fun wild :: "string \<Rightarrow> string \<Rightarrow> bool" where
  "wild [] s = (s = [])"
| "wild (p # ps) s =
     (if p = CHR ''*'' then (\<exists>i \<in> set [0..<length s + 1]. wild ps (drop i s))
      else (case s of [] \<Rightarrow> False | c # s' \<Rightarrow> c = p \<and> wild ps s'))"

text \<open>The parts of a pattern one after the other, any text before each.\<close>

fun spread :: "string list \<Rightarrow> string \<Rightarrow> bool" where
  "spread [] s = (s = [])"
| "spread (p # ps) s = (\<exists>g r. s = g @ p @ r \<and> spread ps r)"

lemma wild_star: "wild (CHR ''*'' # ps) s = (\<exists>g r. s = g @ r \<and> wild ps r)"
proof
  assume "wild (CHR ''*'' # ps) s"
  then obtain i where "wild ps (drop i s)" by (auto intro: that [of "length s"])
  then show "\<exists>g r. s = g @ r \<and> wild ps r" by (intro exI [of _ "take i s"] exI [of _ "drop i s"]) simp
next
  assume "\<exists>g r. s = g @ r \<and> wild ps r"
  then obtain g r where "s = g @ r" "wild ps r" by blast
  then show "wild (CHR ''*'' # ps) s" by (auto intro!: bexI [of _ "length g"])
qed

lemma wild_literal: "CHR ''*'' \<notin> set xs \<Longrightarrow> wild (xs @ ps) s = (\<exists>r. s = xs @ r \<and> wild ps r)"
  by (induction xs arbitrary: s) (auto split: list.splits)

lemma wild_parts:
  "\<forall>p \<in> set parts. CHR ''*'' \<notin> set p \<Longrightarrow>
   wild (concat (map (\<lambda>p. CHR ''*'' # p) parts)) s = spread parts s"
proof (induction parts arbitrary: s)
  case Nil
  then show ?case by simp
next
  case (Cons p parts)
  then show ?case by (simp del: wild.simps(2) add: wild_star wild_literal) blast
qed

lemma split_on_concat:
  "split_on c s = first # parts \<Longrightarrow> s = first @ concat (map (\<lambda>p. c # p) parts)"
proof (induction s arbitrary: first parts)
  case Nil
  then show ?case by simp
next
  case (Cons x xs)
  obtain p ps where ps: "split_on c xs = p # ps" using split_on_nonempty by (cases "split_on c xs") auto
  from Cons.prems ps have "x = c \<and> first = [] \<and> parts = p # ps \<or> first = x # p \<and> parts = ps"
    by (auto split: if_splits)
  with Cons.IH [OF ps] show ?case by auto
qed

lemma starts_with_iff: "starts_with p s = (\<exists>r. s = p @ r)"
  by (auto simp: starts_with_def) (metis append_take_drop_id)+

declare find_sub.simps [simp del]

lemma find_sub_cases:
  "starts_with p s \<Longrightarrow> find_sub p s = Some 0"
  "\<not> starts_with p [] \<Longrightarrow> find_sub p [] = None"
  "\<not> starts_with p (c # s) \<Longrightarrow> find_sub p (c # s) = map_option Suc (find_sub p s)"
  by (subst find_sub.simps, simp)+

lemma find_sub_None: "find_sub p s = None \<Longrightarrow> s \<noteq> g @ p @ r"
proof (induction s arbitrary: g)
  case Nil
  then show ?case using find_sub_cases(1) [of p "[]"] by (auto simp: starts_with_iff)
next
  case (Cons c s)
  have n: "\<not> starts_with p (c # s)" using Cons.prems find_sub_cases(1) [of p "c # s"] by auto
  with Cons have "s \<noteq> g' @ p @ r" for g' by (simp add: find_sub_cases(3))
  with n show ?case by (cases g) (auto simp: starts_with_iff)
qed

lemma find_sub_Some:
  "find_sub p s = Some i \<Longrightarrow>
   \<exists>g r. s = g @ p @ r \<and> length g = i \<and> (\<forall>g' r'. s = g' @ p @ r' \<longrightarrow> i \<le> length g')"
proof (induction s arbitrary: i)
  case Nil
  then have "starts_with p []" "i = 0" using find_sub_cases(1, 2) [of p] by (cases "starts_with p []"; simp)+
  then show ?case by (auto simp: starts_with_iff)
next
  case (Cons c s)
  show ?case
  proof (cases "starts_with p (c # s)")
    case True
    then obtain r where "c # s = p @ r" by (auto simp: starts_with_iff)
    with True Cons.prems show ?thesis
      by (intro exI [of _ "[]"] exI [of _ r]) (simp add: find_sub_cases(1))
  next
    case False
    with Cons.prems obtain k where k: "find_sub p s = Some k" "i = Suc k" by (auto simp: find_sub_cases(3))
    from Cons.IH [OF k(1)] obtain g r where g: "s = g @ p @ r" "length g = k"
        "\<And>g' r'. s = g' @ p @ r' \<Longrightarrow> k \<le> length g'" by blast
    have "i \<le> length g'" if "c # s = g' @ p @ r'" for g' r'
    proof (cases g')
      case Nil
      with that False show ?thesis by (auto simp: starts_with_iff)
    next
      case (Cons a g1)
      with that have "s = g1 @ p @ r'" by simp
      from g(3) [OF this] k Cons show ?thesis by simp
    qed
    with g k show ?thesis by (intro exI [of _ "c # g"] exI [of _ r]) auto
  qed
qed

lemma later_match:
  assumes "g @ p @ r = g' @ p @ r'" and "length g \<le> length g'"
  shows "\<exists>y. r = y @ r'"
proof -
  define x where "x = drop (length g) g'"
  have "take (length g) g' = g"
    using arg_cong [OF assms(1), of "take (length g)"] assms(2) by simp
  then have "g' = g @ x" unfolding x_def by (metis append_take_drop_id)
  then have "p @ r = x @ p @ r'" using assms(1) by simp
  then have "r = drop (length p) (x @ p @ r')" by (metis append_eq_conv_conj)
  then show ?thesis by (auto simp: drop_append)
qed

lemma ends_with_iff: "ends_with p s = (\<exists>g. s = g @ p)"
proof
  assume "ends_with p s"
  then have "s = take (length s - length p) s @ p" unfolding ends_with_def by (metis append_take_drop_id)
  then show "\<exists>g. s = g @ p" by blast
qed (auto simp: ends_with_def)

lemma spread_longer: "parts \<noteq> [] \<Longrightarrow> spread parts r \<Longrightarrow> spread parts (x @ r)"
  by (cases parts) (auto, metis append.assoc)

lemma glob_parts_spread: "parts \<noteq> [] \<Longrightarrow> glob_parts parts s = spread parts s"
proof (induction parts s rule: glob_parts.induct)
  case (1 s)
  then show ?case by simp
next
  case (2 p parts s)
  consider "p = []" "parts = []" | "p = []" "parts \<noteq> []" | "p \<noteq> []" "parts = []" | "p \<noteq> []" "parts \<noteq> []" by blast
  then show ?case
  proof cases
    case 1
    then show ?thesis by auto
  next
    case 2
    with "2.IH"(1) have "glob_parts (p # parts) s = spread parts s" by simp
    moreover have "spread (p # parts) s = spread parts s"
      using 2 spread_longer [of parts] by auto
    ultimately show ?thesis by simp
  next
    case 3
    then show ?thesis by (simp add: ends_with_iff)
  next
    case 4
    show ?thesis
    proof (cases "find_sub p s")
      case None
      with 4 find_sub_None [OF None] show ?thesis by auto
    next
      case (Some i)
      from find_sub_Some [OF Some] obtain g r where g: "s = g @ p @ r" "length g = i"
          "\<And>g' r'. s = g' @ p @ r' \<Longrightarrow> i \<le> length g'" by blast
      have d: "drop (i + length p) s = r" using g by simp
      have "spread parts r" if s: "s = g' @ p @ r'" "spread parts r'" for g' r'
      proof -
        from later_match [of g p r g' r'] g(1, 2) s(1) g(3) [OF s(1)] obtain y where "r = y @ r'" by auto
        with spread_longer [OF 4(2) s(2)] show ?thesis by simp
      qed
      then have "spread (p # parts) s = spread parts r" using g(1) by auto
      with 4 Some d "2.IH"(2) show ?thesis by simp
    qed
  qed
qed

text \<open>
  \<^bold>\<open>C40.\<close> \<^verbatim>\<open>glob_match\<close> agrees with the definition of a wildcard on every pattern and every name: looking for
  each part where it first occurs misses no match.
\<close>

theorem glob_match_wild: "glob_match pattern name = wild pattern name"
proof -
  obtain first parts where sp: "split_on (CHR ''*'') pattern = first # parts"
    using split_on_nonempty by (cases "split_on (CHR ''*'') pattern") auto
  have clean: "CHR ''*'' \<notin> set p" if "p \<in> set (first # parts)" for p
    using that sp split_on_pieces by metis
  have pat: "pattern = first @ concat (map (\<lambda>p. CHR ''*'' # p) parts)" by (rule split_on_concat [OF sp])
  have w: "wild pattern name = (\<exists>r. name = first @ r \<and> spread parts r)"
    using clean by (subst pat) (simp add: wild_literal wild_parts)
  have "(CHR ''*'' \<notin> set pattern) = (parts = [])" using clean by (subst pat) (cases parts; simp)
  then show ?thesis
    unfolding w glob_match_def sp
    by (auto simp: Let_def starts_with_iff glob_parts_spread)
qed

end
