(* ===== verification/Simulation.thy ===== *)
theory Simulation
  imports Coordinator_State Complex_Main "HOL-Library.Multiset"
begin

text \<open>
  The simulation (\<^verbatim>\<open>src/src/cluster/sim.rs\<close>, \<^verbatim>\<open>clock.rs\<close>): a whole cluster in one thread, on a clock
  and a network that a seed drives.  The scheduler is over any logic: \<open>logic\<close> is the trait
  \<^verbatim>\<open>NodeLogic\<close> with its factory, and the type of what outlives the logic (\<^verbatim>\<open>Durable\<close>, with whatever
  the node reaches outside itself) is a parameter.  A call of the logic may not return, so an operation
  that makes one gives an \<open>option\<close>, which is also \<open>None\<close> where the code would panic.

  Times and counters are natural numbers: a millisecond counter does not reach \<open>2\<^sup>6\<^sup>3\<close>.  The drop
  rate is the rational number its floating-point value denotes.
\<close>

unbundle bit_operations_syntax

section \<open>Clocks\<close>

record manual_clock =
  mc_now :: millis
  mc_wall_offset :: millis

definition manual_new :: "millis \<Rightarrow> manual_clock" where
  "manual_new start = \<lparr>mc_now = start, mc_wall_offset = 1700000000000\<rparr>"

definition manual_advance :: "millis \<Rightarrow> manual_clock \<Rightarrow> manual_clock" where
  "manual_advance by' k = k\<lparr>mc_now := mc_now k + by'\<rparr>"

definition manual_set :: "millis \<Rightarrow> manual_clock \<Rightarrow> manual_clock" where
  "manual_set to k = k\<lparr>mc_now := to\<rparr>"

definition manual_wall :: "manual_clock \<Rightarrow> millis" where
  "manual_wall k = mc_wall_offset k + mc_now k"

text \<open>A node's clock is the simulation's, off by the node's skew and never below zero.\<close>

record clock_view =
  cv_now :: millis
  cv_wall :: millis

definition skewed :: "int \<Rightarrow> manual_clock \<Rightarrow> clock_view" where
  "skewed skew k =
     \<lparr>cv_now = nat (max (int (mc_now k) + skew) 0), cv_wall = nat (max (int (manual_wall k) + skew) 0)\<rparr>"

section \<open>Chance\<close>

text \<open>The top 53 bits over \<open>2\<^sup>5\<^sup>3\<close>: both conversions and the division are exact in an \<^verbatim>\<open>f64\<close>.\<close>

definition rng_chance :: "rat \<Rightarrow> rng \<Rightarrow> bool \<times> rng" where
  "rng_chance p r =
     (let (x, r) = rng_next_u64 r in (of_nat (unat (drop_bit 11 x)) / 2 ^ 53 \<le> p, r))"

section \<open>The queue of events\<close>

datatype what =
    WDeliver node_id "body envelope"
  | WTimer node_id nat nat
  | WCrash node_id
  | WRestart node_id
  | WHeal

record event =
  e_at :: millis
  e_seq :: nat
  e_what :: what

text \<open>The order of the heap: earliest first, then in the order of pushing.\<close>

definition event_key :: "event \<Rightarrow> millis \<times> nat" where
  "event_key e = (e_at e, e_seq e)"

text \<open>What the scheduler relies on of the heap.\<close>

locale event_heap =
  fixes empty :: "'q"
    and push :: "'a \<Rightarrow> 'q \<Rightarrow> 'q"
    and pop :: "'q \<Rightarrow> ('a \<times> 'q) option"
    and peek :: "'q \<Rightarrow> 'a option"
    and key :: "'a \<Rightarrow> 'k::linorder"
    and content :: "'q \<Rightarrow> 'a multiset"
    and ok :: "'q \<Rightarrow> bool"
  assumes ok_empty: "ok empty" and content_empty: "content empty = {#}"
    and ok_push: "ok q \<Longrightarrow> ok (push e q)" and content_push: "content (push e q) = add_mset e (content q)"
    and pop_none: "pop q = None \<longleftrightarrow> content q = {#}"
    and content_pop: "pop q = Some (e, q') \<Longrightarrow> content q = add_mset e (content q')"
    and ok_pop: "ok q \<Longrightarrow> pop q = Some (e, q') \<Longrightarrow> ok q'"
    and pop_least: "ok q \<Longrightarrow> pop q = Some (e, q') \<Longrightarrow> x \<in># content q \<Longrightarrow> key e \<le> key x"
    and peek_pop: "peek q = map_option fst (pop q)"
begin

lemma pops_in_order:
  assumes "ok q" and "pop q = Some (e, q1)" and "pop q1 = Some (e', q2)"
  shows "key e \<le> key e'"
proof -
  have "e' \<in># content q" using content_pop [OF assms(2)] content_pop [OF assms(3)] by simp
  with pop_least [OF assms(1, 2)] show ?thesis .
qed

lemma pushed_comes_out:
  assumes "ok q" and "\<And>x. x \<in># content q \<Longrightarrow> key e < key x"
  shows "\<exists>q'. pop (push e q) = Some (e, q') \<and> content q' = content q"
proof -
  have "pop (push e q) \<noteq> None" by (simp add: pop_none content_push)
  then obtain x q' where x: "pop (push e q) = Some (x, q')" by auto
  from content_pop [OF x] have c: "add_mset e (content q) = add_mset x (content q')"
    by (simp add: content_push)
  have "key x \<le> key e" using pop_least [OF ok_push [OF assms(1)] x, of e] by (simp add: content_push)
  moreover have "x \<in># add_mset e (content q)" unfolding c by simp
  ultimately have "x = e" using assms(2) [of x] by (cases "x = e") auto
  with c x show ?thesis by simp
qed

end

type_synonym event_queue = "event list"

definition queue_push :: "event \<Rightarrow> event_queue \<Rightarrow> event_queue" where
  "queue_push e q = insort_key event_key e q"

definition queue_pop :: "event_queue \<Rightarrow> (event \<times> event_queue) option" where
  "queue_pop q = (case q of [] \<Rightarrow> None | e # q \<Rightarrow> Some (e, q))"

definition queue_peek :: "event_queue \<Rightarrow> event option" where
  "queue_peek q = (case q of [] \<Rightarrow> None | e # q \<Rightarrow> Some e)"

definition queue_ok :: "event_queue \<Rightarrow> bool" where
  "queue_ok q = sorted (map event_key q)"

interpretation heap: event_heap "[]" queue_push queue_pop queue_peek event_key mset queue_ok
  by unfold_locales
    (auto simp: queue_ok_def queue_push_def queue_pop_def queue_peek_def sorted_insort_key
      split: list.splits)

section \<open>Nodes and the network\<close>

record ('l, 'd) logic =
  lg_make :: "node_id \<Rightarrow> 'd \<Rightarrow> 'l"
  lg_handle :: "in_msg \<Rightarrow> clock_view \<Rightarrow> 'l \<Rightarrow> 'd \<Rightarrow> (out_msg list \<times> 'l \<times> 'd) option"

record ('l, 'd) sim_node =
  si_logic :: "'l option"
  si_factory :: "('l, 'd) logic"
  si_durable :: 'd
  si_skew :: int
  si_epoch :: nat
  si_up :: bool

record sim_network =
  nt_min_latency :: millis
  nt_max_latency :: millis
  nt_drop_rate :: rat
  nt_partitions :: "(node_id set \<times> node_id set) list"

definition sim_network_default :: sim_network where
  "sim_network_default =
     \<lparr>nt_min_latency = 1, nt_max_latency = 10, nt_drop_rate = 0, nt_partitions = []\<rparr>"

definition cut :: "sim_network \<Rightarrow> node_id \<Rightarrow> node_id \<Rightarrow> bool" where
  "cut nt a b =
     list_ex (\<lambda>(x, y). (a \<in> x \<and> b \<in> y) \<or> (b \<in> x \<and> a \<in> y)) (nt_partitions nt)"

section \<open>The cluster\<close>

text \<open>A line of the trace, by what it says.\<close>

datatype trace_line =
    TrStart node_id
  | TrNote node_id node_note
  | TrDrop node_id node_id string
  | TrPartition
  | TrHeal
  | TrCrash node_id
  | TrSkew node_id int

record ('l, 'd) sim =
  sm_rng :: rng
  sm_clock :: manual_clock
  sm_nodes :: "(node_id, ('l, 'd) sim_node) bmap"
  sm_queue :: event_queue
  sm_seq :: nat
  sm_network :: sim_network
  sm_notes :: "(millis \<times> node_id \<times> node_note) list"
  sm_trace :: "(millis \<times> trace_line) list"
  sm_delivered :: nat
  sm_dropped :: nat

definition sim_new :: "64 word \<Rightarrow> ('l, 'd) sim" where
  "sim_new seed =
     \<lparr>sm_rng = rng_new seed, sm_clock = manual_new 0, sm_nodes = [], sm_queue = [], sm_seq = 0,
      sm_network = sim_network_default, sm_notes = [], sm_trace = [], sm_delivered = 0, sm_dropped = 0\<rparr>"

definition sim_now :: "('l, 'd) sim \<Rightarrow> millis" where
  "sim_now s = mc_now (sm_clock s)"

definition sim_push :: "millis \<Rightarrow> what \<Rightarrow> ('l, 'd) sim \<Rightarrow> ('l, 'd) sim" where
  "sim_push due w s =
     s\<lparr>sm_seq := sm_seq s + 1,
       sm_queue := queue_push \<lparr>e_at = due, e_seq = sm_seq s + 1, e_what = w\<rparr> (sm_queue s)\<rparr>"

definition sim_line :: "trace_line \<Rightarrow> ('l, 'd) sim \<Rightarrow> ('l, 'd) sim" where
  "sim_line l s = s\<lparr>sm_trace := sm_trace s @ [(sim_now s, l)]\<rparr>"

text \<open>A message from one node to another, subject to the network.\<close>

definition sim_route :: "node_id \<Rightarrow> node_id \<Rightarrow> body envelope \<Rightarrow> ('l, 'd) sim \<Rightarrow> ('l, 'd) sim" where
  "sim_route from' to e s =
     (let drop = (\<lambda>s. sim_line (TrDrop from' to (en_action e)) (s\<lparr>sm_dropped := sm_dropped s + 1\<rparr>)) in
      if \<not> bm_has (sm_nodes s) to then s\<lparr>sm_dropped := sm_dropped s + 1\<rparr>
      else if cut (sm_network s) from' to then drop s
      else
        (let (lost, r) = rng_chance (nt_drop_rate (sm_network s)) (sm_rng s); s = s\<lparr>sm_rng := r\<rparr> in
         if lost then drop s
         else
           (let (latency, r) = rng_range (nt_min_latency (sm_network s)) (nt_max_latency (sm_network s)) (sm_rng s);
                s = s\<lparr>sm_rng := r\<rparr>
            in sim_push (sim_now s + latency) (WDeliver to e) s)))"

definition sim_apply_one :: "node_id \<Rightarrow> out_msg \<Rightarrow> ('l, 'd) sim \<Rightarrow> ('l, 'd) sim" where
  "sim_apply_one from' out s =
     (case out of
        Send to e \<Rightarrow> sim_route from' to e s
      | Timer i after \<Rightarrow>
          (let epoch = (case bm_get (sm_nodes s) from' of Some n \<Rightarrow> si_epoch n | None \<Rightarrow> 0)
           in sim_push (sim_now s + after) (WTimer from' i epoch) s)
      | Peer _ _ \<Rightarrow> s
      | Dial _ \<Rightarrow> s
      | Note text \<Rightarrow>
          (let s = sim_line (TrNote from' text) s
           in s\<lparr>sm_notes := sm_notes s @ [(sim_now s, from', text)]\<rparr>))"

definition sim_apply :: "node_id \<Rightarrow> out_msg list \<Rightarrow> ('l, 'd) sim \<Rightarrow> ('l, 'd) sim" where
  "sim_apply from' outs s = fold (sim_apply_one from') outs s"

text \<open>The logic of a node is told something: \<^verbatim>\<open>logic.handle(input, clock, &mut n.durable)\<close>.\<close>

definition node_handle ::
  "in_msg \<Rightarrow> manual_clock \<Rightarrow> ('l, 'd) sim_node \<Rightarrow> (out_msg list \<times> ('l, 'd) sim_node) option" where
  "node_handle i clock n =
     (case si_logic n of
        None \<Rightarrow> None
      | Some l \<Rightarrow>
          (case lg_handle (si_factory n) i (skewed (si_skew n) clock) l (si_durable n) of
             None \<Rightarrow> None
           | Some (outs, l, d) \<Rightarrow> Some (outs, n\<lparr>si_logic := Some l, si_durable := d\<rparr>)))"

definition sim_start :: "node_id \<Rightarrow> ('l, 'd) sim \<Rightarrow> ('l, 'd) sim option" where
  "sim_start i s =
     (case bm_get (sm_nodes s) i of
        None \<Rightarrow> None
      | Some n \<Rightarrow>
          (let n = n\<lparr>si_logic := Some (lg_make (si_factory n) i (si_durable n)), si_up := True,
                     si_epoch := si_epoch n + 1\<rparr>
           in case node_handle Start (sm_clock s) n of
                None \<Rightarrow> None
              | Some (outs, n) \<Rightarrow>
                  Some (sim_apply i outs (sim_line (TrStart i) (s\<lparr>sm_nodes := bm_insert i n (sm_nodes s)\<rparr>)))))"

definition sim_add_node :: "'d \<Rightarrow> node_id \<Rightarrow> ('l, 'd) logic \<Rightarrow> ('l, 'd) sim \<Rightarrow> ('l, 'd) sim option" where
  "sim_add_node d0 i factory s =
     sim_start i
       (s\<lparr>sm_nodes :=
            bm_insert i \<lparr>si_logic = None, si_factory = factory, si_durable = d0, si_skew = 0,
                         si_epoch = 0, si_up = False\<rparr> (sm_nodes s)\<rparr>)"

definition sim_partition :: "node_id list \<Rightarrow> node_id list \<Rightarrow> ('l, 'd) sim \<Rightarrow> ('l, 'd) sim" where
  "sim_partition a b s =
     sim_line TrPartition
       (s\<lparr>sm_network := (sm_network s)\<lparr>nt_partitions := nt_partitions (sm_network s) @ [(set a, set b)]\<rparr>\<rparr>)"

definition sim_heal :: "('l, 'd) sim \<Rightarrow> ('l, 'd) sim" where
  "sim_heal s = sim_line TrHeal (s\<lparr>sm_network := (sm_network s)\<lparr>nt_partitions := []\<rparr>\<rparr>)"

definition sim_heal_at :: "millis \<Rightarrow> ('l, 'd) sim \<Rightarrow> ('l, 'd) sim" where
  "sim_heal_at due s = sim_push due WHeal s"

definition sim_crash :: "node_id \<Rightarrow> ('l, 'd) sim \<Rightarrow> ('l, 'd) sim" where
  "sim_crash i s =
     sim_line (TrCrash i)
       (case bm_get (sm_nodes s) i of
          None \<Rightarrow> s
        | Some n \<Rightarrow>
            s\<lparr>sm_nodes :=
                bm_insert i (n\<lparr>si_logic := None, si_up := False, si_epoch := si_epoch n + 1\<rparr>) (sm_nodes s)\<rparr>)"

definition sim_crash_at :: "node_id \<Rightarrow> millis \<Rightarrow> ('l, 'd) sim \<Rightarrow> ('l, 'd) sim" where
  "sim_crash_at i due s = sim_push due (WCrash i) s"

definition sim_restart :: "node_id \<Rightarrow> ('l, 'd) sim \<Rightarrow> ('l, 'd) sim option" where
  "sim_restart i s =
     (case bm_get (sm_nodes s) i of
        None \<Rightarrow> Some s
      | Some n \<Rightarrow> if si_up n then Some s else sim_start i s)"

definition sim_restart_at :: "node_id \<Rightarrow> millis \<Rightarrow> ('l, 'd) sim \<Rightarrow> ('l, 'd) sim" where
  "sim_restart_at i due s = sim_push due (WRestart i) s"

definition sim_skew :: "node_id \<Rightarrow> int \<Rightarrow> ('l, 'd) sim \<Rightarrow> ('l, 'd) sim" where
  "sim_skew i by' s =
     sim_line (TrSkew i by')
       (case bm_get (sm_nodes s) i of
          None \<Rightarrow> s
        | Some n \<Rightarrow> s\<lparr>sm_nodes := bm_insert i (n\<lparr>si_skew := by'\<rparr>) (sm_nodes s)\<rparr>)"

definition sim_is_up :: "('l, 'd) sim \<Rightarrow> node_id \<Rightarrow> bool" where
  "sim_is_up s i = (case bm_get (sm_nodes s) i of Some n \<Rightarrow> si_up n | None \<Rightarrow> False)"

definition sim_durable :: "('l, 'd) sim \<Rightarrow> node_id \<Rightarrow> 'd option" where
  "sim_durable s i = map_option si_durable (bm_get (sm_nodes s) i)"

definition sim_node_ids :: "('l, 'd) sim \<Rightarrow> node_id list" where
  "sim_node_ids s = bm_keys (sm_nodes s)"

definition sim_stats :: "('l, 'd) sim \<Rightarrow> nat \<times> nat" where
  "sim_stats s = (sm_delivered s, sm_dropped s)"

definition sim_inject :: "node_id \<Rightarrow> body envelope \<Rightarrow> ('l, 'd) sim \<Rightarrow> ('l, 'd) sim" where
  "sim_inject to e s = sim_push (sim_now s) (WDeliver to e) s"

section \<open>Running it\<close>

definition sim_tell :: "node_id \<Rightarrow> ('l, 'd) sim_node \<Rightarrow> in_msg \<Rightarrow> nat \<Rightarrow> ('l, 'd) sim \<Rightarrow> ('l, 'd) sim option" where
  "sim_tell i n input' one s =
     (case node_handle input' (sm_clock s) n of
        None \<Rightarrow> None
      | Some (outs, n) \<Rightarrow>
          Some (sim_apply i outs
            (s\<lparr>sm_nodes := bm_insert i n (sm_nodes s), sm_delivered := sm_delivered s + one\<rparr>)))"

definition sim_run_event :: "what \<Rightarrow> ('l, 'd) sim \<Rightarrow> ('l, 'd) sim option" where
  "sim_run_event w s =
     (case w of
        WDeliver to e \<Rightarrow>
          (case bm_get (sm_nodes s) to of
             None \<Rightarrow> Some s
           | Some n \<Rightarrow>
               if \<not> si_up n then Some (s\<lparr>sm_dropped := sm_dropped s + 1\<rparr>)
               else sim_tell to n (Message e) 1 s)
      | WTimer i t epoch \<Rightarrow>
          (case bm_get (sm_nodes s) i of
             None \<Rightarrow> Some s
           | Some n \<Rightarrow>
               if \<not> si_up n \<or> si_epoch n \<noteq> epoch then Some s
               else sim_tell i n (TimerFired t) 0 s)
      | WCrash i \<Rightarrow> Some (sim_crash i s)
      | WRestart i \<Rightarrow> sim_restart i s
      | WHeal \<Rightarrow> Some (sim_heal s))"

definition sim_take :: "event \<Rightarrow> event_queue \<Rightarrow> ('l, 'd) sim \<Rightarrow> ('l, 'd) sim" where
  "sim_take e q s =
     s\<lparr>sm_queue := q,
       sm_clock := if e_at e > mc_now (sm_clock s) then manual_set (e_at e) (sm_clock s) else sm_clock s\<rparr>"

definition sim_step :: "('l, 'd) sim \<Rightarrow> (bool \<times> ('l, 'd) sim) option" where
  "sim_step s =
     (case queue_pop (sm_queue s) of
        None \<Rightarrow> Some (False, s)
      | Some (e, q) \<Rightarrow> map_option (Pair True) (sim_run_event (e_what e) (sim_take e q s)))"

partial_function (option) sim_drain :: "millis \<Rightarrow> ('l, 'd) sim \<Rightarrow> ('l, 'd) sim option" where
  "sim_drain until' s =
     (case queue_peek (sm_queue s) of
        None \<Rightarrow> Some s
      | Some e \<Rightarrow>
          if e_at e > until' then Some s
          else (case sim_step s of None \<Rightarrow> None | Some (_, s) \<Rightarrow> sim_drain until' s))"

definition sim_run_until :: "millis \<Rightarrow> ('l, 'd) sim \<Rightarrow> ('l, 'd) sim option" where
  "sim_run_until until' s =
     (case sim_drain until' s of
        None \<Rightarrow> None
      | Some s \<Rightarrow>
          Some (if mc_now (sm_clock s) < until' then s\<lparr>sm_clock := manual_set until' (sm_clock s)\<rparr> else s))"

fun sim_run :: "nat \<Rightarrow> ('l, 'd) sim \<Rightarrow> ('l, 'd) sim option" where
  "sim_run 0 s = Some s"
| "sim_run (Suc n) s =
     (case sim_step s of
        None \<Rightarrow> None
      | Some (left, s) \<Rightarrow> if left then sim_run n s else Some s)"

end
