(* ===== verification/Simulation_Properties.thy ===== *)
theory Simulation_Properties
  imports Simulation
begin

text \<open>
  What the scheduler keeps, whatever the logic it runs: the events come out in order and time only
  moves forward, a timer belongs to the life of the node that set it, and a run up to a given time ends
  as long as nothing takes no time.
\<close>

section \<open>What the tester may do\<close>

datatype ('l, 'd) sim_op =
    OpAdd 'd node_id "('l, 'd) logic"
  | OpPartition "node_id list" "node_id list"
  | OpHeal
  | OpHealAt millis
  | OpCrash node_id
  | OpCrashAt node_id millis
  | OpRestart node_id
  | OpRestartAt node_id millis
  | OpSkew node_id int
  | OpNetwork millis millis rat
  | OpInject node_id "body envelope"
  | OpStep

fun sim_do :: "('l, 'd) sim_op \<Rightarrow> ('l, 'd) sim \<Rightarrow> ('l, 'd) sim option" where
  "sim_do (OpAdd d i f) s = sim_add_node d i f s"
| "sim_do (OpPartition a b) s = Some (sim_partition a b s)"
| "sim_do OpHeal s = Some (sim_heal s)"
| "sim_do (OpHealAt t) s = Some (sim_heal_at t s)"
| "sim_do (OpCrash i) s = Some (sim_crash i s)"
| "sim_do (OpCrashAt i t) s = Some (sim_crash_at i t s)"
| "sim_do (OpRestart i) s = sim_restart i s"
| "sim_do (OpRestartAt i t) s = Some (sim_restart_at i t s)"
| "sim_do (OpSkew i x) s = Some (sim_skew i x s)"
| "sim_do (OpNetwork lo hi p) s =
     Some (s\<lparr>sm_network := (sm_network s)\<lparr>nt_min_latency := lo, nt_max_latency := hi, nt_drop_rate := p\<rparr>\<rparr>)"
| "sim_do (OpInject to e) s = Some (sim_inject to e s)"
| "sim_do OpStep s = map_option snd (sim_step s)"

text \<open>Every node is added once.\<close>

fun adds_new :: "('l, 'd) sim_op \<Rightarrow> ('l, 'd) sim \<Rightarrow> bool" where
  "adds_new (OpAdd d i f) s = (\<not> bm_has (sm_nodes s) i)"
| "adds_new _ s = True"

inductive sim_runs :: "('l, 'd) sim \<Rightarrow> ('l, 'd) sim \<Rightarrow> bool" where
  stay: "sim_runs s s"
| go: "sim_runs s s' \<Longrightarrow> adds_new op s' \<Longrightarrow> sim_do op s' = Some s'' \<Longrightarrow> sim_runs s s''"

section \<open>What the outputs of a node become\<close>

definition epoch_of :: "('l, 'd) sim \<Rightarrow> node_id \<Rightarrow> nat" where
  "epoch_of s i = (case bm_get (sm_nodes s) i of Some n \<Rightarrow> si_epoch n | None \<Rightarrow> 0)"

definition emitted :: "node_id \<Rightarrow> out_msg list \<Rightarrow> ('l, 'd) sim \<Rightarrow> event \<Rightarrow> bool" where
  "emitted i outs s e =
     (case e_what e of
        WDeliver to v \<Rightarrow>
          Send to v \<in> set outs \<and> bm_has (sm_nodes s) to \<and> \<not> cut (sm_network s) i to
          \<and> sim_now s + nt_min_latency (sm_network s) \<le> e_at e
      | WTimer j t epoch \<Rightarrow>
          j = i \<and> epoch = epoch_of s i \<and> (\<exists>after. Timer t after \<in> set outs \<and> e_at e = sim_now s + after)
      | _ \<Rightarrow> False)"

text \<open>The scheduler after \<open>outs\<close>: what it leaves alone, and the events it has gained.\<close>

definition gained :: "('l, 'd) sim \<Rightarrow> event multiset \<Rightarrow> ('l, 'd) sim \<Rightarrow> bool" where
  "gained s new s' =
     (sm_nodes s' = sm_nodes s \<and> sm_clock s' = sm_clock s \<and> sm_network s' = sm_network s
      \<and> mset (sm_queue s') = mset (sm_queue s) + new \<and> (queue_ok (sm_queue s) \<longrightarrow> queue_ok (sm_queue s'))
      \<and> sm_seq s' = sm_seq s + size new \<and> image_mset e_seq new = mset [sm_seq s + 1..<sm_seq s' + 1])"

lemma gained_refl: "gained s {#} s"
  by (simp add: gained_def)

lemma gained_trans:
  assumes "gained s m s1" and "gained s1 m' s2"
  shows "gained s (m + m') s2"
proof -
  have "[sm_seq s + 1..<sm_seq s2 + 1] = [sm_seq s + 1..<sm_seq s1 + 1] @ [sm_seq s1 + 1..<sm_seq s2 + 1]"
    using assms upt_add_eq_append [of "sm_seq s + 1" "sm_seq s1 + 1" "size m'"] by (simp add: gained_def)
  then have "mset [sm_seq s + 1..<sm_seq s2 + 1] =
      mset [sm_seq s + 1..<sm_seq s1 + 1] + mset [sm_seq s1 + 1..<sm_seq s2 + 1]"
    by (simp only: mset_append)
  with assms show ?thesis by (simp add: gained_def del: mset_upt)
qed

lemma gained_line: "gained s m s' \<Longrightarrow> gained s m (sim_line l s')"
  by (simp add: gained_def sim_line_def)

lemma gained_push:
  "gained s {#\<lparr>e_at = t, e_seq = sm_seq s + 1, e_what = w\<rparr>#} (sim_push t w s)"
  using heap.ok_push by (simp add: gained_def sim_push_def heap.content_push)

lemma rng_range_lo: "lo \<le> fst (rng_range lo hi r)"
  by (simp add: rng_range_def Let_def split: prod.split)

definition notes_from :: "node_id \<Rightarrow> out_msg list \<Rightarrow> (node_id \<times> node_note) list" where
  "notes_from i outs = concat (map (\<lambda>x. case x of Note y \<Rightarrow> [(i, y)] | _ \<Rightarrow> []) outs)"

definition notes_made :: "('l, 'd) sim \<Rightarrow> (node_id \<times> node_note) list" where
  "notes_made s = map snd (sm_notes s)"

lemma route_gains:
  "\<exists>new. gained s new (sim_route i to v s)
     \<and> (\<forall>e \<in># new. emitted i [Send to v] s e) \<and> sm_notes (sim_route i to v s) = sm_notes s"
proof -
  obtain lost r where c: "rng_chance (nt_drop_rate (sm_network s)) (sm_rng s) = (lost, r)" by fastforce
  obtain l r' where l: "rng_range (nt_min_latency (sm_network s)) (nt_max_latency (sm_network s)) r = (l, r')"
    by fastforce
  have lo: "nt_min_latency (sm_network s) \<le> l"
    using rng_range_lo [of "nt_min_latency (sm_network s)" "nt_max_latency (sm_network s)" r] l by simp
  consider "\<not> bm_has (sm_nodes s) to" | "cut (sm_network s) i to \<or> lost"
    | "bm_has (sm_nodes s) to" "\<not> cut (sm_network s) i to" "\<not> lost" by blast
  then show ?thesis
  proof cases
    case 3
    let ?e = "\<lparr>e_at = sim_now s + l, e_seq = sm_seq s + 1, e_what = WDeliver to v\<rparr>"
    have r: "sim_route i to v s = (sim_push (sim_now s + l) (WDeliver to v) s)\<lparr>sm_rng := r'\<rparr>"
      using 3 c l by (simp add: sim_route_def Let_def sim_push_def sim_now_def)
    have "gained s {#?e#} (sim_route i to v s)"
      using gained_push [of s "sim_now s + l" "WDeliver to v"] by (simp add: r gained_def)
    moreover have "emitted i [Send to v] s ?e" using 3 lo by (simp add: emitted_def)
    ultimately show ?thesis by (intro exI [of _ "{#?e#}"]) (simp add: r sim_push_def)
  qed (use c in \<open>auto intro!: exI [of _ "{#}"] simp: sim_route_def gained_def Let_def sim_line_def\<close>)
qed

lemma apply_one_gains:
  "\<exists>new. gained s new (sim_apply_one i out s) \<and> (\<forall>e \<in># new. emitted i [out] s e)
     \<and> notes_made (sim_apply_one i out s) = notes_made s @ notes_from i [out]"
proof (cases out)
  case (Send to v)
  with route_gains [of s i to v] show ?thesis
    by (auto simp: sim_apply_one_def notes_from_def notes_made_def)
next
  case (Timer t after)
  let ?e = "\<lparr>e_at = sim_now s + after, e_seq = sm_seq s + 1, e_what = WTimer i t (epoch_of s i)\<rparr>"
  from Timer have "sim_apply_one i out s = sim_push (e_at ?e) (e_what ?e) s"
    by (simp add: sim_apply_one_def epoch_of_def Let_def)
  then show ?thesis
    using gained_push [of s "e_at ?e" "e_what ?e"] Timer
    by (intro exI [of _ "{#?e#}"]) (simp add: emitted_def sim_push_def notes_from_def notes_made_def)
qed (auto intro!: exI [of _ "{#}"]
      simp: sim_apply_one_def Let_def gained_def sim_line_def notes_from_def notes_made_def)

lemma emitted_cong:
  "emitted i outs s e \<Longrightarrow> sm_nodes s' = sm_nodes s \<Longrightarrow> sm_clock s' = sm_clock s \<Longrightarrow>
   sm_network s' = sm_network s \<Longrightarrow> set outs \<subseteq> set outs' \<Longrightarrow> emitted i outs' s' e"
  by (auto simp: emitted_def sim_now_def epoch_of_def split: what.splits)

lemma apply_gains:
  "\<exists>new. gained s new (sim_apply i outs s) \<and> (\<forall>e \<in># new. emitted i outs s e)
     \<and> notes_made (sim_apply i outs s) = notes_made s @ notes_from i outs"
proof (induction outs arbitrary: s)
  case Nil
  then show ?case using gained_refl by (fastforce simp: sim_apply_def notes_from_def)
next
  case (Cons o' outs)
  obtain m where m: "gained s m (sim_apply_one i o' s)" "\<And>e. e \<in># m \<Longrightarrow> emitted i [o'] s e"
      "notes_made (sim_apply_one i o' s) = notes_made s @ notes_from i [o']"
    using apply_one_gains [of s i o'] by blast
  obtain m' where m': "gained (sim_apply_one i o' s) m' (sim_apply i outs (sim_apply_one i o' s))"
      "\<And>e. e \<in># m' \<Longrightarrow> emitted i outs (sim_apply_one i o' s) e"
      "notes_made (sim_apply i outs (sim_apply_one i o' s)) =
       notes_made (sim_apply_one i o' s) @ notes_from i outs"
    using Cons.IH by blast
  have "emitted i (o' # outs) s e" if "e \<in># m + m'" for e
    using that m(1) by (auto simp: gained_def intro: emitted_cong [OF m(2)] emitted_cong [OF m'(2)])
  moreover have "sim_apply i (o' # outs) s = sim_apply i outs (sim_apply_one i o' s)"
    by (simp add: sim_apply_def)
  moreover have "notes_from i (o' # outs) = notes_from i [o'] @ notes_from i outs"
    by (simp add: notes_from_def)
  ultimately show ?case using gained_trans [OF m(1) m'(1)] m(3) m'(3) by auto
qed

section \<open>The invariant of the scheduler\<close>

text \<open>
  A pending timer was set by a node that is there, in this life of it or an earlier one, and the
  timers of the present life are those of a node that is up.
\<close>

definition timer_ok :: "('l, 'd) sim \<Rightarrow> event \<Rightarrow> bool" where
  "timer_ok s e =
     (\<forall>i t epoch. e_what e = WTimer i t epoch \<longrightarrow>
        (\<exists>n. bm_get (sm_nodes s) i = Some n \<and> epoch \<le> si_epoch n \<and> (epoch = si_epoch n \<longrightarrow> si_up n)))"

definition sim_ok :: "('l, 'd) sim \<Rightarrow> bool" where
  "sim_ok s =
     (queue_ok (sm_queue s) \<and> distinct (map e_seq (sm_queue s))
      \<and> (\<forall>e \<in> set (sm_queue s). e_seq e \<le> sm_seq s \<and> timer_ok s e)
      \<and> (\<forall>i n. bm_get (sm_nodes s) i = Some n \<longrightarrow> si_up n = (si_logic n \<noteq> None)))"

lemma sim_new_ok: "sim_ok (sim_new seed)"
  by (simp add: sim_ok_def sim_new_def queue_ok_def bm_get_def)

lemma gained_ok:
  assumes g: "gained s new s'" and ok: "sim_ok s" and t: "\<forall>e \<in># new. timer_ok s e"
  shows "sim_ok s'"
proof -
  have same: "sm_nodes s' = sm_nodes s" using g by (simp add: gained_def)
  have set: "set (sm_queue s') = set (sm_queue s) \<union> set_mset new"
    using g by (metis gained_def set_mset_mset set_mset_union)
  have new: "e_seq e \<le> sm_seq s'" if "e \<in># new" for e
  proof -
    have "e_seq e \<in># mset [sm_seq s + 1..<sm_seq s' + 1]"
      using g that by (metis gained_def image_eqI set_image_mset)
    then show ?thesis by auto
  qed
  have "mset (map e_seq (sm_queue s')) = mset (map e_seq (sm_queue s) @ [sm_seq s + 1..<sm_seq s' + 1])"
    using g by (simp add: gained_def del: mset_upt)
  then have "distinct (map e_seq (sm_queue s')) = distinct (map e_seq (sm_queue s) @ [sm_seq s + 1..<sm_seq s' + 1])"
    by (rule mset_eq_imp_distinct_iff)
  moreover have "distinct (map e_seq (sm_queue s) @ [sm_seq s + 1..<sm_seq s' + 1])"
    using ok by (force simp: sim_ok_def)
  moreover have "e_seq e \<le> sm_seq s' \<and> timer_ok s' e" if "e \<in> set (sm_queue s')" for e
    using that ok t new g unfolding set by (auto simp: sim_ok_def timer_ok_def same gained_def)
  ultimately show ?thesis using ok g by (simp add: sim_ok_def same gained_def)
qed

text \<open>A node moves on: to a later epoch, or in the same one without going down.\<close>

definition moves_on :: "('l, 'd) sim_node \<Rightarrow> ('l, 'd) sim_node \<Rightarrow> bool" where
  "moves_on n n' =
     (si_up n' = (si_logic n' \<noteq> None) \<and> si_factory n' = si_factory n
      \<and> (si_epoch n < si_epoch n' \<or> si_epoch n' = si_epoch n \<and> (si_up n \<longrightarrow> si_up n')))"

definition put_node :: "node_id \<Rightarrow> ('l, 'd) sim_node \<Rightarrow> ('l, 'd) sim \<Rightarrow> ('l, 'd) sim" where
  "put_node i n s = s\<lparr>sm_nodes := bm_insert i n (sm_nodes s)\<rparr>"

lemma put_node_simps [simp]:
  "sm_queue (put_node i n s) = sm_queue s" "sm_clock (put_node i n s) = sm_clock s"
  "sm_network (put_node i n s) = sm_network s" "sm_seq (put_node i n s) = sm_seq s"
  "sm_notes (put_node i n s) = sm_notes s" "sm_nodes (put_node i n s) = bm_insert i n (sm_nodes s)"
  by (simp_all add: put_node_def)

lemma put_node_ok:
  assumes "sim_ok s" and "bm_get (sm_nodes s) i = Some n" and "moves_on n n'"
  shows "sim_ok (put_node i n' s)"
proof -
  have "timer_ok (put_node i n' s) e" if "timer_ok s e" for e
    using that assms(2, 3) by (fastforce simp: timer_ok_def moves_on_def bm_insert_get)
  with assms show ?thesis by (auto simp: sim_ok_def moves_on_def bm_insert_get)
qed

lemma sim_ok_cong:
  "sim_ok s \<Longrightarrow> sm_nodes s' = sm_nodes s \<Longrightarrow> sm_queue s' = sm_queue s \<Longrightarrow> sm_seq s' = sm_seq s \<Longrightarrow> sim_ok s'"
  by (simp add: sim_ok_def timer_ok_def)

lemma emitted_timer_ok:
  assumes "emitted i outs s e" and "bm_get (sm_nodes s) i = Some n" and "si_up n"
  shows "timer_ok s e"
  using assms by (auto simp: emitted_def timer_ok_def epoch_of_def split: what.splits)

lemma apply_ok:
  assumes "sim_ok s" and "bm_get (sm_nodes s) i = Some n" and "si_up n"
  shows "sim_ok (sim_apply i outs s)"
proof -
  obtain new where "gained s new (sim_apply i outs s)" "\<forall>e \<in># new. emitted i outs s e"
    using apply_gains by blast
  with gained_ok emitted_timer_ok assms show ?thesis by blast
qed

lemma node_handle_shape:
  assumes "node_handle i k n = Some (outs, n')"
  shows "si_logic n \<noteq> None \<and> (\<exists>l d. n' = n\<lparr>si_logic := Some l, si_durable := d\<rparr>)"
  using assms by (auto simp: node_handle_def split: option.splits)

text \<open>What a start and a message or a timer come to: a node moves on, then its outputs are taken.\<close>

lemma sim_tell_shape:
  assumes "sim_tell i n x one s = Some s'"
  obtains outs n' where "node_handle x (sm_clock s) n = Some (outs, n')"
    and "s' = sim_apply i outs ((put_node i n' s)\<lparr>sm_delivered := sm_delivered s + one\<rparr>)"
  using assms by (auto simp: sim_tell_def put_node_def split: option.splits)

definition born :: "node_id \<Rightarrow> ('l, 'd) sim_node \<Rightarrow> ('l, 'd) sim_node" where
  "born i n = n\<lparr>si_logic := Some (lg_make (si_factory n) i (si_durable n)), si_up := True,
                 si_epoch := si_epoch n + 1\<rparr>"

lemma sim_start_shape:
  assumes "sim_start i s = Some s'"
  obtains n outs n' where "bm_get (sm_nodes s) i = Some n"
    and "node_handle Start (sm_clock s) (born i n) = Some (outs, n')"
    and "s' = sim_apply i outs (sim_line (TrStart i) (put_node i n' s))"
  using assms by (auto simp: sim_start_def born_def put_node_def Let_def split: option.splits)

lemma told_ok:
  assumes ok: "sim_ok s" and at: "bm_get (sm_nodes s) i = Some n" and n': "moves_on n n'" "si_up n'"
    and s1: "sm_nodes s1 = sm_nodes (put_node i n' s)" "sm_queue s1 = sm_queue s" "sm_seq s1 = sm_seq s"
  shows "sim_ok (sim_apply i outs s1)"
proof (rule apply_ok)
  show "sim_ok s1" using put_node_ok [OF ok at n'(1)] s1 by (auto intro: sim_ok_cong)
  show "bm_get (sm_nodes s1) i = Some n'" using s1 by (simp add: bm_insert_get)
qed (rule n'(2))

lemma start_ok:
  assumes ok: "sim_ok s" and "sim_start i s = Some s'"
  shows "sim_ok s'"
  using assms(2)
proof (rule sim_start_shape)
  fix n outs n'
  assume n: "bm_get (sm_nodes s) i = Some n" and h: "node_handle Start (sm_clock s) (born i n) = Some (outs, n')"
    and s': "s' = sim_apply i outs (sim_line (TrStart i) (put_node i n' s))"
  from node_handle_shape [OF h] have "moves_on n n'" "si_up n'" by (auto simp: moves_on_def born_def)
  from told_ok [OF ok n this] show ?thesis by (simp add: s' sim_line_def)
qed

lemma tell_ok:
  assumes ok: "sim_ok s" and n: "bm_get (sm_nodes s) i = Some n" "si_up n" and "sim_tell i n x one s = Some s'"
  shows "sim_ok s'"
  using assms(4)
proof (rule sim_tell_shape)
  fix outs n'
  assume h: "node_handle x (sm_clock s) n = Some (outs, n')"
    and s': "s' = sim_apply i outs ((put_node i n' s)\<lparr>sm_delivered := sm_delivered s + one\<rparr>)"
  from node_handle_shape [OF h] n have "moves_on n n'" "si_up n'" by (auto simp: moves_on_def)
  from told_ok [OF ok n(1) this] show ?thesis by (simp add: s')
qed

lemma line_ok [simp]: "sim_ok (sim_line l s) = sim_ok s"
  by (simp add: sim_ok_def timer_ok_def sim_line_def)

lemma crash_ok:
  assumes "sim_ok s"
  shows "sim_ok (sim_crash i s)"
proof (cases "bm_get (sm_nodes s) i")
  case (Some n)
  let ?n = "n\<lparr>si_logic := None, si_up := False, si_epoch := si_epoch n + 1\<rparr>"
  have "sim_ok (put_node i ?n s)" by (rule put_node_ok [OF assms Some]) (simp add: moves_on_def)
  with Some show ?thesis by (simp add: sim_crash_def put_node_def)
qed (simp add: sim_crash_def assms)

lemma skew_ok:
  assumes "sim_ok s"
  shows "sim_ok (sim_skew i x s)"
proof (cases "bm_get (sm_nodes s) i")
  case (Some n)
  then have "moves_on n (n\<lparr>si_skew := x\<rparr>)" using assms by (simp add: sim_ok_def moves_on_def)
  from put_node_ok [OF assms Some this] Some show ?thesis by (simp add: sim_skew_def put_node_def)
qed (simp add: sim_skew_def assms)

lemma restart_ok: "sim_ok s \<Longrightarrow> sim_restart i s = Some s' \<Longrightarrow> sim_ok s'"
  by (auto simp: sim_restart_def split: option.splits if_splits intro: start_ok)

lemma run_event_ok: "sim_ok s \<Longrightarrow> sim_run_event w s = Some s' \<Longrightarrow> sim_ok s'"
  by (auto simp: sim_run_event_def sim_heal_def sim_line_def split: what.splits option.splits if_splits
      intro: tell_ok crash_ok restart_ok sim_ok_cong)

lemma take_ok:
  assumes "sim_ok s" and "queue_pop (sm_queue s) = Some (e, q)"
  shows "sim_ok (sim_take e q s)"
  using assms by (auto simp: sim_ok_def sim_take_def timer_ok_def queue_pop_def queue_ok_def split: list.splits)

lemma step_ok: "sim_ok s \<Longrightarrow> sim_step s = Some (b, s') \<Longrightarrow> sim_ok s'"
  by (auto simp: sim_step_def split: option.splits intro: take_ok run_event_ok)

lemma push_ok:
  assumes "sim_ok s" and "\<forall>i t epoch. w \<noteq> WTimer i t epoch"
  shows "sim_ok (sim_push t w s)"
  using assms by (intro gained_ok [OF gained_push]) (simp_all add: timer_ok_def)

lemma add_ok:
  assumes "sim_ok s" and "\<not> bm_has (sm_nodes s) i" and "sim_add_node d i f s = Some s'"
  shows "sim_ok s'"
proof -
  have none: "bm_get (sm_nodes s) i = None" using assms(2) by (simp add: bm_has_def bm_keys_dom)
  let ?n = "\<lparr>si_logic = None, si_factory = f, si_durable = d, si_skew = 0, si_epoch = 0, si_up = False\<rparr>"
  have "timer_ok (put_node i ?n s) e" if "timer_ok s e" for e
    using that none by (fastforce simp: timer_ok_def bm_insert_get)
  then have "sim_ok (put_node i ?n s)" using assms(1) by (auto simp: sim_ok_def bm_insert_get)
  with assms(3) show ?thesis by (auto simp: sim_add_node_def put_node_def intro: start_ok)
qed

lemma network_ok [simp]: "sim_ok (s\<lparr>sm_network := x\<rparr>) = sim_ok s"
  by (simp add: sim_ok_def timer_ok_def)

lemma do_ok:
  assumes ok: "sim_ok s" and "adds_new op s" and "sim_do op s = Some s'"
  shows "sim_ok s'"
proof (cases op)
  case (OpAdd d i f)
  with assms show ?thesis by (simp add: add_ok)
next
  case (OpRestart i)
  with assms show ?thesis by (simp add: restart_ok [OF ok])
next
  case OpStep
  with assms show ?thesis by (auto intro: step_ok [OF ok])
qed (use assms in \<open>auto simp: sim_partition_def sim_heal_def sim_heal_at_def sim_crash_at_def sim_restart_at_def
      sim_inject_def intro!: push_ok crash_ok skew_ok\<close>)

lemma runs_ok: "sim_runs s s' \<Longrightarrow> sim_ok s \<Longrightarrow> sim_ok s'"
  by (induction rule: sim_runs.induct) (auto intro: do_ok)

section \<open>Lives of a node\<close>

text \<open>Nodes are not taken away, and neither their factory nor an epoch that has passed comes back.\<close>

definition later :: "('l, 'd) sim \<Rightarrow> ('l, 'd) sim \<Rightarrow> bool" where
  "later s s' =
     (\<forall>i n. bm_get (sm_nodes s) i = Some n \<longrightarrow>
        (\<exists>n'. bm_get (sm_nodes s') i = Some n' \<and> si_epoch n \<le> si_epoch n' \<and> si_factory n' = si_factory n))"

lemma later_refl: "sm_nodes s' = sm_nodes s \<Longrightarrow> later s s'"
  by (simp add: later_def)

lemma later_node:
  assumes "later s s'" and "bm_get (sm_nodes s) i = Some n"
  obtains n' where "bm_get (sm_nodes s') i = Some n'" "si_epoch n \<le> si_epoch n'" "si_factory n' = si_factory n"
  using assms unfolding later_def by blast

lemma later_trans:
  assumes "later s s1" and "later s1 s2"
  shows "later s s2"
  unfolding later_def
proof (intro allI impI)
  fix i n
  assume "bm_get (sm_nodes s) i = Some n"
  from later_node [OF assms(1) this] obtain n1 where n1: "bm_get (sm_nodes s1) i = Some n1"
      "si_epoch n \<le> si_epoch n1" "si_factory n1 = si_factory n" .
  from later_node [OF assms(2) n1(1)] obtain n2 where "bm_get (sm_nodes s2) i = Some n2"
      "si_epoch n1 \<le> si_epoch n2" "si_factory n2 = si_factory n1" .
  with n1 show "\<exists>n'. bm_get (sm_nodes s2) i = Some n' \<and> si_epoch n \<le> si_epoch n' \<and> si_factory n' = si_factory n"
    by simp
qed

lemma later_put:
  assumes "bm_get (sm_nodes s) i = Some n" and "moves_on n n'" and "sm_nodes s' = bm_insert i n' (sm_nodes s)"
  shows "later s s'"
  using assms by (auto simp: later_def moves_on_def bm_insert_get)

lemma apply_nodes [simp]:
  "sm_nodes (sim_apply i outs s) = sm_nodes s" "sm_clock (sim_apply i outs s) = sm_clock s"
  "sm_network (sim_apply i outs s) = sm_network s"
  using apply_gains [of s i outs] by (auto simp: gained_def)

lemma line_simps [simp]:
  "sm_nodes (sim_line l s) = sm_nodes s" "sm_clock (sim_line l s) = sm_clock s"
  "sm_queue (sim_line l s) = sm_queue s" "sm_network (sim_line l s) = sm_network s"
  "sm_notes (sim_line l s) = sm_notes s"
  by (simp_all add: sim_line_def)

lemma push_simps [simp]:
  "sm_nodes (sim_push t w s) = sm_nodes s" "sm_clock (sim_push t w s) = sm_clock s"
  "sm_network (sim_push t w s) = sm_network s" "sm_notes (sim_push t w s) = sm_notes s"
  by (simp_all add: sim_push_def)

lemma start_later: "sim_start i s = Some s' \<Longrightarrow> later s s'"
  by (erule sim_start_shape, rule later_put)
    (auto dest!: node_handle_shape simp: moves_on_def born_def)

lemma tell_later:
  "bm_get (sm_nodes s) i = Some n \<Longrightarrow> si_up n \<Longrightarrow> sim_tell i n x one s = Some s' \<Longrightarrow> later s s'"
  by (erule sim_tell_shape, rule later_put) (auto dest!: node_handle_shape simp: moves_on_def)

lemma crash_later: "later s (sim_crash i s)"
  by (auto simp: sim_crash_def later_def bm_insert_get split: option.split)

lemma run_event_later: "sim_run_event w s = Some s' \<Longrightarrow> later s s'"
  by (auto simp: sim_run_event_def sim_restart_def sim_heal_def split: what.splits option.splits if_splits
      intro: tell_later start_later crash_later later_refl)

lemma do_later:
  assumes "adds_new op s" and "sim_do op s = Some s'"
  shows "later s s'"
proof (cases op)
  case (OpAdd d i f)
  then have none: "bm_get (sm_nodes s) i = None" using assms(1) by (simp add: bm_has_def bm_keys_dom)
  let ?s = "put_node i \<lparr>si_logic = None, si_factory = f, si_durable = d, si_skew = 0, si_epoch = 0, si_up = False\<rparr> s"
  have "later s ?s" using none by (auto simp: later_def bm_insert_get)
  moreover have "later ?s s'" using assms(2) OpAdd
    by (auto simp: sim_add_node_def put_node_def intro: start_later)
  ultimately show ?thesis by (rule later_trans)
next
  case (OpRestart i)
  with assms(2) show ?thesis
    by (auto simp: sim_restart_def split: option.splits if_splits intro: start_later later_refl)
next
  case OpStep
  have take: "later s (sim_take e q s)" for e q by (simp add: later_refl sim_take_def)
  from assms(2) OpStep show ?thesis
    by (auto simp: sim_step_def split: option.splits
        intro: later_refl later_trans [OF take run_event_later])
next
  case (OpSkew i x)
  with assms(2) show ?thesis by (auto simp: sim_skew_def later_def bm_insert_get split: option.split)
qed (use assms(2) in \<open>auto simp: sim_partition_def sim_heal_def sim_heal_at_def sim_crash_at_def sim_restart_at_def
      sim_inject_def intro: later_refl crash_later\<close>)

lemma runs_later: "sim_runs s s' \<Longrightarrow> later s s'"
  by (induction rule: sim_runs.induct) (auto intro: later_refl later_trans do_later)

text \<open>
  A timer set before a crash never fires after it: whatever is done to the cluster from the crash
  on, restarts included, when the timer's turn comes it is taken from the queue and nothing else happens.
\<close>

theorem timers_die_with_the_node:
  assumes "sim_ok s" and "e \<in> set (sm_queue s)" and "e_what e = WTimer i t epoch"
    and "sim_runs (sim_crash i s) s'" and "queue_pop (sm_queue s') = Some (e, q)"
  shows "sim_step s' = Some (True, sim_take e q s')"
proof -
  have "timer_ok s e" using assms(1, 2) by (simp add: sim_ok_def)
  with assms(3) obtain n where n: "bm_get (sm_nodes s) i = Some n" "epoch \<le> si_epoch n"
    unfolding timer_ok_def by blast
  then have "bm_get (sm_nodes (sim_crash i s)) i =
      Some (n\<lparr>si_logic := None, si_up := False, si_epoch := si_epoch n + 1\<rparr>)"
    by (simp add: sim_crash_def bm_insert_get)
  then obtain n' where n': "bm_get (sm_nodes s') i = Some n'" "si_epoch n + 1 \<le> si_epoch n'"
    by (rule later_node [OF runs_later [OF assms(4)]]) simp
  from n(2) n'(2) have "si_epoch n' \<noteq> epoch" by simp
  with assms(3, 5) n'(1) show ?thesis by (simp add: sim_step_def sim_run_event_def sim_take_def)
qed

section \<open>The order of events\<close>

lemma emitted_after: "emitted i outs s e \<Longrightarrow> sim_now s \<le> e_at e"
  by (auto simp: emitted_def split: what.splits)

text \<open>What running an event adds to the queue, and whose outputs they are.\<close>

definition outputs_of :: "('l, 'd) sim \<Rightarrow> out_msg list \<Rightarrow> bool" where
  "outputs_of s outs =
     (\<exists>i n x k l d l' d'. bm_get (sm_nodes s) i = Some n
        \<and> lg_handle (si_factory n) x k l d = Some (outs, l', d'))"

definition adds_events :: "('l, 'd) sim \<Rightarrow> ('l, 'd) sim \<Rightarrow> event multiset \<Rightarrow> bool" where
  "adds_events s s' new =
     (sm_clock s' = sm_clock s \<and> mset (sm_queue s') = mset (sm_queue s) + new
      \<and> nt_min_latency (sm_network s') = nt_min_latency (sm_network s)
      \<and> (new = {#} \<or>
         (\<exists>i outs (s1 :: ('l, 'd) sim). outputs_of s outs \<and> sm_clock s1 = sm_clock s \<and> sm_network s1 = sm_network s
            \<and> (\<forall>e \<in># new. emitted i outs s1 e))))"

lemma apply_adds:
  assumes "sm_clock s1 = sm_clock s" "sm_network s1 = sm_network s" "sm_queue s1 = sm_queue s" "outputs_of s outs"
  shows "\<exists>new. adds_events s (sim_apply i outs s1) new"
proof -
  obtain new where "gained s1 new (sim_apply i outs s1)" "\<forall>e \<in># new. emitted i outs s1 e"
    using apply_gains by blast
  with assms show ?thesis by (auto simp: adds_events_def gained_def intro!: exI [of _ new])
qed

lemma node_handle_outputs:
  assumes "node_handle x k n' = Some (outs, n2)" and "bm_get (sm_nodes s) i = Some n" and "si_factory n' = si_factory n"
  shows "outputs_of s outs"
  using assms unfolding outputs_of_def node_handle_def by (auto split: option.splits) metis

lemma nothing_added:
  "sm_clock s' = sm_clock s \<Longrightarrow> sm_queue s' = sm_queue s \<Longrightarrow>
   nt_min_latency (sm_network s') = nt_min_latency (sm_network s) \<Longrightarrow> \<exists>new. adds_events s s' new"
  by (auto simp: adds_events_def)

lemma start_adds: "sim_start i s = Some s' \<Longrightarrow> \<exists>new. adds_events s s' new"
  by (erule sim_start_shape) (auto intro!: apply_adds intro: node_handle_outputs simp: born_def)

lemma tell_adds:
  "bm_get (sm_nodes s) i = Some n \<Longrightarrow> sim_tell i n x one s = Some s' \<Longrightarrow> \<exists>new. adds_events s s' new"
  by (erule sim_tell_shape) (auto intro!: apply_adds intro: node_handle_outputs)

lemma run_event_adds: "sim_run_event w s = Some s' \<Longrightarrow> \<exists>new. adds_events s s' new"
  by (auto simp: sim_run_event_def sim_restart_def sim_heal_def sim_crash_def
      split: what.splits option.splits if_splits intro: start_adds tell_adds nothing_added)

text \<open>
  Events run in the order of their time and, at one time, in the order they were put in: a step
  takes the least of the queue, moves the clock to its time and never back, and whatever it schedules
  is due no earlier than the time it then is.
\<close>

theorem events_in_order:
  assumes "sim_ok s" and "sim_step s = Some (True, s')"
  shows "\<exists>e q new. sm_queue s = e # q \<and> (\<forall>x \<in> set q. event_key e \<le> event_key x)
    \<and> sim_now s' = max (sim_now s) (e_at e) \<and> mset (sm_queue s') = mset q + new
    \<and> (\<forall>x \<in># new. sim_now s' \<le> e_at x)"
proof -
  from assms(2) obtain e q where pop: "queue_pop (sm_queue s) = Some (e, q)"
      and run: "sim_run_event (e_what e) (sim_take e q s) = Some s'"
    by (auto simp: sim_step_def split: option.splits)
  from run_event_adds [OF run] obtain new where new: "adds_events (sim_take e q s) s' new" by blast
  have now: "sim_now s' = max (sim_now s) (e_at e)"
    using new by (auto simp: adds_events_def sim_now_def sim_take_def manual_set_def)
  have "sim_now s' \<le> e_at x" if "x \<in># new" for x
    using new that emitted_after by (fastforce simp: adds_events_def sim_now_def)
  moreover have "mset (sm_queue s') = mset q + new" using new by (simp add: adds_events_def sim_take_def)
  moreover have "sm_queue s = e # q" using pop by (simp add: queue_pop_def split: list.splits)
  moreover have "event_key e \<le> event_key x" if "x \<in> set q" for x
    using heap.pop_least [OF _ pop, of x] heap.content_pop [OF pop] assms(1) that by (simp add: sim_ok_def)
  ultimately show ?thesis using now by blast
qed

section \<open>A run ends\<close>

text \<open>
  A logic is \<open>brisk\<close> when every call of it returns and no timer it sets is due at once; so is a cluster
  of such nodes whose messages take time.
\<close>

definition brisk :: "('l, 'd) logic \<Rightarrow> bool" where
  "brisk f = (\<forall>x k l d. \<exists>outs l' d'. lg_handle f x k l d = Some (outs, l', d') \<and> (\<forall>t. Timer t 0 \<notin> set outs))"

definition maker :: "('l, 'd) sim \<Rightarrow> node_id \<Rightarrow> ('l, 'd) logic option" where
  "maker s i = map_option si_factory (bm_get (sm_nodes s) i)"

definition sim_brisk :: "('l, 'd) sim \<Rightarrow> bool" where
  "sim_brisk s = (1 \<le> nt_min_latency (sm_network s) \<and> (\<forall>i f. maker s i = Some f \<longrightarrow> brisk f))"

lemma start_maker: "sim_start i s = Some s' \<Longrightarrow> maker s' = maker s"
  by (erule sim_start_shape) (auto dest!: node_handle_shape simp: born_def maker_def bm_insert_get fun_eq_iff)

lemma tell_maker: "bm_get (sm_nodes s) i = Some n \<Longrightarrow> sim_tell i n x one s = Some s' \<Longrightarrow> maker s' = maker s"
  by (erule sim_tell_shape) (auto dest!: node_handle_shape simp: maker_def bm_insert_get fun_eq_iff)

lemma crash_maker: "maker (sim_crash i s) = maker s"
  by (auto simp: sim_crash_def maker_def bm_insert_get fun_eq_iff split: option.split)

lemma run_event_maker:
  assumes "sim_run_event w s = Some s'"
  shows "maker s' = maker s"
proof (cases w)
  case (WCrash i)
  with assms show ?thesis by (auto simp: sim_run_event_def crash_maker)
next
  case (WRestart i)
  with assms show ?thesis
    by (auto simp: sim_run_event_def sim_restart_def split: option.splits if_splits dest: start_maker)
next
  case WHeal
  with assms show ?thesis by (auto simp: sim_run_event_def sim_heal_def maker_def)
qed (use assms in \<open>auto simp: sim_run_event_def maker_def split: option.splits if_splits dest!: tell_maker\<close>)

lemma brisk_handles:
  assumes "sim_brisk s" and "bm_get (sm_nodes s) i = Some n" and "si_factory n' = si_factory n" and "si_logic n' \<noteq> None"
  shows "\<exists>outs n2. node_handle x k n' = Some (outs, n2)"
proof -
  obtain l where l: "si_logic n' = Some l" using assms(4) by blast
  have "brisk (si_factory n')" using assms(1-3) by (auto simp: sim_brisk_def maker_def)
  then obtain outs l' d' where
      "lg_handle (si_factory n') x (skewed (si_skew n') k) l (si_durable n') = Some (outs, l', d')"
    unfolding brisk_def by blast
  with l show ?thesis by (simp add: node_handle_def)
qed

lemma brisk_tells:
  assumes "sim_brisk s" and "sim_ok s" and "bm_get (sm_nodes s) i = Some n" and "si_up n"
  shows "\<exists>s'. sim_tell i n x one s = Some s'"
proof -
  have "si_logic n \<noteq> None" using assms(2-4) by (simp add: sim_ok_def)
  from brisk_handles [OF assms(1, 3) refl this, of x "sm_clock s"] show ?thesis
    by (auto simp: sim_tell_def)
qed

lemma brisk_starts:
  assumes "sim_brisk s" and "bm_get (sm_nodes s) i = Some n"
  shows "\<exists>s'. sim_start i s = Some s'"
proof -
  have "si_factory (born i n) = si_factory n" "si_logic (born i n) \<noteq> None" by (simp_all add: born_def)
  from brisk_handles [OF assms this, of Start "sm_clock s"] assms(2) show ?thesis
    by (auto simp: sim_start_def born_def Let_def)
qed

lemma brisk_runs:
  assumes "sim_brisk s" and "sim_ok s"
  shows "\<exists>s'. sim_run_event w s = Some s'"
  using assms brisk_tells [OF assms] brisk_starts [OF assms(1)]
  by (auto simp: sim_run_event_def sim_restart_def split: what.split option.split)

lemma brisk_adds_later:
  assumes "sim_brisk s" and "adds_events s s' new" and "e \<in># new"
  shows "sim_now s < e_at e"
proof -
  from assms(2, 3) obtain i outs s1 where o: "outputs_of s outs" and s1: "sm_clock s1 = sm_clock s"
      "sm_network s1 = sm_network s" and em: "emitted i outs (s1 :: ('a, 'b) sim) e"
    unfolding adds_events_def by (metis empty_not_add_mset mset_add)
  from o obtain j n x k l d l' d' where n: "bm_get (sm_nodes s) j = Some n"
      and h: "lg_handle (si_factory n) x k l d = Some (outs, l', d')"
    unfolding outputs_of_def by blast
  from n assms(1) have "brisk (si_factory n)" by (auto simp: sim_brisk_def maker_def)
  then obtain outs2 l2 d2 where "lg_handle (si_factory n) x k l d = Some (outs2, l2, d2)"
      "\<forall>t. Timer t 0 \<notin> set outs2"
    unfolding brisk_def by blast
  with h have no: "Timer t 0 \<notin> set outs" for t by simp
  have min: "1 \<le> nt_min_latency (sm_network s)" using assms(1) by (simp add: sim_brisk_def)
  show ?thesis
  proof (cases "e_what e")
    case (WTimer a t epoch)
    with em obtain after where "Timer t after \<in> set outs" "e_at e = sim_now s1 + after" by (auto simp: emitted_def)
    with no [of t] s1 show ?thesis by (cases after) (auto simp: sim_now_def)
  qed (use em min s1 in \<open>auto simp: emitted_def sim_now_def\<close>)
qed

text \<open>What is left to run up to a time: how much before its end each due event is.\<close>

definition remaining :: "millis \<Rightarrow> ('l, 'd) sim \<Rightarrow> nat multiset" where
  "remaining until' s =
     image_mset (\<lambda>e. until' - e_at e) (filter_mset (\<lambda>e. e_at e \<le> until') (mset (sm_queue s)))"

lemma brisk_step:
  assumes b: "sim_brisk s" and ok: "sim_ok s" and pop: "queue_pop (sm_queue s) = Some (e, q)" and due: "e_at e \<le> until'"
  shows "\<exists>s'. sim_step s = Some (True, s') \<and> sim_brisk s' \<and> sim_ok s' \<and> sim_now s \<le> sim_now s'
    \<and> (remaining until' s', remaining until' s) \<in> mult less_than"
proof -
  let ?s = "sim_take e q s"
  have b': "sim_brisk ?s" using b by (simp add: sim_brisk_def sim_take_def maker_def)
  note ok' = take_ok [OF ok pop]
  from brisk_runs [OF b' ok'] obtain s' where run: "sim_run_event (e_what e) ?s = Some s'" by blast
  then have step: "sim_step s = Some (True, s')" using pop by (simp add: sim_step_def)
  from run_event_adds [OF run] obtain new where new: "adds_events ?s s' new" by blast
  have late: "e_at e < e_at x" if "x \<in># new" for x
    using brisk_adds_later [OF b' new that] by (auto simp: sim_now_def sim_take_def manual_set_def split: if_splits)
  let ?g = "\<lambda>M. image_mset (\<lambda>x. until' - e_at x) (filter_mset (\<lambda>x. e_at x \<le> until') M)"
  have "mset (sm_queue s') = mset q + new" using new by (simp add: adds_events_def sim_take_def)
  moreover have "mset (sm_queue s) = mset q + {#e#}" using heap.content_pop [OF pop] by simp
  ultimately have "remaining until' s' = ?g (mset q) + ?g new" "remaining until' s = ?g (mset q) + {#until' - e_at e#}"
    using due by (simp_all add: remaining_def)
  moreover have "(?g (mset q) + ?g new, ?g (mset q) + {#until' - e_at e#}) \<in> mult less_than"
    by (rule one_step_implies_mult) (use late due in force)+
  moreover have "sim_brisk s'"
    using b' new run_event_maker [OF run] by (simp add: sim_brisk_def adds_events_def)
  moreover have "sim_now s \<le> sim_now s'"
    using new by (auto simp: adds_events_def sim_now_def sim_take_def manual_set_def)
  ultimately show ?thesis using step run_event_ok [OF ok' run] by simp
qed

lemma drain_returns:
  assumes "sim_brisk s" and "sim_ok s"
  shows "\<exists>s'. sim_drain until' s = Some s' \<and> sim_ok s' \<and> (\<forall>e \<in> set (sm_queue s'). until' < e_at e)"
  using assms
proof (induction "remaining until' s" arbitrary: s rule: wf_induct_rule [OF wf_mult [OF wf_less_than]])
  case 1
  note ok = 1(3)
  show ?case
  proof (cases "queue_pop (sm_queue s)")
    case None
    then have "sm_queue s = []" by (simp add: queue_pop_def split: list.splits)
    then show ?thesis using ok by (simp add: sim_drain.simps [of until' s] queue_peek_def)
  next
    case (Some eq)
    then obtain e q where pop: "queue_pop (sm_queue s) = Some (e, q)" by (cases eq) auto
    then have peek: "queue_peek (sm_queue s) = Some e" by (simp add: heap.peek_pop)
    show ?thesis
    proof (cases "e_at e \<le> until'")
      case True
      from brisk_step [OF 1(2) ok pop True] obtain s' where "sim_step s = Some (True, s')" "sim_brisk s'" "sim_ok s'"
          "(remaining until' s', remaining until' s) \<in> mult less_than"
        by blast
      with 1(1) [OF this(4, 2, 3)] True peek show ?thesis by (simp add: sim_drain.simps [of until' s])
    next
      case False
      have "until' < e_at x" if "x \<in> set (sm_queue s)" for x
        using heap.pop_least [OF _ pop, of x] ok that False by (auto simp: sim_ok_def event_key_def)
      with False ok peek show ?thesis by (simp add: sim_drain.simps [of until' s])
    qed
  qed
qed

text \<open>
  \<^bold>\<open>C8.\<close>  A run up to a time ends: when every call of a node's logic returns, no timer is due at once and
  a message takes at least a millisecond, \<^verbatim>\<open>run_until\<close> returns, with the clock at that time or later and
  nothing left that was due by then, however many events each event schedules.
\<close>

theorem run_until_returns:
  assumes "sim_brisk s" and "sim_ok s"
  shows "\<exists>s'. sim_run_until until' s = Some s' \<and> until' \<le> sim_now s'
    \<and> (\<forall>e \<in> set (sm_queue s'). until' < e_at e)"
proof -
  from drain_returns [OF assms, of until'] obtain s1 where
      "sim_drain until' s = Some s1" "\<forall>e \<in> set (sm_queue s1). until' < e_at e" by blast
  then show ?thesis by (auto simp: sim_run_until_def sim_now_def manual_set_def)
qed

end
