(* ===== verification/Simulation_Examples.thy ===== *)
theory Simulation_Examples
  imports Simulation_Properties "HOL-Library.Code_Target_Nat"
begin

text \<open>
  The pair of nodes of \<^verbatim>\<open>sim.rs\<close>'s own tests: each pings the other every 100 ms and counts the answers,
  the count being what it writes to disk.  The theorems on the scheduler are applied to it.
\<close>

section \<open>The pinger\<close>

record pinger =
  pi_me :: node_id
  pi_peer :: node_id
  pi_seen :: nat

text \<open>The disk holds the count's last byte.\<close>

definition pinger_handle ::
  "in_msg \<Rightarrow> clock_view \<Rightarrow> pinger \<Rightarrow> nat option \<Rightarrow> (out_msg list \<times> pinger \<times> nat option) option" where
  "pinger_handle x k p d =
     Some (case x of
        Start \<Rightarrow> ([Timer 1 100, Note (NStartedAt (cv_now k))], p\<lparr>pi_seen := opt 0 d\<rparr>, d)
      | TimerFired t \<Rightarrow>
          if t = 1
          then ([Send (pi_peer p) (mk_request ''ping'' (pi_me p) (cv_now k) no_body), Timer 1 100], p, d)
          else ([], p, d)
      | PeerFound _ \<Rightarrow> ([], p, d)
      | ShardDone _ _ \<Rightarrow> ([], p, d)
      | Message e \<Rightarrow>
          if en_kind e = Request then ([Send (en_from e) (mk_response e (pi_me p) no_body)], p, d)
          else (let seen = pi_seen p + 1
                in ([Note (NPong seen (en_from e))], p\<lparr>pi_seen := seen\<rparr>, Some (seen mod 256))))"

definition pinger_logic :: "node_id \<Rightarrow> (pinger, nat option) logic" where
  "pinger_logic peer =
     \<lparr>lg_make = (\<lambda>me _. \<lparr>pi_me = me, pi_peer = peer, pi_seen = 0\<rparr>), lg_handle = pinger_handle\<rparr>"

definition pair :: "64 word \<Rightarrow> (pinger, nat option) sim option" where
  "pair seed =
     (case sim_add_node None ''a'' (pinger_logic ''b'') (sim_new seed) of
        None \<Rightarrow> None
      | Some s \<Rightarrow> sim_add_node None ''b'' (pinger_logic ''a'') s)"

lemma pinger_brisk: "brisk (pinger_logic peer)"
  by (auto simp: brisk_def pinger_logic_def pinger_handle_def Let_def split: in_msg.splits)

text \<open>The pair just set up, from the first seed of the tests.\<close>

definition pair_one :: "(pinger, nat option) sim" where
  "pair_one = opt (sim_new 1) (pair 1)"

definition first_timer :: event where
  "first_timer = \<lparr>e_at = 100, e_seq = 1, e_what = WTimer ''a'' 1 1\<rparr>"

definition pair_check :: bool where
  "pair_check =
     (case sim_add_node None ''a'' (pinger_logic ''b'') (sim_new 1 :: (pinger, nat option) sim) of
        None \<Rightarrow> False
      | Some s1 \<Rightarrow>
          \<not> bm_has (sm_nodes s1) ''b'' \<and>
          (case sim_add_node None ''b'' (pinger_logic ''a'') s1 of
             None \<Rightarrow> False
           | Some s2 \<Rightarrow>
               (case sm_queue s2 of e # _ \<Rightarrow> e = first_timer | [] \<Rightarrow> False)
               \<and> nt_min_latency (sm_network s2) = 1
               \<and> map_option fst (sim_step s2) = Some True \<and> sim_now s2 = 0
               \<and> (case sim_restart ''a'' (sim_crash ''a'' s2) of
                    None \<Rightarrow> False
                  | Some s3 \<Rightarrow> (case sm_queue s3 of e # _ \<Rightarrow> e = first_timer | [] \<Rightarrow> False))))"

lemma pair_check: "pair_check"
  by code_simp

lemma pair_facts:
  obtains s1 s3 q q3 where "sim_add_node None ''a'' (pinger_logic ''b'') (sim_new 1) = Some s1"
    and "\<not> bm_has (sm_nodes s1) ''b''" and "sim_add_node None ''b'' (pinger_logic ''a'') s1 = Some pair_one"
    and "sm_queue pair_one = first_timer # q" and "sim_restart ''a'' (sim_crash ''a'' pair_one) = Some s3"
    and "sm_queue s3 = first_timer # q3"
  using pair_check
  by (auto simp: pair_check_def pair_one_def pair_def opt_def split: option.splits list.splits)

lemma pair_now: "sim_now pair_one = 0" "map_option fst (sim_step pair_one) = Some True"
    "nt_min_latency (sm_network pair_one) = 1"
  using pair_check
  by (auto simp: pair_check_def pair_one_def pair_def opt_def split: option.splits)

lemma pair_ok: "sim_ok pair_one"
proof -
  obtain s1 where s1: "sim_add_node None ''a'' (pinger_logic ''b'') (sim_new 1) = Some s1"
      "\<not> bm_has (sm_nodes s1) ''b''" "sim_add_node None ''b'' (pinger_logic ''a'') s1 = Some pair_one"
    by (rule pair_facts)
  have "sim_ok s1" by (rule add_ok [OF sim_new_ok _ s1(1)]) (simp add: sim_new_def bm_has_def bm_keys_def)
  from add_ok [OF this s1(2, 3)] show ?thesis .
qed

lemma add_maker:
  "sim_add_node d i f s = Some s' \<Longrightarrow> maker s' = (maker s)(i := Some f)"
  by (auto simp: sim_add_node_def dest!: start_maker) (auto simp: maker_def bm_insert_get fun_eq_iff)

lemma pair_brisk: "sim_brisk pair_one"
proof -
  obtain s1 where s1: "sim_add_node None ''a'' (pinger_logic ''b'') (sim_new 1) = Some s1"
      "sim_add_node None ''b'' (pinger_logic ''a'') s1 = Some pair_one"
    by (rule pair_facts)
  have "maker (sim_new 1 :: (pinger, nat option) sim) = (\<lambda>_. None)"
    by (simp add: maker_def sim_new_def bm_get_def fun_eq_iff)
  with add_maker [OF s1(1)] add_maker [OF s1(2)] show ?thesis
    by (auto simp: sim_brisk_def pair_now(3) pinger_brisk)
qed

section \<open>The theorems on it\<close>

theorem timers_die_with_the_node_witness:
  "\<exists>s q. sim_restart ''a'' (sim_crash ''a'' pair_one) = Some s \<and> sim_step s = Some (True, sim_take first_timer q s)"
proof -
  obtain s3 q q3 where s3: "sm_queue pair_one = first_timer # q"
      "sim_restart ''a'' (sim_crash ''a'' pair_one) = Some s3" "sm_queue s3 = first_timer # q3"
    by (rule pair_facts)
  have "sim_runs (sim_crash ''a'' pair_one) s3"
    by (rule sim_runs.go [OF sim_runs.stay, where op = "OpRestart ''a''"]) (simp_all add: s3(2))
  from timers_die_with_the_node [OF pair_ok _ _ this, of first_timer 1 1 q3] s3
  show ?thesis by (auto simp: first_timer_def queue_pop_def)
qed

theorem events_in_order_witness: "\<exists>s. sim_step pair_one = Some (True, s) \<and> sim_now s = 100"
proof -
  from pair_now(2) obtain s where s: "sim_step pair_one = Some (True, s)" by auto
  obtain q where "sm_queue pair_one = first_timer # q" by (rule pair_facts)
  with events_in_order [OF pair_ok s] s pair_now(1) show ?thesis by (auto simp: first_timer_def)
qed

theorem run_until_returns_witness:
  "\<exists>s. sim_run_until 1000 pair_one = Some s \<and> 1000 \<le> sim_now s \<and> (\<forall>e \<in> set (sm_queue s). 1000 < e_at e)"
  by (rule run_until_returns [OF pair_brisk pair_ok])

section \<open>A drop rate of nothing\<close>

text \<open>
  \<^verbatim>\<open>chance\<close> compares with \<open>\<le>\<close>, so a rate of zero still loses a message when the generator's top 53 bits
  are zero, which this seed's first number is.
\<close>

lemma rate_zero_can_drop: "fst (rng_chance 0 (sm_rng (sim_new 0xC3910C8D016B07D6 :: (pinger, nat option) sim)))"
  by code_simp

end
