(* ===== verification/Simulated_Cluster.thy ===== *)
theory Simulated_Cluster
  imports Simulation_Properties Election_Safety
begin

text \<open>
  Coordinators under the simulation.  The coordinator is a \<^verbatim>\<open>NodeLogic\<close> (\<^verbatim>\<open>coordinator.rs\<close>), so the
  scheduler runs it; every simulated run is a run of the network, one event being one step of it or none, and
  the safety of elections carries over to what the simulation's notes say.
\<close>

section \<open>The coordinator as a node's logic\<close>

text \<open>What outlives the logic: the disk, the world the node reaches and how many identifiers were drawn.\<close>

record 'w kept =
  k_disk :: durable
  k_world :: 'w
  k_drawn :: nat

definition kept_of :: "'w coordinator \<Rightarrow> 'w kept" where
  "kept_of c = \<lparr>k_disk = c_durable c, k_world = c_world c, k_drawn = c_drawn c\<rparr>"

definition coordinator_logic :: "'w env \<Rightarrow> launch \<Rightarrow> ('w coordinator, 'w kept) logic" where
  "coordinator_logic E la =
     \<lparr>lg_make = (\<lambda>_ k. launched la (ev_rand E (k_drawn k)) (k_disk k) (k_world k) (k_drawn k + 1)),
      lg_handle = (\<lambda>x k c d.
        case handle E x (cv_wall k) (c\<lparr>c_durable := k_disk d\<rparr>) of
          None \<Rightarrow> None
        | Some (outs, c) \<Rightarrow> Some (outs, c, kept_of c))\<rparr>"

type_synonym 'w cluster = "('w coordinator, 'w kept) sim"

definition first_kept :: "'w \<Rightarrow> 'w kept" where
  "first_kept w = \<lparr>k_disk = durable_default, k_world = w, k_drawn = 0\<rparr>"

section \<open>Simulated runs\<close>

text \<open>
  The nodes that may be added are those of \<open>la\<close>, each with the logic its launch gives.  A run is checked
  against the same two conditions as a run of the network: the configurations the nodes hold are among \<open>K\<close> and
  no term is the largest a word holds.  Nothing is injected: a message is one a node sent.
\<close>

definition nodes_bounded :: "node_id list set \<Rightarrow> 'w cluster \<Rightarrow> bool" where
  "nodes_bounded K s =
     list_all (\<lambda>(i, n). case si_logic n of
         None \<Rightarrow> True
       | Some c \<Rightarrow> cs_last_accepted_config (c_accepted c) \<in> insert [] K \<and> below_max c) (sm_nodes s)"

definition event_bounded :: "what \<Rightarrow> bool" where
  "event_bounded x = (case x of WDeliver to v \<Rightarrow> opt 0 (b_term (en_body v)) < u64_max | _ \<Rightarrow> True)"

definition bounded :: "node_id list set \<Rightarrow> 'w cluster \<Rightarrow> bool" where
  "bounded K s =
     (nodes_bounded K s \<and> (case sm_queue s of e # _ \<Rightarrow> event_bounded (e_what e) | [] \<Rightarrow> True))"

type_synonym 'w roster = "(node_id \<Rightarrow> 'w env) \<times> (node_id, launch) bmap \<times> 'w"

inductive simulated :: "'w roster \<Rightarrow> node_id list set \<Rightarrow> 'w cluster \<Rightarrow> bool" for S K where
  new: "simulated S K (sim_new seed)"
| add: "simulated S K s \<Longrightarrow> bounded K s \<Longrightarrow> S = (E, la, w) \<Longrightarrow> bm_get la i = Some l \<Longrightarrow>
    \<not> bm_has (sm_nodes s) i \<Longrightarrow>
    sim_add_node (first_kept w) i (coordinator_logic (E i) l) s = Some s' \<Longrightarrow> simulated S K s'"
| act: "simulated S K s \<Longrightarrow> bounded K s \<Longrightarrow> (\<forall>d i f. op \<noteq> OpAdd d i f) \<Longrightarrow> (\<forall>i e. op \<noteq> OpInject i e) \<Longrightarrow>
    sim_do op s = Some s' \<Longrightarrow> simulated S K s'"

section \<open>The network a simulation follows\<close>

definition seat :: "launch \<Rightarrow> 'w \<Rightarrow> 'w coordinator" where
  "seat l w = launched l [] durable_default w 0"

definition seats :: "'w roster \<Rightarrow> 'w network" where
  "seats S = (case S of (E, la, w) \<Rightarrow>
     \<lparr>nw_nodes = bm_map (\<lambda>_ l. seat l w) la, nw_sent = [], nw_notes = []\<rparr>)"

definition roster_ok :: "'w roster \<Rightarrow> bool" where
  "roster_ok S = (case S of (E, la, w) \<Rightarrow> bm_ok la \<and> (\<forall>(i, l) \<in> set la. dn_id (la_me l) = i))"

text \<open>A node of the simulation and what the network has in its place.\<close>

definition node_follows ::
  "'w env \<Rightarrow> launch \<Rightarrow> node_id list set \<Rightarrow> ('w coordinator, 'w kept) sim_node \<Rightarrow> 'w coordinator \<Rightarrow> bool" where
  "node_follows E l K n c =
     (si_factory n = coordinator_logic E l \<and> si_durable n = kept_of c
      \<and> (if si_up n then si_logic n = Some c
         else si_logic n = None \<and> cs_last_accepted_config (c_accepted c) \<in> insert [] K \<and> below_max c))"

definition follows :: "'w roster \<Rightarrow> node_id list set \<Rightarrow> 'w cluster \<Rightarrow> 'w network \<Rightarrow> bool" where
  "follows S K s N =
     (case S of (E, la, w) \<Rightarrow>
        bm_ok (nw_nodes N) \<and> (\<forall>i. (bm_get (nw_nodes N) i = None) = (bm_get la i = None))
        \<and> (\<forall>i n. bm_get (sm_nodes s) i = Some n \<longrightarrow>
             (\<exists>l c. bm_get la i = Some l \<and> bm_get (nw_nodes N) i = Some c \<and> node_follows (E i) l K n c))
        \<and> (\<forall>i l. bm_get la i = Some l \<longrightarrow> bm_get (sm_nodes s) i = None \<longrightarrow>
             bm_get (nw_nodes N) i = Some (seat l w))
        \<and> (\<forall>e to v. e \<in> set (sm_queue s) \<longrightarrow> e_what e = WDeliver to v \<longrightarrow> (to, v) \<in> set (nw_sent N))
        \<and> notes_made s = nw_notes N)"

lemma follows_node:
  assumes "follows (E, la, w) K s N" and "bm_get (sm_nodes s) i = Some n"
  obtains l c where "bm_get la i = Some l" "bm_get (nw_nodes N) i = Some c" "node_follows (E i) l K n c"
  using assms unfolding follows_def prod.case by blast

lemma follows_absent:
  assumes "follows (E, la, w) K s N" and "bm_get (nw_nodes N) i = Some c" and "bm_get (sm_nodes s) i = None"
  obtains l where "bm_get la i = Some l" "c = seat l w"
proof -
  from assms(1, 2) have "bm_get la i \<noteq> None" unfolding follows_def prod.case by (metis option.distinct(1))
  then obtain l where l: "bm_get la i = Some l" by blast
  with assms have "bm_get (nw_nodes N) i = Some (seat l w)" unfolding follows_def prod.case by blast
  with assms(2) l that show thesis by simp
qed

lemma follows_sent:
  "follows (E, la, w) K s N \<Longrightarrow> e \<in> set (sm_queue s) \<Longrightarrow> e_what e = WDeliver to v \<Longrightarrow> (to, v) \<in> set (nw_sent N)"
  by (auto simp: follows_def)

lemma follows_cong:
  "follows S K s N \<Longrightarrow> sm_nodes s' = sm_nodes s \<Longrightarrow> set (sm_queue s') \<subseteq> set (sm_queue s) \<Longrightarrow>
   sm_notes s' = sm_notes s \<Longrightarrow> follows S K s' N"
  by (fastforce simp: follows_def notes_made_def)

lemma seats_follow:
  assumes "roster_ok S"
  shows "follows S K (sim_new seed) (seats S)"
  using assms
  by (auto simp: follows_def seats_def roster_ok_def sim_new_def bm_map_get notes_made_def)

lemma seat_newborn: "newborn (seat l w)" "c_me (seat l w) = la_me l"
    "cs_last_accepted_config (c_accepted (seat l w)) = []" "below_max (seat l w)"
    "kept_of (seat l w) = first_kept w"
  by (simp_all add: seat_def launched_def coordinator_new_def newborn_def cs_empty_def below_max_def Let_def
      u64_max_def kept_of_def first_kept_def durable_default_def)

lemma seats_fresh: "roster_ok S \<Longrightarrow> fresh_network (seats S)"
  by (cases S) (fastforce simp: fresh_network_def seats_def roster_ok_def bm_map_def seat_newborn my_id_def)

text \<open>A node is told something; its outputs go to the queue here and to the messages sent there.\<close>

lemma notes_from_eq: "notes_from i outs = map (Pair i) (notes_of outs)"
  by (induction outs rule: notes_of.induct) (simp_all add: notes_from_def)

lemma follows_absorb:
  assumes f: "follows (E, la, w) K s N" and l: "bm_get la i = Some l" and n': "node_follows (E i) l K n' c'"
    and nodes: "\<And>j. bm_get (sm_nodes s1) j = (if j = i then Some n' else bm_get (sm_nodes s) j)"
    and q: "set (sm_queue s1) \<subseteq> set (sm_queue s)" and nt: "sm_notes s1 = sm_notes s"
  shows "follows (E, la, w) K (sim_apply i outs s1) (absorb i (outs, c') N)"
proof -
  obtain new where g: "gained s1 new (sim_apply i outs s1)" "\<forall>e \<in># new. emitted i outs s1 e"
      "notes_made (sim_apply i outs s1) = notes_made s1 @ notes_from i outs"
    using apply_gains by blast
  have set: "set (sm_queue (sim_apply i outs s1)) = set (sm_queue s1) \<union> set_mset new"
    using g(1) by (metis gained_def set_mset_mset set_mset_union)
  have sent: "(to, v) \<in> set (nw_sent N) \<or> Send to v \<in> set outs"
    if "e \<in> set (sm_queue (sim_apply i outs s1))" "e_what e = WDeliver to v" for e to v
    using that g(2) q follows_sent [OF f _ that(2)] by (auto simp: set emitted_def)
  show ?thesis
    using f l n' sent nodes nt g(3)
    by (auto simp: follows_def bm_insert_get bm_insert_ok notes_from_eq notes_made_def absorb_def split: if_splits)
qed

section \<open>Every event is a step of the network, or none\<close>

lemma bounded_node:
  assumes "nodes_bounded K s" and "bm_get (sm_nodes s) i = Some n" and "si_logic n = Some c"
  shows "cs_last_accepted_config (c_accepted c) \<in> insert [] K \<and> below_max c"
proof -
  have "case si_logic n of None \<Rightarrow> True
      | Some c \<Rightarrow> cs_last_accepted_config (c_accepted c) \<in> insert [] K \<and> below_max c"
    using assms(1) bm_get_in_set [OF assms(2)] unfolding nodes_bounded_def list_all_iff by blast
  with assms(3) show ?thesis by simp
qed

lemma bounded_network:
  assumes f: "follows (E, la, w) K s N" and b: "nodes_bounded K s" and c: "(i, c) \<in> set (nw_nodes N)"
  shows "cs_last_accepted_config (c_accepted c) \<in> insert [] K \<and> below_max c"
proof -
  have at: "bm_get (nw_nodes N) i = Some c" using f c by (auto simp: follows_def intro: bm_set_get)
  show ?thesis
  proof (cases "bm_get (sm_nodes s) i")
    case None
    from follows_absent [OF f at this] obtain l where "c = seat l w" .
    then show ?thesis by (simp add: seat_newborn)
  next
    case (Some n)
    from follows_node [OF f this] obtain l d where "bm_get (nw_nodes N) i = Some d" "node_follows (E i) l K n d" .
    with at have "node_follows (E i) l K n c" by simp
    with bounded_node [OF b Some, of c] show ?thesis by (auto simp: node_follows_def split: if_splits)
  qed
qed

lemma step_follows:
  assumes f: "follows (E, la, w) K s N" and r: "network_run E K N" and b: "nodes_bounded K s"
    and a: "net_step E wall a N = Some N'"
    and d: "\<And>j. a = Deliver j \<Longrightarrow> opt 0 (b_term (en_body (snd (nw_sent N ! j)))) < u64_max"
  shows "network_run E K N'"
proof (rule network_run.step [OF r _ _ a])
  show "configs_in K N" using bounded_network [OF f b] unfolding configs_in_def by blast
  have "below_max c" if "(i, c) \<in> set (nw_nodes N)" for i c using bounded_network [OF f b that] by simp
  then have "\<forall>(i, c) \<in> set (nw_nodes N). below_max c" by blast
  then show "terms_below a N" unfolding terms_below_def using d by (simp split: action.split)
qed

lemma tell_follows:
  assumes f: "follows (E, la, w) K s N" and n: "bm_get (sm_nodes s) i = Some n" and up: "si_up n"
    and t: "sim_tell i n x one s = Some s'"
  shows "\<exists>wall N'. tell E i x wall (\<lambda>c. c) N = Some N' \<and> follows (E, la, w) K s' N'"
  using t
proof (rule sim_tell_shape)
  fix outs n'
  assume h: "node_handle x (sm_clock s) n = Some (outs, n')"
    and s': "s' = sim_apply i outs ((put_node i n' s)\<lparr>sm_delivered := sm_delivered s + one\<rparr>)"
  from follows_node [OF f n] obtain l c where l: "bm_get la i = Some l" and c: "bm_get (nw_nodes N) i = Some c"
      and nf: "node_follows (E i) l K n c" .
  let ?wall = "cv_wall (skewed (si_skew n) (sm_clock s))"
  from h nf up obtain c' where h': "handle (E i) x ?wall c = Some (outs, c')"
      and n': "n' = n\<lparr>si_logic := Some c', si_durable := kept_of c'\<rparr>"
    by (auto simp: node_handle_def node_follows_def coordinator_logic_def kept_of_def split: option.splits)
  have "node_follows (E i) l K n' c'" using nf up n' by (simp add: node_follows_def)
  from follows_absorb [OF f l this, of "(put_node i n' s)\<lparr>sm_delivered := sm_delivered s + one\<rparr>" outs]
  have "follows (E, la, w) K s' (absorb i (outs, c') N)" by (simp add: s' bm_insert_get)
  moreover have "tell E i x ?wall (\<lambda>c. c) N = Some (absorb i (outs, c') N)"
    using c h' by (simp add: tell_def)
  ultimately show ?thesis by blast
qed

lemma start_follows:
  assumes f: "follows (E, la, w) K s N" and l: "bm_get la i = Some l" and id: "dn_id (la_me l) = i"
    and c: "bm_get (nw_nodes N) i = Some c"
    and n: "bm_get (sm_nodes s0) i = Some n" "si_factory n = coordinator_logic (E i) l" "si_durable n = kept_of c"
    and s0: "\<And>j. j \<noteq> i \<Longrightarrow> bm_get (sm_nodes s0) j = bm_get (sm_nodes s) j" "sm_queue s0 = sm_queue s"
      "sm_notes s0 = sm_notes s"
    and t: "sim_start i s0 = Some s'"
  shows "\<exists>wall N'. net_step E wall (Restart i l) N = Some N' \<and> follows (E, la, w) K s' N'"
  using t
proof (rule sim_start_shape)
  fix n1 outs n'
  assume n1: "bm_get (sm_nodes s0) i = Some n1" and h: "node_handle Start (sm_clock s0) (born i n1) = Some (outs, n')"
    and s': "s' = sim_apply i outs (sim_line (TrStart i) (put_node i n' s0))"
  have [simp]: "n1 = n" using n1 n(1) by simp
  let ?wall = "cv_wall (skewed (si_skew n) (sm_clock s0))" and ?r = "reborn l (ev_rand (E i) (c_drawn c)) c"
  have same: "(launched l r (c_durable c) w' d)\<lparr>c_durable := c_durable c\<rparr> = launched l r (c_durable c) w' d" for r w' d
    by (simp add: launched_def coordinator_new_def Let_def)
  from h n(2, 3) obtain c' where h': "handle (E i) Start ?wall ?r = Some (outs, c')"
      and n': "n' = (born i n)\<lparr>si_logic := Some c', si_durable := kept_of c'\<rparr>"
    by (auto simp: node_handle_def born_def coordinator_logic_def kept_of_def reborn_def same split: option.splits)
  have "node_follows (E i) l K n' c'" using n(2) n' by (simp add: node_follows_def born_def)
  from follows_absorb [OF f l this, of "sim_line (TrStart i) (put_node i n' s0)" outs]
  have "follows (E, la, w) K s' (absorb i (outs, c') N)" by (simp add: s' bm_insert_get s0)
  moreover have "net_step E ?wall (Restart i l) N = Some (absorb i (outs, c') N)"
    using c h' id by (simp add: net_step_def tell_def)
  ultimately show ?thesis by blast
qed

lemma down_follows:
  assumes "node_follows E l K n c" and "nodes_bounded K s" and "bm_get (sm_nodes s) i = Some n"
  shows "node_follows E l K (n\<lparr>si_logic := None, si_up := False, si_epoch := x\<rparr>) c"
  using assms(1) bounded_node [OF assms(2, 3), of c] by (auto simp: node_follows_def split: if_splits)

lemma crash_follows:
  assumes f: "follows (E, la, w) K s N" and b: "nodes_bounded K s"
  shows "follows (E, la, w) K (sim_crash i s) N"
proof (cases "bm_get (sm_nodes s) i")
  case None
  then show ?thesis using f by (simp add: sim_crash_def follows_cong)
next
  case (Some n)
  from follows_node [OF f Some] obtain l c where "bm_get la i = Some l" "bm_get (nw_nodes N) i = Some c"
      "node_follows (E i) l K n c" .
  moreover from down_follows [OF this(3) b Some]
  have "node_follows (E i) l K (n\<lparr>si_logic := None, si_up := False, si_epoch := si_epoch n + 1\<rparr>) c" .
  ultimately show ?thesis using f Some
    by (auto simp: sim_crash_def follows_def bm_insert_get notes_made_def)
qed

lemma restart_follows:
  assumes f: "follows (E, la, w) K s N" and r: "network_run E K N" and ok: "roster_ok (E, la, w)"
    and b: "nodes_bounded K s" and t: "sim_restart i s = Some s'"
  shows "\<exists>N'. network_run E K N' \<and> follows (E, la, w) K s' N'"
proof (cases "s' = s")
  case False
  with t obtain n where n: "bm_get (sm_nodes s) i = Some n" and st: "sim_start i s = Some s'"
    by (auto simp: sim_restart_def split: option.splits if_splits)
  from follows_node [OF f n] obtain l c where l: "bm_get la i = Some l" and c: "bm_get (nw_nodes N) i = Some c"
      and nf: "node_follows (E i) l K n c" .
  have "dn_id (la_me l) = i" using ok bm_get_in_set [OF l] by (auto simp: roster_ok_def)
  from start_follows [OF f l this c n _ _ _ _ _ st] nf obtain wall N' where
      a: "net_step E wall (Restart i l) N = Some N'" and f': "follows (E, la, w) K s' N'"
    by (auto simp: node_follows_def)
  have "network_run E K N'" by (rule step_follows [OF f r b a]) simp
  with f' show ?thesis by blast
qed (use f r in blast)

lemma run_event_follows:
  assumes f: "follows (E, la, w) K s N" and r: "network_run E K N" and ok: "roster_ok (E, la, w)"
    and b: "nodes_bounded K s" "event_bounded x" and sent: "\<And>to v. x = WDeliver to v \<Longrightarrow> (to, v) \<in> set (nw_sent N)"
    and t: "sim_run_event x s = Some s'"
  shows "\<exists>N'. network_run E K N' \<and> follows (E, la, w) K s' N'"
proof -
  have told: ?thesis if n: "bm_get (sm_nodes s) i = Some n" "si_up n" "sim_tell i n y one s = Some s'"
      and a: "\<And>wall N'. tell E i y wall (\<lambda>c. c) N = Some N' \<Longrightarrow> net_step E wall a N = Some N'"
      and d: "\<And>j. a = Deliver j \<Longrightarrow> opt 0 (b_term (en_body (snd (nw_sent N ! j)))) < u64_max" for i n y one a
  proof -
    from tell_follows [OF f n] obtain wall N' where
        told: "tell E i y wall (\<lambda>c. c) N = Some N'" and f': "follows (E, la, w) K s' N'"
      by blast
    have "network_run E K N'" by (rule step_follows [OF f r b(1) a [OF told] d])
    with f' show ?thesis by blast
  qed
  show ?thesis
  proof (cases x)
    case (WDeliver to v)
    from sent [OF this] obtain j where j: "j < length (nw_sent N)" "nw_sent N ! j = (to, v)"
      by (auto simp: in_set_conv_nth)
    show ?thesis
    proof (cases "\<exists>n. bm_get (sm_nodes s) to = Some n \<and> si_up n")
      case True
      with t WDeliver obtain n where "bm_get (sm_nodes s) to = Some n" "si_up n" "sim_tell to n (Message v) 1 s = Some s'"
        by (auto simp: sim_run_event_def)
      then show ?thesis
        by (rule told [where a = "Deliver j"]) (use j b(2) WDeliver in \<open>auto simp: net_step_def event_bounded_def\<close>)
    next
      case False
      with t WDeliver have "sm_nodes s' = sm_nodes s" "sm_queue s' = sm_queue s" "sm_notes s' = sm_notes s"
        by (auto simp: sim_run_event_def split: option.splits if_splits)
      with f r show ?thesis by (auto intro!: exI [of _ N] follows_cong [OF f])
    qed
  next
    case (WTimer i u epoch)
    show ?thesis
    proof (cases "s' = s")
      case False
      with t WTimer obtain n where "bm_get (sm_nodes s) i = Some n" "si_up n" "sim_tell i n (TimerFired u) 0 s = Some s'"
        by (auto simp: sim_run_event_def split: option.splits if_splits)
      then show ?thesis by (rule told [where a = "Fire i u"]) (simp_all add: net_step_def)
    qed (use f r in blast)
  next
    case (WCrash i)
    with t crash_follows [OF f b(1)] r show ?thesis by (auto simp: sim_run_event_def)
  next
    case (WRestart i)
    with t restart_follows [OF f r ok b(1)] show ?thesis by (simp add: sim_run_event_def)
  next
    case WHeal
    with t have "sm_nodes s' = sm_nodes s" "sm_queue s' = sm_queue s" "sm_notes s' = sm_notes s"
      by (auto simp: sim_run_event_def sim_heal_def)
    with f r show ?thesis by (auto intro!: exI [of _ N] follows_cong [OF f])
  qed
qed

lemma add_follows:
  assumes f: "follows (E, la, w) K s N" and r: "network_run E K N" and ok: "roster_ok (E, la, w)"
    and b: "nodes_bounded K s" and l: "bm_get la i = Some l" and new: "\<not> bm_has (sm_nodes s) i"
    and t: "sim_add_node (first_kept w) i (coordinator_logic (E i) l) s = Some s'"
  shows "\<exists>N'. network_run E K N' \<and> follows (E, la, w) K s' N'"
proof -
  have none: "bm_get (sm_nodes s) i = None" using new by (simp add: bm_has_get)
  have c: "bm_get (nw_nodes N) i = Some (seat l w)" using f l none by (auto simp: follows_def)
  have id: "dn_id (la_me l) = i" using ok bm_get_in_set [OF l] by (auto simp: roster_ok_def)
  from t have st: "sim_start i (put_node i \<lparr>si_logic = None, si_factory = coordinator_logic (E i) l,
      si_durable = first_kept w, si_skew = 0, si_epoch = 0, si_up = False\<rparr> s) = Some s'"
    by (simp add: sim_add_node_def put_node_def)
  from start_follows [OF f l id c _ _ _ _ _ _ st] obtain wall N' where
      a: "net_step E wall (Restart i l) N = Some N'" and f': "follows (E, la, w) K s' N'"
    by (auto simp: bm_insert_get seat_newborn)
  have "network_run E K N'" by (rule step_follows [OF f r b a]) simp
  with f' show ?thesis by blast
qed

lemma skew_follows:
  assumes "follows (E, la, w) K s N"
  shows "follows (E, la, w) K (sim_skew i x s) N"
proof (cases "bm_get (sm_nodes s) i")
  case None
  then show ?thesis using assms by (simp add: sim_skew_def follows_cong)
next
  case (Some n)
  from follows_node [OF assms Some] obtain l c where "bm_get la i = Some l" "bm_get (nw_nodes N) i = Some c"
      "node_follows (E i) l K n c" .
  moreover from this(3) have "node_follows (E i) l K (n\<lparr>si_skew := x\<rparr>) c"
    by (auto simp: node_follows_def split: if_splits)
  ultimately show ?thesis using assms Some
    by (auto simp: sim_skew_def follows_def bm_insert_get notes_made_def)
qed

lemma push_follows:
  assumes "follows S K s N" and "\<forall>to v. x \<noteq> WDeliver to v"
  shows "follows S K (sim_push t x s) N"
proof -
  have "set (sm_queue (sim_push t x s)) = insert \<lparr>e_at = t, e_seq = sm_seq s + 1, e_what = x\<rparr> (set (sm_queue s))"
    by (simp add: sim_push_def queue_push_def set_insort_key)
  with assms show ?thesis by (cases S) (auto simp: follows_def notes_made_def)
qed

lemma act_follows:
  assumes f: "follows (E, la, w) K s N" and r: "network_run E K N" and ok: "roster_ok (E, la, w)"
    and b: "bounded K s" and op: "\<forall>d i f. op \<noteq> OpAdd d i f" "\<forall>i e. op \<noteq> OpInject i e"
    and t: "sim_do op s = Some s'"
  shows "\<exists>N'. network_run E K N' \<and> follows (E, la, w) K s' N'"
proof -
  have nb: "nodes_bounded K s" using b by (simp add: bounded_def)
  show ?thesis
  proof (cases op)
    case OpStep
    show ?thesis
    proof (cases "queue_pop (sm_queue s)")
      case None
      with t OpStep f r show ?thesis by (auto simp: sim_step_def)
    next
      case (Some p)
      then obtain e q where q: "sm_queue s = e # q" and run: "sim_run_event (e_what e) (sim_take e q s) = Some s'"
        using t OpStep by (auto simp: sim_step_def queue_pop_def split: option.splits list.splits)
      have f': "follows (E, la, w) K (sim_take e q s) N"
        by (rule follows_cong [OF f]) (auto simp: sim_take_def q)
      have "nodes_bounded K (sim_take e q s)" using nb by (simp add: nodes_bounded_def sim_take_def)
      moreover have "event_bounded (e_what e)" using b q by (simp add: bounded_def)
      moreover have "(to, v) \<in> set (nw_sent N)" if "e_what e = WDeliver to v" for to v
        by (rule follows_sent [OF f _ that]) (simp add: q)
      ultimately show ?thesis by (rule run_event_follows [OF f' r ok _ _ _ run])
    qed
  next
    case (OpRestart i)
    with t restart_follows [OF f r ok nb] show ?thesis by simp
  next
    case (OpCrash i)
    with t crash_follows [OF f nb] r show ?thesis by auto
  next
    case (OpSkew i x)
    with t skew_follows [OF f] r show ?thesis by auto
  qed (use t f r op in \<open>auto simp: sim_partition_def sim_heal_def sim_heal_at_def sim_crash_at_def
        sim_restart_at_def intro!: exI [of _ N] push_follows follows_cong [OF f]\<close>)
qed

lemma simulated_follows:
  assumes "simulated S K s" and "roster_ok S"
  shows "\<exists>N. network_run (fst S) K N \<and> follows S K s N"
  using assms(1)
proof (induction rule: simulated.induct)
  case (new seed)
  show ?case using network_run.set_up [OF seats_fresh [OF assms(2)]] seats_follow [OF assms(2)] by blast
next
  case (add s E la w i l s')
  then show ?case using add_follows assms(2) by (fastforce simp: bounded_def)
next
  case (act s op s')
  obtain E la w where S: "S = (E, la, w)" by (cases S)
  from act.IH obtain N where "network_run E K N" "follows (E, la, w) K s N" unfolding S by auto
  with act_follows [OF this(2, 1)] act.hyps assms(2) show ?case unfolding S by simp
qed

text \<open>
  \<^bold>\<open>C6.\<close> The simulation refines the network: whatever the seed, the latencies, the losses, the partitions,
  the crashes and the clocks, a simulated run of coordinators is a run of the network, in which each node of
  the simulation stands as the network has it, every message on its way was sent, and the notes are the same.
\<close>

theorem simulation_is_a_run:
  assumes "simulated S K s" and "roster_ok S"
  shows "\<exists>N. network_run (fst S) K N \<and> follows S K s N"
  using assms by (rule simulated_follows)

text \<open>
  \<^bold>\<open>C7.\<close> One manager per term, in the simulation: no two nodes ever note that they lead in the same term,
  under any seed and any schedule of partitions, losses, crashes, restarts and skewed clocks, as long as any
  two quorums of the configurations held have a node in common.
\<close>

theorem simulated_one_manager:
  assumes "simulated S K s" and "roster_ok S" and "crossing K"
    and "(t1, a, NLeader u) \<in> set (sm_notes s)" and "(t2, b, NLeader u) \<in> set (sm_notes s)"
  shows "a = b"
proof -
  from simulated_follows [OF assms(1, 2)] obtain N where "network_run (fst S) K N" "follows S K s N" by blast
  moreover from this(2) have "map snd (sm_notes s) = nw_notes N"
    by (cases S) (simp add: follows_def notes_made_def)
  then have nt: "snd ` set (sm_notes s) = set (nw_notes N)" by (metis list.set_map)
  have "(a, NLeader u) \<in> set (nw_notes N)" "(b, NLeader u) \<in> set (nw_notes N)"
    using imageI [OF assms(4), of snd] imageI [OF assms(5), of snd] nt by simp_all
  ultimately show ?thesis using election_unique [OF run_inv assms(3)] by blast
qed

end
