(* ===== verification/Simulated_Examples.thy ===== *)
theory Simulated_Examples
  imports Simulated_Cluster Election_Examples
begin

text \<open>A simulated cluster run by evaluation, with the conditions of a simulated run checked at each event.\<close>

fun checked_adds ::
  "'w roster \<Rightarrow> node_id list list \<Rightarrow> (node_id, launch) bmap \<Rightarrow> 'w cluster \<Rightarrow> 'w cluster option" where
  "checked_adds S Ks [] s = Some s"
| "checked_adds S Ks ((i, l) # la) s =
     (if bounded (set Ks) s \<and> bm_get (fst (snd S)) i = Some l \<and> \<not> bm_has (sm_nodes s) i
      then (case sim_add_node (first_kept (snd (snd S))) i (coordinator_logic (fst S i) l) s of
              None \<Rightarrow> None
            | Some s \<Rightarrow> checked_adds S Ks la s)
      else None)"

fun checked_steps :: "nat \<Rightarrow> node_id list list \<Rightarrow> 'w cluster \<Rightarrow> 'w cluster option" where
  "checked_steps 0 Ks s = Some s"
| "checked_steps (Suc n) Ks s =
     (if bounded (set Ks) s
      then (case sim_do OpStep s of None \<Rightarrow> None | Some s \<Rightarrow> checked_steps n Ks s)
      else None)"

lemma checked_adds_run:
  "simulated S (set Ks) s \<Longrightarrow> checked_adds S Ks la s = Some s' \<Longrightarrow> simulated S (set Ks) s'"
proof (induction S Ks la s rule: checked_adds.induct)
  case (2 S Ks i l la s)
  obtain E m w where S: "S = (E, m, w)" by (cases S)
  from 2(3) obtain s1 where b: "bounded (set Ks) s" "bm_get m i = Some l" "\<not> bm_has (sm_nodes s) i"
      and a: "sim_add_node (first_kept w) i (coordinator_logic (E i) l) s = Some s1"
      and r: "checked_adds S Ks la s1 = Some s'"
    by (auto simp: S split: if_splits option.splits)
  have "simulated S (set Ks) s1" by (rule simulated.add [OF 2(2) b(1) S b(2, 3) a])
  with 2(1) [of s1] b a r show ?case by (simp add: S)
qed simp

lemma checked_steps_run:
  "simulated S (set Ks) s \<Longrightarrow> checked_steps n Ks s = Some s' \<Longrightarrow> simulated S (set Ks) s'"
proof (induction n Ks s rule: checked_steps.induct)
  case (2 n Ks s)
  from 2(3) obtain s1 where b: "bounded (set Ks) s" "sim_do OpStep s = Some s1" "checked_steps n Ks s1 = Some s'"
    by (auto split: if_splits option.splits)
  have "simulated S (set Ks) s1" by (rule simulated.act [OF 2(2) b(1) _ _ b(2)]) simp_all
  with 2(1) b show ?case by simp
qed simp

section \<open>A node alone\<close>

definition solo_roster :: "unit roster" where
  "solo_roster = (trio_env, [(''1'', sample_launch [''1''] [] ''1'')], ())"

definition solo_run :: "unit cluster option" where
  "solo_run =
     (case checked_adds solo_roster [[''1'']] (fst (snd solo_roster)) (sim_new 1) of
        None \<Rightarrow> None
      | Some s \<Rightarrow> checked_steps 1 [[''1'']] s)"

definition solo :: "unit cluster" where
  "solo = opt (sim_new 1) solo_run"

lemma solo_led: "map_option (\<lambda>s. list_ex (\<lambda>x. x = (255, ''1'', NLeader 1)) (sm_notes s)) solo_run = Some True"
  by code_simp

lemma solo_facts: "solo_run = Some solo" "(255, ''1'', NLeader 1) \<in> set (sm_notes solo)"
proof -
  obtain s where s: "solo_run = Some s" "list_ex (\<lambda>x. x = (255, ''1'', NLeader 1)) (sm_notes s)"
    using solo_led unfolding map_option_eq_Some by blast
  have solo: "solo = s" unfolding solo_def s(1) opt_def by simp
  show "solo_run = Some solo" unfolding solo by (rule s(1))
  show "(255, ''1'', NLeader 1) \<in> set (sm_notes solo)" using s(2) unfolding solo list_ex_iff by blast
qed

lemma solo_simulated: "simulated solo_roster {[''1'']} solo"
proof -
  from solo_facts(1) obtain s where
      s: "checked_adds solo_roster [[''1'']] (fst (snd solo_roster)) (sim_new 1) = Some s"
      "checked_steps 1 [[''1'']] s = Some solo"
    by (auto simp: solo_run_def split: option.splits)
  from checked_steps_run [OF checked_adds_run [OF simulated.new s(1)] s(2)] show ?thesis by simp
qed

lemma solo_ok: "roster_ok solo_roster"
  by (simp add: roster_ok_def solo_roster_def sample_launch_def sample_node_def bm_ok_def bm_keys_def)

section \<open>The theorems on it\<close>

theorem simulation_is_a_run_witness:
  "\<exists>N. network_run trio_env {[''1'']} N \<and> (''1'', NLeader 1) \<in> set (nw_notes N)"
proof -
  from simulation_is_a_run [OF solo_simulated solo_ok] obtain N where
      "network_run trio_env {[''1'']} N" "follows solo_roster {[''1'']} solo N"
    by (auto simp: solo_roster_def)
  moreover from this(2) have "map snd (sm_notes solo) = nw_notes N"
    by (simp add: solo_roster_def follows_def notes_made_def)
  then have "snd ` set (sm_notes solo) = set (nw_notes N)" by (metis list.set_map)
  with imageI [OF solo_facts(2), of snd] have "(''1'', NLeader 1) \<in> set (nw_notes N)" by simp
  ultimately show ?thesis by blast
qed

theorem simulated_one_manager_witness: "{a. \<exists>t. (t, a, NLeader 1) \<in> set (sm_notes solo)} = {''1''}"
proof -
  have "a = ''1''" if "(t, a, NLeader 1) \<in> set (sm_notes solo)" for t a
    by (rule simulated_one_manager [OF solo_simulated solo_ok crossing_single that solo_facts(2)])
  with solo_facts(2) show ?thesis by blast
qed

end
