(* ===== verification/Routing.thy ===== *)
theory Routing
  imports Transport "HOL-Library.Code_Target_Nat"
begin

text \<open>
  Which shard a document belongs to (\<^verbatim>\<open>src/src/search/routing.rs\<close>, \<^verbatim>\<open>shard_of\<close> of \<^verbatim>\<open>store/translog.rs\<close>): the
  Murmur3 hash of the routing value's UTF-16 units, on 32-bit words that wrap, folded first by the routing
  shards and then down to the shards.  Shard counts are natural numbers; they are cast to \<^verbatim>\<open>i64\<close>, which they
  fit.
\<close>

unbundle bit_operations_syntax

section \<open>UTF-16\<close>

text \<open>The code points of a string held as its UTF-8 bytes, and their UTF-16 units.\<close>

fun code_points :: "nat list \<Rightarrow> nat list" where
  "code_points [] = []"
| "code_points (b # bs) =
     (if b < 0x80 then b # code_points bs
      else case bs of
        [] \<Rightarrow> []
      | c # bs' \<Rightarrow>
          if b < 0xE0 then ((b - 0xC0) * 64 + (c - 0x80)) # code_points bs'
          else case bs' of
            [] \<Rightarrow> []
          | d # bs'' \<Rightarrow>
              if b < 0xF0 then ((b - 0xE0) * 4096 + (c - 0x80) * 64 + (d - 0x80)) # code_points bs''
              else case bs'' of
                [] \<Rightarrow> []
              | e # bs''' \<Rightarrow>
                  ((b - 0xF0) * 262144 + (c - 0x80) * 4096 + (d - 0x80) * 64 + (e - 0x80)) # code_points bs''')"

definition utf16_of :: "nat \<Rightarrow> nat list" where
  "utf16_of p =
     (if p < 0x10000 then [p]
      else [0xD800 + (p - 0x10000) div 1024, 0xDC00 + (p - 0x10000) mod 1024])"

definition encode_utf16 :: "string \<Rightarrow> nat list" where
  "encode_utf16 s = concat (map utf16_of (code_points (map of_char s)))"

section \<open>The hash\<close>

definition rotl32 :: "nat \<Rightarrow> 32 word \<Rightarrow> 32 word" where
  "rotl32 k x = push_bit k x OR drop_bit (32 - k) x"

definition murmur_k :: "32 word \<Rightarrow> 32 word" where
  "murmur_k k = rotl32 15 (k * 0xcc9e2d51) * 0x1b873593"

fun murmur_blocks :: "32 word \<Rightarrow> nat list \<Rightarrow> 32 word \<times> nat list" where
  "murmur_blocks h (a # b # c # d # data) =
     (let k = murmur_k (word_of_nat (a + 256 * (b + 256 * (c + 256 * d))))
      in murmur_blocks (rotl32 13 (h XOR k) * 5 + 0xe6546b64) data)"
| "murmur_blocks h data = (h, data)"

definition murmur_tail :: "nat list \<Rightarrow> 32 word" where
  "murmur_tail t =
     (let k = (if length t \<ge> 3 then push_bit 16 (word_of_nat (t ! 2)) else 0);
          k = (if length t \<ge> 2 then k XOR push_bit 8 (word_of_nat (t ! 1)) else k)
      in if t \<noteq> [] then murmur_k (k XOR word_of_nat (t ! 0)) else 0)"

definition murmur_finish :: "32 word \<Rightarrow> 32 word" where
  "murmur_finish h =
     (let h = (h XOR drop_bit 16 h) * 0x85ebca6b;
          h = (h XOR drop_bit 13 h) * 0xc2b2ae35
      in h XOR drop_bit 16 h)"

definition murmur3_x86_32 :: "nat list \<Rightarrow> 32 word \<Rightarrow> 32 word" where
  "murmur3_x86_32 data seed =
     (let (h, t) = murmur_blocks seed data
      in murmur_finish (h XOR murmur_tail t XOR word_of_nat (length data)))"

definition utf16_bytes :: "string \<Rightarrow> nat list" where
  "utf16_bytes s = concat (map (\<lambda>c. [c mod 256, c div 256]) (encode_utf16 s))"

definition routing_hash :: "string \<Rightarrow> 32 word" where
  "routing_hash s = murmur3_x86_32 (utf16_bytes s) 0"

section \<open>The fold\<close>

definition routing_shard :: "string \<Rightarrow> nat \<Rightarrow> nat" where
  "routing_shard s shards = nat (sint (routing_hash s) mod int shards)"

definition routing_shard_offset :: "string \<Rightarrow> 32 word \<Rightarrow> nat \<Rightarrow> nat option \<Rightarrow> nat" where
  "routing_shard_offset s offset shards routing_shards =
     (let shards = max shards 1;
          hash = sint (routing_hash s + offset)
      in case routing_shards of
           Some rns \<Rightarrow>
             if rns \<ge> shards \<and> rns mod shards = 0
             then nat (hash mod int rns) div (rns div shards)
             else nat (hash mod int shards)
         | None \<Rightarrow> nat (hash mod int shards))"

definition routing_shard_in :: "string \<Rightarrow> nat \<Rightarrow> nat option \<Rightarrow> nat" where
  "routing_shard_in s shards routing_shards = routing_shard_offset s 0 shards routing_shards"

text \<open>\<^verbatim>\<open>64 - leading_zeros\<close>: the bits a number takes.\<close>

fun bit_length :: "nat \<Rightarrow> nat" where
  "bit_length n = (if n = 0 then 0 else Suc (bit_length (n div 2)))"

declare bit_length.simps [simp del]

definition default_routing_shards :: "nat \<Rightarrow> nat" where
  "default_routing_shards shards =
     (let shards = max shards 1;
          splits = max (10 - bit_length (shards - 1)) 1
      in shards * 2 ^ splits)"

text \<open>\<^verbatim>\<open>shard_of\<close> and \<^verbatim>\<open>shards_for_routing\<close>: an index's settings are the shard count, its routing shards and
  its partition size.\<close>

record shard_settings =
  ss_shards :: nat
  ss_routing_shards :: "nat option"
  ss_partition :: "nat option"

definition partition_size :: "shard_settings \<Rightarrow> nat" where
  "partition_size st = max (case ss_partition st of Some n \<Rightarrow> n | None \<Rightarrow> 1) 1"

definition shard_of :: "shard_settings \<Rightarrow> string \<Rightarrow> string option \<Rightarrow> nat" where
  "shard_of st i routing =
     (let shards = max (ss_shards st) 1; rns = ss_routing_shards st
      in case routing of
           None \<Rightarrow> routing_shard_in i shards rns
         | Some r \<Rightarrow>
             (let size = partition_size st;
                  offset = (if size = 1 then 0 else word_of_int (sint (routing_hash i) mod int size))
              in routing_shard_offset r offset shards rns))"

definition shards_for_routing :: "shard_settings \<Rightarrow> string \<Rightarrow> nat set" where
  "shards_for_routing st routing =
     (let shards = max (ss_shards st) 1
      in (\<lambda>offset. routing_shard_offset routing (word_of_nat offset) shards (ss_routing_shards st))
           ` {0..<partition_size st})"

section \<open>What it promises\<close>

text \<open>
  \<^bold>\<open>C25.\<close> A document always has a shard: whatever the hash, its sign and the partition offset, the shard
  named is one of the index's.
\<close>

theorem routing_shard_bounds: "routing_shard_offset s offset shards rns < max shards 1"
proof -
  define n where "n = max shards 1"
  have n: "0 < n" by (simp add: n_def)
  let ?h = "sint (routing_hash s + offset)"
  have fold: "nat (?h mod int m) < m" if "0 < m" for m
    using that pos_mod_bound [of "int m" ?h] pos_mod_sign [of "int m" ?h] by linarith
  have "nat (?h mod int r) div (r div n) < n" if "n \<le> r" "r mod n = 0" for r
  proof -
    have "n * (r div n) = r" using that(2) by (auto simp: mod_eq_0_iff_dvd)
    then have "nat (?h mod int r) < n * (r div n)" using fold [of r] that(1) n by simp
    then show ?thesis using less_mult_imp_div_less [of _ n "r div n"] by (simp add: mult.commute)
  qed
  moreover note fold [OF n]
  ultimately show ?thesis
    unfolding routing_shard_offset_def Let_def n_def [symmetric] by (simp split: option.split)
qed

text \<open>
  An index can be split: when the routing shards divide into the larger shard count too, every
  document of a shard goes to one of the shards it is split into, the shard it was on being its new shard divided by the
  factor.
\<close>

theorem split_keeps_shards:
  assumes "0 < shards" and "0 < k" and "rns mod (k * shards) = 0" and "0 < rns"
  shows "routing_shard_in s (k * shards) (Some rns) div k = routing_shard_in s shards (Some rns)"
proof -
  obtain m where m: "rns = k * shards * m" using assms(3) by (auto simp: mod_eq_0_iff_dvd)
  with assms(4) have pos: "0 < m" by (cases m) auto
  let ?x = "nat (sint (routing_hash s + 0) mod int rns)"
  have "k * shards \<le> rns" "shards \<le> rns" "rns mod shards = 0"
    using m pos assms by (simp_all add: mod_mult_left_eq)
  moreover have "rns div (k * shards) = m" "rns div shards = k * m" using m assms(1, 2) by simp_all
  moreover have "?x div m div k = ?x div (k * m)" by (simp add: div_mult2_eq [symmetric] mult.commute)
  moreover have "max shards 1 = shards" "max (k * shards) 1 = k * shards" using assms(1, 2) by auto
  ultimately show ?thesis using assms(3)
    unfolding routing_shard_in_def routing_shard_offset_def Let_def by simp
qed

lemma bit_length_pos: "0 < n \<Longrightarrow> bit_length n = Suc (bit_length (n div 2))"
  by (simp add: bit_length.simps [of n])

text \<open>The routing shards an index gets by default can be split at least once, and never past 1024 first.\<close>

lemma default_routing_shards_divides:
  "\<exists>k \<ge> 1. default_routing_shards shards = max shards 1 * 2 ^ k"
  by (auto simp: default_routing_shards_def Let_def intro!: exI [of _ "max (10 - bit_length (max shards 1 - 1)) 1"])

text \<open>A search by routing value asks every shard a document written with it may be on.\<close>

text \<open>
  \<^bold>\<open>C24.\<close> A search with a routing value misses nothing written with it: whatever its id, a document written with
  the value is on one of the shards such a search asks, in a partitioned index too.
\<close>

theorem routed_search_complete: "shard_of st i (Some r) \<in> shards_for_routing st r"
proof -
  have pos: "0 < partition_size st" by (simp add: partition_size_def)
  show ?thesis
  proof (cases "partition_size st = 1")
    case True
    then show ?thesis by (simp add: shard_of_def shards_for_routing_def Let_def)
  next
    case False
    let ?o = "nat (sint (routing_hash i) mod int (partition_size st))"
    have o: "?o < partition_size st"
      using pos pos_mod_bound [of "int (partition_size st)"] pos_mod_sign [of "int (partition_size st)"]
      by (metis nat_less_iff of_nat_0_less_iff)
    have "int ?o = sint (routing_hash i) mod int (partition_size st)" using pos by simp
    then have e: "word_of_int (sint (routing_hash i) mod int (partition_size st)) = (word_of_nat ?o :: 32 word)"
      by (metis of_int_of_nat_eq)
    show ?thesis
      unfolding shard_of_def shards_for_routing_def Let_def e option.case if_not_P [OF False]
      by (rule imageI) (use o in simp)
  qed
qed

text \<open>The shards OpenSearch itself was seen to put these ids on, for two, three and five shards.\<close>

lemma as_opensearch:
  "map (\<lambda>n. routing_shard_in ''f0'' n (Some (default_routing_shards n))) [2, 3, 5] = [0, 2, 3]"
  "map (\<lambda>n. routing_shard_in ''x'' n (Some (default_routing_shards n))) [2, 3, 5] = [1, 2, 0]"
  by code_simp+

lemma routing_shards_defaults: "map default_routing_shards [1, 2, 3, 5] = [1024, 1024, 768, 640]"
  by code_simp

end
