(* ===== verification/Index_Store.thy ===== *)
theory Index_Store
  imports Routing "HOL-Library.Multiset"
begin

text \<open>
  The state of an index as its writes change it (\<^verbatim>\<open>src/src/store/ids.rs\<close>, \<^verbatim>\<open>translog.rs\<close>, and of
  \<^verbatim>\<open>src/src/api/doc\<close> the writes and deletes themselves): versions, terms and
  sequence numbers, the writes waiting to be handed to the index writer, by shard, and what a realtime read
  sees of them before a refresh.

  The index writer and the index on disk are the search library's.  What of it a call reaches is \<open>writer\<close>: whether it
  opens, which documents it takes, whether a commit succeeds, whether the translog reaches the disk, whether it has outgrown
  its bound once a write is recorded, and what the committed index then holds.  The index is
  the list of its live documents; a reader reads it as of the last commit.  The text of the translog, the mapping and the
  vectors beside the index are not part of this state; what a translog that is full does to it is (\<open>log_write\<close>).
\<close>

unbundle bit_operations_syntax

section \<open>The state\<close>

record doc_meta =
  dm_version :: nat
  dm_live :: bool

record reader_doc =
  rd_id :: string
  rd_seq :: nat
  rd_source :: string

datatype pending_op = Add reader_doc | Delete string

record idx_state =
  ix_name :: string
  ix_settings :: shard_settings
  ix_versions :: "(string, doc_meta) bmap"
  ix_terms :: "(string, nat) bmap"
  ix_routing :: "(string, string) bmap"
  ix_live_ids :: "64 word list"
  ix_ids_loaded :: bool
  ix_pending :: "(string, string option) bmap"
  ix_pending_seq :: "(string, nat) bmap"
  ix_pending_bytes :: nat
  ix_deferred :: "(nat \<times> pending_op) list"
  ix_queued_shard :: "(string, nat) bmap"
  ix_writer :: "pending_op list option"
  ix_realtime :: "reader_doc list"
  ix_reader :: "reader_doc list"
  ix_seq_no :: nat
  ix_applied_term :: nat

record writer =
  wr_opens :: bool
  wr_takes :: "reader_doc \<Rightarrow> bool"
  wr_commits :: bool
  wr_syncs :: bool
  wr_log_full :: "idx_state \<Rightarrow> bool"
  wr_apply :: "pending_op list \<Rightarrow> reader_doc list \<Rightarrow> reader_doc list"

section \<open>Identity, versions and sequence numbers\<close>

definition id_fingerprint :: "string \<Rightarrow> 64 word" where
  "id_fingerprint s =
     (let h = fold (\<lambda>b h. (h XOR word_of_nat (of_char b)) * 0x100000001b3) s 0xcbf29ce484222325;
          h = (h XOR drop_bit 33 h) * 0xff51afd7ed558ccd
      in h XOR drop_bit 33 h)"

definition lookup_id :: "idx_state \<Rightarrow> string \<Rightarrow> bool" where
  "lookup_id st i = list_ex (\<lambda>d. rd_id d = i) (ix_realtime st)"

definition is_live :: "idx_state \<Rightarrow> string \<Rightarrow> bool" where
  "is_live st i =
     (case bm_get (ix_pending st) i of
        Some (Some _) \<Rightarrow> True
      | Some None \<Rightarrow> False
      | None \<Rightarrow>
          (case bm_get (ix_versions st) i of
             Some m \<Rightarrow> dm_live m
           | None \<Rightarrow>
               if \<not> ix_ids_loaded st then lookup_id st i
               else id_fingerprint i \<in> set (ix_live_ids st) \<and> lookup_id st i))"

definition note_live :: "string \<Rightarrow> idx_state \<Rightarrow> idx_state" where
  "note_live i st = st\<lparr>ix_live_ids := List.insert (id_fingerprint i) (ix_live_ids st)\<rparr>"

definition set_version :: "string \<Rightarrow> nat \<Rightarrow> bool \<Rightarrow> idx_state \<Rightarrow> idx_state" where
  "set_version i v live st =
     st\<lparr>ix_versions := bm_insert i \<lparr>dm_version = v, dm_live = live\<rparr> (ix_versions st)\<rparr>"

definition bump_to_seq :: "string \<Rightarrow> bool \<Rightarrow> nat \<Rightarrow> nat option \<Rightarrow> idx_state \<Rightarrow> (nat \<times> nat) \<times> idx_state" where
  "bump_to_seq i live version seq st =
     (let st = set_version i version live st;
          st = (if live then note_live i st else st)
      in case seq of
           Some s \<Rightarrow> ((version, s), st\<lparr>ix_seq_no := max (ix_seq_no st) (s + 1)\<rparr>)
         | None \<Rightarrow> ((version, ix_seq_no st), st\<lparr>ix_seq_no := ix_seq_no st + 1\<rparr>))"

definition bump_to :: "string \<Rightarrow> bool \<Rightarrow> nat \<Rightarrow> idx_state \<Rightarrow> (nat \<times> nat) \<times> idx_state" where
  "bump_to i live version st = bump_to_seq i live version None st"

definition bump :: "string \<Rightarrow> bool \<Rightarrow> bool \<Rightarrow> idx_state \<Rightarrow> (nat \<times> nat) \<times> idx_state" where
  "bump i live existed st =
     (let known = (existed \<or> bm_has (ix_versions st) i);
          version = (if known then (case bm_get (ix_versions st) i of Some m \<Rightarrow> dm_version m | None \<Rightarrow> 1) + 1 else 1);
          st = (if known then set_version i version live st else st);
          st = (if live then note_live i st else set_version i version False st)
      in ((version, ix_seq_no st), st\<lparr>ix_seq_no := ix_seq_no st + 1\<rparr>))"

definition set_replicated_version :: "string \<Rightarrow> nat \<Rightarrow> bool \<Rightarrow> nat \<Rightarrow> idx_state \<Rightarrow> idx_state" where
  "set_replicated_version i version live seq st =
     (let st = set_version i version live st;
          st = (if live then note_live i st else st)
      in st\<lparr>ix_seq_no := max (ix_seq_no st) (seq + 1)\<rparr>)"

definition term_of :: "idx_state \<Rightarrow> string \<Rightarrow> nat" where
  "term_of st i = (case bm_get (ix_terms st) i of Some t \<Rightarrow> t | None \<Rightarrow> 1)"

definition set_term :: "string \<Rightarrow> nat \<Rightarrow> idx_state \<Rightarrow> idx_state" where
  "set_term i t st =
     (if t \<le> 1 then st\<lparr>ix_terms := bm_remove i (ix_terms st)\<rparr>
      else st\<lparr>ix_terms := bm_insert i t (ix_terms st)\<rparr>)"

definition version_of :: "idx_state \<Rightarrow> string \<Rightarrow> nat" where
  "version_of st i = (case bm_get (ix_versions st) i of Some m \<Rightarrow> dm_version m | None \<Rightarrow> 1)"

definition shard_of_doc :: "idx_state \<Rightarrow> string \<Rightarrow> nat" where
  "shard_of_doc st i = shard_of (ix_settings st) i (bm_get (ix_routing st) i)"

section \<open>The queue\<close>

definition DEFERRED_MAX_OPS :: nat where "DEFERRED_MAX_OPS = 2048"
definition PENDING_BUDGET_BYTES :: nat where "PENDING_BUDGET_BYTES = 32 * 1024 * 1024"

fun op_id :: "pending_op \<Rightarrow> string" where
  "op_id (Add d) = rd_id d"
| "op_id (Delete i) = i"

text \<open>
  The writer is handed the operations in turn.  The first it refuses ends the loop; what is returned is what
  it took, what came after the refused one, and whether all were taken.
\<close>

fun hand_over :: "writer \<Rightarrow> (nat \<times> pending_op) list \<Rightarrow> pending_op list \<times> (nat \<times> pending_op) list \<times> bool" where
  "hand_over W [] = ([], [], True)"
| "hand_over W ((shard, op) # rest) =
     (if (case op of Add d \<Rightarrow> wr_takes W d | Delete _ \<Rightarrow> True)
      then (let (took, left, ok) = hand_over W rest in (op # took, left, ok))
      else ([], rest, False))"

definition repin :: "(nat \<times> pending_op) list \<Rightarrow> (string, nat) bmap \<Rightarrow> (string, nat) bmap" where
  "repin left pins =
     fold (\<lambda>(shard, op) pins. case op of Delete i \<Rightarrow> bm_insert i shard pins | Add _ \<Rightarrow> pins) left pins"

definition apply_ops :: "writer \<Rightarrow> nat option \<Rightarrow> idx_state \<Rightarrow> bool \<times> idx_state" where
  "apply_ops W only st =
     (if ix_deferred st = [] then (True, st)
      else
        (let mine = (\<lambda>(shard, _). case only of Some one \<Rightarrow> shard = one | None \<Rightarrow> True);
             go = filter mine (ix_deferred st);
             keep = filter (\<lambda>x. \<not> mine x) (ix_deferred st);
             pins = (case only of
                       Some one \<Rightarrow> filter (\<lambda>p. snd p \<noteq> one) (ix_queued_shard st)
                     | None \<Rightarrow> [])
         in if \<not> wr_opens W then (False, st\<lparr>ix_deferred := keep @ go, ix_queued_shard := pins\<rparr>)
            else
              (let (took, left, ok) = hand_over W go
               in (ok, st\<lparr>ix_deferred := keep @ left, ix_queued_shard := repin left pins,
                          ix_writer := Some ((case ix_writer st of Some w \<Rightarrow> w | None \<Rightarrow> []) @ took)\<rparr>))))"

definition queue_op :: "writer \<Rightarrow> nat \<Rightarrow> pending_op \<Rightarrow> idx_state \<Rightarrow> idx_state" where
  "queue_op W shard op st =
     (let st = st\<lparr>ix_deferred := ix_deferred st @ [(shard, op)]\<rparr>
      in if length (ix_deferred st) \<ge> DEFERRED_MAX_OPS then snd (apply_ops W None st) else st)"

definition queue_op_for :: "writer \<Rightarrow> string \<Rightarrow> nat \<Rightarrow> pending_op \<Rightarrow> idx_state \<Rightarrow> idx_state" where
  "queue_op_for W i shard op st =
     (let shard = (case bm_get (ix_queued_shard st) i of Some s \<Rightarrow> s | None \<Rightarrow> shard);
          st = st\<lparr>ix_queued_shard := bm_insert i shard (ix_queued_shard st)\<rparr>
      in queue_op W shard op st)"

section \<open>Commit and refresh\<close>

text \<open>
  A commit of what the writer holds; both readers of the index are reloaded after it.  \<open>None\<close> when
  it fails, and a writer never opened has nothing to commit.
\<close>

definition commit :: "writer \<Rightarrow> idx_state \<Rightarrow> idx_state option" where
  "commit W st =
     (case ix_writer st of
        None \<Rightarrow> Some st
      | Some ops \<Rightarrow>
          if wr_commits W
          then Some (st\<lparr>ix_writer := Some [], ix_realtime := wr_apply W ops (ix_realtime st)\<rparr>)
          else None)"

definition pending_size :: "string \<times> string option \<Rightarrow> nat" where
  "pending_size p = length (fst p) + (case snd p of Some s \<Rightarrow> length s | None \<Rightarrow> 0) + 48"

definition refresh_everything :: "writer \<Rightarrow> idx_state \<Rightarrow> bool \<times> idx_state" where
  "refresh_everything W st =
     (case apply_ops W None st of
        (False, st) \<Rightarrow> (False, st)
      | (True, st) \<Rightarrow>
          (case commit W st of
             None \<Rightarrow> (False, st)
           | Some st \<Rightarrow>
               (True, st\<lparr>ix_reader := ix_realtime st, ix_pending := [], ix_pending_seq := [],
                         ix_pending_bytes := 0\<rparr>)))"

definition refresh_one_shard :: "writer \<Rightarrow> nat \<Rightarrow> idx_state \<Rightarrow> bool \<times> idx_state" where
  "refresh_one_shard W shard st =
     (case apply_ops W (Some shard) st of
        (False, st) \<Rightarrow> (False, st)
      | (True, st) \<Rightarrow>
          (case commit W st of
             None \<Rightarrow> (False, st)
           | Some st \<Rightarrow>
               (let mine = (\<lambda>i. shard_of_doc st i = shard);
                    pending = bm_retain_keys (\<lambda>i. \<not> mine i) (ix_pending st)
                in (True, st\<lparr>ix_reader := ix_realtime st, ix_pending := pending,
                             ix_pending_seq :=
                               bm_retain_keys (\<lambda>i. \<not> (bm_has (ix_pending st) i \<and> mine i)) (ix_pending_seq st),
                             ix_pending_bytes := sum_list (map pending_size pending)\<rparr>))))"

text \<open>
  Recording a write.  Past \<^verbatim>\<open>TRANSLOG_FLUSH_BYTES\<close> the queue is handed over and committed, and the realtime reader
  reloaded; the pending table stays as it is, and so does everything when the hand-over or the commit fails.
\<close>

definition log_write :: "writer \<Rightarrow> idx_state \<Rightarrow> idx_state" where
  "log_write W st =
     (if wr_log_full W st
      then
        (case apply_ops W None st of
           (False, st) \<Rightarrow> st
         | (True, st) \<Rightarrow>
             if ix_writer st = None then st
             else (case commit W st of None \<Rightarrow> st | Some st \<Rightarrow> st))
      else st)"

definition note_pending_seq :: "string \<Rightarrow> nat \<Rightarrow> idx_state \<Rightarrow> idx_state" where
  "note_pending_seq i seq st = st\<lparr>ix_pending_seq := bm_insert i seq (ix_pending_seq st)\<rparr>"

definition note_pending :: "writer \<Rightarrow> string \<Rightarrow> string option \<Rightarrow> idx_state \<Rightarrow> idx_state" where
  "note_pending W i source st =
     (let st = st\<lparr>ix_pending_bytes := ix_pending_bytes st + pending_size (i, source),
                  ix_pending := bm_insert i source (ix_pending st)\<rparr>
      in if ix_pending_bytes st > PENDING_BUDGET_BYTES
         then
           (case apply_ops W None st of
              (False, st) \<Rightarrow> st
            | (True, st) \<Rightarrow>
                if ix_writer st = None then st
                else (case commit W st of
                        None \<Rightarrow> st
                      | Some st \<Rightarrow> st\<lparr>ix_pending := [], ix_pending_seq := [], ix_pending_bytes := 0\<rparr>))
         else st)"

section \<open>Writing\<close>

text \<open>
  The version a request names and what it means for the write: \<open>None\<close> is a conflict, \<open>Some (Some v)\<close> the version the write is to
  take.  \<^verbatim>\<open>external\<close> and \<^verbatim>\<open>external_gt\<close> are one; every other word is the current version the caller expects.
\<close>

datatype version_type = Internal | External | External_gte

definition version_check :: "idx_state \<Rightarrow> string \<Rightarrow> (nat \<times> version_type) option \<Rightarrow> nat option option" where
  "version_check st i asked =
     (case asked of
        None \<Rightarrow> Some None
      | Some (want, ty) \<Rightarrow>
          (let existed = is_live st i; have = version_of st i
           in case ty of
                External \<Rightarrow> if existed \<and> want \<le> have then None else Some (Some want)
              | External_gte \<Rightarrow> if existed \<and> want < have then None else Some (Some want)
              | Internal \<Rightarrow> if \<not> existed \<or> want \<noteq> have then None else Some None))"

text \<open>
  What a write does once nothing has refused it (\<^verbatim>\<open>write_doc_uncounted\<close> from where it takes a version on), and
  a delete; the term is the shard's primary term as the node reads it then.
\<close>

definition put_doc ::
  "writer \<Rightarrow> nat \<Rightarrow> string \<Rightarrow> string \<Rightarrow> nat option \<Rightarrow> nat option \<Rightarrow> idx_state \<Rightarrow> (nat \<times> nat) \<times> idx_state" where
  "put_doc W term i raw forced forced_seq st =
     (let existed = is_live st i;
          shard = shard_of_doc st i;
          ((version, seq), st) =
            (case forced of Some v \<Rightarrow> bump_to_seq i True v forced_seq st | None \<Rightarrow> bump i True existed st);
          st = (if existed then queue_op_for W i shard (Delete i) st else st);
          st = queue_op_for W i shard (Add \<lparr>rd_id = i, rd_seq = seq, rd_source = raw\<rparr>) st;
          st = log_write W (set_term i term st);
          st = note_pending_seq i seq (note_pending W i (Some raw) st)
      in ((version, seq), st))"

definition delete_doc :: "writer \<Rightarrow> string \<Rightarrow> idx_state \<Rightarrow> (bool \<times> nat \<times> nat) \<times> idx_state" where
  "delete_doc W i st =
     (let existed = is_live st i;
          ((version, seq), st) = bump i False existed st;
          shard = shard_of_doc st i;
          st = (if existed
                then note_pending_seq i seq (note_pending W i None
                       (log_write W (set_term i 1 (queue_op_for W i shard (Delete i) st))))
                else st)
      in ((existed, version, seq), st))"

text \<open>
  A write over HTTP remembers the routing it came with before anything else, since the routing says which shard it
  lands on; it is answered for only once the translog is on disk, and asked to refresh, it refreshes that shard and
  no other.
\<close>

definition set_routing :: "string \<Rightarrow> string option \<Rightarrow> idx_state \<Rightarrow> idx_state" where
  "set_routing i routed st =
     st\<lparr>ix_routing := (case routed of Some r \<Rightarrow> bm_insert i r (ix_routing st) | None \<Rightarrow> bm_remove i (ix_routing st))\<rparr>"

definition index_written ::
  "writer \<Rightarrow> nat \<Rightarrow> string \<Rightarrow> string option \<Rightarrow> string \<Rightarrow> nat option \<Rightarrow> bool \<Rightarrow> idx_state \<Rightarrow> (nat \<times> nat) option \<times> idx_state" where
  "index_written W term i routed raw forced refresh st =
     (let (answer, st) = put_doc W term i raw forced None (set_routing i routed st)
      in if \<not> wr_syncs W then (None, st)
         else (Some answer, if refresh then snd (refresh_one_shard W (shard_of_doc st i) st) else st))"

text \<open>
  A delete over HTTP.  One that names an external version takes it and does the work of \<open>delete_doc\<close> itself, without a number in the
  pending table; the routing is forgotten either way, and the shard refreshed is the one the document was on.  As with a write, this is
  what happens once nothing has refused the request (an expected number, the routing asked for, a blocked index).
\<close>

definition delete_forced :: "writer \<Rightarrow> string \<Rightarrow> nat \<Rightarrow> idx_state \<Rightarrow> (bool \<times> nat \<times> nat) \<times> idx_state" where
  "delete_forced W i v st =
     (let existed = is_live st i;
          ((version, seq), st) = bump_to i False v st;
          shard = shard_of_doc st i;
          st = (if existed
                then note_pending W i None (log_write W (set_term i 1 (queue_op_for W i shard (Delete i) st)))
                else st)
      in ((existed, version, seq), st))"

definition delete_written ::
  "writer \<Rightarrow> string \<Rightarrow> nat option \<Rightarrow> bool \<Rightarrow> idx_state \<Rightarrow> (bool \<times> nat \<times> nat) option \<times> idx_state" where
  "delete_written W i forced refresh st =
     (let shard = shard_of_doc st i;
          (answer, st) = (case forced of Some v \<Rightarrow> delete_forced W i v st | None \<Rightarrow> delete_doc W i st);
          st = set_routing i None st
      in if \<not> wr_syncs W then (None, st)
         else (Some answer, if refresh then snd (refresh_one_shard W shard st) else st))"

text \<open>What a realtime read gets for an id, and what a search can find.\<close>

definition found_in :: "reader_doc list \<Rightarrow> string \<Rightarrow> string option" where
  "found_in docs i = map_option rd_source (find_first (\<lambda>d. rd_id d = i) docs)"

definition realtime :: "idx_state \<Rightarrow> string \<Rightarrow> string option" where
  "realtime st i =
     (case bm_get (ix_pending st) i of Some s \<Rightarrow> s | None \<Rightarrow> found_in (ix_realtime st) i)"

end
