(* ===== verification/Replica.thy ===== *)
theory Replica
  imports Index_Store
begin

text \<open>
  A copy of an index (\<^verbatim>\<open>src/src/api/doc/replica.rs\<close> and the replica's side of
  \<^verbatim>\<open>src/src/cluster/replication.rs\<close>): it takes the primary's writes with the versions, sequence numbers and terms
  the primary gave them; it is filled by a scan of the primary's documents in order of sequence number, a page at a
  time, while the writes that arrive meanwhile are parked; and a new primary's resync sends it everything again and has
  it drop what the new primary does not hold.

  The state a node keeps of one index in the tables \<^verbatim>\<open>ARRIVED\<close> and \<^verbatim>\<open>OpenResyncs\<close> is \<open>copy\<close>, beside the index
  itself, which may be absent.  The mapping and the vectors beside the index are not part of it.
\<close>

record replica_op =
  ro_index :: string
  ro_id :: string
  ro_routing :: "string option"
  ro_version :: nat
  ro_seq :: nat
  ro_term :: nat
  ro_shard :: nat
  ro_source :: "string option"
  ro_doc_term :: "nat option"

section \<open>Applying the primary's writes\<close>

definition held_version :: "idx_state \<Rightarrow> string \<Rightarrow> nat option" where
  "held_version st i =
     (case bm_get (ix_versions st) i of
        Some m \<Rightarrow> Some (dm_version m)
      | None \<Rightarrow> if is_live st i then Some 1 else None)"

definition replicated_routing :: "replica_op \<Rightarrow> idx_state \<Rightarrow> idx_state" where
  "replicated_routing x st =
     (case (ro_routing x, ro_source x) of
        (Some r, _) \<Rightarrow> st\<lparr>ix_routing := bm_insert (ro_id x) r (ix_routing st)\<rparr>
      | (None, Some _) \<Rightarrow> st\<lparr>ix_routing := bm_remove (ro_id x) (ix_routing st)\<rparr>
      | (None, None) \<Rightarrow> st)"

definition apply_replicated_inner :: "writer \<Rightarrow> replica_op \<Rightarrow> bool \<Rightarrow> idx_state \<Rightarrow> bool \<times> idx_state" where
  "apply_replicated_inner W x force st =
     (let i = ro_id x; newer = (ro_term x > ix_applied_term st)
      in if \<not> force \<and> \<not> newer \<and> (case held_version st i of Some have \<Rightarrow> have \<ge> ro_version x | None \<Rightarrow> False)
         then (False, st)
         else
           (let st = (if \<not> force \<and> newer then st\<lparr>ix_applied_term := ro_term x\<rparr> else st);
                existed = is_live st i;
                st = replicated_routing x st;
                st = set_replicated_version i (ro_version x) (ro_source x \<noteq> None) (ro_seq x) st;
                written_in = (case ro_doc_term x of Some t \<Rightarrow> t | None \<Rightarrow> ro_term x);
                st = set_term i (if ro_source x \<noteq> None then written_in else 1) st;
                shard = shard_of_doc st i;
                st = (if existed then queue_op_for W i shard (Delete i) st else st);
                st = (case ro_source x of
                        Some raw \<Rightarrow> queue_op_for W i shard (Add \<lparr>rd_id = i, rd_seq = ro_seq x, rd_source = raw\<rparr>) st
                      | None \<Rightarrow> st);
                st = log_write W st
            in (True, note_pending_seq i (ro_seq x) (note_pending W i (ro_source x) st))))"

definition apply_replicated :: "writer \<Rightarrow> replica_op \<Rightarrow> idx_state \<Rightarrow> bool \<times> idx_state" where
  "apply_replicated W x st = apply_replicated_inner W x False st"

definition apply_recovered :: "writer \<Rightarrow> replica_op \<Rightarrow> idx_state \<Rightarrow> bool \<times> idx_state" where
  "apply_recovered W x st =
     apply_replicated_inner W x True (st\<lparr>ix_applied_term := max (ix_applied_term st) (ro_term x)\<rparr>)"

section \<open>The scan\<close>

definition every_shard :: nat where "every_shard = 2 ^ 32 - 1"

definition in_scan :: "idx_state \<Rightarrow> nat \<Rightarrow> string \<Rightarrow> bool" where
  "in_scan st shard i = (shard = every_shard \<or> shard_of_doc st i mod 2 ^ 32 = shard)"

definition scanned_op :: "nat \<Rightarrow> idx_state \<Rightarrow> nat \<Rightarrow> string \<Rightarrow> nat \<Rightarrow> string option \<Rightarrow> replica_op" where
  "scanned_op term st shard i seq source =
     \<lparr>ro_index = ix_name st, ro_id = i, ro_routing = bm_get (ix_routing st) i, ro_version = version_of st i,
      ro_seq = seq, ro_term = term, ro_shard = shard, ro_source = source, ro_doc_term = Some (term_of st i)\<rparr>"

definition pending_seq_of :: "idx_state \<Rightarrow> string \<Rightarrow> nat" where
  "pending_seq_of st i = (case bm_get (ix_pending_seq st) i of Some s \<Rightarrow> s | None \<Rightarrow> 2 ^ 64 - 2)"

text \<open>
  \<open>found\<close> is keyed by sequence number and id.  The page is cut on a number: the \<open>page\<close> smallest of the
  pending table and of the index together.  The documents of the index are read in order of sequence number, by
  address where two have one.
\<close>

definition scan_pending :: "nat \<Rightarrow> idx_state \<Rightarrow> nat \<Rightarrow> nat \<Rightarrow> (nat \<times> string, replica_op) bmap" where
  "scan_pending term st shard from_seq =
     fold (\<lambda>(i, source) found.
             if \<not> in_scan st shard i \<or> pending_seq_of st i < from_seq then found
             else bm_insert (pending_seq_of st i, i) (scanned_op term st shard i (pending_seq_of st i) source) found)
          (ix_pending st) []"

definition scan_picked :: "idx_state \<Rightarrow> nat \<Rightarrow> reader_doc list" where
  "scan_picked st from_seq = sort_key rd_seq (filter (\<lambda>d. from_seq \<le> rd_seq d) (ix_realtime st))"

definition scan_cut :: "nat \<Rightarrow> nat list \<Rightarrow> nat option" where
  "scan_cut page numbers = (if length numbers > page then Some (numbers ! (page - 1)) else None)"

definition under_cut :: "nat option \<Rightarrow> nat \<Rightarrow> bool" where
  "under_cut limit seq = (case limit of Some c \<Rightarrow> seq \<le> c | None \<Rightarrow> True)"

definition scan_reader ::
  "nat \<Rightarrow> idx_state \<Rightarrow> nat \<Rightarrow> reader_doc list \<Rightarrow> (nat \<times> string, replica_op) bmap \<Rightarrow> (nat \<times> string, replica_op) bmap" where
  "scan_reader term st shard docs found =
     fold (\<lambda>d found.
             if (bm_has (ix_pending st) (rd_id d) \<and> in_scan st shard (rd_id d)) \<or> \<not> in_scan st shard (rd_id d) then found
             else bm_insert (rd_seq d, rd_id d) (scanned_op term st shard (rd_id d) (rd_seq d) (Some (rd_source d))) found)
          docs found"

definition scan_replicated :: "nat \<Rightarrow> idx_state \<Rightarrow> nat \<Rightarrow> nat \<Rightarrow> nat \<Rightarrow> replica_op list \<times> nat option" where
  "scan_replicated term st shard from_seq page =
     (let page = max page 1;
          found = scan_pending term st shard from_seq;
          picked = scan_picked st from_seq;
          numbers = sort (map fst (bm_keys found) @ map rd_seq picked);
          limit = scan_cut page numbers;
          more = (case limit of Some c \<Rightarrow> numbers \<noteq> [] \<and> last numbers > c | None \<Rightarrow> False);
          found = (if limit \<noteq> None then bm_retain_keys (\<lambda>k. under_cut limit (fst k)) found else found);
          found = scan_reader term st shard (takeWhile (\<lambda>d. under_cut limit (rd_seq d)) picked) found
      in (bm_values found, if more then map_option Suc limit else None))"

section \<open>A copy on its node\<close>

record copy =
  cp_index :: "idx_state option"
  cp_arrived :: "replica_op list option"
  cp_resync :: "(nat \<times> string list) option"

definition seen_by_resync :: "replica_op list \<Rightarrow> copy \<Rightarrow> copy" where
  "seen_by_resync xs c =
     (case cp_resync c of
        Some (term, seen) \<Rightarrow>
          c\<lparr>cp_resync := Some (term, fold (\<lambda>x seen. List.insert (ro_id x) seen) (filter (\<lambda>x. ro_term x \<ge> term) xs) seen)\<rparr>
      | None \<Rightarrow> c)"

definition mark_filling :: "copy \<Rightarrow> copy" where
  "mark_filling c = c\<lparr>cp_arrived := Some (case cp_arrived c of Some w \<Rightarrow> w | None \<Rightarrow> [])\<rparr>"

definition filling :: "copy \<Rightarrow> bool" where
  "filling c = (cp_arrived c \<noteq> None)"

definition park :: "replica_op list \<Rightarrow> copy \<Rightarrow> bool \<times> copy" where
  "park xs c =
     (case cp_arrived c of
        Some w \<Rightarrow> (True, c\<lparr>cp_arrived := Some (w @ xs)\<rparr>)
      | None \<Rightarrow> (False, c))"

definition apply_batch :: "writer \<Rightarrow> replica_op list \<Rightarrow> idx_state \<Rightarrow> nat \<times> idx_state" where
  "apply_batch W xs st =
     fold (\<lambda>x (applied, st). let (taken, st) = apply_replicated W x st in (if taken then applied + 1 else applied, st)) xs (0, st)"

text \<open>
  The batch of a replica write, once the sender is known to be the primary: noted for an open resync, parked while the
  copy is being filled, applied otherwise.  The answer is how many operations were taken, or an error.
\<close>

datatype write_answer = Applied nat | WriteError string | Trimmed nat | Noted

definition take_write :: "writer \<Rightarrow> replica_op list \<Rightarrow> string \<Rightarrow> copy \<Rightarrow> write_answer \<times> copy" where
  "take_write W xs refresh c =
     (let c = seen_by_resync xs c
      in case park xs c of
           (True, c) \<Rightarrow> (Applied (length xs), c)
         | (False, c) \<Rightarrow>
             (case cp_index c of
                None \<Rightarrow> (WriteError ''no copy of the index on this node'', c)
              | Some st \<Rightarrow>
                  (let (applied, st) = apply_batch W xs st
                   in if \<not> wr_syncs W then (WriteError ''translog'', c\<lparr>cp_index := Some st\<rparr>)
                      else (Applied applied,
                            c\<lparr>cp_index := Some (if refresh = ''true'' \<or> refresh = ''wait_for''
                                                  then snd (refresh_everything W st) else st)\<rparr>))))"

definition resync_begin :: "nat \<Rightarrow> copy \<Rightarrow> write_answer \<times> copy" where
  "resync_begin term c = (Noted, if filling c then c else c\<lparr>cp_resync := Some (term, [])\<rparr>)"

definition trim_op :: "nat \<Rightarrow> nat \<Rightarrow> string \<Rightarrow> idx_state \<Rightarrow> replica_op" where
  "trim_op term seq i st =
     \<lparr>ro_index = ix_name st, ro_id = i, ro_routing = None, ro_version = version_of st i + 1, ro_seq = seq, ro_term = term,
      ro_shard = shard_of_doc st i mod 2 ^ 32, ro_source = None, ro_doc_term = None\<rparr>"

definition doomed :: "nat \<Rightarrow> string list \<Rightarrow> idx_state \<Rightarrow> string list" where
  "doomed known_term seen st =
     map ro_id (filter (\<lambda>x. ro_source x \<noteq> None \<and> ro_id x \<notin> set seen)
                  (fst (scan_replicated known_term st every_shard 0 (2 ^ 64 - 1))))"

definition trim :: "writer \<Rightarrow> nat \<Rightarrow> (nat \<times> string) list \<Rightarrow> idx_state \<Rightarrow> idx_state" where
  "trim W term numbered st = fold (\<lambda>(seq, i) st. snd (apply_replicated W (trim_op term seq i st) st)) numbered st"

definition resync_end :: "writer \<Rightarrow> nat \<Rightarrow> nat \<Rightarrow> copy \<Rightarrow> write_answer \<times> copy" where
  "resync_end W known_term term c =
     (case cp_resync c of
        Some (t, seen) \<Rightarrow>
          if t \<noteq> term then (Noted, c)
          else
            (let c = c\<lparr>cp_resync := None\<rparr>
             in case cp_index c of
                  None \<Rightarrow> (Trimmed 0, c)
                | Some st \<Rightarrow>
                    (let gone = doomed known_term seen st;
                         st = trim W term (enumerate (ix_seq_no st + 1) gone) st
                     in if \<not> wr_syncs W then (WriteError ''translog'', c\<lparr>cp_index := Some st\<rparr>)
                        else (Trimmed (length gone), c\<lparr>cp_index := Some (snd (refresh_everything W st))\<rparr>)))
      | None \<Rightarrow> (Noted, c))"

section \<open>Filling a copy\<close>

text \<open>
  \<open>fill_page\<close> applies one page of the scan; \<open>drain\<close> is one round of \<^verbatim>\<open>apply_what_waited\<close>: it takes what was parked so
  far, or, when nothing was, closes the recovery.  Its answer is whether the recovery goes on, is over, or failed.
\<close>

definition fill_page :: "writer \<Rightarrow> bool \<Rightarrow> replica_op list \<Rightarrow> idx_state \<Rightarrow> idx_state" where
  "fill_page W overwrite xs st =
     fold (\<lambda>x st. snd (if overwrite then apply_recovered W x st else apply_replicated W x st)) xs st"

datatype fill_answer = GoesOn | Filled | FillError string

definition drain :: "writer \<Rightarrow> copy \<Rightarrow> fill_answer \<times> copy" where
  "drain W c =
     (case cp_arrived c of
        Some (x # xs) \<Rightarrow>
          (let c = c\<lparr>cp_arrived := Some []\<rparr>
           in case cp_index c of
                None \<Rightarrow> (FillError ''no copy of the index here to finish'', c\<lparr>cp_arrived := None\<rparr>)
              | Some st \<Rightarrow>
                  (let c = c\<lparr>cp_index := Some (snd (apply_batch W (x # xs) st))\<rparr>
                   in if wr_syncs W then (GoesOn, c) else (FillError ''translog'', c)))
      | _ \<Rightarrow> (Filled, c\<lparr>cp_arrived := None\<rparr>))"

definition open_fill :: "copy \<Rightarrow> copy" where
  "open_fill c = c\<lparr>cp_arrived := Some [], cp_resync := None\<rparr>"

definition failed_fill :: "bool \<Rightarrow> copy \<Rightarrow> copy" where
  "failed_fill held_before c =
     c\<lparr>cp_arrived := None, cp_index := (if held_before then cp_index c else None)\<rparr>"

text \<open>
  The pages of a scan of one index that does not change meanwhile, from a number on.  The loop of
  \<^verbatim>\<open>catch_up_by_scan\<close> and of \<^verbatim>\<open>resync\<close> asks again only from a number larger than the last.
\<close>

partial_function (option) scan_pages :: "nat \<Rightarrow> idx_state \<Rightarrow> nat \<Rightarrow> nat \<Rightarrow> nat \<Rightarrow> replica_op list option" where
  "scan_pages term st shard page from_seq =
     (case scan_replicated term st shard from_seq page of
        (xs, None) \<Rightarrow> Some xs
      | (xs, Some n) \<Rightarrow>
          if n > from_seq then Option.bind (scan_pages term st shard page n) (\<lambda>ys. Some (xs @ ys)) else Some xs)"

end
