(* ===== verification/Replication.thy ===== *)
theory Replication
  imports Replica Coordinator_State
begin

text \<open>
  The primary's side of replication (\<^verbatim>\<open>src/src/cluster/replication.rs\<close>): the checkpoints of the copies, where a
  write is copied to, the copying and its bookkeeping with the cluster manager, the decision to acknowledge, the reports
  that could not be delivered; and the whole handler of a write on a replica.

  The other nodes are arguments: \<open>answers\<close> gives what the node written to answers to a batch, \<open>tells\<close>
  whether the manager answers a report, which may depend on how many reports went before.  What the
  node reads of the cluster changes while a write is copied, so every reading of it is an argument of its own (\<open>finish_readings\<close>).
  Trace lines and debug notes are left out; of the text of a refusal only the words the sender looks for are kept, and the
  two seconds a replica waits for an index it has still to create are left out (the index is there or it is not).
\<close>

section \<open>What the primary records for its copies\<close>

definition put_record :: "writer \<Rightarrow> nat \<Rightarrow> string \<Rightarrow> string \<Rightarrow> nat option \<Rightarrow> nat option \<Rightarrow> idx_state \<Rightarrow> replica_op" where
  "put_record W term i raw forced forced_seq st =
     (let ((version, seq), _) = put_doc W term i raw forced forced_seq st
      in \<lparr>ro_index = ix_name st, ro_id = i, ro_routing = bm_get (ix_routing st) i, ro_version = version, ro_seq = seq,
          ro_term = term, ro_shard = shard_of_doc st i mod 2 ^ 32, ro_source = Some raw, ro_doc_term = None\<rparr>)"

definition delete_record :: "writer \<Rightarrow> nat \<Rightarrow> string \<Rightarrow> idx_state \<Rightarrow> replica_op option" where
  "delete_record W term i st =
     (let ((existed, version, seq), _) = delete_doc W i st
      in if existed
         then Some \<lparr>ro_index = ix_name st, ro_id = i, ro_routing = None, ro_version = version, ro_seq = seq,
                    ro_term = term, ro_shard = shard_of_doc (snd (bump i False existed st)) i mod 2 ^ 32,
                    ro_source = None, ro_doc_term = None\<rparr>
         else None)"

section \<open>Checkpoints\<close>

type_synonym tracker = "(string, (node_id, nat) bmap) bmap"

definition tracker_acked :: "string \<Rightarrow> node_id \<Rightarrow> nat \<Rightarrow> tracker \<Rightarrow> tracker" where
  "tracker_acked index node seq t =
     (let m = (case bm_get t index of Some m \<Rightarrow> m | None \<Rightarrow> []);
          e = (case bm_get m node of Some e \<Rightarrow> e | None \<Rightarrow> 0)
      in bm_insert index (bm_insert node (max e seq) m) t)"

definition global_checkpoint :: "tracker \<Rightarrow> string \<Rightarrow> nat \<Rightarrow> node_id list \<Rightarrow> nat" where
  "global_checkpoint t index primary_max in_sync =
     (case bm_get t index of
        Some m \<Rightarrow> fold (\<lambda>n g. min g (case bm_get m n of Some e \<Rightarrow> e | None \<Rightarrow> 0)) in_sync primary_max
      | None \<Rightarrow> if in_sync \<noteq> [] then 0 else primary_max)"

definition local_checkpoint :: "tracker \<Rightarrow> string \<Rightarrow> node_id \<Rightarrow> nat option" where
  "local_checkpoint t index node = (case bm_get t index of Some m \<Rightarrow> bm_get m node | None \<Rightarrow> None)"

definition checkpoints :: "tracker \<Rightarrow> node_id option \<Rightarrow> cluster_state \<Rightarrow> string \<Rightarrow> nat \<Rightarrow> nat \<times> nat" where
  "checkpoints t me s index primary_max =
     (let in_sync = filter (\<lambda>n. Some n \<noteq> me)
            (List.map_filter sr_node
               (filter (\<lambda>c. \<not> sr_primary c \<and> (sr_state c = Started \<or> sr_state c = Relocating)) (rt_shards_of (cs_routing s) index)))
      in (primary_max, global_checkpoint t index primary_max in_sync))"

section \<open>Where a write is copied to\<close>

definition takes_writes :: "shard_routing \<Rightarrow> bool" where
  "takes_writes c = (sr_state c = Started \<or> sr_state c = Relocating \<or> sr_state c = Initializing)"

definition is_target :: "node_id \<Rightarrow> shard_routing \<Rightarrow> bool" where
  "is_target me c =
     (takes_writes c
      \<and> \<not> (sr_primary c \<and> (sr_relocating_node c = None \<or> sr_state c = Relocating))
      \<and> sr_node c \<noteq> None \<and> sr_node c \<noteq> Some me)"

definition targets :: "cluster_state \<Rightarrow> node_id \<Rightarrow> string \<Rightarrow> (node_id, bool) bmap" where
  "targets s me index =
     fold (\<lambda>c by_node.
             if \<not> is_target me c then by_node
             else (let n = the (sr_node c);
                       e = (case bm_get by_node n of Some e \<Rightarrow> e | None \<Rightarrow> True)
                   in bm_insert n (e \<and> sr_state c \<noteq> Initializing) by_node))
          (rt_shards_of (cs_routing s) index) []"

definition here_id :: "cluster_state \<Rightarrow> node_id \<Rightarrow> string \<Rightarrow> string \<Rightarrow> bool" where
  "here_id s me index i =
     list_ex (\<lambda>c. sr_node c = Some me \<and> sr_allocation_id c = Some i) (rt_shards_of (cs_routing s) index)"

definition primary_term :: "cluster_state \<Rightarrow> string \<Rightarrow> nat \<Rightarrow> nat" where
  "primary_term s index shard =
     (case bm_get (cs_indices s) index of
        Some m \<Rightarrow> (case bm_get (im_primary_terms m) shard of Some t \<Rightarrow> t | None \<Rightarrow> 1)
      | None \<Rightarrow> 1)"

section \<open>Reports to the manager\<close>

record shard_report =
  rp_action :: string
  rp_index :: string
  rp_shard :: nat
  rp_allocation_id :: string
  rp_node :: "node_id option"
  rp_message :: "string option"

record reports =
  rs_sent :: "(shard_report \<times> bool) list"
  rs_pending :: "shard_report list"

definition retry_later :: "shard_report \<Rightarrow> reports \<Rightarrow> reports" where
  "retry_later r s =
     (if list_ex (\<lambda>p. rp_action p = rp_action r \<and> rp_index p = rp_index r \<and> rp_allocation_id p = rp_allocation_id r) (rs_pending s)
      then s else s\<lparr>rs_pending := rs_pending s @ [r]\<rparr>)"

text \<open>One report: whether it landed, and the report waiting for another try when it did not.\<close>

definition tell_manager :: "(nat \<Rightarrow> shard_report \<Rightarrow> bool) \<Rightarrow> node_id option \<Rightarrow> shard_report \<Rightarrow> reports \<Rightarrow> bool \<times> reports" where
  "tell_manager tells manager r s =
     (case manager of
        None \<Rightarrow> (False, retry_later r s)
      | Some _ \<Rightarrow>
          (let landed = tells (length (rs_sent s)) r;
               s = s\<lparr>rs_sent := rs_sent s @ [(r, landed)]\<rparr>
           in (landed, if landed then s else retry_later r s)))"

definition tell_all :: "(nat \<Rightarrow> shard_report \<Rightarrow> bool) \<Rightarrow> node_id option \<Rightarrow> shard_report list \<Rightarrow> bool \<times> reports \<Rightarrow> bool \<times> reports" where
  "tell_all tells manager rs x =
     fold (\<lambda>r (told, s). let (landed, s) = tell_manager tells manager r s in (told \<and> landed, s)) rs x"

section \<open>Copying the writes out\<close>

datatype copy_reply = Took | Refused string | NodeLeft | NoReply | TaskDied

record write_failure =
  wf_node :: node_id
  wf_reason :: string

record ack_count =
  ak_total :: nat
  ak_successful :: nat
  ak_failed :: nat
  ak_failures :: "write_failure list"
  ak_manager_unreachable :: bool
  ak_wrote_to :: "node_id list"

definition ack_default :: ack_count where
  "ack_default =
     \<lparr>ak_total = 0, ak_successful = 0, ak_failed = 0, ak_failures = [], ak_manager_unreachable = False, ak_wrote_to = []\<rparr>"

type_synonym batches = "(node_id \<times> string, replica_op list \<times> bool) bmap"
type_synonym acks = "(string, ack_count) bmap"

definition put_batch :: "replica_op \<Rightarrow> node_id \<times> bool \<Rightarrow> batches \<Rightarrow> batches" where
  "put_batch x p b =
     (let e = (case bm_get b (fst p, ro_index x) of Some e \<Rightarrow> e | None \<Rightarrow> ([], True))
      in bm_insert (fst p, ro_index x) (fst e @ [x], snd e \<and> snd p) b)"

definition batch_one :: "cluster_state \<Rightarrow> node_id \<Rightarrow> replica_op \<Rightarrow> batches \<Rightarrow> batches" where
  "batch_one s me x b = fold (put_batch x) (targets s me (ro_index x)) b"

definition count_one :: "cluster_state \<Rightarrow> replica_op \<Rightarrow> acks \<Rightarrow> acks" where
  "count_one s x acks =
     (let a = (case bm_get acks (ro_index x) of Some a \<Rightarrow> a | None \<Rightarrow> ack_default);
          total = 1 + (case bm_get (cs_indices s) (ro_index x) of Some m \<Rightarrow> im_number_of_replicas m | None \<Rightarrow> 0)
      in bm_insert (ro_index x) (a\<lparr>ak_total := total, ak_successful := 1\<rparr>) acks)"

text \<open>The copies of a node whose batch failed, as they are reported.\<close>

definition failed_reports :: "cluster_state \<Rightarrow> string \<Rightarrow> node_id \<Rightarrow> string \<Rightarrow> shard_report list" where
  "failed_reports s index node reason =
     List.map_filter
       (\<lambda>c. if sr_node c = Some node \<and> \<not> sr_primary c
             then map_option (\<lambda>a. \<lparr>rp_action = SHARD_FAILED, rp_index = index, rp_shard = sr_shard c, rp_allocation_id = a,
                                   rp_node = None,
                                   rp_message = Some (''replication to ['' @ node @ ''] failed: '' @ reason)\<rparr>) (sr_allocation_id c)
             else None)
       (rt_shards_of (cs_routing s) index)"

definition failure_of :: "copy_reply \<Rightarrow> string option" where
  "failure_of r =
     (case r of
        Took \<Rightarrow> None
      | Refused why \<Rightarrow> Some why
      | NodeLeft \<Rightarrow> Some ''the node left the cluster''
      | _ \<Rightarrow> Some ''no answer from the node'')"

record copying =
  cy_acks :: acks
  cy_acked :: "(string, node_id list) bmap"
  cy_tracker :: tracker
  cy_told :: bool
  cy_reports :: reports

definition acked_of :: "copying \<Rightarrow> string \<Rightarrow> node_id list" where
  "acked_of y index = (case bm_get (cy_acked y) index of Some ns \<Rightarrow> ns | None \<Rightarrow> [])"

definition take_answer ::
  "(nat \<Rightarrow> shard_report \<Rightarrow> bool) \<Rightarrow> cluster_state \<Rightarrow> replica_op list
    \<Rightarrow> (node_id \<times> string) \<times> bool \<times> copy_reply \<Rightarrow> copying \<Rightarrow> copying" where
  "take_answer tells s xs answer y =
     (case answer of ((node, index), in_sync, reply) \<Rightarrow>
        let a = (case bm_get (cy_acks y) index of Some a \<Rightarrow> a | None \<Rightarrow> ack_default)
        in case failure_of reply of
             None \<Rightarrow>
               (let top = (case map ro_seq (filter (\<lambda>x. ro_index x = index) xs) of [] \<Rightarrow> 0 | ns \<Rightarrow> Max (set ns))
                in y\<lparr>cy_acks := bm_insert index a (cy_acks y),
                     cy_acked := bm_insert index (acked_of y index @ [node]) (cy_acked y),
                     cy_tracker := tracker_acked index node top (cy_tracker y)\<rparr>)
           | Some reason \<Rightarrow>
               (let a = (if in_sync \<and> reply \<noteq> NodeLeft
                         then a\<lparr>ak_failed := ak_failed a + 1,
                                ak_failures := ak_failures a @ [\<lparr>wf_node = node, wf_reason = reason\<rparr>]\<rparr>
                         else a);
                    (told, reports) =
                      tell_all tells (cs_cluster_manager s) (failed_reports s index node reason) (cy_told y, cy_reports y)
                in y\<lparr>cy_acks := bm_insert index a (cy_acks y), cy_told := told, cy_reports := reports\<rparr>))"

text \<open>The copies of an index that took the write, and the ids of the in-sync set that did not.\<close>

definition fine_ids :: "cluster_state \<Rightarrow> node_id \<Rightarrow> string \<Rightarrow> node_id list \<Rightarrow> string list" where
  "fine_ids s me index acked =
     List.map_filter
       (\<lambda>c. if (sr_node c = Some me \<or> (case sr_node c of Some n \<Rightarrow> n \<in> set acked | None \<Rightarrow> False)) \<and> takes_writes c
             then sr_allocation_id c else None)
       (rt_shards_of (cs_routing s) index)"

definition stale_reports :: "cluster_state \<Rightarrow> node_id \<Rightarrow> string \<Rightarrow> node_id list \<Rightarrow> shard_report list" where
  "stale_reports s me index acked =
     (case bm_get (cs_indices s) index of
        None \<Rightarrow> []
      | Some m \<Rightarrow>
          concat (map (\<lambda>(shard, ids).
                    map (\<lambda>i. \<lparr>rp_action = SHARD_STALE, rp_index = index, rp_shard = shard, rp_allocation_id = i,
                              rp_node = None, rp_message = None\<rparr>)
                        (filter (\<lambda>i. i \<notin> set (fine_ids s me index acked)) ids))
                  (im_in_sync_allocations m)))"

definition retire_stale :: "(nat \<Rightarrow> shard_report \<Rightarrow> bool) \<Rightarrow> cluster_state \<Rightarrow> node_id \<Rightarrow> copying \<Rightarrow> copying" where
  "retire_stale tells s me y =
     (let (told, reports) =
        fold (\<lambda>index x. tell_all tells (cs_cluster_manager s) (stale_reports s me index (acked_of y index)) x)
             (bm_keys (cy_acks y)) (cy_told y, cy_reports y)
      in y\<lparr>cy_told := told, cy_reports := reports\<rparr>)"

definition holders :: "cluster_state \<Rightarrow> string \<Rightarrow> nat \<Rightarrow> node_id list \<Rightarrow> nat" where
  "holders s index shard acked =
     length (filter (\<lambda>c. sr_shard c = shard \<and> \<not> sr_primary c \<and> (sr_state c = Started \<or> sr_state c = Relocating)
                         \<and> (case sr_node c of Some n \<Rightarrow> n \<in> set acked | None \<Rightarrow> False))
                    (rt_shards_of (cs_routing s) index))"

definition count_copies :: "cluster_state \<Rightarrow> replica_op list \<Rightarrow> copying \<Rightarrow> acks" where
  "count_copies s xs y =
     bm_map (\<lambda>index a.
               let acked = acked_of y index;
                   shards = map ro_shard (filter (\<lambda>x. ro_index x = index) xs);
                   fewest = (case shards of [] \<Rightarrow> 0 | _ \<Rightarrow> Min ((\<lambda>shard. holders s index shard acked) ` set shards))
               in a\<lparr>ak_wrote_to := acked, ak_successful := min (1 + fewest) (max (ak_total a) 1),
                    ak_manager_unreachable := (ak_manager_unreachable a \<or> \<not> cy_told y)\<rparr>)
            (cy_acks y)"

definition replicate_writes ::
  "(node_id \<Rightarrow> string \<Rightarrow> replica_op list \<Rightarrow> copy_reply) \<Rightarrow> (nat \<Rightarrow> shard_report \<Rightarrow> bool) \<Rightarrow> node_id option \<Rightarrow> cluster_state
    \<Rightarrow> replica_op list \<Rightarrow> tracker \<Rightarrow> reports \<Rightarrow> acks \<times> tracker \<times> reports" where
  "replicate_writes answers tells here s xs tracker reports =
     (case here of
        None \<Rightarrow> ([], tracker, reports)
      | Some me \<Rightarrow>
          (let batches = fold (batch_one s me) xs [];
               got = filter (\<lambda>a. snd (snd a) \<noteq> TaskDied)
                       (map (\<lambda>((node, index), (batch, in_sync)). ((node, index), in_sync, answers node index batch)) batches);
               y = \<lparr>cy_acks = fold (count_one s) xs [], cy_acked = [], cy_tracker = tracker, cy_told = True, cy_reports = reports\<rparr>;
               y = fold (take_answer tells s xs) got y;
               y = retire_stale tells s me y
           in (count_copies s xs y, cy_tracker y, cy_reports y)))"

section \<open>Acknowledging\<close>

text \<open>\<^verbatim>\<open>_shards\<close> of an answer.  Setting a member of something that is no object and not null panics: \<open>None\<close>.\<close>

fun obj_put :: "string \<Rightarrow> json \<Rightarrow> (string \<times> json) list \<Rightarrow> (string \<times> json) list" where
  "obj_put k v [] = [(k, v)]"
| "obj_put k v (e # rest) = (if fst e = k then (k, v) # rest else e # obj_put k v rest)"

fun json_set :: "string \<Rightarrow> json \<Rightarrow> json \<Rightarrow> json option" where
  "json_set k v (JObj members) = Some (JObj (obj_put k v members))"
| "json_set k v JNull = Some (JObj [(k, v)])"
| "json_set k v _ = None"

definition failure_json :: "string \<Rightarrow> write_failure \<Rightarrow> json" where
  "failure_json index f =
     JObj [(''_index'', JStr index), (''_node'', JStr (wf_node f)),
           (''reason'', JObj [(''type'', JStr ''exception''), (''reason'', JStr (wf_reason f))]),
           (''status'', JStr ''INTERNAL_SERVER_ERROR''), (''primary'', JBool False)]"

definition patch_one :: "acks \<Rightarrow> json \<Rightarrow> json option" where
  "patch_one acks item =
     (case json_get item ''_index'' of
        Some (JStr index) \<Rightarrow>
          (case bm_get acks index of
             None \<Rightarrow> Some item
           | Some a \<Rightarrow>
               (case json_get item ''_shards'' of
                  None \<Rightarrow> Some item
                | Some shards \<Rightarrow>
                    Option.bind (json_set ''total'' (JInt (int (ak_total a))) shards) (\<lambda>shards.
                    Option.bind (json_set ''successful'' (JInt (int (ak_successful a))) shards) (\<lambda>shards.
                    Option.bind (json_set ''failed'' (JInt (int (ak_failed a))) shards) (\<lambda>shards.
                    Option.bind (if ak_failures a = [] then Some shards
                                 else json_set ''failures'' (JArr (map (failure_json index) (ak_failures a))) shards) (\<lambda>shards.
                    json_set ''_shards'' shards item))))))
      | _ \<Rightarrow> Some item)"

fun patch_members :: "acks \<Rightarrow> (string \<times> json) list \<Rightarrow> (string \<times> json) list option" where
  "patch_members acks [] = Some []"
| "patch_members acks ((k, v) # rest) =
     Option.bind (patch_one acks v) (\<lambda>v. map_option (\<lambda>rest. (k, v) # rest) (patch_members acks rest))"

fun patch_items :: "acks \<Rightarrow> json list \<Rightarrow> json list option" where
  "patch_items acks [] = Some []"
| "patch_items acks (item # rest) =
     Option.bind (case item of JObj members \<Rightarrow> map_option JObj (patch_members acks members) | _ \<Rightarrow> Some item)
       (\<lambda>item. map_option (\<lambda>rest. item # rest) (patch_items acks rest))"

definition patch_shards :: "acks \<Rightarrow> json \<Rightarrow> json option" where
  "patch_shards acks v =
     Option.bind (if json_get v ''_shards'' \<noteq> None then patch_one acks v else Some v) (\<lambda>v.
       case json_get v ''items'' of
         Some (JArr items) \<Rightarrow> Option.bind (patch_items acks items) (\<lambda>items. json_set ''items'' (JArr items) v)
       | _ \<Rightarrow> Some v)"

text \<open>What the node reads of its cluster as it answers: whether it has a manager, then the state.\<close>

record reading =
  vw_has_manager :: bool
  vw_state :: cluster_state

definition written_of :: "replica_op list \<Rightarrow> (string \<times> nat \<times> nat) list" where
  "written_of xs = map (\<lambda>x. (ro_index x, ro_shard x, ro_term x)) xs"

definition shards_of_written :: "(string \<times> nat \<times> nat) list \<Rightarrow> (string \<times> nat) list" where
  "shards_of_written written =
     fold (\<lambda>(index, shard, _) seen. if (index, shard) \<in> set seen then seen else seen @ [(index, shard)]) written []"

definition may_still_answer :: "node_id option \<Rightarrow> reading \<Rightarrow> (string \<times> nat \<times> nat) list \<Rightarrow> bool" where
  "may_still_answer here v written =
     (vw_has_manager v
      \<and> (case here of
            None \<Rightarrow> True
          | Some me \<Rightarrow>
              list_all (\<lambda>(index, shard, term).
                (case rt_primary (cs_routing (vw_state v)) index shard of Some p \<Rightarrow> sr_node p = Some me | None \<Rightarrow> False)
                \<and> term \<ge> primary_term (vw_state v) index shard) written))"

definition nothing_to_do :: "node_id option \<Rightarrow> cluster_state \<Rightarrow> replica_op list \<Rightarrow> bool" where
  "nothing_to_do here s xs =
     (case here of
        None \<Rightarrow> True
      | Some me \<Rightarrow>
          list_all (\<lambda>x. targets s me (ro_index x) = []
                        \<and> (case bm_get (cs_indices s) (ro_index x) of
                             Some m \<Rightarrow> list_all (here_id s me (ro_index x)) (concat (bm_values (im_in_sync_allocations m)))
                           | None \<Rightarrow> True)) xs)"

definition written_report :: "cluster_state \<Rightarrow> string \<Rightarrow> nat \<Rightarrow> string \<Rightarrow> node_id \<Rightarrow> shard_report" where
  "written_report s index shard why n =
     (let aid = (case find_first (\<lambda>c. sr_shard c = shard \<and> sr_node c = Some n) (rt_shards_of (cs_routing s) index) of
                   Some c \<Rightarrow> (case sr_allocation_id c of Some a \<Rightarrow> a | None \<Rightarrow> [])
                 | None \<Rightarrow> [])
      in \<lparr>rp_action = SHARD_FAILED, rp_index = index, rp_shard = shard, rp_allocation_id = aid, rp_node = Some n,
          rp_message = Some (''wrote as a primary it is not: '' @ why)\<rparr>)"

definition fail_copies_written ::
  "(nat \<Rightarrow> shard_report \<Rightarrow> bool) \<Rightarrow> node_id option \<Rightarrow> cluster_state \<Rightarrow> string \<Rightarrow> nat \<Rightarrow> string \<Rightarrow> node_id list \<Rightarrow> reports \<Rightarrow> reports" where
  "fail_copies_written tells here s index shard why also reports =
     (case here of
        None \<Rightarrow> reports
      | Some me \<Rightarrow>
          snd (tell_all tells (cs_cluster_manager s) (map (written_report s index shard why) (me # also)) (True, reports)))"

definition fail_all_written ::
  "(nat \<Rightarrow> shard_report \<Rightarrow> bool) \<Rightarrow> node_id option \<Rightarrow> (string \<Rightarrow> nat \<Rightarrow> cluster_state) \<Rightarrow> (string \<times> nat \<times> nat) list \<Rightarrow> acks \<Rightarrow> string
    \<Rightarrow> reports \<Rightarrow> reports" where
  "fail_all_written tells here s written acks why reports =
     fold (\<lambda>(index, shard) reports.
             fail_copies_written tells here (s index shard) index shard why
               (case bm_get acks index of Some a \<Rightarrow> ak_wrote_to a | None \<Rightarrow> []) reports)
          (shards_of_written written) reports"

definition contains_text :: "string \<Rightarrow> string \<Rightarrow> bool" where
  "contains_text needle hay = list_ex (\<lambda>k. take (length needle) (drop k hay) = needle) [0..<Suc (length hay)]"

definition stale_term :: "acks \<Rightarrow> bool" where
  "stale_term acks =
     list_ex (\<lambda>a. list_ex (\<lambda>f. contains_text ''stale primary term'' (wf_reason f)) (ak_failures a)) (bm_values acks)"

datatype write_outcome = AsWritten | Acknowledged acks | NoLongerPrimary | NoClusterManager | StaleTerm | ManagerUnreachable

text \<open>
  The readings, one field each, in the order they are taken: the state that says whether there is anything to do, the state whose nodes are
  counted and what is read as the answer is given without copying; whether there is a manager, the state the writes are
  copied by, what is read as the answer is given after, and the state read for each shard whose copies are then failed.
\<close>

record finish_readings =
  fr_work :: cluster_state
  fr_nodes :: cluster_state
  fr_alone :: reading
  fr_has_manager :: bool
  fr_copying :: cluster_state
  fr_answer :: reading
  fr_failing :: "string \<Rightarrow> nat \<Rightarrow> cluster_state"

definition finish ::
  "(node_id \<Rightarrow> string \<Rightarrow> replica_op list \<Rightarrow> copy_reply) \<Rightarrow> (nat \<Rightarrow> shard_report \<Rightarrow> bool) \<Rightarrow> node_id option
    \<Rightarrow> finish_readings \<Rightarrow> replica_op list \<Rightarrow> tracker \<Rightarrow> reports \<Rightarrow> write_outcome \<times> tracker \<times> reports" where
  "finish answers tells here r xs tracker reports =
     (let written = written_of xs
      in if nothing_to_do here (fr_work r) xs
         then (if length (cs_nodes (fr_nodes r)) > 1 \<and> \<not> may_still_answer here (fr_alone r) written
               then (NoLongerPrimary, tracker, reports) else (AsWritten, tracker, reports))
         else
           (let (acks, tracker, reports) = replicate_writes answers tells here (fr_copying r) xs tracker reports
            in if \<not> fr_has_manager r then (NoClusterManager, tracker, reports)
               else if stale_term acks
               then (StaleTerm, tracker, fail_all_written tells here (fr_failing r) written acks ''a copy refused its term'' reports)
               else if list_ex ak_manager_unreachable (bm_values acks) then (ManagerUnreachable, tracker, reports)
               else if \<not> may_still_answer here (fr_answer r) written
               then (NoLongerPrimary, tracker, fail_all_written tells here (fr_failing r) written acks ''no longer the primary'' reports)
               else (Acknowledged acks, tracker, reports)))"

section \<open>A write on a replica\<close>

definition not_from_the_primary :: "cluster_state \<Rightarrow> string \<Rightarrow> node_id \<Rightarrow> replica_op list \<Rightarrow> string option" where
  "not_from_the_primary s index sender xs =
     (let judge = (\<lambda>x. let known = primary_term s index (ro_shard x)
                       in ro_term x < known
                          \<or> (ro_term x = known \<and> bm_has (cs_indices s) index
                             \<and> \<not> list_ex (\<lambda>c. sr_shard c = ro_shard x \<and> sr_primary c
                                               \<and> (sr_node c = Some sender \<or> sr_relocating_node c = Some sender))
                                  (rt_shards_of (cs_routing s) index)))
      in if list_ex judge xs then Some ''stale primary term'' else None)"

datatype resync_phase = NoResync | Begin nat | End nat | OtherPhase nat

record write_request =
  wq_index :: string
  wq_from :: node_id
  wq_refresh :: string
  wq_ops :: "replica_op list"
  wq_resync :: resync_phase

definition replica_write :: "writer \<Rightarrow> cluster_state \<Rightarrow> write_request \<Rightarrow> copy \<Rightarrow> write_answer \<times> copy" where
  "replica_write W s q c =
     (let known_term = primary_term s (wq_index q) 0;
          stale = (\<lambda>term. term < known_term)
      in case not_from_the_primary s (wq_index q) (wq_from q) (wq_ops q) of
           Some why \<Rightarrow> (WriteError why, c)
         | None \<Rightarrow>
             (case wq_resync q of
                NoResync \<Rightarrow> take_write W (wq_ops q) (wq_refresh q) c
              | Begin term \<Rightarrow> if stale term then (WriteError ''stale primary term'', c) else resync_begin term c
              | End term \<Rightarrow>
                  if stale term then (WriteError ''stale primary term'', c)
                  else resync_end W (primary_term s (wq_index q) every_shard) term c
              | OtherPhase term \<Rightarrow>
                  if stale term then (WriteError ''stale primary term'', c) else take_write W (wq_ops q) (wq_refresh q) c))"

text \<open>The page of a scan as it is sent to a copy being filled, with whether this node's writes go to it yet.\<close>

definition recovery_scan ::
  "cluster_state \<Rightarrow> node_id \<Rightarrow> string \<Rightarrow> nat \<Rightarrow> nat \<Rightarrow> nat \<Rightarrow> node_id option \<Rightarrow> idx_state option
    \<Rightarrow> ((replica_op list \<times> nat option) \<times> bool option) option" where
  "recovery_scan s me index shard from_seq page asking st =
     map_option (\<lambda>st. (scan_replicated (primary_term s index shard) st shard from_seq page,
                       map_option (\<lambda>n. bm_has (targets s me index) n) asking)) st"

section \<open>Resync and reports that wait\<close>

text \<open>
  \<^verbatim>\<open>fail_copy\<close>: each copy of the shard on the node is reported, three times at most, and left for later when no try
  landed.  The answer is whether every report landed.
\<close>

fun try_tell :: "(nat \<Rightarrow> shard_report \<Rightarrow> bool) \<Rightarrow> nat \<Rightarrow> shard_report \<Rightarrow> reports \<Rightarrow> bool \<times> reports" where
  "try_tell tells 0 r s = (False, retry_later r s)"
| "try_tell tells (Suc k) r s =
     (let landed = tells (length (rs_sent s)) r;
          s = s\<lparr>rs_sent := rs_sent s @ [(r, landed)]\<rparr>
      in if landed then (True, s) else try_tell tells k r s)"

definition copy_reports :: "cluster_state \<Rightarrow> string \<Rightarrow> nat \<Rightarrow> node_id \<Rightarrow> string \<Rightarrow> shard_report list" where
  "copy_reports s index shard node why =
     List.map_filter
       (\<lambda>c. if sr_shard c = shard \<and> sr_node c = Some node \<and> \<not> sr_primary c
             then map_option (\<lambda>a. \<lparr>rp_action = SHARD_FAILED, rp_index = index, rp_shard = shard, rp_allocation_id = a,
                                   rp_node = None, rp_message = Some why\<rparr>) (sr_allocation_id c)
             else None)
       (rt_shards_of (cs_routing s) index)"

definition fail_copy ::
  "(nat \<Rightarrow> shard_report \<Rightarrow> bool) \<Rightarrow> cluster_state \<Rightarrow> string \<Rightarrow> nat \<Rightarrow> node_id \<Rightarrow> string \<Rightarrow> reports \<Rightarrow> bool \<times> reports" where
  "fail_copy tells s index shard node why reports =
     (case cs_cluster_manager s of
        None \<Rightarrow> (False, reports)
      | Some _ \<Rightarrow>
          fold (\<lambda>r (told, s). let (landed, s) = try_tell tells 3 r s in (told \<and> landed, s))
               (copy_reports s index shard node why) (True, reports))"

text \<open>
  One page of a resync, under the new term, to every node that has missed none so far; \<open>taken\<close> is what of it each
  node took, for the record of the run.
\<close>

record resync_run =
  ry_missed :: "node_id list"
  ry_sent :: "(node_id \<times> replica_op list) list"
  ry_reports :: reports

definition resync_to ::
  "(nat \<Rightarrow> node_id \<Rightarrow> replica_op list \<Rightarrow> string option) \<Rightarrow> (nat \<Rightarrow> shard_report \<Rightarrow> bool) \<Rightarrow> cluster_state \<Rightarrow> string \<Rightarrow> nat \<Rightarrow> nat
    \<Rightarrow> replica_op list \<Rightarrow> node_id \<Rightarrow> resync_run \<Rightarrow> resync_run" where
  "resync_to refuses tells s index shard page xs node y =
     (case refuses page node xs of
        None \<Rightarrow> y\<lparr>ry_sent := ry_sent y @ [(node, xs)]\<rparr>
      | Some why \<Rightarrow>
          y\<lparr>ry_missed := ry_missed y @ [node],
            ry_reports := snd (fail_copy tells s index shard node (''resync failed: '' @ why) (ry_reports y))\<rparr>)"

definition resync_page ::
  "(nat \<Rightarrow> node_id \<Rightarrow> replica_op list \<Rightarrow> string option) \<Rightarrow> (nat \<Rightarrow> shard_report \<Rightarrow> bool) \<Rightarrow> cluster_state \<Rightarrow> string \<Rightarrow> nat \<Rightarrow> nat
    \<Rightarrow> node_id list \<Rightarrow> nat \<times> replica_op list \<Rightarrow> resync_run \<Rightarrow> resync_run" where
  "resync_page refuses tells s index shard term to page y =
     (let xs = map (\<lambda>x. x\<lparr>ro_term := term\<rparr>) (snd page)
      in fold (resync_to refuses tells s index shard (fst page) xs) (filter (\<lambda>n. n \<notin> set (ry_missed y)) to) y)"

definition resync_all ::
  "(nat \<Rightarrow> node_id \<Rightarrow> replica_op list \<Rightarrow> string option) \<Rightarrow> (nat \<Rightarrow> shard_report \<Rightarrow> bool) \<Rightarrow> cluster_state \<Rightarrow> string \<Rightarrow> nat \<Rightarrow> nat
    \<Rightarrow> node_id list \<Rightarrow> replica_op list list \<Rightarrow> reports \<Rightarrow> resync_run" where
  "resync_all refuses tells s index shard term to pages reports =
     fold (resync_page refuses tells s index shard term to) (enumerate 0 pages)
       \<lparr>ry_missed = [], ry_sent = [], ry_reports = reports\<rparr>"

text \<open>
  The whole of \<^verbatim>\<open>resync\<close>.  The index is read anew for each page, so what it holds is a function of how many
  pages went before (\<open>None\<close> when the node has no such index); the scan may go on for as long as the index grows.  Every node of \<open>to\<close> is told
  of the beginning, and the answer is not looked at; what is returned is the run, the nodes told of the end, and whether the resync reached all.
\<close>

partial_function (option) resync_scan :: "nat \<Rightarrow> (nat \<Rightarrow> idx_state option) \<Rightarrow> nat \<Rightarrow> nat \<Rightarrow> replica_op list list option" where
  "resync_scan known view k from_seq =
     (case (case view k of None \<Rightarrow> ([], None) | Some st \<Rightarrow> scan_replicated known st every_shard from_seq 2000) of
        (xs, None) \<Rightarrow> Some (if xs = [] then [] else [xs])
      | (xs, Some n) \<Rightarrow>
          if n > from_seq then Option.bind (resync_scan known view (Suc k) n) (\<lambda>ps. Some (xs # ps)) else Some [xs])"

definition resync ::
  "(nat \<Rightarrow> node_id \<Rightarrow> replica_op list \<Rightarrow> string option) \<Rightarrow> (nat \<Rightarrow> shard_report \<Rightarrow> bool) \<Rightarrow> nat \<Rightarrow> (nat \<Rightarrow> idx_state option) \<Rightarrow> cluster_state
    \<Rightarrow> string \<Rightarrow> nat \<Rightarrow> nat \<Rightarrow> node_id list \<Rightarrow> reports \<Rightarrow> (resync_run \<times> node_id list \<times> bool) option" where
  "resync refuses tells known view s index shard term to reports =
     Option.bind (resync_scan known view 0 0) (\<lambda>pages.
       let y = resync_all refuses tells s index shard term to pages reports
       in Some (y, filter (\<lambda>n. n \<notin> set (ry_missed y)) to, ry_missed y = []))"

text \<open>One round of \<^verbatim>\<open>retry_reports\<close>: a report that landed, or is nobody's business any more, leaves the list.\<close>

definition still_matters :: "cluster_state \<Rightarrow> node_id \<Rightarrow> shard_report \<Rightarrow> bool" where
  "still_matters s me r =
     ((case rt_primary (cs_routing s) (rp_index r) (rp_shard r) of Some p \<Rightarrow> sr_node p = Some me | None \<Rightarrow> False)
      \<and> (list_ex (\<lambda>c. sr_shard c = rp_shard r \<and> sr_allocation_id c = Some (rp_allocation_id r)) (rt_shards_of (cs_routing s) (rp_index r))
         \<or> (case bm_get (cs_indices s) (rp_index r) of
              Some m \<Rightarrow> (case bm_get (im_in_sync_allocations m) (rp_shard r) of
                           Some ids \<Rightarrow> rp_allocation_id r \<in> set ids
                         | None \<Rightarrow> False)
            | None \<Rightarrow> False)))"

definition retry_one :: "(nat \<Rightarrow> shard_report \<Rightarrow> bool) \<Rightarrow> cluster_state \<Rightarrow> node_id \<Rightarrow> shard_report \<Rightarrow> reports \<Rightarrow> reports" where
  "retry_one tells s me r y =
     (let asked = still_matters s me r;
          landed = tells (length (rs_sent y)) r;
          y = (if asked then y\<lparr>rs_sent := rs_sent y @ [(r, landed)]\<rparr> else y)
      in if \<not> asked \<or> landed then y\<lparr>rs_pending := filter (\<lambda>p. p \<noteq> r) (rs_pending y)\<rparr> else y)"

definition retry_pass :: "(nat \<Rightarrow> shard_report \<Rightarrow> bool) \<Rightarrow> node_id option \<Rightarrow> cluster_state \<Rightarrow> reports \<Rightarrow> reports" where
  "retry_pass tells here s y =
     (case here of
        None \<Rightarrow> y
      | Some me \<Rightarrow> if cs_cluster_manager s = None then y else fold (retry_one tells s me) (rs_pending y) y)"

end
