(* ===== verification/Index_Store_Properties.thy ===== *)
theory Index_Store_Properties
  imports Index_Store
begin

text \<open>
  What a realtime read sees is what was written last: a write and a delete change it at their id and nowhere else,
  whatever the queue and the pending table do on the way, and a refresh of the index changes it nowhere and makes
  it what a search finds.  A refresh of one shard does so only while no document is queued under another.
\<close>

section \<open>What the writer is relied on for\<close>

text \<open>The operations take effect in the order they were handed over; where in the index a document ends up is not said.\<close>

fun index_op :: "pending_op \<Rightarrow> reader_doc list \<Rightarrow> reader_doc list" where
  "index_op (Add d) docs = docs @ [d]"
| "index_op (Delete i) docs = filter (\<lambda>d. rd_id d \<noteq> i) docs"

definition applies_in_order :: "writer \<Rightarrow> bool" where
  "applies_in_order W = (\<forall>ops docs. mset (wr_apply W ops docs) = mset (fold index_op ops docs))"

definition willing :: "writer \<Rightarrow> bool" where
  "willing W = (wr_opens W \<and> (\<forall>d. wr_takes W d) \<and> applies_in_order W)"

section \<open>The operations on one id\<close>

definition docs_of :: "string \<Rightarrow> reader_doc list \<Rightarrow> reader_doc list" where
  "docs_of i docs = filter (\<lambda>d. rd_id d = i) docs"

definition ops_of :: "string \<Rightarrow> pending_op list \<Rightarrow> pending_op list" where
  "ops_of i ops = filter (\<lambda>x. op_id x = i) ops"

lemma ops_of_simps [simp]:
  "ops_of i [] = []" "ops_of i (xs @ ys) = ops_of i xs @ ops_of i ys"
  "ops_of i [Delete j] = (if j = i then [Delete j] else [])"
  "ops_of i [Add d] = (if rd_id d = i then [Add d] else [])"
  by (simp_all add: ops_of_def)

lemma docs_of_index_op: "docs_of i (index_op x docs) = (if op_id x = i then index_op x (docs_of i docs) else docs_of i docs)"
  by (cases x) (auto simp: docs_of_def intro: filter_cong)

lemma docs_of_fold: "docs_of i (fold index_op ops docs) = fold index_op (ops_of i ops) (docs_of i docs)"
  by (induction ops arbitrary: docs) (simp_all add: docs_of_index_op ops_of_def)

lemma index_op_mset: "mset a = mset b \<Longrightarrow> mset (index_op x a) = mset (index_op x b)"
  by (cases x) simp_all

lemma fold_index_mset: "mset a = mset b \<Longrightarrow> mset (fold index_op ops a) = mset (fold index_op ops b)"
proof (induction ops arbitrary: a b)
  case (Cons x ops)
  from Cons.IH [OF index_op_mset [OF Cons.prems]] show ?case by simp
qed simp

lemma found_in_docs_of: "found_in docs i = (case docs_of i docs of [] \<Rightarrow> None | d # _ \<Rightarrow> Some (rd_source d))"
  unfolding found_in_def docs_of_def find_first_def by (induction docs) auto

lemma docs_of_single:
  assumes "image_mset rd_source (mset (docs_of i docs)) = (case x of None \<Rightarrow> {#} | Some s \<Rightarrow> {#s#})"
  shows "found_in docs i = x"
proof (cases x)
  case None
  with assms show ?thesis by (simp add: found_in_docs_of)
next
  case (Some s)
  with assms have "image_mset rd_source (mset (docs_of i docs)) = {#s#}" by simp
  then have "mset (map rd_source (docs_of i docs)) = {#s#}" by simp
  then have "map rd_source (docs_of i docs) = [s]" by (simp only: mset_single_iff)
  then obtain d where "docs_of i docs = [d]" "rd_source d = s" by auto
  with Some show ?thesis by (simp add: found_in_docs_of)
qed

section \<open>The invariant\<close>

definition held_ops :: "idx_state \<Rightarrow> pending_op list" where
  "held_ops st = (case ix_writer st of Some w \<Rightarrow> w | None \<Rightarrow> [])"

definition waiting :: "idx_state \<Rightarrow> pending_op list" where
  "waiting st = held_ops st @ map snd (ix_deferred st)"

lemma waiting_update [simp]:
  "waiting (st\<lparr>ix_reader := a\<rparr>) = waiting st" "waiting (st\<lparr>ix_pending := b\<rparr>) = waiting st"
  "waiting (st\<lparr>ix_pending_seq := c\<rparr>) = waiting st" "waiting (st\<lparr>ix_pending_bytes := d\<rparr>) = waiting st"
  by (simp_all add: waiting_def held_ops_def)

text \<open>What the index will hold of an id once everything waiting is in it.\<close>

definition settled :: "idx_state \<Rightarrow> string \<Rightarrow> string multiset" where
  "settled st i = image_mset rd_source (mset (fold index_op (ops_of i (waiting st)) (docs_of i (ix_realtime st))))"

definition as_mset :: "string option \<Rightarrow> string multiset" where
  "as_mset x = (case x of None \<Rightarrow> {#} | Some s \<Rightarrow> {#s#})"

text \<open>
  \<open>view_ok st V\<close>: every id reads as \<open>V\<close> says, now and once everything waiting is in the index; nothing waits for
  an id that is not pending.  \<open>live_ok\<close>: what the version map and the fingerprints say of an id agrees with it.
\<close>

definition pins_ok :: "idx_state \<Rightarrow> bool" where
  "pins_ok st = (\<forall>(s, x) \<in> set (ix_deferred st). bm_get (ix_queued_shard st) (op_id x) = Some s)"

definition reads_ok :: "(string \<Rightarrow> string option) \<Rightarrow> idx_state \<Rightarrow> string \<Rightarrow> bool" where
  "reads_ok V st i =
     (case bm_get (ix_pending st) i of Some x \<Rightarrow> x = V i | None \<Rightarrow> ops_of i (waiting st) = [])"

definition view_ok :: "(string \<Rightarrow> string option) \<Rightarrow> idx_state \<Rightarrow> bool" where
  "view_ok V st = (pins_ok st \<and> (\<forall>i. settled st i = as_mset (V i) \<and> reads_ok V st i))"

definition live_ok :: "(string \<Rightarrow> string option) \<Rightarrow> idx_state \<Rightarrow> string \<Rightarrow> bool" where
  "live_ok V st i =
     (case bm_get (ix_versions st) i of
        Some m \<Rightarrow> dm_live m = (V i \<noteq> None)
      | None \<Rightarrow> ix_ids_loaded st \<longrightarrow> V i \<noteq> None \<longrightarrow> id_fingerprint i \<in> set (ix_live_ids st))"

definition store_ok :: "idx_state \<Rightarrow> bool" where
  "store_ok st = (view_ok (realtime st) st \<and> (\<forall>i. live_ok (realtime st) st i))"

lemma view_okD:
  assumes "view_ok V st"
  shows "pins_ok st" "settled st i = as_mset (V i)" "reads_ok V st i"
  using assms by (simp_all add: view_ok_def)

lemma view_okI: "pins_ok st \<Longrightarrow> (\<And>i. settled st i = as_mset (V i)) \<Longrightarrow> (\<And>i. reads_ok V st i) \<Longrightarrow> view_ok V st"
  by (simp add: view_ok_def)

lemma settled_quiet: "ops_of i (waiting st) = [] \<Longrightarrow> settled st i = image_mset rd_source (mset (docs_of i (ix_realtime st)))"
  by (simp add: settled_def)

lemma view_ok_realtime: "view_ok V st \<Longrightarrow> realtime st = V"
proof
  fix i
  assume "view_ok V st"
  then have s: "settled st i = as_mset (V i)" and r: "reads_ok V st i" by (simp_all add: view_ok_def)
  show "realtime st i = V i"
  proof (cases "bm_get (ix_pending st) i")
    case None
    with r have "ops_of i (waiting st) = []" by (simp add: reads_ok_def)
    from settled_quiet [OF this] s have "found_in (ix_realtime st) i = V i"
      by (intro docs_of_single) (simp add: as_mset_def)
    with None show ?thesis by (simp add: realtime_def)
  qed (use r in \<open>simp add: realtime_def reads_ok_def\<close>)
qed

lemma store_okI: "view_ok V st \<Longrightarrow> (\<And>i. live_ok V st i) \<Longrightarrow> store_ok st \<and> realtime st = V"
  using view_ok_realtime [of V st] by (simp add: store_ok_def)

lemma is_live_realtime: "store_ok st \<Longrightarrow> is_live st i = (realtime st i \<noteq> None)"
proof -
  assume "store_ok st"
  then have "live_ok (realtime st) st i" by (simp add: store_ok_def)
  moreover have "lookup_id st i = (found_in (ix_realtime st) i \<noteq> None)"
    by (auto simp: lookup_id_def found_in_def find_first_def list_ex_iff find_None_iff)
  ultimately show ?thesis
    by (auto simp: is_live_def live_ok_def realtime_def split: option.splits)
qed

section \<open>Handing over\<close>

lemma hand_over_all: "\<forall>d. wr_takes W d \<Longrightarrow> hand_over W xs = (map snd xs, [], True)"
  by (induction W xs rule: hand_over.induct) (auto split: pending_op.split)

lemma bm_get_filter: "bm_get m k = Some v \<Longrightarrow> P (k, v) \<Longrightarrow> bm_get (filter P m) k = Some v"
  unfolding bm_get_def by (induction m) auto

lemma ops_of_split:
  assumes "\<And>x y. x \<in> set D \<Longrightarrow> y \<in> set D \<Longrightarrow> op_id (snd x) = i \<Longrightarrow> op_id (snd y) = i \<Longrightarrow> P x = P y"
  shows "ops_of i (map snd (filter P D)) @ ops_of i (map snd (filter (\<lambda>x. \<not> P x) D)) = ops_of i (map snd D)"
proof (cases "\<exists>x \<in> set D. op_id (snd x) = i \<and> P x")
  case True
  then have all: "\<forall>x \<in> set D. op_id (snd x) = i \<longrightarrow> P x" using assms by blast
  then have "ops_of i (map snd (filter P D)) = ops_of i (map snd D)"
    "ops_of i (map snd (filter (\<lambda>x. \<not> P x) D)) = []"
    by (induction D) (auto simp: ops_of_def)
  then show ?thesis by simp
next
  case False
  then have "ops_of i (map snd (filter P D)) = []"
    "ops_of i (map snd (filter (\<lambda>x. \<not> P x) D)) = ops_of i (map snd D)"
    by (induction D) (auto simp: ops_of_def)
  then show ?thesis by simp
qed

lemma pins_at: "pins_ok st \<Longrightarrow> (s, x) \<in> set (ix_deferred st) \<Longrightarrow> bm_get (ix_queued_shard st) (op_id x) = Some s"
  by (auto simp: pins_ok_def)

text \<open>The fields a hand-over leaves alone.\<close>

definition same_docs :: "idx_state \<Rightarrow> idx_state \<Rightarrow> bool" where
  "same_docs st st' =
     (ix_versions st' = ix_versions st \<and> ix_routing st' = ix_routing st \<and> ix_live_ids st' = ix_live_ids st
      \<and> ix_ids_loaded st' = ix_ids_loaded st \<and> ix_pending st' = ix_pending st \<and> ix_realtime st' = ix_realtime st
      \<and> ix_settings st' = ix_settings st \<and> ix_applied_term st' = ix_applied_term st)"

lemma apply_ops_ok:
  assumes W: "willing W" and ok: "pins_ok st"
  shows "\<exists>st'. apply_ops W only st = (True, st') \<and> same_docs st st' \<and> pins_ok st'
    \<and> (\<forall>i. ops_of i (waiting st') = ops_of i (waiting st))
    \<and> (\<forall>s x. (s, x) \<in> set (ix_deferred st') = ((s, x) \<in> set (ix_deferred st) \<and> only \<noteq> None \<and> only \<noteq> Some s))
    \<and> (ix_deferred st \<noteq> [] \<or> ix_writer st \<noteq> None \<longrightarrow> ix_writer st' \<noteq> None)"
proof (cases "ix_deferred st = []")
  case True
  with ok show ?thesis by (auto simp: apply_ops_def same_docs_def)
next
  case False
  let ?mine = "\<lambda>(shard :: nat, _ :: pending_op). case only of Some one \<Rightarrow> shard = one | None \<Rightarrow> True"
  let ?pins = "case only of Some one \<Rightarrow> filter (\<lambda>p. snd p \<noteq> one) (ix_queued_shard st) | None \<Rightarrow> []"
  let ?st = "st\<lparr>ix_deferred := filter (\<lambda>x. \<not> ?mine x) (ix_deferred st), ix_queued_shard := ?pins,
    ix_writer := Some (held_ops st @ map snd (filter ?mine (ix_deferred st)))\<rparr>"
  have "hand_over W (filter ?mine (ix_deferred st)) = (map snd (filter ?mine (ix_deferred st)), [], True)"
    by (rule hand_over_all) (use W in \<open>simp add: willing_def\<close>)
  then have st': "apply_ops W only st = (True, ?st)"
    using False W by (simp add: apply_ops_def willing_def repin_def held_ops_def Let_def)
  have one: "s = s'" if "(s, x) \<in> set (ix_deferred st)" "(s', x') \<in> set (ix_deferred st)" "op_id x = i" "op_id x' = i"
    for s s' x x' i
  proof -
    from pins_at [OF ok that(1)] pins_at [OF ok that(2)] that(3, 4) show ?thesis by simp
  qed
  have "ops_of i (waiting ?st) = ops_of i (waiting st)" for i
  proof -
    have "?mine x = ?mine y" if "x \<in> set (ix_deferred st)" "y \<in> set (ix_deferred st)" "op_id (snd x) = i" "op_id (snd y) = i"
      for x y using one [of "fst x" "snd x" "fst y" "snd y" i] that by (cases x; cases y) simp
    note e = ops_of_split [of "ix_deferred st" i ?mine, OF this]
    have "waiting ?st = (held_ops st @ map snd (filter ?mine (ix_deferred st)))
        @ map snd (filter (\<lambda>x. \<not> ?mine x) (ix_deferred st))"
      by (simp add: waiting_def held_ops_def)
    then show ?thesis unfolding waiting_def [of st] by (simp only: ops_of_simps append.assoc e)
  qed
  moreover have "pins_ok ?st"
  proof (cases only)
    case (Some one)
    then show ?thesis using ok by (auto simp: pins_ok_def intro!: bm_get_filter)
  qed (auto simp: pins_ok_def)
  ultimately show ?thesis using st' by (auto simp: same_docs_def split: option.splits)
qed

section \<open>Queueing and committing\<close>

lemma settled_cong:
  "ix_realtime st' = ix_realtime st \<Longrightarrow> ops_of i (waiting st') = ops_of i (waiting st) \<Longrightarrow> settled st' i = settled st i"
  by (simp add: settled_def)

lemma queue_op_for_ok:
  assumes W: "willing W" and ok: "pins_ok st" and i: "op_id x = i"
  shows "same_docs st (queue_op_for W i shard x st) \<and> pins_ok (queue_op_for W i shard x st)
    \<and> (\<forall>j. ops_of j (waiting (queue_op_for W i shard x st)) = ops_of j (waiting st) @ ops_of j [x])"
proof -
  let ?s = "case bm_get (ix_queued_shard st) i of Some s \<Rightarrow> s | None \<Rightarrow> shard"
  let ?st = "st\<lparr>ix_queued_shard := bm_insert i ?s (ix_queued_shard st), ix_deferred := ix_deferred st @ [(?s, x)]\<rparr>"
  have pins: "pins_ok ?st"
    using pins_at [OF ok] i by (force simp: pins_ok_def bm_insert_get)
  have ops: "ops_of j (waiting ?st) = ops_of j (waiting st) @ ops_of j [x]" for j
    by (simp add: waiting_def held_ops_def)
  have e: "queue_op_for W i shard x st = (if DEFERRED_MAX_OPS \<le> length (ix_deferred ?st) then snd (apply_ops W None ?st) else ?st)"
    by (simp add: queue_op_for_def queue_op_def Let_def)
  from apply_ops_ok [OF W pins, of None] obtain st' where
    "apply_ops W None ?st = (True, st')" "same_docs ?st st'" "pins_ok st'"
    "\<forall>j. ops_of j (waiting st') = ops_of j (waiting ?st)" by blast
  with pins ops e show ?thesis by (simp add: same_docs_def split: if_splits)
qed

lemma commit_settles:
  assumes W: "willing W" and c: "commit W st = Some st'"
  shows "settled st' i = settled st i" "pins_ok st' = pins_ok st" "reads_ok V st i \<Longrightarrow> reads_ok V st' i" "held_ops st' = []"
    "ix_deferred st' = ix_deferred st"
proof -
  have "settled st' i = settled st i \<and> (reads_ok V st i \<longrightarrow> reads_ok V st' i)"
  proof (cases "ix_writer st")
    case None
    with c show ?thesis by (simp add: commit_def)
  next
    case (Some ops)
    with c have st': "st' = st\<lparr>ix_writer := Some [], ix_realtime := wr_apply W ops (ix_realtime st)\<rparr>"
      by (auto simp: commit_def split: if_splits)
    have w: "waiting st = ops @ waiting st'" using Some by (simp add: waiting_def held_ops_def st')
    have "mset (ix_realtime st') = mset (fold index_op ops (ix_realtime st))"
      using W by (simp add: st' willing_def applies_in_order_def)
    then have "mset (docs_of i (ix_realtime st')) = mset (fold index_op (ops_of i ops) (docs_of i (ix_realtime st)))"
      by (metis docs_of_fold docs_of_def mset_filter)
    from fold_index_mset [OF this] have "settled st' i = settled st i" by (simp add: settled_def w)
    moreover have "reads_ok V st' i" if "reads_ok V st i"
      using that w by (cases "bm_get (ix_pending st) i") (simp_all add: reads_ok_def st')
    ultimately show ?thesis by blast
  qed
  then show "settled st' i = settled st i" "reads_ok V st i \<Longrightarrow> reads_ok V st' i" by blast+
  show "pins_ok st' = pins_ok st" "held_ops st' = []" "ix_deferred st' = ix_deferred st"
    using c by (auto simp: commit_def pins_ok_def held_ops_def split: option.splits if_splits)
qed

lemma commit_ok:
  assumes W: "willing W" and v: "view_ok V st" and c: "commit W st = Some st'"
  shows "view_ok V st' \<and> ix_pending st' = ix_pending st \<and> ix_deferred st' = ix_deferred st \<and> held_ops st' = []
    \<and> ix_versions st' = ix_versions st \<and> ix_live_ids st' = ix_live_ids st \<and> ix_ids_loaded st' = ix_ids_loaded st
    \<and> ix_applied_term st' = ix_applied_term st"
proof -
  have "view_ok V st'" using v commit_settles [OF W c] by (simp add: view_ok_def)
  moreover have "ix_pending st' = ix_pending st \<and> ix_versions st' = ix_versions st \<and> ix_live_ids st' = ix_live_ids st
      \<and> ix_ids_loaded st' = ix_ids_loaded st \<and> ix_applied_term st' = ix_applied_term st"
    using c by (auto simp: commit_def split: option.splits if_splits)
  ultimately show ?thesis using commit_settles(4, 5) [OF W c] by simp
qed

text \<open>Once nothing waits, the pending table can go.\<close>

lemma view_ok_cleared:
  assumes "view_ok V st" "ix_deferred st = []" "held_ops st = []"
    and "ix_pending st' = []" "ix_deferred st' = []" "held_ops st' = []" "ix_realtime st' = ix_realtime st"
  shows "view_ok V st'"
  using assms by (simp add: view_ok_def pins_ok_def reads_ok_def waiting_def settled_def)

definition same_ids :: "idx_state \<Rightarrow> idx_state \<Rightarrow> bool" where
  "same_ids st st' =
     (ix_versions st' = ix_versions st \<and> ix_live_ids st' = ix_live_ids st \<and> ix_ids_loaded st' = ix_ids_loaded st
      \<and> ix_applied_term st' = ix_applied_term st)"

lemma live_ok_cong: "same_ids st st' \<Longrightarrow> live_ok V st' i = live_ok V st i"
  by (simp add: live_ok_def same_ids_def split: option.split)

lemma apply_ops_view:
  assumes W: "willing W" and v: "view_ok V st"
  obtains st' where "apply_ops W only st = (True, st')" "view_ok V st'" "same_docs st st'"
    "\<And>s x. (s, x) \<in> set (ix_deferred st') \<Longrightarrow> (s, x) \<in> set (ix_deferred st) \<and> only \<noteq> None \<and> only \<noteq> Some s"
proof -
  from v have "pins_ok st" by (simp add: view_ok_def)
  from apply_ops_ok [OF W this, of only] obtain st' where
    st': "apply_ops W only st = (True, st')" "same_docs st st'" "pins_ok st'"
      "\<forall>i. ops_of i (waiting st') = ops_of i (waiting st)"
      "\<forall>s x. (s, x) \<in> set (ix_deferred st') = ((s, x) \<in> set (ix_deferred st) \<and> only \<noteq> None \<and> only \<noteq> Some s)" by blast
  have "view_ok V st'"
  proof (rule view_okI)
    show "settled st' i = as_mset (V i)" for i
      using st'(2, 4) view_okD(2) [OF v, of i] by (simp add: settled_def same_docs_def)
    show "reads_ok V st' i" for i
      using st'(2, 4) view_okD(3) [OF v, of i] by (simp add: reads_ok_def same_docs_def split: option.splits)
  qed (fact st'(3))
  with st' that show thesis by auto
qed

lemma apply_all_view:
  assumes W: "willing W" and v: "view_ok V st"
  obtains st' where "apply_ops W None st = (True, st')" "view_ok V st'" "same_docs st st'" "ix_deferred st' = []"
proof -
  from apply_ops_view [OF W v, of None] obtain st' where st': "apply_ops W None st = (True, st')" "view_ok V st'"
    "same_docs st st'" and "\<And>s x. (s, x) \<notin> set (ix_deferred st')" by metis
  then have "x \<notin> set (ix_deferred st')" for x by (cases x) simp
  then have "ix_deferred st' = []" by (cases "ix_deferred st'") auto
  then show thesis using that st' by simp
qed

lemma note_pending_ok:
  assumes W: "willing W" and pins: "pins_ok st" and s: "\<And>j. settled st j = as_mset (V j)"
    and r: "\<And>j. j \<noteq> i \<Longrightarrow> reads_ok V st j" and i: "V i = source"
  shows "view_ok V (note_pending W i source st) \<and> same_ids st (note_pending W i source st)"
proof -
  let ?st = "st\<lparr>ix_pending_bytes := ix_pending_bytes st + pending_size (i, source),
    ix_pending := bm_insert i source (ix_pending st)\<rparr>"
  have "settled ?st j = as_mset (V j)" for j using s [of j] by (simp add: settled_def)
  moreover have "reads_ok V ?st j" for j using r [of j] i by (cases "j = i") (simp_all add: reads_ok_def bm_insert_get split: option.splits)
  ultimately have v: "view_ok V ?st" using pins by (simp add: view_ok_def pins_ok_def)
  from apply_all_view [OF W v] obtain st1 where st1: "apply_ops W None ?st = (True, st1)" "view_ok V st1"
    "same_docs ?st st1" "ix_deferred st1 = []" .
  have ids: "same_ids st ?st" by (simp add: same_ids_def)
  have ids1: "same_ids st st1" using st1(3) by (simp add: same_ids_def same_docs_def)
  have committed: "view_ok V (st2\<lparr>ix_pending := [], ix_pending_seq := [], ix_pending_bytes := 0\<rparr>)
      \<and> same_ids st (st2\<lparr>ix_pending := [], ix_pending_seq := [], ix_pending_bytes := 0\<rparr>)"
    if "commit W st1 = Some st2" for st2
  proof -
    note c = commit_ok [OF W st1(2) that]
    have "view_ok V (st2\<lparr>ix_pending := [], ix_pending_seq := [], ix_pending_bytes := 0\<rparr>)"
      by (rule view_ok_cleared [of V st2]) (use c st1(4) in \<open>simp_all add: held_ops_def\<close>)
    then show ?thesis using c ids1 by (simp add: same_ids_def)
  qed
  show ?thesis unfolding note_pending_def Let_def st1(1)
    using v ids st1(2) ids1 committed by (auto split: option.split)
qed

section \<open>Taking a version\<close>

definition same_queue :: "idx_state \<Rightarrow> idx_state \<Rightarrow> bool" where
  "same_queue st st' =
     (ix_deferred st' = ix_deferred st \<and> ix_queued_shard st' = ix_queued_shard st \<and> ix_writer st' = ix_writer st
      \<and> ix_pending st' = ix_pending st \<and> ix_realtime st' = ix_realtime st)"

lemma same_queue_keeps:
  assumes "same_queue st st'"
  shows "pins_ok st' = pins_ok st" "settled st' i = settled st i" "reads_ok V st' i = reads_ok V st i"
    "waiting st' = waiting st"
  using assms by (simp_all add: same_queue_def pins_ok_def settled_def reads_ok_def waiting_def held_ops_def split: option.split)

lemma same_queue_refl [simp]: "same_queue st st"
  by (simp add: same_queue_def)

lemma note_live_ids: "ix_ids_loaded (note_live i st) = ix_ids_loaded st" "ix_versions (note_live i st) = ix_versions st"
  "set (ix_live_ids (note_live i st)) = insert (id_fingerprint i) (set (ix_live_ids st))" "same_queue st (note_live i st)"
  by (auto simp: note_live_def same_queue_def)

lemma bump_ok:
  assumes "\<And>j. live_ok V st j" and "existed \<longleftrightarrow> V i \<noteq> None" and "live \<longleftrightarrow> x \<noteq> None"
  shows "same_queue st (snd (bump i live existed st)) \<and> live_ok (V(i := x)) (snd (bump i live existed st)) j"
  using assms(1) [of j] assms(2, 3)
  by (cases "j = i"; cases live)
    (auto simp: bump_def Let_def set_version_def note_live_def same_queue_def live_ok_def bm_insert_get bm_has_get
       split: option.splits)

lemma bump_to_seq_ok:
  assumes "\<And>j. live_ok V st j" and "live \<longleftrightarrow> x \<noteq> None"
  shows "same_queue st (snd (bump_to_seq i live v sq st)) \<and> live_ok (V(i := x)) (snd (bump_to_seq i live v sq st)) j"
  using assms(1) [of j] assms(2)
  by (cases "j = i"; cases live)
    (auto simp: bump_to_seq_def Let_def set_version_def note_live_def same_queue_def live_ok_def bm_insert_get
       split: option.splits)

section \<open>Writing, deleting and refreshing\<close>

lemma settled_queued:
  assumes "same_docs st st'" and "\<And>j. ops_of j (waiting st') = ops_of j (waiting st) @ ops_of j [x]"
  shows "settled st' j = (if op_id x \<noteq> j then settled st j
    else case x of Delete _ \<Rightarrow> {#} | Add d \<Rightarrow> add_mset (rd_source d) (settled st j))"
proof -
  have "\<forall>d \<in> set (docs_of j docs). rd_id d = j" for docs by (simp add: docs_of_def)
  moreover have "\<forall>d \<in> set (fold index_op (ops_of j ops) docs). rd_id d = j" if "\<forall>d \<in> set docs. rd_id d = j" for ops docs
    using that
  proof (induction ops arbitrary: docs)
    case (Cons a ops)
    then have "\<forall>d \<in> set (index_op a docs). rd_id d = j" if "op_id a = j" using that by (cases a) auto
    with Cons.IH Cons.prems show ?case by (cases "op_id a = j") (simp_all add: ops_of_def)
  qed (simp add: ops_of_def)
  ultimately have "\<forall>d \<in> set (fold index_op (ops_of j (waiting st)) (docs_of j (ix_realtime st))). rd_id d = j" by blast
  then show ?thesis using assms by (cases x) (auto simp: settled_def same_docs_def)
qed

text \<open>One queued operation: what it does to what each id settles to.\<close>

lemma queued_ok:
  fixes shard :: nat
  assumes W: "willing W" and p: "pins_ok st" and s: "\<And>j. settled st j = as_mset (V j)" and r: "\<And>j. j \<noteq> i \<Longrightarrow> reads_ok V st j"
    and x: "op_id x = i" "\<And>d. x = Add d \<Longrightarrow> V i = None"
  defines "st' \<equiv> queue_op_for W i shard x st"
    and "V' \<equiv> V(i := case x of Add d \<Rightarrow> Some (rd_source d) | Delete _ \<Rightarrow> None)"
  shows "pins_ok st' \<and> (\<forall>j. settled st' j = as_mset (V' j)) \<and> (\<forall>j. j \<noteq> i \<longrightarrow> reads_ok V' st' j) \<and> same_docs st st'"
proof -
  from queue_op_for_ok [OF W p x(1), of shard] have q: "same_docs st st'" "pins_ok st'"
    "\<And>j. ops_of j (waiting st') = ops_of j (waiting st) @ ops_of j [x]" by (simp_all add: st'_def)
  have "settled st' j = as_mset (V' j)" for j
    unfolding settled_queued [OF q(1, 3)] using s [of j] x by (auto simp: V'_def as_mset_def split: pending_op.splits)
  moreover have "reads_ok V' st' j" if "j \<noteq> i" for j
  proof -
    have "ops_of j [x] = []" using x(1) that by (auto simp: ops_of_def)
    with r [OF that] q(1, 3) that show ?thesis
      by (simp add: reads_ok_def V'_def same_docs_def split: option.splits)
  qed
  ultimately show ?thesis using q by simp
qed

text \<open>A write of \<open>x\<close> under \<open>i\<close>: what stood there is deleted, and the new document, if there is one, is added.\<close>

definition requeue :: "writer \<Rightarrow> bool \<Rightarrow> string \<Rightarrow> nat \<Rightarrow> nat \<Rightarrow> string option \<Rightarrow> idx_state \<Rightarrow> idx_state" where
  "requeue W existed i shard sq x st =
     (let st = (if existed then queue_op_for W i shard (Delete i) st else st)
      in case x of
           Some raw \<Rightarrow> queue_op_for W i shard (Add \<lparr>rd_id = i, rd_seq = sq, rd_source = raw\<rparr>) st
         | None \<Rightarrow> st)"

definition queued :: "(string \<Rightarrow> string option) \<Rightarrow> string \<Rightarrow> idx_state \<Rightarrow> bool" where
  "queued V i st = (pins_ok st \<and> (\<forall>j. settled st j = as_mset (V j)) \<and> (\<forall>j. j \<noteq> i \<longrightarrow> reads_ok V st j))"

lemma requeue_ok:
  assumes W: "willing W" and v: "view_ok V st" and e: "existed \<longleftrightarrow> V i \<noteq> None"
  shows "queued (V(i := x)) i (requeue W existed i shard sq x st) \<and> same_docs st (requeue W existed i shard sq x st)"
proof -
  let ?del = "if existed then queue_op_for W i shard (Delete i) st else st"
  have d: "queued (V(i := None)) i ?del \<and> same_docs st ?del"
  proof (cases existed)
    case True
    with queued_ok [OF W view_okD [OF v], where i = i and x = "Delete i" and shard = shard] show ?thesis
      by (simp add: queued_def)
  next
    case False
    with e have "V(i := None) = V" by auto
    with False v show ?thesis by (simp add: same_docs_def queued_def view_ok_def)
  qed
  show ?thesis
  proof (cases x)
    case None
    with d show ?thesis by (simp add: requeue_def)
  next
    case (Some raw)
    from d queued_ok [OF W, of ?del "V(i := None)" i "Add \<lparr>rd_id = i, rd_seq = sq, rd_source = raw\<rparr>" shard]
    have "queued (V(i := x)) i (requeue W existed i shard sq x st) \<and> same_docs ?del (requeue W existed i shard sq x st)"
      by (simp add: requeue_def queued_def Some)
    with d show ?thesis by (auto simp: same_docs_def)
  qed
qed

text \<open>Recording a write, with whatever flush of the translog it brings, changes nothing a read rests on.\<close>

lemma log_write_ok:
  assumes W: "willing W" and q: "queued V i st"
  shows "queued V i (log_write W st) \<and> same_ids st (log_write W st) \<and> ix_settings (log_write W st) = ix_settings st
    \<and> ix_routing (log_write W st) = ix_routing st \<and> set (ix_deferred (log_write W st)) \<subseteq> set (ix_deferred st)"
proof -
  from q have p: "pins_ok st" by (simp add: queued_def)
  from apply_ops_ok [OF W p, of None] obtain st1 where st1: "apply_ops W None st = (True, st1)" "same_docs st st1" "pins_ok st1"
    "\<forall>j. ops_of j (waiting st1) = ops_of j (waiting st)" "\<forall>s x. (s, x) \<notin> set (ix_deferred st1)" by (metis (no_types))
  have "settled st1 j = settled st j" "reads_ok V st1 j = reads_ok V st j" for j
    using st1(2, 4) by (simp_all add: settled_def reads_ok_def same_docs_def split: option.split)
  with q st1(3) have q1: "queued V i st1" by (simp add: queued_def)
  have q2: "queued V i st2" if "commit W st1 = Some st2" for st2
    using q1 commit_settles [OF W that] by (auto simp: queued_def)
  have f: "ix_versions st2 = ix_versions st1 \<and> ix_live_ids st2 = ix_live_ids st1 \<and> ix_ids_loaded st2 = ix_ids_loaded st1
      \<and> ix_applied_term st2 = ix_applied_term st1 \<and> ix_settings st2 = ix_settings st1 \<and> ix_routing st2 = ix_routing st1
      \<and> ix_deferred st2 = ix_deferred st1"
    if "commit W st1 = Some st2" for st2
    using that by (auto simp: commit_def split: option.splits if_splits)
  show ?thesis
    using q q1 q2 f st1(2, 5) unfolding log_write_def st1(1)
    by (auto simp: same_ids_def same_docs_def split: option.split)
qed

text \<open>The end of a write: its record, the copy kept for reads and its sequence number.\<close>

lemma noted_ok:
  fixes sq :: nat
  assumes W: "willing W" and q: "queued V i st" and l: "\<And>j. live_ok V st j" and i: "V i = x"
  defines "st' \<equiv> note_pending_seq i sq (note_pending W i x (log_write W st))"
  shows "store_ok st' \<and> realtime st' = V \<and> ix_versions st' = ix_versions st \<and> ix_applied_term st' = ix_applied_term st"
proof -
  let ?st = "note_pending W i x (log_write W st)"
  note g = log_write_ok [OF W q]
  have "view_ok V ?st \<and> same_ids (log_write W st) ?st"
    by (rule note_pending_ok [OF W]) (use g i in \<open>simp_all add: queued_def\<close>)
  with g have n: "view_ok V ?st \<and> same_ids st ?st" by (simp add: same_ids_def)
  have "same_queue ?st st'" by (simp add: st'_def note_pending_seq_def same_queue_def)
  with n have v: "view_ok V st'" by (simp add: view_ok_def same_queue_keeps)
  have ids: "same_ids st st'" using n by (simp add: st'_def note_pending_seq_def same_ids_def)
  with l have "live_ok V st' j" for j by (simp add: live_ok_cong)
  from store_okI [OF v this] ids show ?thesis by (simp add: same_ids_def)
qed

lemma live_ok_docs: "same_docs st st' \<Longrightarrow> live_ok V st' i = live_ok V st i"
  by (rule live_ok_cong) (simp add: same_docs_def same_ids_def)

lemma set_term_keeps: "same_queue st (set_term i t st)" "same_ids st (set_term i t st)"
  "ix_routing (set_term i t st) = ix_routing st" "ix_applied_term (set_term i t st) = ix_applied_term st"
  by (simp_all add: set_term_def same_queue_def same_ids_def)

lemma queued_cong: "same_queue st st' \<Longrightarrow> queued V i st' = queued V i st"
  by (simp add: queued_def same_queue_keeps)

lemma view_ok_cong: "same_queue st st' \<Longrightarrow> view_ok V st' = view_ok V st"
  by (simp add: view_ok_def same_queue_keeps)

lemma put_doc_ok:
  assumes W: "willing W" and ok: "store_ok st"
  shows "store_ok (snd (put_doc W t i raw forced forced_seq st))
    \<and> realtime (snd (put_doc W t i raw forced forced_seq st)) = (realtime st)(i := Some raw)
    \<and> ix_versions (snd (put_doc W t i raw forced forced_seq st))
        = ix_versions (snd (case forced of Some v \<Rightarrow> bump_to_seq i True v forced_seq st | None \<Rightarrow> bump i True (is_live st i) st))"
proof -
  let ?V = "realtime st" and ?V' = "(realtime st)(i := Some raw)"
  let ?b = "case forced of Some v \<Rightarrow> bump_to_seq i True v forced_seq st | None \<Rightarrow> bump i True (is_live st i) st"
  let ?q = "requeue W (is_live st i) i (shard_of_doc st i) (snd (fst ?b)) (Some raw) (snd ?b)"
  have v: "view_ok ?V st" and l: "\<And>j. live_ok ?V st j" using ok by (simp_all add: store_ok_def)
  have b: "same_queue st (snd ?b)" "live_ok ?V' (snd ?b) j" for j
    using bump_ok [OF l, where existed = "is_live st i" and i = i and live = True and x = "Some raw" and j = j]
      bump_to_seq_ok [OF l, where i = i and live = True and x = "Some raw" and sq = forced_seq and j = j]
      is_live_realtime [OF ok] by (simp_all split: option.split)
  have "view_ok ?V (snd ?b)" using v view_ok_cong [OF b(1)] by simp
  from requeue_ok [OF W this is_live_realtime [OF ok], where x = "Some raw" and shard = "shard_of_doc st i" and sq = "snd (fst ?b)"]
  have q: "queued ?V' i ?q" "same_docs (snd ?b) ?q" by simp_all
  then have "queued ?V' i (set_term i t ?q)" "\<And>j. live_ok ?V' (set_term i t ?q) j"
    using b(2) live_ok_docs [OF q(2)] live_ok_cong [OF set_term_keeps(2)] queued_cong [OF set_term_keeps(1)] by simp_all
  from noted_ok [OF W this, of "Some raw" "snd (fst ?b)"] q(2) set_term_keeps(2) [of ?q i t] show ?thesis
    by (simp add: put_doc_def requeue_def Let_def case_prod_beta same_docs_def same_ids_def split del: if_split)
qed

lemma delete_doc_ok:
  assumes W: "willing W" and ok: "store_ok st"
  shows "store_ok (snd (delete_doc W i st)) \<and> realtime (snd (delete_doc W i st)) = (realtime st)(i := None)
    \<and> fst (fst (delete_doc W i st)) = (realtime st i \<noteq> None)
    \<and> ix_versions (snd (delete_doc W i st)) = ix_versions (snd (bump i False (is_live st i) st))"
proof -
  let ?V = "realtime st" and ?V' = "(realtime st)(i := None)"
  let ?b = "bump i False (is_live st i) st"
  let ?q = "requeue W (is_live st i) i (shard_of_doc (snd ?b) i) 0 None (snd ?b)"
  have v: "view_ok ?V st" and l: "\<And>j. live_ok ?V st j" using ok by (simp_all add: store_ok_def)
  have b: "same_queue st (snd ?b)" "live_ok ?V' (snd ?b) j" for j
    using bump_ok [OF l, where existed = "is_live st i" and i = i and live = False and x = None and j = j]
      is_live_realtime [OF ok] by simp_all
  have v': "view_ok ?V (snd ?b)" using v view_ok_cong [OF b(1)] by simp
  have "store_ok (snd (delete_doc W i st)) \<and> realtime (snd (delete_doc W i st)) = ?V'
    \<and> ix_versions (snd (delete_doc W i st)) = ix_versions (snd ?b)"
  proof (cases "is_live st i")
    case True
    from requeue_ok [OF W v' is_live_realtime [OF ok], where x = None and shard = "shard_of_doc (snd ?b) i" and sq = 0]
    have q: "queued ?V' i ?q" "same_docs (snd ?b) ?q" by simp_all
    then have "queued ?V' i (set_term i 1 ?q)" "\<And>j. live_ok ?V' (set_term i 1 ?q) j"
      using b(2) live_ok_docs [OF q(2)] live_ok_cong [OF set_term_keeps(2)] queued_cong [OF set_term_keeps(1)] by simp_all
    from noted_ok [OF W this, of None "snd (fst ?b)"] q(2) set_term_keeps(2) [of ?q i 1] True show ?thesis
      by (simp add: delete_doc_def requeue_def Let_def case_prod_beta same_docs_def same_ids_def)
  next
    case False
    then have "?V' = ?V" using is_live_realtime [OF ok, of i] by auto
    with v' b(2) have "store_ok (snd ?b) \<and> realtime (snd ?b) = ?V'" by (intro store_okI) simp_all
    with False show ?thesis by (simp add: delete_doc_def Let_def case_prod_beta)
  qed
  then show ?thesis using is_live_realtime [OF ok, of i] by (simp add: delete_doc_def Let_def case_prod_beta)
qed

lemma note_seq_ok: "store_ok (note_pending_seq i sq st) = store_ok st" "realtime (note_pending_seq i sq st) = realtime st"
proof -
  have q: "same_queue st (note_pending_seq i sq st)" "same_ids st (note_pending_seq i sq st)"
    by (simp_all add: note_pending_seq_def same_queue_def same_ids_def)
  show rt: "realtime (note_pending_seq i sq st) = realtime st" by (simp add: note_pending_seq_def realtime_def fun_eq_iff split: option.split)
  show "store_ok (note_pending_seq i sq st) = store_ok st"
    unfolding store_ok_def rt view_ok_def same_queue_keeps [OF q(1)] live_ok_cong [OF q(2)] ..
qed

lemma delete_forced_ok:
  assumes W: "willing W" and ok: "store_ok st"
  shows "store_ok (snd (delete_forced W i v st)) \<and> realtime (snd (delete_forced W i v st)) = (realtime st)(i := None)"
proof -
  let ?V = "realtime st" and ?V' = "(realtime st)(i := None)" and ?b = "bump_to i False v st"
  let ?q = "requeue W (is_live st i) i (shard_of_doc (snd ?b) i) 0 None (snd ?b)"
  have vw: "view_ok ?V st" and l: "\<And>j. live_ok ?V st j" using ok by (simp_all add: store_ok_def)
  have b: "same_queue st (snd ?b)" "live_ok ?V' (snd ?b) j" for j
    using bump_to_seq_ok [OF l, where i = i and live = False and x = None and sq = None and v = v and j = j] by (simp_all add: bump_to_def)
  have v': "view_ok ?V (snd ?b)" using vw view_ok_cong [OF b(1)] by simp
  show ?thesis
  proof (cases "is_live st i")
    case True
    from requeue_ok [OF W v' is_live_realtime [OF ok], where x = None and shard = "shard_of_doc (snd ?b) i" and sq = 0]
    have q: "queued ?V' i ?q" "same_docs (snd ?b) ?q" by simp_all
    then have "queued ?V' i (set_term i 1 ?q)" "\<And>j. live_ok ?V' (set_term i 1 ?q) j"
      using b(2) live_ok_docs [OF q(2)] live_ok_cong [OF set_term_keeps(2)] queued_cong [OF set_term_keeps(1)] by simp_all
    from noted_ok [OF W this, of None 0] True show ?thesis
      by (simp add: delete_forced_def requeue_def Let_def case_prod_beta note_seq_ok)
  next
    case False
    then have "?V' = ?V" using is_live_realtime [OF ok, of i] by auto
    with v' b(2) have "store_ok (snd ?b) \<and> realtime (snd ?b) = ?V'" by (intro store_okI) simp_all
    with False show ?thesis by (simp add: delete_forced_def Let_def case_prod_beta)
  qed
qed

lemma refresh_everything_ok:
  assumes W: "willing W" and ok: "store_ok st"
  shows "store_ok (snd (refresh_everything W st)) \<and> realtime (snd (refresh_everything W st)) = realtime st
    \<and> (wr_commits W \<longrightarrow> fst (refresh_everything W st)
         \<and> found_in (ix_reader (snd (refresh_everything W st))) = realtime st)
    \<and> ix_versions (snd (refresh_everything W st)) = ix_versions st"
proof -
  let ?V = "realtime st"
  have v: "view_ok ?V st" and l: "\<And>j. live_ok ?V st j" using ok by (simp_all add: store_ok_def)
  from apply_all_view [OF W v] obtain st1 where st1: "apply_ops W None st = (True, st1)" "view_ok ?V st1"
    "same_docs st st1" "ix_deferred st1 = []" .
  have l1: "live_ok ?V st1 j" for j using l st1(3) by (simp add: live_ok_docs)
  show ?thesis
  proof (cases "commit W st1")
    case None
    moreover from None have "\<not> wr_commits W" by (auto simp: commit_def split: option.splits if_splits)
    ultimately show ?thesis using store_okI [OF st1(2) l1] st1(3) by (simp add: refresh_everything_def st1(1) same_docs_def)
  next
    case (Some st2)
    let ?st = "st2\<lparr>ix_reader := ix_realtime st2, ix_pending := [], ix_pending_seq := [], ix_pending_bytes := 0\<rparr>"
    note c = commit_ok [OF W st1(2) Some]
    have v2: "view_ok ?V ?st"
      by (rule view_ok_cleared [of ?V st2]) (use c st1(4) in \<open>simp_all add: held_ops_def\<close>)
    have "same_ids st1 ?st" using c by (simp add: same_ids_def)
    then have "live_ok ?V ?st j" for j using l1 by (simp add: live_ok_cong)
    note ok2 = store_okI [OF v2 this]
    then have "found_in (ix_reader ?st) = ?V" by (auto simp: realtime_def fun_eq_iff)
    with ok2 c st1(3) show ?thesis by (simp add: refresh_everything_def st1(1) Some same_docs_def)
  qed
qed

section \<open>Refreshing one shard\<close>

text \<open>
  Nothing of a document of the shard waits under another shard.  A refresh of the shard drops the copy kept for reads of each of its
  documents, so what waits elsewhere would be seen by nobody until it is committed.
\<close>

definition waits_at_home :: "nat \<Rightarrow> idx_state \<Rightarrow> bool" where
  "waits_at_home shard st = (\<forall>(s, x) \<in> set (ix_deferred st). shard_of_doc st (op_id x) = shard \<longrightarrow> s = shard)"

lemma shard_quiet:
  assumes "set (waiting st') \<subseteq> snd ` set d" and "\<And>s x. (s, x) \<in> set d \<Longrightarrow> (s, x) \<in> set (ix_deferred st) \<and> s \<noteq> shard"
    and "waits_at_home shard st" and "shard_of_doc st i = shard"
  shows "ops_of i (waiting st') = []"
proof -
  have "op_id x \<noteq> i" if "x \<in> set (waiting st')" for x
  proof -
    from that assms(1) obtain s where "(s, x) \<in> set d" by force
    from assms(2) [OF this] assms(3, 4) show ?thesis by (auto simp: waits_at_home_def)
  qed
  then show ?thesis by (simp add: ops_of_def filter_empty_conv)
qed

lemma refresh_one_shard_ok:
  assumes W: "willing W" and ok: "store_ok st" and home: "waits_at_home shard st"
  defines "st' \<equiv> snd (refresh_one_shard W shard st)"
  shows "store_ok st' \<and> realtime st' = realtime st \<and> ix_versions st' = ix_versions st
    \<and> (wr_commits W \<longrightarrow> fst (refresh_one_shard W shard st)
         \<and> (\<forall>i. shard_of_doc st i = shard \<longrightarrow> found_in (ix_reader st') i = realtime st i))"
proof -
  let ?V = "realtime st"
  have v: "view_ok ?V st" and l: "\<And>j. live_ok ?V st j" using ok by (simp_all add: store_ok_def)
  from apply_ops_view [OF W v, of "Some shard"] obtain st1 where st1: "apply_ops W (Some shard) st = (True, st1)"
    "view_ok ?V st1" "same_docs st st1" and left: "\<And>s x. (s, x) \<in> set (ix_deferred st1) \<Longrightarrow> (s, x) \<in> set (ix_deferred st) \<and> s \<noteq> shard"
    by (metis (no_types))
  have l1: "live_ok ?V st1 j" for j using l st1(3) by (simp add: live_ok_docs)
  show ?thesis
  proof (cases "commit W st1")
    case None
    moreover from None have "\<not> wr_commits W" by (auto simp: commit_def split: option.splits if_splits)
    ultimately show ?thesis using store_okI [OF st1(2) l1] st1(3) by (simp add: st'_def refresh_one_shard_def st1(1) same_docs_def)
  next
    case st2: (Some st2)
    note k = commit_ok [OF W st1(2) st2]
    have same: "shard_of_doc st2 i = shard_of_doc st i" for i
      using st1(3) st2 by (auto simp: shard_of_doc_def same_docs_def commit_def split: option.splits if_splits)
    let ?keep = "bm_retain_keys (\<lambda>i. shard_of_doc st2 i \<noteq> shard) (ix_pending st2)"
    let ?st = "st2\<lparr>ix_reader := ix_realtime st2, ix_pending := ?keep,
      ix_pending_seq := bm_retain_keys (\<lambda>i. \<not> (bm_has (ix_pending st2) i \<and> shard_of_doc st2 i = shard)) (ix_pending_seq st2),
      ix_pending_bytes := sum_list (map pending_size ?keep)\<rparr>"
    have e: "refresh_one_shard W shard st = (True, ?st)"
      by (simp add: refresh_one_shard_def st1(1) st2 Let_def)
    have "set (waiting ?st) \<subseteq> snd ` set (ix_deferred st1)"
      unfolding waiting_update using k by (auto simp: waiting_def)
    note gone = shard_quiet [OF this left home]
    have v3: "view_ok ?V ?st"
    proof (rule view_okI)
      show "pins_ok ?st" using k by (simp add: view_ok_def pins_ok_def)
      show "settled ?st i = as_mset (?V i)" for i
        using view_okD(2) [of ?V st2 i] conjunct1 [OF k] by (simp add: settled_def)
      show "reads_ok ?V ?st i" for i
        using view_okD(3) [of ?V st2 i] k gone [of i]
        by (cases "shard_of_doc st i = shard") (simp_all add: reads_ok_def bm_retain_get same split: option.splits)
    qed
    have "same_ids st ?st" using k st1(3) by (simp add: same_ids_def same_docs_def)
    then have "live_ok ?V ?st j" for j using l by (simp add: live_ok_cong)
    note whole = store_okI [OF v3 this]
    have "found_in (ix_reader ?st) i = ?V i" if "shard_of_doc st i = shard" for i
    proof -
      have "bm_get (ix_pending ?st) i = None" using that by (simp add: bm_retain_get same)
      then have "realtime ?st i = found_in (ix_reader ?st) i" by (simp add: realtime_def)
      then show ?thesis using whole by simp
    qed
    with whole k st1(3) show ?thesis by (simp add: st'_def e same_docs_def)
  qed
qed

section \<open>A store is a map from ids to documents\<close>

text \<open>
  The requests a store serves: a write with its routing, term, version of its own if it has one, and whether it refreshes its shard; a delete
  of a document, as a bulk request or a query carries it out, and over HTTP; a refresh of everything and of one shard.
\<close>

datatype store_op =
    Write "string option" nat string string "nat option" bool
  | Remove string
  | RemoveRequest string "nat option" bool
  | Refresh
  | RefreshShard nat

fun store_do :: "writer \<Rightarrow> store_op \<Rightarrow> idx_state \<Rightarrow> idx_state" where
  "store_do W (Write routed term i raw forced refresh) st = snd (index_written W term i routed raw forced refresh st)"
| "store_do W (Remove i) st = snd (delete_doc W i st)"
| "store_do W (RemoveRequest i forced refresh) st = snd (delete_written W i forced refresh st)"
| "store_do W Refresh st = snd (refresh_everything W st)"
| "store_do W (RefreshShard shard) st = snd (refresh_one_shard W shard st)"

fun map_do :: "store_op \<Rightarrow> (string \<Rightarrow> string option) \<Rightarrow> string \<Rightarrow> string option" where
  "map_do (Write routed term i raw forced refresh) m = m(i := Some raw)"
| "map_do (Remove i) m = m(i := None)"
| "map_do (RemoveRequest i forced refresh) m = m(i := None)"
| "map_do Refresh m = m"
| "map_do (RefreshShard shard) m = m"

text \<open>
  A shard is refreshed only while nothing of its documents waits under another: what a request that refreshes finds
  once its own write is in.
\<close>

definition removed :: "writer \<Rightarrow> string \<Rightarrow> nat option \<Rightarrow> idx_state \<Rightarrow> idx_state" where
  "removed W i forced st = set_routing i None (snd (case forced of Some v \<Rightarrow> delete_forced W i v st | None \<Rightarrow> delete_doc W i st))"

fun refreshes_at_home :: "writer \<Rightarrow> store_op \<Rightarrow> idx_state \<Rightarrow> bool" where
  "refreshes_at_home W (Write routed term i raw forced refresh) st =
     (let st = snd (put_doc W term i raw forced None (set_routing i routed st)) in \<not> refresh \<or> waits_at_home (shard_of_doc st i) st)"
| "refreshes_at_home W (RemoveRequest i forced refresh) st =
     (\<not> refresh \<or> waits_at_home (shard_of_doc st i) (removed W i forced st))"
| "refreshes_at_home W (RefreshShard shard) st = waits_at_home shard st"
| "refreshes_at_home W (Remove i) st = True"
| "refreshes_at_home W Refresh st = True"

text \<open>A condition on each request and the state it finds, over a run.\<close>

fun throughout :: "(store_op \<Rightarrow> idx_state \<Rightarrow> bool) \<Rightarrow> writer \<Rightarrow> store_op list \<Rightarrow> idx_state \<Rightarrow> bool" where
  "throughout P W [] st = True"
| "throughout P W (x # xs) st = (P x st \<and> throughout P W xs (store_do W x st))"

lemma set_routing_ok: "store_ok (set_routing i r st) = store_ok st" "realtime (set_routing i r st) = realtime st"
proof -
  have q: "same_queue st (set_routing i r st)" "same_ids st (set_routing i r st)"
    by (simp_all add: set_routing_def same_queue_def same_ids_def)
  show rt: "realtime (set_routing i r st) = realtime st" by (simp add: set_routing_def realtime_def fun_eq_iff split: option.split)
  show "store_ok (set_routing i r st) = store_ok st"
    unfolding store_ok_def rt view_ok_def same_queue_keeps [OF q(1)] live_ok_cong [OF q(2)] ..
qed

lemma index_written_ok:
  assumes W: "willing W" and ok: "store_ok st" and home: "refreshes_at_home W (Write routed t i raw forced refresh) st"
  defines "st1 \<equiv> snd (put_doc W t i raw forced None (set_routing i routed st))"
    and "st' \<equiv> snd (index_written W t i routed raw forced refresh st)"
  shows "store_ok st1 \<and> store_ok st' \<and> realtime st1 = (realtime st)(i := Some raw) \<and> realtime st' = realtime st1 \<and> ix_versions st' = ix_versions st1"
proof -
  have "store_ok st1" "realtime st1 = (realtime st)(i := Some raw)"
    using put_doc_ok [OF W, of "set_routing i routed st" t i raw forced None] ok by (simp_all add: st1_def set_routing_ok)
  moreover have "store_ok st' \<and> realtime st' = realtime st1 \<and> ix_versions st' = ix_versions st1"
    using refresh_one_shard_ok [OF W \<open>store_ok st1\<close>, of "shard_of_doc st1 i"] home \<open>store_ok st1\<close>
    by (cases refresh; cases "wr_syncs W") (simp_all add: st'_def st1_def index_written_def case_prod_beta Let_def)
  ultimately show ?thesis by blast
qed

lemma delete_written_ok:
  assumes W: "willing W" and ok: "store_ok st" and home: "refreshes_at_home W (RemoveRequest i forced refresh) st"
  defines "st1 \<equiv> removed W i forced st" and "st' \<equiv> snd (delete_written W i forced refresh st)"
  shows "store_ok st1 \<and> store_ok st' \<and> realtime st1 = (realtime st)(i := None) \<and> realtime st' = realtime st1 \<and> ix_versions st' = ix_versions st1"
proof -
  have "store_ok st1" "realtime st1 = (realtime st)(i := None)"
    using delete_doc_ok [OF W ok, of i] delete_forced_ok [OF W ok, of i]
    by (simp_all add: st1_def removed_def set_routing_ok split: option.split)
  moreover have "store_ok st' \<and> realtime st' = realtime st1 \<and> ix_versions st' = ix_versions st1"
    using refresh_one_shard_ok [OF W \<open>store_ok st1\<close>, of "shard_of_doc st i"] home \<open>store_ok st1\<close>
    by (cases refresh; cases "wr_syncs W") (simp_all add: st'_def st1_def removed_def delete_written_def case_prod_beta Let_def)
  ultimately show ?thesis by blast
qed

lemma store_do_ok:
  assumes "willing W" and "store_ok st" and "refreshes_at_home W x st"
  shows "store_ok (store_do W x st) \<and> realtime (store_do W x st) = map_do x (realtime st)"
  using index_written_ok [OF assms(1, 2)] delete_written_ok [OF assms(1, 2)] delete_doc_ok [OF assms(1, 2)]
    refresh_everything_ok [OF assms(1, 2)] refresh_one_shard_ok [OF assms(1, 2)] assms(3)
  by (cases x) (simp_all del: refreshes_at_home.simps(1, 2))

lemma run_reads:
  assumes "willing W" and "store_ok st" and "throughout (refreshes_at_home W) W ops st"
  shows "store_ok (fold (store_do W) ops st) \<and> realtime (fold (store_do W) ops st) = fold map_do ops (realtime st)"
  using assms(2, 3)
proof (induction ops arbitrary: st)
  case (Cons x ops)
  with store_do_ok [OF assms(1), of st x] show ?case by simp
qed simp

text \<open>
  \<^bold>\<open>C20.\<close>  The store behaves as a map.  Whatever is written, with a version of its own or not, deleted and refreshed, in any order, and
  however often the queue, the pending table or the translog overflow on the way, a realtime read of any id gives what a
  plain map given the same requests holds: the last document written under it, or nothing after a delete.  One thing is asked of the run:
  a shard is refreshed, on its own or by a write or delete that asks for it, only while nothing of its documents
  waits under another shard.
\<close>

theorem store_refines_map:
  assumes "willing W" and "store_ok st" and "throughout (refreshes_at_home W) W ops st"
  shows "store_ok (fold (store_do W) ops st) \<and> realtime (fold (store_do W) ops st) = fold map_do ops (realtime st)"
  using assms by (rule run_reads)


text \<open>
  \<^bold>\<open>C21.\<close>  A refresh of one shard, when every queued operation waits under the shard its document belongs to:
  no realtime read changes, and a search finds every document of the shard as a realtime read gives it.
\<close>

theorem refresh_shard_shows_shard:
  assumes W: "willing W" and ok: "store_ok st" and c: "wr_commits W"
    and home: "\<forall>(s, x) \<in> set (ix_deferred st). shard_of_doc st (op_id x) = s"
  shows "fst (refresh_one_shard W shard st) \<and> store_ok (snd (refresh_one_shard W shard st))
    \<and> realtime (snd (refresh_one_shard W shard st)) = realtime st
    \<and> (\<forall>i. shard_of_doc st i = shard \<longrightarrow> found_in (ix_reader (snd (refresh_one_shard W shard st))) i = realtime st i)"
proof -
  from home have "waits_at_home shard st" by (auto simp: waits_at_home_def)
  from refresh_one_shard_ok [OF W ok this] c show ?thesis by simp
qed

end
