(* ===== verification/Replica_Properties.thy ===== *)
theory Replica_Properties
  imports Replica Index_Store_Properties
begin

text \<open>
  What a copy holds after the primary's writes: each is taken or refused as its term and version say, copies that
  were sent the same writes of one term agree whatever the order and however often each came, the pages of a scan
  are the whole index, a copy filled from them reads as the primary does, and a write that arrives during
  a fill is not lost.
\<close>

section \<open>One write\<close>

lemma bm_ok_Nil [simp]: "bm_ok []"
  by (simp add: bm_ok_def bm_keys_def)

definition wins :: "replica_op \<Rightarrow> idx_state \<Rightarrow> bool" where
  "wins x st = (ro_term x > ix_applied_term st
     \<or> (case held_version st (ro_id x) of Some have \<Rightarrow> have < ro_version x | None \<Rightarrow> True))"

definition replica_entry :: "replica_op \<Rightarrow> doc_meta" where
  "replica_entry x = \<lparr>dm_version = ro_version x, dm_live = (ro_source x \<noteq> None)\<rparr>"

lemma set_replicated_ok:
  assumes "\<And>j. live_ok V st j"
  shows "same_queue st (set_replicated_version i v (x \<noteq> None) sq st)"
    "live_ok (V(i := x)) (set_replicated_version i v (x \<noteq> None) sq st) j"
    "ix_versions (set_replicated_version i v (x \<noteq> None) sq st) = bm_insert i \<lparr>dm_version = v, dm_live = (x \<noteq> None)\<rparr> (ix_versions st)"
    "ix_applied_term (set_replicated_version i v (x \<noteq> None) sq st) = ix_applied_term st"
  using assms [of j]
  by (auto simp: set_replicated_version_def Let_def set_version_def note_live_def same_queue_def live_ok_def bm_insert_get
      split: option.splits)

lemma replicated_routing_keeps:
  "same_queue st (replicated_routing x st)" "same_ids st (replicated_routing x st)"
  by (simp_all add: replicated_routing_def same_queue_def same_ids_def split: option.split)

lemma applied_term_keeps:
  "same_queue st (st\<lparr>ix_applied_term := t\<rparr>)" "is_live (st\<lparr>ix_applied_term := t\<rparr>) i = is_live st i"
  "realtime (st\<lparr>ix_applied_term := t\<rparr>) = realtime st" "live_ok V (st\<lparr>ix_applied_term := t\<rparr>) i = live_ok V st i"
  "held_version (st\<lparr>ix_applied_term := t\<rparr>) i = held_version st i"
  by (auto simp: same_queue_def is_live_def lookup_id_def realtime_def live_ok_def held_version_def fun_eq_iff split: option.split)

lemma applied_term_store: "store_ok (st\<lparr>ix_applied_term := t\<rparr>) = store_ok st"
  by (simp add: store_ok_def view_ok_cong [OF applied_term_keeps(1)] applied_term_keeps)

text \<open>What a write does once it is not refused.\<close>

definition replicate_into :: "writer \<Rightarrow> replica_op \<Rightarrow> idx_state \<Rightarrow> idx_state" where
  "replicate_into W x st =
     (let i = ro_id x;
          s1 = set_term i (if ro_source x \<noteq> None then (case ro_doc_term x of Some t \<Rightarrow> t | None \<Rightarrow> ro_term x) else 1)
            (set_replicated_version i (ro_version x) (ro_source x \<noteq> None) (ro_seq x) (replicated_routing x st))
      in note_pending_seq i (ro_seq x) (note_pending W i (ro_source x)
           (log_write W (requeue W (is_live st i) i (shard_of_doc s1 i) (ro_seq x) (ro_source x) s1))))"

lemma apply_inner_cases:
  "apply_replicated_inner W x force st =
     (if \<not> force \<and> \<not> wins x st then (False, st)
      else (True, replicate_into W x (if \<not> force \<and> ro_term x > ix_applied_term st then st\<lparr>ix_applied_term := ro_term x\<rparr> else st)))"
  by (auto simp: apply_replicated_inner_def wins_def replicate_into_def requeue_def Let_def applied_term_keeps not_le
      split: option.split)

lemma replicate_into_ok:
  assumes W: "willing W" and ok: "store_ok st"
  shows "store_ok (replicate_into W x st) \<and> realtime (replicate_into W x st) = (realtime st)(ro_id x := ro_source x)
    \<and> ix_versions (replicate_into W x st) = bm_insert (ro_id x) (replica_entry x) (ix_versions st)
    \<and> ix_applied_term (replicate_into W x st) = ix_applied_term st"
proof -
  let ?V = "realtime st" and ?V' = "(realtime st)(ro_id x := ro_source x)" and ?i = "ro_id x"
  let ?r = "replicated_routing x st"
  let ?s = "set_replicated_version ?i (ro_version x) (ro_source x \<noteq> None) (ro_seq x) ?r"
  let ?t = "set_term ?i (if ro_source x \<noteq> None then (case ro_doc_term x of Some t \<Rightarrow> t | None \<Rightarrow> ro_term x) else 1) ?s"
  let ?q = "requeue W (is_live st ?i) ?i (shard_of_doc ?t ?i) (ro_seq x) (ro_source x) ?t"
  have v: "view_ok ?V st" and l: "\<And>j. live_ok ?V ?r j"
    using ok by (simp_all add: store_ok_def live_ok_cong [OF replicated_routing_keeps(2)])
  note sr = set_replicated_ok [OF l, where i = "?i" and x = "ro_source x" and v = "ro_version x" and sq = "ro_seq x"]
  have "view_ok ?V ?t"
    using v view_ok_cong [OF replicated_routing_keeps(1)] view_ok_cong [OF sr(1)] view_ok_cong [OF set_term_keeps(1)] by simp
  from requeue_ok [OF W this is_live_realtime [OF ok], where x = "ro_source x" and shard = "shard_of_doc ?t ?i" and sq = "ro_seq x"]
  have q: "queued ?V' ?i ?q" "same_docs ?t ?q" by simp_all
  have "live_ok ?V' ?q j" for j
    using sr(2) [of j] live_ok_docs [OF q(2)] live_ok_cong [OF set_term_keeps(2)] by simp
  from noted_ok [OF W q(1) this, of "ro_source x" "ro_seq x"]
  have n: "store_ok (replicate_into W x st) \<and> realtime (replicate_into W x st) = ?V'
    \<and> ix_versions (replicate_into W x st) = ix_versions ?q \<and> ix_applied_term (replicate_into W x st) = ix_applied_term ?q"
    by (simp add: replicate_into_def Let_def)
  have "ix_versions ?q = ix_versions ?s" "ix_applied_term ?q = ix_applied_term ?s"
    using q(2) set_term_keeps(2) [of ?s] by (simp_all add: same_docs_def same_ids_def)
  then show ?thesis using n sr(3, 4) replicated_routing_keeps(2) [where x = x and st = st] by (simp add: same_ids_def replica_entry_def)
qed

lemma replicate_into_held:
  assumes W: "willing W" and ok: "store_ok st"
  shows "held_version (replicate_into W x st) = (held_version st)(ro_id x := Some (ro_version x))"
proof -
  let ?st = "replicate_into W x st"
  note r = replicate_into_ok [OF W ok, of x]
  have "is_live ?st j = is_live st j" if "j \<noteq> ro_id x" for j
    using r that is_live_realtime [OF ok] is_live_realtime [of ?st] by simp
  then show ?thesis using r by (auto simp: held_version_def fun_eq_iff bm_insert_get replica_entry_def split: option.split)
qed

lemma apply_replicated_ok:
  assumes W: "willing W" and ok: "store_ok st" and a: "apply_replicated W x st = (taken, st')"
  shows "taken = wins x st \<and> store_ok st'
    \<and> realtime st' = (if taken then (realtime st)(ro_id x := ro_source x) else realtime st)
    \<and> held_version st' = (if taken then (held_version st)(ro_id x := Some (ro_version x)) else held_version st)
    \<and> ix_applied_term st' = max (ix_applied_term st) (if taken then ro_term x else 0)"
proof (cases "wins x st")
  case False
  with a ok show ?thesis by (simp add: apply_replicated_def apply_inner_cases)
next
  case True
  let ?s = "if ro_term x > ix_applied_term st then st\<lparr>ix_applied_term := ro_term x\<rparr> else st"
  from True a have st': "taken" "st' = replicate_into W x ?s"
    by (simp_all add: apply_replicated_def apply_inner_cases del: if_split)
  have s: "store_ok ?s" "realtime ?s = realtime st" "ix_versions ?s = ix_versions st"
    "ix_applied_term ?s = max (ix_applied_term st) (ro_term x)"
    using ok by (simp_all add: applied_term_store applied_term_keeps)
  note r = replicate_into_ok [OF W s(1), of x, folded st'(2)]
  have "held_version ?s = held_version st" by (auto simp: applied_term_keeps fun_eq_iff)
  with replicate_into_held [OF W s(1), of x, folded st'(2)]
  r s True st'(1) show ?thesis by simp
qed

text \<open>
  A write reaching a copy is taken exactly when it is of a newer term than any the copy has applied, or of a higher
  version than the one it holds of the document (or it holds none).  Taken, it is what the copy reads for that id
  and the version it holds of it, and no other id changes; refused, it changes nothing.
\<close>

theorem replica_write_effect:
  assumes W: "willing W" and ok: "store_ok st" and a: "apply_replicated W x st = (taken, st')"
  shows "taken = wins x st \<and> store_ok st'
    \<and> realtime st' = (if taken then (realtime st)(ro_id x := ro_source x) else realtime st)
    \<and> held_version st' = (if taken then (held_version st)(ro_id x := Some (ro_version x)) else held_version st)
    \<and> ix_applied_term st' = max (ix_applied_term st) (if taken then ro_term x else 0)"
  by (rule apply_replicated_ok [OF W ok a])

section \<open>Copies sent the same writes\<close>

definition receive :: "writer \<Rightarrow> replica_op list \<Rightarrow> idx_state \<Rightarrow> idx_state" where
  "receive W xs st = fold (\<lambda>x st. snd (apply_replicated W x st)) xs st"

lemma apply_batch_receive: "snd (apply_batch W xs st) = receive W xs st"
proof -
  have "snd (fold (\<lambda>x (applied, st). let (taken, st) = apply_replicated W x st in (if taken then applied + 1 else applied, st)) xs (n, st))
      = receive W xs st" for n
    by (induction xs arbitrary: n st) (simp_all add: receive_def case_prod_beta Let_def)
  then show ?thesis by (simp add: apply_batch_def)
qed

definition rank :: "nat option \<Rightarrow> nat" where
  "rank h = (case h of None \<Rightarrow> 0 | Some v \<Rightarrow> Suc v)"

lemma rank_inj: "rank a = rank b \<Longrightarrow> a = b"
  by (auto simp: rank_def split: option.splits)

text \<open>What a copy reads and holds of an id after writes of terms it knows: the write of the highest version, if it is higher.\<close>

definition outcome :: "replica_op list \<Rightarrow> string \<Rightarrow> idx_state \<Rightarrow> idx_state \<Rightarrow> bool" where
  "outcome xs i st st' =
     ((realtime st' i = realtime st i \<and> held_version st' i = held_version st i
       \<or> (\<exists>x \<in> set xs. ro_id x = i \<and> realtime st' i = ro_source x \<and> held_version st' i = Some (ro_version x)
             \<and> rank (held_version st i) < Suc (ro_version x)))
      \<and> (\<forall>x \<in> set xs. ro_id x = i \<longrightarrow> ro_version x < rank (held_version st' i))
      \<and> rank (held_version st i) \<le> rank (held_version st' i))"

lemma wins_known: "ro_term x \<le> ix_applied_term st \<Longrightarrow> wins x st = (rank (held_version st (ro_id x)) < Suc (ro_version x))"
  by (auto simp: wins_def rank_def split: option.splits)

lemma receive_outcome:
  assumes W: "willing W" and "store_ok st" and "\<forall>x \<in> set xs. ro_term x \<le> ix_applied_term st"
  shows "store_ok (receive W xs st) \<and> outcome xs i st (receive W xs st)"
  using assms(2, 3)
proof (induction xs arbitrary: st)
  case Nil
  then show ?case by (simp add: receive_def outcome_def)
next
  case (Cons x xs)
  obtain taken st1 where a: "apply_replicated W x st = (taken, st1)" by fastforce
  note e = apply_replicated_ok [OF W Cons.prems(1) a]
  have w: "wins x st = (rank (held_version st (ro_id x)) < Suc (ro_version x))" using Cons.prems(2) by (simp add: wins_known)
  have "\<forall>x \<in> set xs. ro_term x \<le> ix_applied_term st1" using e Cons.prems(2) by (auto simp: le_max_iff_disj)
  from Cons.IH [OF _ this] e have ih: "store_ok (receive W xs st1)" "outcome xs i st1 (receive W xs st1)" by blast+
  have r: "receive W (x # xs) st = receive W xs st1" by (simp add: receive_def a)
  have "outcome (x # xs) i st (receive W xs st1)"
  proof (cases "ro_id x = i \<and> wins x st")
    case True
    with e have "realtime st1 i = ro_source x" "held_version st1 i = Some (ro_version x)" by simp_all
    with ih(2) True w show ?thesis by (fastforce simp: outcome_def rank_def)
  next
    case False
    with e have "realtime st1 i = realtime st i" "held_version st1 i = held_version st i" by (auto split: if_splits)
    with ih(2) False w show ?thesis by (fastforce simp: outcome_def)
  qed
  with ih(1) r show ?case by simp
qed

lemma outcome_least:
  assumes "outcome xs i st st'" and "rank (held_version st i) \<le> n" and "\<And>x. x \<in> set xs \<Longrightarrow> ro_id x = i \<Longrightarrow> ro_version x < n"
  shows "rank (held_version st' i) \<le> n"
  using assms(1)
proof (unfold outcome_def, elim conjE disjE bexE)
  fix x
  assume "x \<in> set xs" "ro_id x = i" "held_version st' i = Some (ro_version x)"
  with assms(3) [of x] show ?thesis by (simp add: rank_def)
qed (use assms(2) in simp)

lemma outcome_bounds:
  assumes "outcome xs i st st'"
  shows "rank (held_version st i) \<le> rank (held_version st' i)" "x \<in> set xs \<Longrightarrow> ro_id x = i \<Longrightarrow> ro_version x < rank (held_version st' i)"
  using assms by (simp_all add: outcome_def)

lemma outcome_cases:
  assumes "outcome xs i st st'"
  obtains "realtime st' i = realtime st i" "held_version st' i = held_version st i"
  | x where "x \<in> set xs" "ro_id x = i" "realtime st' i = ro_source x" "held_version st' i = Some (ro_version x)"
      "held_version st' i \<noteq> held_version st i"
  using assms unfolding outcome_def
proof (elim conjE disjE bexE)
  fix x
  assume x: "x \<in> set xs" "ro_id x = i" "realtime st' i = ro_source x" "held_version st' i = Some (ro_version x)"
    "rank (held_version st i) < Suc (ro_version x)"
  from x(4) have "rank (held_version st' i) = Suc (ro_version x)" by (simp add: rank_def)
  with x(5) have "held_version st' i \<noteq> held_version st i" by (intro notI) simp
  from that(2) [OF x(1-4) this] show thesis .
qed (rule that(1))

lemma receive_converge:
  assumes W: "willing W" "willing W'" and ok: "store_ok a" "store_ok b"
    and same: "realtime a = realtime b" "held_version a = held_version b"
    and sent: "set xs = set ys"
    and known: "\<forall>x \<in> set xs. ro_term x \<le> ix_applied_term a \<and> ro_term x \<le> ix_applied_term b"
    and one: "\<forall>x \<in> set xs. \<forall>y \<in> set xs. ro_id x = ro_id y \<and> ro_version x = ro_version y \<longrightarrow> ro_source x = ro_source y"
  shows "realtime (receive W xs a) = realtime (receive W' ys b) \<and> held_version (receive W xs a) = held_version (receive W' ys b)"
proof -
  have "realtime (receive W xs a) i = realtime (receive W' ys b) i
      \<and> held_version (receive W xs a) i = held_version (receive W' ys b) i" for i
  proof -
    let ?a = "receive W xs a" and ?b = "receive W' ys b"
    have A: "outcome xs i a ?a" and B: "outcome ys i b ?b"
      using receive_outcome [OF W(1) ok(1), of xs i] receive_outcome [OF W(2) ok(2), of ys i] known sent by auto
    have "rank (held_version ?a i) \<le> rank (held_version ?b i)"
      by (rule outcome_least [OF A]) (use outcome_bounds [OF B] in \<open>simp_all add: same sent\<close>)
    moreover have "rank (held_version ?b i) \<le> rank (held_version ?a i)"
      by (rule outcome_least [OF B]) (use outcome_bounds [OF A] in \<open>simp_all add: same [symmetric] sent [symmetric]\<close>)
    ultimately have h: "held_version ?a i = held_version ?b i" by (simp add: rank_inj)
    have "realtime ?a i = realtime ?b i"
    proof (rule outcome_cases [OF A])
      assume "realtime ?a i = realtime a i" "held_version ?a i = held_version a i"
      then have "held_version ?b i = held_version b i" using h by (simp add: same)
      show ?thesis by (rule outcome_cases [OF B]) (use \<open>held_version ?b i = held_version b i\<close> \<open>realtime ?a i = realtime a i\<close> in \<open>simp_all add: same\<close>)
    next
      fix x
      assume x: "x \<in> set xs" "ro_id x = i" "realtime ?a i = ro_source x" "held_version ?a i = Some (ro_version x)"
        "held_version ?a i \<noteq> held_version a i"
      show ?thesis
      proof (rule outcome_cases [OF B])
        fix y
        assume y: "y \<in> set ys" "ro_id y = i" "realtime ?b i = ro_source y" "held_version ?b i = Some (ro_version y)"
        have "ro_version x = ro_version y" using h unfolding x(4) y(4) by simp
        moreover have "y \<in> set xs" using y(1) by (simp add: sent)
        ultimately have "ro_source x = ro_source y" using x(2) y(2) by (intro one [rule_format, OF x(1)]) simp_all
        with x(3) y(3) show ?thesis by simp
      qed (use x h in \<open>simp add: same\<close>)
    qed
    with h show ?thesis by blast
  qed
  then show ?thesis by (auto simp: fun_eq_iff)
qed

text \<open>
  \<^bold>\<open>C15.\<close>  Copies converge.  Two copies that read alike and hold the same versions are sent the same writes, of terms
  both know, each in an order of its own and any of them more than once.  If no two writes give one document one
  version and different contents, the copies read alike and hold the same versions after.
\<close>

theorem copies_converge:
  assumes W: "willing W" "willing W'" and ok: "store_ok a" "store_ok b"
    and same: "realtime a = realtime b" "held_version a = held_version b"
    and sent: "set xs = set ys"
    and known: "\<forall>x \<in> set xs. ro_term x \<le> ix_applied_term a \<and> ro_term x \<le> ix_applied_term b"
    and one: "\<forall>x \<in> set xs. \<forall>y \<in> set xs. ro_id x = ro_id y \<and> ro_version x = ro_version y \<longrightarrow> ro_source x = ro_source y"
  shows "realtime (receive W xs a) = realtime (receive W' ys b) \<and> held_version (receive W xs a) = held_version (receive W' ys b)"
  by (rule receive_converge [OF W ok same sent known one])

section \<open>The pages of a scan\<close>

text \<open>Everything a scan is to send, from a sequence number on.\<close>

definition snapshot :: "nat \<Rightarrow> idx_state \<Rightarrow> nat \<Rightarrow> nat \<Rightarrow> replica_op set" where
  "snapshot term st shard from_seq =
     (\<lambda>p. scanned_op term st shard (fst p) (pending_seq_of st (fst p)) (snd p))
       ` {p \<in> set (ix_pending st). in_scan st shard (fst p) \<and> from_seq \<le> pending_seq_of st (fst p)}
     \<union> (\<lambda>d. scanned_op term st shard (rd_id d) (rd_seq d) (Some (rd_source d)))
       ` {d \<in> set (ix_realtime st). in_scan st shard (rd_id d) \<and> \<not> bm_has (ix_pending st) (rd_id d) \<and> from_seq \<le> rd_seq d}"

lemma fold_insert_get:
  assumes "\<And>x y. x \<in> set xs \<Longrightarrow> y \<in> set xs \<Longrightarrow> \<not> skip x \<Longrightarrow> \<not> skip y \<Longrightarrow> key x = key y \<Longrightarrow> val x = val y"
    and "\<And>x. x \<in> set xs \<Longrightarrow> \<not> skip x \<Longrightarrow> bm_get m (key x) = None \<or> bm_get m (key x) = Some (val x)"
    and "bm_ok m"
  defines "m' \<equiv> fold (\<lambda>x m. if skip x then m else bm_insert (key x) (val x) m) xs m"
  shows "bm_ok m' \<and> (bm_get m' k = Some v \<longleftrightarrow> bm_get m k = Some v \<or> (\<exists>x \<in> set xs. \<not> skip x \<and> key x = k \<and> val x = v))"
  using assms(1-3) unfolding m'_def
proof (induction xs arbitrary: m)
  case (Cons x xs)
  let ?m = "if skip x then m else bm_insert (key x) (val x) m"
  have ok: "bm_ok ?m" using Cons.prems(3) by (simp add: bm_insert_ok)
  have agree: "bm_get ?m (key y) = None \<or> bm_get ?m (key y) = Some (val y)" if "y \<in> set xs" "\<not> skip y" for y
    using Cons.prems(1) [of y x] Cons.prems(2) [of y] that by (auto simp: bm_insert_get)
  have "val a = val b" if "a \<in> set xs" "b \<in> set xs" "\<not> skip a" "\<not> skip b" "key a = key b" for a b
    using Cons.prems(1) [of a b] that by simp
  note ih = Cons.IH [OF this agree ok]
  have here: "bm_get ?m k = Some v \<longleftrightarrow> bm_get m k = Some v \<or> \<not> skip x \<and> key x = k \<and> val x = v"
    using Cons.prems(2) [of x] by (auto simp: bm_insert_get)
  have "(\<exists>y \<in> set (x # xs). \<not> skip y \<and> key y = k \<and> val y = v)
      \<longleftrightarrow> (\<not> skip x \<and> key x = k \<and> val x = v) \<or> (\<exists>y \<in> set xs. \<not> skip y \<and> key y = k \<and> val y = v)" by simp
  with ih here show ?case unfolding fold_simps comp_apply by blast
qed simp

lemma bm_values_set: "bm_ok m \<Longrightarrow> set (bm_values m) = {v. \<exists>k. bm_get m k = Some v}"
  using bm_set_get bm_get_in_set by (force simp: bm_values_def)

lemma one_doc:
  assumes ok: "store_ok st" and d: "d \<in> set (ix_realtime st)" "e \<in> set (ix_realtime st)" "rd_id d = rd_id e"
    "\<not> bm_has (ix_pending st) (rd_id d)"
  shows "d = e" "realtime st (rd_id d) = Some (rd_source d)"
proof -
  have v: "view_ok (realtime st) st" using ok by (simp add: store_ok_def)
  have p: "bm_get (ix_pending st) (rd_id d) = None" using d(4) by (simp add: bm_has_get)
  with view_okD(3) [OF v, of "rd_id d"] have "ops_of (rd_id d) (waiting st) = []" by (simp add: reads_ok_def)
  from settled_quiet [OF this] view_okD(2) [OF v, of "rd_id d"]
  have m: "image_mset rd_source (mset (docs_of (rd_id d) (ix_realtime st))) = as_mset (realtime st (rd_id d))" by simp
  have "size (as_mset x) \<le> 1" for x by (simp add: as_mset_def split: option.split)
  with m have "length (docs_of (rd_id d) (ix_realtime st)) \<le> 1" by (metis size_image_mset size_mset)
  moreover have "d \<in> set (docs_of (rd_id d) (ix_realtime st))" "e \<in> set (docs_of (rd_id d) (ix_realtime st))"
    using d by (simp_all add: docs_of_def)
  ultimately have l: "docs_of (rd_id d) (ix_realtime st) = [d]" "d = e"
    by (cases "docs_of (rd_id d) (ix_realtime st)"; auto simp: le_Suc_eq)+
  then show "d = e" by simp
  from l(1) m show "realtime st (rd_id d) = Some (rd_source d)" by (simp add: as_mset_def split: option.splits)
qed

lemma scan_pending_as_fold:
  "scan_pending term st shard from_seq =
     fold (\<lambda>p m. if \<not> in_scan st shard (fst p) \<or> pending_seq_of st (fst p) < from_seq then m
       else bm_insert (pending_seq_of st (fst p), fst p) (scanned_op term st shard (fst p) (pending_seq_of st (fst p)) (snd p)) m)
     (ix_pending st) []"
  unfolding scan_pending_def by (rule fold_cong) (auto simp: fun_eq_iff)

lemma scan_pending_get:
  assumes "bm_ok (ix_pending st)"
  shows "bm_ok (scan_pending term st shard from_seq)"
    and "bm_get (scan_pending term st shard from_seq) k = Some x \<longleftrightarrow>
      (\<exists>p \<in> set (ix_pending st). in_scan st shard (fst p) \<and> from_seq \<le> pending_seq_of st (fst p)
         \<and> k = (pending_seq_of st (fst p), fst p) \<and> x = scanned_op term st shard (fst p) (pending_seq_of st (fst p)) (snd p))"
proof -
  let ?skip = "\<lambda>p. \<not> in_scan st shard (fst p) \<or> pending_seq_of st (fst p) < from_seq"
  let ?key = "\<lambda>p. (pending_seq_of st (fst p), fst p)"
  let ?val = "\<lambda>p. scanned_op term st shard (fst p) (pending_seq_of st (fst p)) (snd p)"
  have one: "?val p = ?val q" if "p \<in> set (ix_pending st)" "q \<in> set (ix_pending st)" "?key p = ?key q" for p q
  proof -
    from bm_set_get [OF assms, of "fst p" "snd p"] bm_set_get [OF assms, of "fst q" "snd q"] that have "snd p = snd q" by simp
    with that(3) show ?thesis by simp
  qed
  have g: "bm_ok (scan_pending term st shard from_seq)
      \<and> (bm_get (scan_pending term st shard from_seq) k = Some x \<longleftrightarrow> bm_get [] k = Some x
         \<or> (\<exists>p \<in> set (ix_pending st). \<not> ?skip p \<and> ?key p = k \<and> ?val p = x))"
    unfolding scan_pending_as_fold
  proof (rule fold_insert_get)
    show "?val p = ?val q" if "p \<in> set (ix_pending st)" "q \<in> set (ix_pending st)" "\<not> ?skip p" "\<not> ?skip q" "?key p = ?key q" for p q
      by (rule one [OF that(1, 2, 5)])
  qed (simp_all add: bm_ok_def bm_keys_def)
  then show "bm_ok (scan_pending term st shard from_seq)" by blast
  from g show "bm_get (scan_pending term st shard from_seq) k = Some x \<longleftrightarrow>
      (\<exists>p \<in> set (ix_pending st). in_scan st shard (fst p) \<and> from_seq \<le> pending_seq_of st (fst p)
         \<and> k = (pending_seq_of st (fst p), fst p) \<and> x = scanned_op term st shard (fst p) (pending_seq_of st (fst p)) (snd p))"
    by (auto simp: not_less)
qed

lemma scan_reader_values:
  assumes ok: "store_ok st" and m: "bm_ok m" and docs: "set docs \<subseteq> set (ix_realtime st)"
    and keys: "\<And>k x. bm_get m k = Some x \<Longrightarrow> bm_has (ix_pending st) (snd k)"
  shows "set (bm_values (scan_reader term st shard docs m)) = set (bm_values m)
    \<union> (\<lambda>d. scanned_op term st shard (rd_id d) (rd_seq d) (Some (rd_source d)))
       ` {d \<in> set docs. in_scan st shard (rd_id d) \<and> \<not> bm_has (ix_pending st) (rd_id d)}"
proof -
  let ?skip = "\<lambda>d. bm_has (ix_pending st) (rd_id d) \<and> in_scan st shard (rd_id d) \<or> \<not> in_scan st shard (rd_id d)"
  let ?key = "\<lambda>d. (rd_seq d, rd_id d)"
  let ?val = "\<lambda>d. scanned_op term st shard (rd_id d) (rd_seq d) (Some (rd_source d))"
  have one: "?val d = ?val e" if "d \<in> set docs" "e \<in> set docs" "\<not> ?skip d" "\<not> ?skip e" "?key d = ?key e" for d e
    using one_doc(1) [OF ok, of d e] docs that by auto
  have new: "bm_get m (?key d) = None" if "d \<in> set docs" "\<not> ?skip d" for d
    using keys [of "?key d"] that by (cases "bm_get m (?key d)") auto
  have "bm_ok (scan_reader term st shard docs m) \<and> (bm_get (scan_reader term st shard docs m) k = Some x \<longleftrightarrow> bm_get m k = Some x
         \<or> (\<exists>d \<in> set docs. \<not> ?skip d \<and> ?key d = k \<and> ?val d = x))" for k x
    unfolding scan_reader_def
  proof (rule fold_insert_get)
    show "?val d = ?val e" if "d \<in> set docs" "e \<in> set docs" "\<not> ?skip d" "\<not> ?skip e" "?key d = ?key e" for d e
      by (rule one [OF that])
    show "bm_get m (?key d) = None \<or> bm_get m (?key d) = Some (?val d)" if "d \<in> set docs" "\<not> ?skip d" for d
      by (rule disjI1 [OF new [OF that]])
  qed (rule m)
  then have g: "bm_ok (scan_reader term st shard docs m)"
    "\<And>k x. bm_get (scan_reader term st shard docs m) k = Some x \<longleftrightarrow> bm_get m k = Some x
         \<or> (\<exists>d \<in> set docs. \<not> ?skip d \<and> ?key d = k \<and> ?val d = x)" by blast+
  show ?thesis unfolding bm_values_set [OF g(1)] bm_values_set [OF m] g(2) by auto
qed

lemma takeWhile_sorted: "sorted (map f xs) \<Longrightarrow> set (takeWhile (\<lambda>x. f x \<le> (c :: nat)) xs) = {x \<in> set xs. f x \<le> c}"
  by (induction xs) auto

lemma snapshot_from: "from_seq \<le> n \<Longrightarrow> snapshot term st shard n = {x \<in> snapshot term st shard from_seq. n \<le> ro_seq x}"
  by (auto simp: snapshot_def scanned_op_def)

text \<open>The numbers a page is cut by.\<close>

definition scan_numbers :: "nat \<Rightarrow> idx_state \<Rightarrow> nat \<Rightarrow> nat \<Rightarrow> nat list" where
  "scan_numbers term st shard from_seq =
     sort (map fst (bm_keys (scan_pending term st shard from_seq)) @ map rd_seq (scan_picked st from_seq))"

lemma snapshot_numbers:
  assumes "bm_ok (ix_pending st)" and "x \<in> snapshot term st shard from_seq"
  shows "ro_seq x \<in> set (scan_numbers term st shard from_seq)"
  using assms(2) unfolding snapshot_def
proof (elim UnE imageE CollectE conjE)
  fix p
  assume p: "p \<in> set (ix_pending st)" "in_scan st shard (fst p)" "from_seq \<le> pending_seq_of st (fst p)"
    and x: "x = scanned_op term st shard (fst p) (pending_seq_of st (fst p)) (snd p)"
  from p have "bm_get (scan_pending term st shard from_seq) (pending_seq_of st (fst p), fst p) \<noteq> None"
    using scan_pending_get(2) [OF assms(1), of _ shard from_seq _ x] x by blast
  then have "(pending_seq_of st (fst p), fst p) \<in> set (bm_keys (scan_pending term st shard from_seq))" by (simp add: bm_keys_dom)
  then have "pending_seq_of st (fst p) \<in> fst ` set (bm_keys (scan_pending term st shard from_seq))" by force
  then show ?thesis using x by (simp add: scan_numbers_def scanned_op_def)
qed (auto simp: scan_numbers_def scan_picked_def scanned_op_def)

lemma scan_numbers_from:
  assumes "bm_ok (ix_pending st)" and "n \<in> set (scan_numbers term st shard from_seq)"
  shows "from_seq \<le> n"
proof -
  consider i where "(n, i) \<in> set (bm_keys (scan_pending term st shard from_seq))" | "n \<in> rd_seq ` set (scan_picked st from_seq)"
    using assms(2) by (auto simp: scan_numbers_def)
  then show ?thesis
  proof cases
    case (1 i)
    then obtain x where "bm_get (scan_pending term st shard from_seq) (n, i) = Some x" by (auto simp: bm_keys_dom)
    then show ?thesis unfolding scan_pending_get(2) [OF assms(1)] by auto
  qed (auto simp: scan_picked_def)
qed

lemma sorted_le_last: "sorted xs \<Longrightarrow> x \<in> set xs \<Longrightarrow> x \<le> last xs"
  by (induction xs) auto

lemma ro_seq_scanned [simp]: "ro_seq (scanned_op term st shard i n x) = n"
  by (simp add: scanned_op_def)

lemma image_below: "(\<And>a. h (f a) = g a) \<Longrightarrow> {y \<in> f ` {a \<in> A. P a}. Q (h y)} = f ` {a \<in> A. P a \<and> Q (g a)}"
  by auto

lemma below_Un: "{x \<in> A \<union> B. Q x} = {x \<in> A. Q x} \<union> {x \<in> B. Q x}"
  by blast

lemma snapshot_below:
  "{x \<in> snapshot term st shard from_seq. Q (ro_seq x)} =
     (\<lambda>p. scanned_op term st shard (fst p) (pending_seq_of st (fst p)) (snd p))
       ` {p \<in> set (ix_pending st). (in_scan st shard (fst p) \<and> from_seq \<le> pending_seq_of st (fst p)) \<and> Q (pending_seq_of st (fst p))}
     \<union> (\<lambda>d. scanned_op term st shard (rd_id d) (rd_seq d) (Some (rd_source d)))
       ` {d \<in> set (ix_realtime st). (in_scan st shard (rd_id d) \<and> \<not> bm_has (ix_pending st) (rd_id d) \<and> from_seq \<le> rd_seq d) \<and> Q (rd_seq d)}"
  unfolding snapshot_def below_Un
  by (intro arg_cong2 [of _ _ _ _ union] image_below) simp_all

lemma page_values:
  assumes ok: "store_ok st" "bm_ok (ix_pending st)"
  shows "set (fst (scan_replicated term st shard from_seq page)) =
    {x \<in> snapshot term st shard from_seq. under_cut (scan_cut (max page 1) (scan_numbers term st shard from_seq)) (ro_seq x)}"
proof -
  let ?limit = "scan_cut (max page 1) (scan_numbers term st shard from_seq)"
  let ?P = "scan_pending term st shard from_seq"
  let ?found = "if ?limit \<noteq> None then bm_retain_keys (\<lambda>k. under_cut ?limit (fst k)) ?P else ?P"
  let ?docs = "takeWhile (\<lambda>d. under_cut ?limit (rd_seq d)) (scan_picked st from_seq)"
  have get: "bm_get ?found k = (if under_cut ?limit (fst k) then bm_get ?P k else None)" for k
    by (auto simp: bm_retain_get under_cut_def)
  have fok: "bm_ok ?found" using scan_pending_get(1) [OF ok(2)] by (auto intro: bm_retain_ok)
  have docs: "set ?docs = {d \<in> set (ix_realtime st). from_seq \<le> rd_seq d \<and> under_cut ?limit (rd_seq d)}"
  proof (cases ?limit)
    case None
    then show ?thesis by (simp add: under_cut_def scan_picked_def takeWhile_eq_all_conv [THEN iffD2])
  next
    case (Some c)
    then show ?thesis using takeWhile_sorted [of rd_seq "scan_picked st from_seq" c]
      by (auto simp: under_cut_def scan_picked_def)
  qed
  have pend: "bm_has (ix_pending st) (snd k)" if "bm_get ?found k = Some x" for k x
  proof -
    from that get have "bm_get ?P k = Some x" by (auto split: if_splits)
    then obtain p where "p \<in> set (ix_pending st)" "snd k = fst p" unfolding scan_pending_get(2) [OF ok(2)] by auto
    then have "snd k \<in> fst ` set (ix_pending st)" by simp
    then show ?thesis by (simp add: bm_has_def bm_keys_def)
  qed
  have "set (bm_values ?found) = (\<lambda>p. scanned_op term st shard (fst p) (pending_seq_of st (fst p)) (snd p))
       ` {p \<in> set (ix_pending st). in_scan st shard (fst p) \<and> from_seq \<le> pending_seq_of st (fst p) \<and> under_cut ?limit (pending_seq_of st (fst p))}"
    unfolding bm_values_set [OF fok] get by (auto simp: scan_pending_get(2) [OF ok(2)])
  moreover have "fst (scan_replicated term st shard from_seq page) = bm_values (scan_reader term st shard ?docs ?found)"
    by (simp add: scan_replicated_def Let_def scan_numbers_def)
  moreover have "set ?docs \<subseteq> set (ix_realtime st)" using docs by blast
  then have "set (bm_values (scan_reader term st shard ?docs ?found)) = set (bm_values ?found)
    \<union> (\<lambda>d. scanned_op term st shard (rd_id d) (rd_seq d) (Some (rd_source d)))
       ` {d \<in> set ?docs. in_scan st shard (rd_id d) \<and> \<not> bm_has (ix_pending st) (rd_id d)}"
    by (rule scan_reader_values [OF ok(1) fok]) (rule pend)
  moreover have "{d \<in> set ?docs. in_scan st shard (rd_id d) \<and> \<not> bm_has (ix_pending st) (rd_id d)}
      = {d \<in> set (ix_realtime st). (in_scan st shard (rd_id d) \<and> \<not> bm_has (ix_pending st) (rd_id d) \<and> from_seq \<le> rd_seq d)
          \<and> under_cut ?limit (rd_seq d)}" unfolding docs by blast
  ultimately show ?thesis by (simp only: snapshot_below conj_assoc)
qed

lemma page_next:
  "snd (scan_replicated term st shard from_seq page) =
     (let numbers = scan_numbers term st shard from_seq
      in case scan_cut (max page 1) numbers of
           None \<Rightarrow> None
         | Some c \<Rightarrow> if numbers \<noteq> [] \<and> last numbers > c then Some (Suc c) else None)"
  by (simp add: scan_replicated_def Let_def scan_numbers_def split: option.split)

lemma page_last:
  assumes ok: "store_ok st" "bm_ok (ix_pending st)" and p: "scan_replicated term st shard from_seq page = (xs, None)"
  shows "set xs = snapshot term st shard from_seq"
proof -
  let ?n = "scan_numbers term st shard from_seq"
  have "under_cut (scan_cut (max page 1) ?n) (ro_seq x)" if "x \<in> snapshot term st shard from_seq" for x
  proof (cases "scan_cut (max page 1) ?n")
    case (Some c)
    have "ro_seq x \<in> set ?n" by (rule snapshot_numbers [OF ok(2) that])
    moreover have "sorted ?n" by (simp add: scan_numbers_def)
    ultimately have "ro_seq x \<le> last ?n" by (intro sorted_le_last)
    moreover from \<open>ro_seq x \<in> set ?n\<close> have "?n \<noteq> []" by (intro notI) simp
    ultimately show ?thesis
      using Some p page_next [of "term" st shard from_seq page] by (auto simp: under_cut_def Let_def split: if_splits)
  qed (simp add: under_cut_def)
  with page_values [OF ok, of "term" shard from_seq page] p show ?thesis by auto
qed

lemma page_more:
  assumes ok: "store_ok st" "bm_ok (ix_pending st)" and p: "scan_replicated term st shard from_seq page = (xs, Some n)"
  shows "from_seq < n" "snapshot term st shard from_seq = set xs \<union> snapshot term st shard n"
    "\<exists>m \<in> set (scan_numbers term st shard from_seq). n \<le> m"
proof -
  let ?n = "scan_numbers term st shard from_seq"
  from p page_next [of "term" st shard from_seq page] obtain c where c: "scan_cut (max page 1) ?n = Some c" "n = Suc c"
    "?n \<noteq> []" "c < last ?n"
    by (auto simp: Let_def split: option.splits if_splits)
  then have "c \<in> set ?n" by (auto simp: scan_cut_def split: if_splits)
  with scan_numbers_from [OF ok(2)] c(2) show "from_seq < n" by fastforce
  then have "snapshot term st shard n = {x \<in> snapshot term st shard from_seq. n \<le> ro_seq x}" by (intro snapshot_from) simp
  moreover have "set xs = {x \<in> snapshot term st shard from_seq. ro_seq x < n}"
    using page_values [OF ok, of "term" shard from_seq page] p c by (simp add: under_cut_def less_Suc_eq_le)
  ultimately show "snapshot term st shard from_seq = set xs \<union> snapshot term st shard n" by auto
  from c(2-4) show "\<exists>m \<in> set ?n. n \<le> m" by (intro bexI [of _ "last ?n"]) auto
qed

lemma numbers_bounded:
  assumes "bm_ok (ix_pending st)"
  obtains top where "\<And>from_seq m. m \<in> set (scan_numbers term st shard from_seq) \<Longrightarrow> m \<le> top"
proof
  fix from_seq m
  let ?all = "pending_seq_of st ` fst ` set (ix_pending st) \<union> rd_seq ` set (ix_realtime st)"
  assume m: "m \<in> set (scan_numbers term st shard from_seq)"
  have "m \<in> ?all"
  proof (cases "m \<in> rd_seq ` set (scan_picked st from_seq)")
    case False
    with m obtain i where "(m, i) \<in> set (bm_keys (scan_pending term st shard from_seq))" by (auto simp: scan_numbers_def)
    then obtain x where "bm_get (scan_pending term st shard from_seq) (m, i) = Some x" by (auto simp: bm_keys_dom)
    then show ?thesis unfolding scan_pending_get(2) [OF assms] by auto
  qed (auto simp: scan_picked_def)
  then show "m \<le> Max ?all" by (intro Max_ge) simp_all
qed

lemma scan_pages_all:
  assumes ok: "store_ok st" "bm_ok (ix_pending st)"
  shows "\<exists>xs. scan_pages term st shard page from_seq = Some xs \<and> set xs = snapshot term st shard from_seq"
proof -
  obtain top where top: "\<And>from_seq m. m \<in> set (scan_numbers term st shard from_seq) \<Longrightarrow> m \<le> top"
    using numbers_bounded [OF ok(2)] by blast
  show ?thesis
  proof (induction "Suc top - from_seq" arbitrary: from_seq rule: less_induct)
    case less
    obtain xs next_seq where p: "scan_replicated term st shard from_seq page = (xs, next_seq)" by fastforce
    show ?case
    proof (cases next_seq)
      case None
      with p page_last [OF ok] show ?thesis by (subst scan_pages.simps) simp
    next
      case (Some n)
      note more = page_more [OF ok p [unfolded Some]]
      from more(1, 3) top have "Suc top - n < Suc top - from_seq" by fastforce
      from less [OF this] obtain ys where "scan_pages term st shard page n = Some ys" "set ys = snapshot term st shard n" by blast
      with p Some more(1, 2) show ?thesis by (subst scan_pages.simps) simp
    qed
  qed
qed

text \<open>
  \<^bold>\<open>C17.\<close>  A scan of an index that does not change ends, whatever the page size, and its pages together are
  everything the index holds from where it began: each pending write and delete, and each document of the index that
  no pending write stands over, with its version, sequence number, routing and term.
\<close>

theorem scan_pages_complete:
  assumes ok: "store_ok st" "bm_ok (ix_pending st)"
  shows "\<exists>xs. scan_pages term st shard page from_seq = Some xs \<and> set xs = snapshot term st shard from_seq"
  by (rule scan_pages_all [OF ok])

section \<open>Filling a copy\<close>

lemma snapshot_reads:
  assumes ok: "store_ok st" "bm_ok (ix_pending st)" and x: "x \<in> snapshot term st shard from_seq"
  shows "in_scan st shard (ro_id x) \<and> ro_source x = realtime st (ro_id x) \<and> ro_version x = version_of st (ro_id x)"
  using x unfolding snapshot_def
proof (elim UnE imageE CollectE conjE)
  fix p
  assume p: "p \<in> set (ix_pending st)" "in_scan st shard (fst p)"
    and e: "x = scanned_op term st shard (fst p) (pending_seq_of st (fst p)) (snd p)"
  from p(1) have "bm_get (ix_pending st) (fst p) = Some (snd p)" by (intro bm_set_get [OF ok(2)]) simp
  with p(2) show ?thesis by (simp add: e scanned_op_def realtime_def)
next
  fix d
  assume "d \<in> set (ix_realtime st)" "in_scan st shard (rd_id d)" "\<not> bm_has (ix_pending st) (rd_id d)"
    and e: "x = scanned_op term st shard (rd_id d) (rd_seq d) (Some (rd_source d))"
  with one_doc(2) [OF ok(1), of d d] show ?thesis by (simp add: e scanned_op_def)
qed

lemma found_in_doc:
  assumes "found_in docs i = Some s"
  obtains d where "d \<in> set docs" "rd_id d = i"
proof -
  from assms have "\<exists>d \<in> set docs. rd_id d = i"
    unfolding found_in_def find_first_def by (induction docs) (auto split: if_splits)
  with that show thesis by blast
qed

lemma snapshot_covers:
  assumes i: "in_scan st shard i" and r: "realtime st i = Some s"
  shows "i \<in> ro_id ` snapshot term st shard 0"
proof (cases "bm_get (ix_pending st) i")
  case None
  with r have "found_in (ix_realtime st) i = Some s" by (simp add: realtime_def)
  from found_in_doc [OF this] obtain d where d: "d \<in> set (ix_realtime st)" "rd_id d = i" .
  with None i have "scanned_op term st shard (rd_id d) (rd_seq d) (Some (rd_source d)) \<in> snapshot term st shard 0"
    by (auto simp: snapshot_def bm_has_get)
  with d(2) show ?thesis by (force simp: scanned_op_def)
next
  case (Some x)
  then have "(i, x) \<in> set (ix_pending st)" by (rule bm_get_in_set)
  with i have "scanned_op term st shard (fst (i, x)) (pending_seq_of st (fst (i, x))) (snd (i, x)) \<in> snapshot term st shard 0"
    unfolding snapshot_def by (intro UnI1 imageI) simp
  then show ?thesis by (force simp: scanned_op_def)
qed

definition filled_to :: "(string \<Rightarrow> string option) \<Rightarrow> string set \<Rightarrow> idx_state \<Rightarrow> bool" where
  "filled_to V D c = (store_ok c \<and> (\<forall>i. if i \<in> D then realtime c i = V i else realtime c i = None \<and> held_version c i = None))"

lemma fill_step:
  assumes W: "willing W" and c: "filled_to V D c" and y: "ro_source y = V (ro_id y)"
  shows "filled_to V (insert (ro_id y) D) (snd (if overwrite then apply_recovered W y c else apply_replicated W y c))"
proof (cases overwrite)
  case True
  let ?c = "c\<lparr>ix_applied_term := max (ix_applied_term c) (ro_term y)\<rparr>"
  have "store_ok ?c" using c by (simp add: filled_to_def applied_term_store)
  with replicate_into_ok [OF W this, of y] replicate_into_held [OF W this, of y] c y True show ?thesis
    by (simp add: filled_to_def apply_recovered_def apply_inner_cases applied_term_keeps)
next
  case False
  obtain taken c' where a: "apply_replicated W y c = (taken, c')" by fastforce
  from c have ok: "store_ok c" by (simp add: filled_to_def)
  from c have "held_version c (ro_id y) = None" if "ro_id y \<notin> D" using that by (simp add: filled_to_def)
  then have "ro_id y \<in> D" if "\<not> wins y c" using that by (cases "ro_id y \<in> D") (simp_all add: wins_def)
  with apply_replicated_ok [OF W ok a] c y False a show ?thesis
    by (auto simp: filled_to_def insert_absorb)
qed

lemma fill_page_ok:
  assumes W: "willing W" and "filled_to V D c" and "\<forall>y \<in> set ys. ro_source y = V (ro_id y)"
  shows "filled_to V (ro_id ` set ys \<union> D) (fill_page W overwrite ys c)"
  using assms(2, 3)
proof (induction ys arbitrary: c D)
  case (Cons y ys)
  from fill_step [OF W Cons.prems(1), of y overwrite] Cons.prems(2)
  have "filled_to V (insert (ro_id y) D) (snd (if overwrite then apply_recovered W y c else apply_replicated W y c))" by simp
  from Cons.IH [OF this] Cons.prems(2) show ?case by (simp add: fill_page_def insert_commute)
qed (simp add: fill_page_def)

text \<open>
  \<^bold>\<open>C16.\<close>  A copy filled from nothing reads as the primary.  The pages of a scan of the primary's index, whatever
  their size, applied to an index with no documents and no versions, leave it reading for every id of the shard what a realtime read of the
  primary gives, and nothing else; whether the pages overwrite or not makes no difference to it.
\<close>

theorem filled_copy_reads_as_primary:
  assumes W: "willing W" and ok: "store_ok st" "bm_ok (ix_pending st)"
    and fresh: "store_ok c" "\<forall>i. realtime c i = None \<and> held_version c i = None"
  shows "\<exists>ys. scan_pages term st shard page 0 = Some ys \<and> store_ok (fill_page W overwrite ys c)
    \<and> realtime (fill_page W overwrite ys c) = (\<lambda>i. if in_scan st shard i then realtime st i else None)"
proof -
  obtain ys where ys: "scan_pages term st shard page 0 = Some ys" "set ys = snapshot term st shard 0"
    using scan_pages_all [OF ok] by blast
  have "filled_to (realtime st) (ro_id ` set ys \<union> {}) (fill_page W overwrite ys c)"
    by (rule fill_page_ok [OF W]) (use fresh ys(2) snapshot_reads [OF ok] in \<open>auto simp: filled_to_def\<close>)
  then have f: "filled_to (realtime st) (ro_id ` snapshot term st shard 0) (fill_page W overwrite ys c)" by (simp add: ys(2))
  have "realtime (fill_page W overwrite ys c) i = (if in_scan st shard i then realtime st i else None)" for i
  proof (cases "i \<in> ro_id ` snapshot term st shard 0")
    case True
    with f have "realtime (fill_page W overwrite ys c) i = realtime st i" by (simp add: filled_to_def)
    with True snapshot_reads [OF ok] show ?thesis by auto
  next
    case False
    with f have "realtime (fill_page W overwrite ys c) i = None" by (simp add: filled_to_def)
    with False snapshot_covers [of st shard i] show ?thesis by (cases "realtime st i") auto
  qed
  with f ys(1) show ?thesis by (auto simp: filled_to_def fun_eq_iff)
qed

section \<open>Writes that arrive during a fill\<close>

datatype fill_event = Arrive "replica_op list" | Drain

fun fill_do :: "writer \<Rightarrow> fill_event \<Rightarrow> copy \<Rightarrow> copy" where
  "fill_do W (Arrive xs) c = snd (take_write W xs [] c)"
| "fill_do W Drain c = snd (drain W c)"

fun arrived_in :: "fill_event \<Rightarrow> replica_op list" where
  "arrived_in (Arrive xs) = xs"
| "arrived_in Drain = []"

definition owes :: "writer \<Rightarrow> copy \<Rightarrow> idx_state \<Rightarrow> bool" where
  "owes W c st =
     (\<exists>here. cp_index c = Some here \<and> receive W (case cp_arrived c of Some w \<Rightarrow> w | None \<Rightarrow> []) here = st)"

lemma receive_append: "receive W (xs @ ys) st = receive W ys (receive W xs st)" and receive_Nil [simp]: "receive W [] st = st"
  by (simp_all add: receive_def)

lemma seen_by_resync_keeps: "cp_index (seen_by_resync xs c) = cp_index c" "cp_arrived (seen_by_resync xs c) = cp_arrived c"
  by (simp_all add: seen_by_resync_def split: option.split prod.split)

lemma fill_do_owes:
  assumes "wr_syncs W" and "owes W c st"
  shows "owes W (fill_do W e c) (receive W (arrived_in e) st)"
proof (cases e)
  case (Arrive xs)
  with assms show ?thesis
    by (auto simp: owes_def take_write_def park_def Let_def seen_by_resync_keeps receive_append apply_batch_receive
        case_prod_beta split: option.splits)
next
  case Drain
  with assms show ?thesis
    by (auto simp: owes_def drain_def Let_def apply_batch_receive split: option.splits list.splits)
qed

text \<open>
  \<^bold>\<open>C18.\<close>  No write is lost to a fill.  Writes arrive while a copy is being filled and while the fill drains what
  was parked, in any interleaving.  Once two rounds of the drain have run with nothing arriving between them the fill is
  closed, and the copy is the one every write that arrived was applied to, in the order they came.
\<close>

theorem parked_writes_applied:
  assumes "wr_syncs W" and "cp_index c = Some st" and "cp_arrived c = Some w"
  shows "\<exists>c'. drain W (snd (drain W (fold (fill_do W) es c))) = (Filled, c') \<and> cp_arrived c' = None
    \<and> cp_index c' = Some (receive W (w @ concat (map arrived_in es)) st)"
proof -
  have "owes W (fold (fill_do W) es c) (receive W (concat (map arrived_in es)) s)" if "owes W c s" for s
    using that
  proof (induction es arbitrary: c s)
    case (Cons e es)
    from Cons.IH [OF fill_do_owes [OF assms(1) Cons.prems]] show ?case by (simp add: receive_append)
  qed simp
  moreover have "owes W c (receive W w st)" using assms(2, 3) by (simp add: owes_def)
  ultimately have "owes W (fold (fill_do W) es c) (receive W (w @ concat (map arrived_in es)) st)" by (simp add: receive_append)
  then show ?thesis using assms(1)
    by (auto simp: owes_def drain_def Let_def apply_batch_receive split: option.splits list.splits)
qed

section \<open>The end of a resync\<close>

lemma trim_op_wins: "wins (trim_op term seq i st) st"
  by (auto simp: wins_def trim_op_def held_version_def version_of_def split: option.splits)

lemma trim_ok:
  assumes W: "willing W" and "store_ok st"
  shows "store_ok (trim W term numbered st)
    \<and> realtime (trim W term numbered st) = (\<lambda>i. if i \<in> snd ` set numbered then None else realtime st i)"
  using assms(2)
proof (induction numbered arbitrary: st)
  case (Cons p numbered)
  let ?x = "trim_op term (fst p) (snd p) st"
  obtain taken st1 where a: "apply_replicated W ?x st = (taken, st1)" by fastforce
  note e = apply_replicated_ok [OF W Cons.prems a]
  have "ro_id ?x = snd p" "ro_source ?x = None" by (simp_all add: trim_op_def)
  with e trim_op_wins have r: "store_ok st1" "realtime st1 = (realtime st)(snd p := None)" by auto
  have "trim W term (p # numbered) st = trim W term numbered st1" by (simp add: trim_def case_prod_beta a)
  with Cons.IH [OF r(1)] r(2) show ?case by (auto simp: fun_eq_iff)
qed (simp add: trim_def)

lemma bm_insert_length: "length (bm_insert k v m) \<le> Suc (length m)"
  by (induction m) auto

lemma fold_insert_length:
  "length (fold (\<lambda>x m. if skip x then m else bm_insert (key x) (val x) m) xs m) \<le> length xs + length m"
proof (induction xs arbitrary: m)
  case (Cons x xs)
  from Cons.IH [of "if skip x then m else bm_insert (key x) (val x) m"] bm_insert_length [of "key x" "val x" m]
  show ?case by (auto split: if_splits)
qed simp

lemma scan_pending_length: "length (scan_pending term st shard from_seq) \<le> length (ix_pending st)"
  unfolding scan_pending_as_fold by (rule order_trans [OF fold_insert_length]) simp

lemma scan_in_one_page:
  assumes "length (ix_pending st) + length (ix_realtime st) < 2 ^ 64"
  shows "snd (scan_replicated term st shard from_seq (2 ^ 64 - 1)) = None"
proof -
  have "length (scan_pending term st shard from_seq) \<le> length (ix_pending st)" by (rule scan_pending_length)
  moreover have "length (scan_picked st from_seq) \<le> length (ix_realtime st)" by (simp add: scan_picked_def)
  ultimately have "scan_cut (max (2 ^ 64 - 1) 1) (scan_numbers term st shard from_seq) = None"
    using assms by (simp add: scan_cut_def scan_numbers_def bm_keys_def)
  then show ?thesis by (simp only: page_next Let_def option.case)
qed

text \<open>The end of a resync drops every document but those it saw.\<close>

lemma resync_end_keeps_seen:
  assumes W: "willing W" "wr_syncs W" and ok: "store_ok st" "bm_ok (ix_pending st)"
    and few: "length (ix_pending st) + length (ix_realtime st) < 2 ^ 64"
    and c: "cp_index c = Some st" "cp_resync c = Some (term, seen)"
  shows "\<exists>n st'. resync_end W known_term term c = (Trimmed n, c\<lparr>cp_resync := None, cp_index := Some st'\<rparr>) \<and> store_ok st'
    \<and> realtime st' = (\<lambda>i. if i \<in> set seen then realtime st i else None)"
proof -
  let ?gone = "doomed known_term seen st"
  let ?t = "trim W term (enumerate (ix_seq_no st + 1) ?gone) st"
  have e: "resync_end W known_term term c = (Trimmed (length ?gone), c\<lparr>cp_resync := None, cp_index := Some (snd (refresh_everything W ?t))\<rparr>)"
    using c W(2) by (simp add: resync_end_def Let_def)
  have "set (fst (scan_replicated known_term st every_shard 0 (2 ^ 64 - 1))) = snapshot known_term st every_shard 0"
    by (rule page_last [OF ok, where page = "2 ^ 64 - 1"]) (metis prod.collapse scan_in_one_page [OF few])
  then have gone: "set ?gone = {ro_id x | x. x \<in> snapshot known_term st every_shard 0 \<and> ro_source x \<noteq> None \<and> ro_id x \<notin> set seen}"
    by (auto simp: doomed_def)
  have "i \<in> set ?gone \<longleftrightarrow> realtime st i \<noteq> None \<and> i \<notin> set seen" for i
  proof
    assume "i \<in> set ?gone"
    then show "realtime st i \<noteq> None \<and> i \<notin> set seen" unfolding gone using snapshot_reads [OF ok] by auto
  next
    assume i: "realtime st i \<noteq> None \<and> i \<notin> set seen"
    then obtain s where "realtime st i = Some s" by blast
    then have "i \<in> ro_id ` snapshot known_term st every_shard 0" by (intro snapshot_covers) (simp_all add: in_scan_def)
    with i snapshot_reads [OF ok] show "i \<in> set ?gone" unfolding gone by fastforce
  qed
  moreover have "snd ` set (enumerate (ix_seq_no st + 1) ?gone) = set ?gone" by (metis list.set_map map_snd_enumerate)
  ultimately have "store_ok ?t \<and> realtime ?t = (\<lambda>i. if i \<in> set seen then realtime st i else None)"
    using trim_ok [OF W(1) ok(1), of "term" "enumerate (ix_seq_no st + 1) ?gone"] by (auto simp: fun_eq_iff)
  with refresh_everything_ok [OF W(1), of ?t] e show ?thesis by auto
qed

end
