(* ===== verification/Replication_Properties.thy ===== *)
theory Replication_Properties
  imports Replication Replica_Properties
begin

text \<open>
  What an acknowledgement means: every copy the cluster counts as in sync took the write or is recorded as
  stale by the manager, and the node still is the primary in its term as it answers.  A replica takes a write only
  from the primary of its term; reports are tried until they land or do not matter; a resync reaches a node whole or the
  node is named as missed; and copies sent what a primary recorded read as the primary does.
\<close>

section \<open>Reports\<close>



section \<open>Checkpoints\<close>






section \<open>The batches\<close>






section \<open>What an acknowledgement means\<close>






















section \<open>What a replica takes\<close>

text \<open>
  \<^bold>\<open>C11.\<close>  What a replica refuses, by the terms it knows for the shard numbers a batch names; a number it knows no term of counts as term 1, as does the one
  the pages of a resync name.  A batch with a write of an older term than the replica knows for the shard, or of the known term from a node
  that does not hold the primary of the shard of an index the replica knows, is refused with the words the
  sender reads as its own demotion, and the copy is as it was; in any batch not refused, every
  write has at least the known term, and has a newer one when its sender does not hold the primary of an index the replica knows.
\<close>

theorem replica_takes_from_primary_only:
  "case not_from_the_primary s (wq_index q) (wq_from q) (wq_ops q) of
     Some why \<Rightarrow> replica_write W s q c = (WriteError why, c) \<and> contains_text ''stale primary term'' why
        \<and> (\<exists>x \<in> set (wq_ops q). ro_term x \<le> primary_term s (wq_index q) (ro_shard x))
   | None \<Rightarrow> \<forall>x \<in> set (wq_ops q). primary_term s (wq_index q) (ro_shard x) \<le> ro_term x
        \<and> (primary_term s (wq_index q) (ro_shard x) < ro_term x \<or> \<not> bm_has (cs_indices s) (wq_index q)
           \<or> (\<exists>p \<in> set (rt_shards_of (cs_routing s) (wq_index q)). sr_shard p = ro_shard x \<and> sr_primary p
                \<and> (sr_node p = Some (wq_from q) \<or> sr_relocating_node p = Some (wq_from q))))"
proof (cases "not_from_the_primary s (wq_index q) (wq_from q) (wq_ops q)")
  case None
  then show ?thesis by (auto simp: not_from_the_primary_def Let_def list_ex_iff split: if_splits)
next
  case (Some why)
  then have "why = ''stale primary term''" "\<exists>x \<in> set (wq_ops q). ro_term x \<le> primary_term s (wq_index q) (ro_shard x)"
    by (auto simp: not_from_the_primary_def Let_def list_ex_iff split: if_splits intro: less_imp_le eq_imp_le)
  with Some show ?thesis by (simp add: replica_write_def Let_def contains_text_def)
qed

lemma bm_insert_values: "set (bm_values (bm_insert k v m)) \<subseteq> insert v (set (bm_values m))"
  unfolding bm_values_def by (induction m) auto

lemma bm_retain_values: "set (bm_values (bm_retain_keys P m)) \<subseteq> set (bm_values m)"
  unfolding bm_values_def bm_retain_keys_def by auto

lemma fold_insert_values:
  assumes "\<forall>v \<in> set (bm_values m). Q v" and "\<And>e. Q (val e)"
  shows "\<forall>v \<in> set (bm_values (fold (\<lambda>e m. if drops e then m else bm_insert (key e) (val e) m) xs m)). Q v"
  using assms(1)
proof (induction xs arbitrary: m)
  case (Cons e xs)
  have "\<forall>v \<in> set (bm_values (if drops e then m else bm_insert (key e) (val e) m)). Q v"
    using Cons.prems assms(2) bm_insert_values [of "key e" "val e" m] by auto
  from Cons.IH [OF this] show ?case by simp
qed simp

lemma scan_names_shard:
  assumes "x \<in> set (fst (scan_replicated term st shard from_seq page))"
  shows "ro_shard x = shard"
proof -
  let ?p = "scan_pending term st shard from_seq"
  have p: "\<forall>v \<in> set (bm_values ?p). ro_shard v = shard"
    unfolding scan_pending_as_fold by (rule fold_insert_values) (simp_all add: bm_values_def scanned_op_def)
  have q: "\<forall>v \<in> set (bm_values (if b then bm_retain_keys Q ?p else ?p)). ro_shard v = shard" for b Q
    using p bm_retain_values [of Q ?p] by (cases b) auto
  have "\<forall>v \<in> set (bm_values (scan_reader term st shard docs (if b then bm_retain_keys Q ?p else ?p))). ro_shard v = shard" for docs b Q
    unfolding scan_reader_def by (rule fold_insert_values [OF q]) (simp add: scanned_op_def)
  from bspec [OF this assms [unfolded scan_replicated_def Let_def fst_conv]] show ?thesis .
qed

text \<open>
  The pages of a resync are not judged.  A resync sends its pages from a scan of every shard, whose writes all name the
  shard number that stands for every shard, and no index has a primary term for that number; so in any term above
  the first a replica finds no fault with a page, whatever node sends it, whichever node the replica takes for the primary, and
  however far the terms of the index's own shards have gone on.
\<close>

theorem resync_pages_unjudged:
  assumes "\<forall>m. bm_get (cs_indices s) index = Some m \<longrightarrow> bm_get (im_primary_terms m) every_shard = None" and "1 < t"
  shows "not_from_the_primary s index sender
           (map (\<lambda>x. x\<lparr>ro_term := t\<rparr>) (fst (scan_replicated known st every_shard from_seq page))) = None"
proof -
  have "primary_term s index every_shard = 1" using assms(1) by (simp add: primary_term_def split: option.split)
  then show ?thesis using assms(2) by (auto simp: not_from_the_primary_def Let_def list_ex_iff dest!: scan_names_shard)
qed

section \<open>Reports that wait\<close>

lemma retry_one_fields:
  "rs_pending (retry_one tells s me r y) =
     (if still_matters s me r \<and> \<not> tells (length (rs_sent y)) r then rs_pending y else filter (\<lambda>p. p \<noteq> r) (rs_pending y))"
  "rs_sent (retry_one tells s me r y) =
     rs_sent y @ (if still_matters s me r then [(r, tells (length (rs_sent y)) r)] else [])"
  by (simp_all add: retry_one_def Let_def)

lemma retry_fold:
  assumes "y' = fold (retry_one tells s me) rs y"
  shows "set (rs_pending y') \<subseteq> set (rs_pending y) \<and> set (rs_sent y) \<subseteq> set (rs_sent y') \<and> length (rs_sent y) \<le> length (rs_sent y')
    \<and> (\<forall>r \<in> set (rs_pending y) - set (rs_pending y'). \<not> still_matters s me r \<or> (r, True) \<in> set (rs_sent y'))
    \<and> (\<forall>r \<in> set rs \<inter> set (rs_pending y'). still_matters s me r
         \<and> (\<exists>n. length (rs_sent y) \<le> n \<and> n < length (rs_sent y') \<and> \<not> tells n r))"
  using assms
proof (induction rs arbitrary: y)
  case (Cons a rs)
  let ?y = "retry_one tells s me a y"
  from Cons.prems have "y' = fold (retry_one tells s me) rs ?y" by simp
  note IH = Cons.IH [OF this]
  have l: "length (rs_sent y) \<le> length (rs_sent ?y)" "set (rs_sent y) \<subseteq> set (rs_sent ?y)" "set (rs_pending ?y) \<subseteq> set (rs_pending y)"
    by (auto simp: retry_one_fields)
  have gone: "\<not> still_matters s me r \<or> (r, True) \<in> set (rs_sent y')" if "r \<in> set (rs_pending y)" "r \<notin> set (rs_pending y')" for r
  proof (cases "r \<in> set (rs_pending ?y)")
    case True with IH that show ?thesis by blast
  next
    case False with that(1) have "\<not> still_matters s me r \<or> (r, True) \<in> set (rs_sent ?y)" by (auto simp: retry_one_fields split: if_splits)
    with IH show ?thesis by blast
  qed
  have kept: "still_matters s me a \<and> (\<exists>n. length (rs_sent y) \<le> n \<and> n < length (rs_sent y') \<and> \<not> tells n a)" if "a \<in> set (rs_pending y')"
  proof -
    from that IH have "a \<in> set (rs_pending ?y)" by blast
    then have w: "still_matters s me a" "\<not> tells (length (rs_sent y)) a" by (auto simp: retry_one_fields split: if_splits)
    then have "length (rs_sent y) < length (rs_sent ?y)" by (simp add: retry_one_fields)
    with w IH show ?thesis by (meson less_le_trans order_refl)
  qed
  have rest: "still_matters s me r \<and> (\<exists>n. length (rs_sent y) \<le> n \<and> n < length (rs_sent y') \<and> \<not> tells n r)"
    if "r \<in> set rs" "r \<in> set (rs_pending y')" for r using IH that l(1) by (meson IntI le_trans)
  from IH l have "set (rs_pending y') \<subseteq> set (rs_pending y)" "set (rs_sent y) \<subseteq> set (rs_sent y')" "length (rs_sent y) \<le> length (rs_sent y')"
    by (blast, blast, linarith)
  with gone kept rest show ?case by auto
qed simp

lemma retry_pass_fold:
  "cs_cluster_manager s \<noteq> None \<Longrightarrow> retry_pass tells (Some me) s y = fold (retry_one tells s me) (rs_pending y) y"
  by (auto simp: retry_pass_def)

lemma retry_pass_failed:
  assumes "cs_cluster_manager s \<noteq> None" and "rs_pending (retry_pass tells (Some me) s y) \<noteq> []"
  obtains n r where "length (rs_sent y) \<le> n" "n < length (rs_sent (retry_pass tells (Some me) s y))" "\<not> tells n r"
proof -
  note f = retry_fold [OF retry_pass_fold [OF assms(1)], of tells me y]
  from assms(2) obtain r where "r \<in> set (rs_pending (retry_pass tells (Some me) s y))" by (cases "rs_pending (retry_pass tells (Some me) s y)") auto
  with f that show ?thesis by blast
qed

lemma retries_count:
  assumes "\<forall>s \<in> set ss. cs_cluster_manager s \<noteq> None" and "rs_pending (fold (retry_pass tells (Some me)) ss y) \<noteq> []"
  shows "length (rs_sent y) + length ss \<le> length (rs_sent (fold (retry_pass tells (Some me)) ss y))
    \<and> (ss \<noteq> [] \<longrightarrow> (\<exists>n r. length (rs_sent y) + length ss \<le> Suc n \<and> \<not> tells n r))"
  using assms
proof (induction ss rule: rev_induct)
  case (snoc s ss)
  let ?y = "fold (retry_pass tells (Some me)) ss y"
  from snoc.prems have m: "cs_cluster_manager s \<noteq> None" and p: "rs_pending (retry_pass tells (Some me) s ?y) \<noteq> []" by simp_all
  with retry_fold [OF retry_pass_fold [OF m], of tells me ?y] have "rs_pending ?y \<noteq> []" by auto
  with snoc have l: "length (rs_sent y) + length ss \<le> length (rs_sent ?y)" by simp
  from retry_pass_failed [OF m p] obtain n r where n: "length (rs_sent ?y) \<le> n"
    "n < length (rs_sent (retry_pass tells (Some me) s ?y))" "\<not> tells n r" by blast
  from n l have "length (rs_sent y) + length (ss @ [s]) \<le> Suc n" by simp
  with n show ?case by auto
qed simp

lemma retries_settle:
  assumes "\<forall>s \<in> set ss. cs_cluster_manager s \<noteq> None" and "r \<in> set (rs_pending y)"
    and "r \<notin> set (rs_pending (fold (retry_pass tells (Some me)) ss y))"
  shows "(r, True) \<in> set (rs_sent (fold (retry_pass tells (Some me)) ss y)) \<or> (\<exists>s \<in> set ss. \<not> still_matters s me r)"
  using assms
proof (induction ss arbitrary: y)
  case (Cons s ss)
  let ?y = "retry_pass tells (Some me) s y"
  have keep: "set (rs_sent x) \<subseteq> set (rs_sent (fold (retry_pass tells (Some me)) ss x))" for x
    using Cons.prems(1)
  proof (induction ss arbitrary: x)
    case (Cons t ts)
    from retry_fold [OF retry_pass_fold, of t tells me x] Cons.prems Cons.IH [of "retry_pass tells (Some me) t x"] show ?case by auto
  qed simp
  from Cons.prems have m: "cs_cluster_manager s \<noteq> None" by simp
  show ?case
  proof (cases "r \<in> set (rs_pending ?y)")
    case True with Cons.IH [of ?y] Cons.prems show ?thesis by auto
  next
    case False with retry_fold [OF retry_pass_fold [OF m], of tells me y] Cons.prems keep [of ?y] show ?thesis by auto
  qed
qed simp

text \<open>
  \<^bold>\<open>C12.\<close>  A report the manager did not hear is not forgotten and is heard in the end: over any rounds of the retry loop in which a
  manager is known, a report leaves the waiting list only when the manager answered it or it was nobody's business in one of the rounds;
  and when the manager answers every call from the \<open>k\<close>-th on, no report waits any longer after more than \<open>k\<close> rounds.
\<close>

theorem reports_are_delivered:
  assumes "\<forall>s \<in> set ss. cs_cluster_manager s \<noteq> None"
  shows "(\<forall>r \<in> set (rs_pending y) - set (rs_pending (fold (retry_pass tells (Some me)) ss y)).
            (r, True) \<in> set (rs_sent (fold (retry_pass tells (Some me)) ss y)) \<or> (\<exists>s \<in> set ss. \<not> still_matters s me r))
         \<and> ((\<forall>n r. k \<le> n \<longrightarrow> tells n r) \<and> k < length ss \<longrightarrow> rs_pending (fold (retry_pass tells (Some me)) ss y) = [])"
proof (intro conjI ballI impI)
  fix r assume "r \<in> set (rs_pending y) - set (rs_pending (fold (retry_pass tells (Some me)) ss y))"
  with retries_settle [OF assms] show "(r, True) \<in> set (rs_sent (fold (retry_pass tells (Some me)) ss y)) \<or> (\<exists>s \<in> set ss. \<not> still_matters s me r)"
    by blast
next
  assume k: "(\<forall>n r. k \<le> n \<longrightarrow> tells n r) \<and> k < length ss"
  show "rs_pending (fold (retry_pass tells (Some me)) ss y) = []"
  proof (rule ccontr)
    assume "rs_pending (fold (retry_pass tells (Some me)) ss y) \<noteq> []"
    from retries_count [OF assms this] k obtain n r where "length (rs_sent y) + length ss \<le> Suc n" "\<not> tells n r" by fastforce
    with k show False by (meson add_leD2 le_trans less_Suc_eq_le linorder_not_le)
  qed
qed

section \<open>Resync\<close>

text \<open>A report that is looked after: the manager answered it, or one under its key waits for another try.\<close>

definition looked_after :: "reports \<Rightarrow> shard_report \<Rightarrow> bool" where
  "looked_after s r =
     ((r, True) \<in> set (rs_sent s)
      \<or> list_ex (\<lambda>p. rp_action p = rp_action r \<and> rp_index p = rp_index r \<and> rp_allocation_id p = rp_allocation_id r) (rs_pending s))"

lemma retry_later_looked_after: "looked_after (retry_later r s) r"
  by (simp add: looked_after_def retry_later_def)

lemma retry_later_keeps: "looked_after s q \<Longrightarrow> looked_after (retry_later r s) q"
  by (auto simp: looked_after_def retry_later_def)

lemma try_tell_looks_after:
  assumes "try_tell tells k r s = (landed, s')"
  shows "looked_after s' r" and "looked_after s q \<Longrightarrow> looked_after s' q"
proof -
  have "looked_after s' r \<and> (looked_after s q \<longrightarrow> looked_after s' q)" using assms
  proof (induction k arbitrary: s)
    case 0 then show ?case by (auto simp: retry_later_looked_after retry_later_keeps)
  next
    case (Suc k)
    show ?case
    proof (cases "tells (length (rs_sent s)) r")
      case True with Suc.prems show ?thesis by (auto simp: Let_def looked_after_def)
    next
      case False
      have "looked_after s q \<Longrightarrow> looked_after (s\<lparr>rs_sent := rs_sent s @ [(r, False)]\<rparr>) q" by (auto simp: looked_after_def)
      with False Suc.IH [of "s\<lparr>rs_sent := rs_sent s @ [(r, False)]\<rparr>"] Suc.prems show ?thesis by (simp add: Let_def)
    qed
  qed
  then show "looked_after s' r" and "looked_after s q \<Longrightarrow> looked_after s' q" by blast+
qed

lemma fail_copy_looks_after:
  assumes "looked_after reports q \<or> (cs_cluster_manager s \<noteq> None \<and> q \<in> set (copy_reports s index shard node why))"
  shows "looked_after (snd (fail_copy tells s index shard node why reports)) q"
proof (cases "cs_cluster_manager s")
  case None with assms show ?thesis by (simp add: fail_copy_def)
next
  case (Some mgr)
  have "looked_after (snd x) q \<or> q \<in> set rs \<Longrightarrow>
    looked_after (snd (fold (\<lambda>r (told, s). let (landed, s) = try_tell tells 3 r s in (told \<and> landed, s)) rs x)) q" for rs x
  proof (induction rs arbitrary: x)
    case (Cons r rs)
    obtain landed s' where t: "try_tell tells 3 r (snd x) = (landed, s')" by fastforce
    from Cons.prems try_tell_looks_after [OF t] have "looked_after s' q \<or> q \<in> set rs" by auto
    with Cons.IH [of "(fst x \<and> landed, s')"] t show ?case by (cases x) simp
  qed simp
  from this [of "(True, reports)"] assms Some show ?thesis by (simp add: fail_copy_def)
qed

text \<open>What a run owes: a node not missed was sent the pages so far in order, a missed one's copies are reported.\<close>

definition sent_to :: "resync_run \<Rightarrow> node_id \<Rightarrow> replica_op list list" where
  "sent_to y n = map snd (filter (\<lambda>e. fst e = n) (ry_sent y))"

definition reported :: "cluster_state \<Rightarrow> string \<Rightarrow> nat \<Rightarrow> resync_run \<Rightarrow> node_id \<Rightarrow> bool" where
  "reported s index shard y n =
     (cs_cluster_manager s \<noteq> None \<longrightarrow>
        (\<exists>why. \<forall>r \<in> set (copy_reports s index shard n why). looked_after (ry_reports y) r))"

lemma resync_to_step:
  fixes refuses :: "nat \<Rightarrow> node_id \<Rightarrow> replica_op list \<Rightarrow> string option"
  assumes "y' = resync_to refuses tells s index shard i xs n y"
  shows "sent_to y' m = (if m = n \<and> refuses i n xs = None then sent_to y m @ [xs] else sent_to y m)"
    and "set (ry_missed y') = (if refuses i n xs = None then set (ry_missed y) else insert n (set (ry_missed y)))"
    and "reported s index shard y m \<Longrightarrow> reported s index shard y' m"
    and "refuses i n xs \<noteq> None \<Longrightarrow> reported s index shard y' n"
proof -
  show "sent_to y' m = (if m = n \<and> refuses i n xs = None then sent_to y m @ [xs] else sent_to y m)"
    "set (ry_missed y') = (if refuses i n xs = None then set (ry_missed y) else insert n (set (ry_missed y)))"
    by (auto simp: assms resync_to_def sent_to_def split: option.split)
  show "reported s index shard y m \<Longrightarrow> reported s index shard y' m"
    unfolding assms resync_to_def reported_def by (auto intro: fail_copy_looks_after split: option.split)
  show "reported s index shard y' n" if "refuses i n xs \<noteq> None"
  proof -
    from that obtain why where why: "refuses i n xs = Some why" by blast
    have "looked_after (ry_reports y') r" if "cs_cluster_manager s \<noteq> None" "r \<in> set (copy_reports s index shard n (''resync failed: '' @ why))" for r
      unfolding assms resync_to_def why option.case using that by (simp add: fail_copy_looks_after)
    then show ?thesis unfolding reported_def by blast
  qed
qed

lemma resync_fold:
  assumes "distinct ns" and "y' = fold (resync_to refuses tells s index shard i xs) ns y"
  shows "set (ry_missed y) \<subseteq> set (ry_missed y')
    \<and> (n \<notin> set (ry_missed y') \<longrightarrow> sent_to y' n = (if n \<in> set ns then sent_to y n @ [xs] else sent_to y n))
    \<and> ((n \<in> set (ry_missed y) \<longrightarrow> reported s index shard y n) \<longrightarrow> n \<in> set (ry_missed y') \<longrightarrow> reported s index shard y' n)"
  using assms
proof (induction ns arbitrary: y)
  case (Cons a ns)
  note st = resync_to_step [of _ refuses tells s index shard i xs a y, OF refl]
  from Cons.prems have "distinct ns" "y' = fold (resync_to refuses tells s index shard i xs) ns (resync_to refuses tells s index shard i xs a y)"
    and "a \<notin> set ns" by simp_all
  from Cons.IH [OF this(1, 2)] \<open>a \<notin> set ns\<close> st(1) [of n] st(2) st(3) [of n] st(4) show ?case by (auto split: if_splits)
qed simp

lemma resync_pages:
  assumes "distinct to" and "n \<in> set to"
    and "y = fold (resync_page refuses tells s index shard term to) ps \<lparr>ry_missed = [], ry_sent = [], ry_reports = reports\<rparr>"
  shows "(n \<notin> set (ry_missed y) \<longrightarrow> sent_to y n = map (\<lambda>p. map (\<lambda>x. x\<lparr>ro_term := term\<rparr>) (snd p)) ps)
    \<and> (n \<in> set (ry_missed y) \<longrightarrow> reported s index shard y n)"
  using assms(3)
proof (induction ps arbitrary: y rule: rev_induct)
  case (snoc p ps)
  let ?y = "fold (resync_page refuses tells s index shard term to) ps \<lparr>ry_missed = [], ry_sent = [], ry_reports = reports\<rparr>"
  let ?ns = "filter (\<lambda>n. n \<notin> set (ry_missed ?y)) to" and ?xs = "map (\<lambda>x. x\<lparr>ro_term := term\<rparr>) (snd p)"
  have "y = fold (resync_to refuses tells s index shard (fst p) ?xs) ?ns ?y" 
    unfolding snoc.prems fold_append by (simp only: comp_apply fold_simps resync_page_def [of _ _ _ _ _ _ _ p] Let_def)
  from resync_fold [OF _ this, of n] assms(1, 2) snoc.IH [OF refl] show ?case by auto
qed (simp add: sent_to_def)

lemma resync_missed: "set (ry_missed (resync_all refuses tells s index shard term to pages reports)) \<subseteq> set to"
proof -
  have "set (ry_missed (fold (resync_to refuses tells s index shard i xs) ns y)) \<subseteq> set (ry_missed y) \<union> set ns" for i xs ns y
  proof (induction ns arbitrary: y)
    case (Cons n ns)
    from Cons.IH [of "resync_to refuses tells s index shard i xs n y"] resync_to_step(2) [of _ refuses tells s index shard i xs n y, OF refl]
    show ?case by (auto split: if_splits)
  qed simp
  then have "set (ry_missed (resync_page refuses tells s index shard term to p y)) \<subseteq> set (ry_missed y) \<union> set to" for p y
    unfolding resync_page_def Let_def by fastforce
  then have "set (ry_missed (fold (resync_page refuses tells s index shard term to) ps y)) \<subseteq> set (ry_missed y) \<union> set to" for ps y
    by (induction ps arbitrary: y) (simp, fastforce)
  from this [of _ "\<lparr>ry_missed = [], ry_sent = [], ry_reports = reports\<rparr>"] show ?thesis by (simp add: resync_all_def)
qed

lemma resync_scan_pages:
  assumes "scan_pages known st every_shard 2000 from_seq = Some xs"
  shows "\<exists>ps. resync_scan known (\<lambda>_. Some st) k from_seq = Some ps \<and> concat ps = xs"
proof -
  let ?P = "\<lambda>known st shard page from_seq xs. shard = every_shard \<longrightarrow> page = (2000 :: nat) \<longrightarrow>
    (\<forall>k. \<exists>ps. resync_scan known (\<lambda>_. Some st) k from_seq = Some ps \<and> concat ps = xs)"
  have "?P known st every_shard 2000 from_seq xs"
  proof (rule scan_pages.raw_induct [where P = ?P, OF _ assms], intro impI allI)
    fix scan known st shard page from_seq xs k
    assume IH: "\<And>known st shard page from_seq xs. scan known st shard page from_seq = Some xs \<Longrightarrow> ?P known st shard page from_seq xs"
      and body: "(case scan_replicated known st shard from_seq page of (xs, None) \<Rightarrow> Some xs
        | (xs, Some n) \<Rightarrow> if from_seq < n then scan known st shard page n \<bind> (\<lambda>ys. Some (xs @ ys)) else Some xs) = Some xs"
      and e: "shard = every_shard" "page = (2000 :: nat)"
    obtain ys n where p: "scan_replicated known st every_shard from_seq 2000 = (ys, n)" by fastforce
    show "\<exists>ps. resync_scan known (\<lambda>_. Some st) k from_seq = Some ps \<and> concat ps = xs"
    proof (cases "case n of None \<Rightarrow> True | Some m \<Rightarrow> m \<le> from_seq")
      case True
      with body p e show ?thesis by (subst resync_scan.simps) (auto split: option.splits if_splits)
    next
      case False
      then obtain m where m: "n = Some m" "from_seq < m" by (auto split: option.splits)
      with body p e obtain zs where z: "scan known st every_shard 2000 m = Some zs" "xs = ys @ zs" by (auto simp: bind_eq_Some_conv)
      from IH [OF z(1)] obtain ps where "resync_scan known (\<lambda>_. Some st) (Suc k) m = Some ps" "concat ps = zs" by blast
      with p m z(2) show ?thesis by (subst resync_scan.simps) simp
    qed
  qed
  then show ?thesis by blast
qed

lemma resync_missed_exact:
  assumes "n \<in> set to"
    and "y = fold (resync_page refuses tells s index shard term to) ps \<lparr>ry_missed = [], ry_sent = [], ry_reports = reports\<rparr>"
  shows "n \<in> set (ry_missed y) \<longleftrightarrow> (\<exists>p \<in> set ps. refuses (fst p) n (map (\<lambda>x. x\<lparr>ro_term := term\<rparr>) (snd p)) \<noteq> None)"
  using assms(2)
proof (induction ps arbitrary: y rule: rev_induct)
  case (snoc p ps)
  let ?y = "fold (resync_page refuses tells s index shard term to) ps \<lparr>ry_missed = [], ry_sent = [], ry_reports = reports\<rparr>"
  let ?ns = "filter (\<lambda>n. n \<notin> set (ry_missed ?y)) to" and ?xs = "map (\<lambda>x. x\<lparr>ro_term := term\<rparr>) (snd p)"
  have y: "y = fold (resync_to refuses tells s index shard (fst p) ?xs) ?ns ?y"
    unfolding snoc.prems fold_append by (simp only: comp_apply fold_simps resync_page_def [of _ _ _ _ _ _ _ p] Let_def)
  have m: "set (ry_missed (fold (resync_to refuses tells s index shard i xs) ns z)) = set (ry_missed z) \<union> {n \<in> set ns. refuses i n xs \<noteq> None}" for i xs ns z
  proof (induction ns arbitrary: z)
    case (Cons n ns)
    show ?case
      unfolding fold_simps comp_apply Cons.IH resync_to_step(2) [of _ refuses tells s index shard i xs n z, OF refl] by auto
  qed simp
  show ?case unfolding y m using snoc.IH [OF refl] assms(1) by auto
qed simp

text \<open>
  \<^bold>\<open>C14.\<close>  A new primary's resync of an index that does not change ends, and while a manager is known it reaches a copy whole or does not
  pass over it.  Its pages are together everything the index holds, under the new term; a node is told of the end exactly when it refused no page,
  and then it was sent all of them; of any other node every report on its replica copies of the shard was answered by the manager or waits to be sent
  again; and the resync says it reached all exactly when every node is told of the end.
\<close>

theorem resync_reaches_or_reports:
  assumes ok: "store_ok st" "bm_ok (ix_pending st)" and to: "distinct to" "n \<in> set to" and manager: "cs_cluster_manager s \<noteq> None"
  shows "\<exists>pages y ended reached. resync refuses tells known (\<lambda>_. Some st) s index shard term to reports = Some (y, ended, reached)
    \<and> set (concat pages) = (\<lambda>x. x\<lparr>ro_term := term\<rparr>) ` snapshot known st every_shard 0
    \<and> (n \<in> set ended \<longleftrightarrow> (\<forall>i < length pages. refuses i n (pages ! i) = None))
    \<and> (if n \<in> set ended then sent_to y n = pages
       else \<exists>why. \<forall>r \<in> set (copy_reports s index shard n why). looked_after (ry_reports y) r)
    \<and> (reached \<longleftrightarrow> set to \<subseteq> set ended)"
proof -
  from scan_pages_all [OF ok, of known every_shard 2000 0] resync_scan_pages
  obtain pages where pages: "resync_scan known (\<lambda>_. Some st) 0 0 = Some pages" "set (concat pages) = snapshot known st every_shard 0" by metis
  let ?y = "resync_all refuses tells s index shard term to pages reports" and ?sent = "map (map (\<lambda>x. x\<lparr>ro_term := term\<rparr>)) pages"
  have m: "map (\<lambda>p. map (\<lambda>x. x\<lparr>ro_term := term\<rparr>) (snd p)) (enumerate k pages) = ?sent" for k
    by (induction pages arbitrary: k) simp_all
  have run: "(n \<notin> set (ry_missed ?y) \<longrightarrow> sent_to ?y n = ?sent)
      \<and> (n \<in> set (ry_missed ?y) \<longrightarrow> (\<exists>why. \<forall>r \<in> set (copy_reports s index shard n why). looked_after (ry_reports ?y) r))"
    using resync_pages [OF to, of _ refuses tells s index shard "term" "enumerate 0 pages" reports, OF refl] manager
    unfolding m by (simp add: resync_all_def reported_def)
  have "set (enumerate 0 pages) = {(i, pages ! i) | i. i < length pages}" by (auto simp: in_set_enumerate_eq)
  then have missed: "n \<notin> set (ry_missed ?y) \<longleftrightarrow> (\<forall>i < length ?sent. refuses i n (?sent ! i) = None)"
    unfolding resync_all_def resync_missed_exact [OF to(2) refl] by auto
  let ?ended = "filter (\<lambda>n. n \<notin> set (ry_missed ?y)) to"
  have e: "n \<in> set ?ended \<longleftrightarrow> n \<notin> set (ry_missed ?y)" using to(2) by simp
  show ?thesis
  proof (intro exI conjI)
    show "resync refuses tells known (\<lambda>_. Some st) s index shard term to reports = Some (?y, ?ended, ry_missed ?y = [])"
      by (simp add: resync_def pages(1) Let_def)
    show "set (concat ?sent) = (\<lambda>x. x\<lparr>ro_term := term\<rparr>) ` snapshot known st every_shard 0"
      unfolding pages(2) [symmetric] by (auto simp: image_iff)
    show "n \<in> set ?ended \<longleftrightarrow> (\<forall>i < length ?sent. refuses i n (?sent ! i) = None)" unfolding e by (rule missed)
    show "if n \<in> set ?ended then sent_to ?y n = ?sent
      else \<exists>why. \<forall>r \<in> set (copy_reports s index shard n why). looked_after (ry_reports ?y) r"
      unfolding e using run by presburger
    show "ry_missed ?y = [] \<longleftrightarrow> set to \<subseteq> set ?ended"
      using resync_missed [of refuses tells s index shard "term" to pages reports] by (cases "ry_missed ?y") auto
  qed
qed

text \<open>Without a known manager the report on a copy that missed the resync is neither sent nor kept.\<close>

lemma resync_miss_forgotten:
  assumes "cs_cluster_manager s = None"
  shows "fail_copy tells s index shard node why reports = (False, reports)"
  by (simp add: fail_copy_def assms)

section \<open>Copies sent what the primary recorded\<close>

text \<open>The writes a primary records over a run of operations on its store, deletes in the term \<open>t\<close>.\<close>

fun recorded :: "writer \<Rightarrow> nat \<Rightarrow> store_op \<Rightarrow> idx_state \<Rightarrow> replica_op list" where
  "recorded W t (Write routed term i raw forced refresh) st = [put_record W term i raw forced None (set_routing i routed st)]"
| "recorded W t (Remove i) st = (case delete_record W t i st of Some x \<Rightarrow> [x] | None \<Rightarrow> [])"
| "recorded W t (RemoveRequest i forced refresh) st =
     (if forced \<noteq> None then [] else case delete_record W t i st of Some x \<Rightarrow> [x] | None \<Rightarrow> [])"
| "recorded W t Refresh st = []"
| "recorded W t (RefreshShard shard) st = []"

text \<open>
  The requests whose effect a copy can follow: a write that names a version names one above the version the store holds of the document,
  deleted or not, since a copy takes no other; and no delete names one, since such a delete records no write at all.
\<close>

fun version_rises :: "store_op \<Rightarrow> idx_state \<Rightarrow> bool" where
  "version_rises (Write routed term i raw forced refresh) st = (case forced of Some v \<Rightarrow> rank (held_version st i) \<le> v | None \<Rightarrow> True)"
| "version_rises (RemoveRequest i forced refresh) st = (forced = None)"
| "version_rises (Remove i) st = True"
| "version_rises Refresh st = True"
| "version_rises (RefreshShard shard) st = True"

fun history :: "writer \<Rightarrow> nat \<Rightarrow> store_op list \<Rightarrow> idx_state \<Rightarrow> replica_op list" where
  "history W t [] st = []"
| "history W t (x # xs) st = recorded W t x st @ history W t xs (store_do W x st)"

lemma bump_version:
  assumes "existed = is_live st i"
  shows "rank (held_version st i) \<le> fst (fst (bump i live existed st))"
  using assms by (auto simp: bump_def Let_def held_version_def rank_def bm_has_get split: option.splits)

lemma bump_versions:
  "bm_get (ix_versions (snd (bump i live existed st))) j =
     (if j = i \<and> (existed \<or> bm_has (ix_versions st) i \<or> \<not> live)
      then Some \<lparr>dm_version = fst (fst (bump i live existed st)), dm_live = live\<rparr> else bm_get (ix_versions st) j)"
  "\<not> existed \<Longrightarrow> bm_get (ix_versions st) i = None \<Longrightarrow> fst (fst (bump i live existed st)) = 1"
  by (auto simp: bump_def Let_def set_version_def note_live_def bm_insert_get bm_has_get split: option.splits)

lemma held_after_bump:
  assumes ok: "store_ok st" "store_ok st'" and rt: "realtime st' = (realtime st)(i := x)" "live = (x \<noteq> None)"
    and v: "ix_versions st' = ix_versions (snd (bump i live (is_live st i) st))"
  shows "held_version st' = (held_version st)(i := Some (fst (fst (bump i live (is_live st i) st))))"
proof
  fix j
  have l: "is_live st' j = (if j = i then live else is_live st j)" using is_live_realtime [OF ok(1)] is_live_realtime [OF ok(2)] rt by auto
  show "held_version st' j = ((held_version st)(i := Some (fst (fst (bump i live (is_live st i) st))))) j"
    using bump_versions(2) [of "is_live st i" st i live]
    by (auto simp: held_version_def l v bump_versions(1) bm_has_get split: option.splits)
qed

lemma set_routing_held: "held_version (set_routing i r st) = held_version st"
  by (auto simp: set_routing_def held_version_def is_live_def lookup_id_def fun_eq_iff split: option.split)

lemma held_same:
  assumes ok: "store_ok st" "store_ok st'" and "realtime st' = realtime st" and "ix_versions st' = ix_versions st"
  shows "held_version st' = held_version st"
proof -
  have "is_live st' j = is_live st j" for j using is_live_realtime [OF ok(1)] is_live_realtime [OF ok(2)] assms(3) by simp
  with assms(4) show ?thesis by (simp add: held_version_def fun_eq_iff)
qed

lemma held_after_forced:
  assumes ok: "store_ok st" "store_ok st'" and rt: "realtime st' = (realtime st)(i := Some raw)"
    and v: "ix_versions st' = ix_versions (snd (bump_to_seq i True n None st))"
  shows "held_version st' = (held_version st)(i := Some n)"
proof
  fix j
  have "is_live st' j = (if j = i then True else is_live st j)" using is_live_realtime [OF ok(1)] is_live_realtime [OF ok(2)] rt by auto
  then show "held_version st' j = ((held_version st)(i := Some n)) j"
    by (simp add: held_version_def v bump_to_seq_def set_version_def note_live_def bm_insert_get)
qed

lemma put_step:
  assumes W: "willing W" and ok: "store_ok st" and x: "x = put_record W t i raw forced None st" and st': "st' = snd (put_doc W t i raw forced None st)"
    and f: "case forced of Some v \<Rightarrow> rank (held_version st i) \<le> v | None \<Rightarrow> True"
  shows "ro_id x = i \<and> ro_source x = Some raw \<and> rank (held_version st i) \<le> ro_version x
    \<and> held_version st' = (held_version st)(i := Some (ro_version x))"
proof -
  let ?b = "case forced of Some v \<Rightarrow> bump_to_seq i True v None st | None \<Rightarrow> bump i True (is_live st i) st"
  have v: "ro_id x = i" "ro_source x = Some raw" "ro_version x = fst (fst ?b)"
    by (simp_all add: x put_record_def put_doc_def Let_def case_prod_beta)
  note p = put_doc_ok [OF W ok, of t i raw forced None, folded st']
  have "held_version st' = (held_version st)(i := Some (fst (fst ?b)))"
  proof (cases forced)
    case None
    with p held_after_bump [OF ok, of st' i "Some raw" True] show ?thesis by simp
  next
    case (Some n)
    with p held_after_forced [OF ok, of st' i raw n] show ?thesis by (simp add: bump_to_seq_def Let_def)
  qed
  moreover have "rank (held_version st i) \<le> fst (fst ?b)"
    using f bump_version [OF refl, of st i True] by (cases forced) (simp_all add: bump_to_seq_def Let_def)
  ultimately show ?thesis using v by simp
qed

lemma delete_step:
  assumes W: "willing W" and ok: "store_ok st" and st': "st' = snd (delete_doc W i st)"
  shows "rank (held_version st i) \<le> rank (held_version st' i) \<and> (\<forall>j. j \<noteq> i \<longrightarrow> held_version st' j = held_version st j)
    \<and> (case delete_record W t i st of
         None \<Rightarrow> realtime st i = None
       | Some x \<Rightarrow> ro_id x = i \<and> ro_source x = None \<and> rank (held_version st i) \<le> ro_version x
           \<and> held_version st' i = Some (ro_version x))"
proof -
  note d = delete_doc_ok [OF W ok, of i, folded st']
  from held_after_bump [OF ok, of st' i None False] d
  have h: "held_version st' = (held_version st)(i := Some (fst (fst (bump i False (is_live st i) st))))" by simp
  have "delete_record W t i st = None \<Longrightarrow> realtime st i = None"
    using d by (simp add: delete_record_def case_prod_beta split: if_splits)
  moreover have "ro_id x = i \<and> ro_source x = None \<and> ro_version x = fst (fst (bump i False (is_live st i) st))"
    if "delete_record W t i st = Some x" for x
    using that by (auto simp: delete_record_def delete_doc_def Let_def case_prod_beta split: if_splits)
  ultimately show ?thesis using h bump_version [OF refl, of st i False] by (auto simp: rank_def split: option.split)
qed

text \<open>
  What a store does to one id as it records writes of it: the versions recorded rise, above the one held before and up to
  the one held after, and the id reads as the last one recorded, or as before when there is none.
\<close>

definition passes :: "string \<Rightarrow> idx_state \<Rightarrow> replica_op list \<Rightarrow> idx_state \<Rightarrow> bool" where
  "passes i st hs st' =
     (rank (held_version st i) \<le> rank (held_version st' i)
      \<and> (\<forall>x \<in> set hs. rank (held_version st i) \<le> ro_version x \<and> ro_version x < rank (held_version st' i))
      \<and> sorted_wrt (\<lambda>x y. ro_version x < ro_version y) hs
      \<and> realtime st' i = (if hs = [] then realtime st i else ro_source (last hs)))"

lemma passes_append:
  assumes "passes i st hs st1" and "passes i st1 ks st2"
  shows "passes i st (hs @ ks) st2"
proof -
  have a: "ro_version x < ro_version y" if "x \<in> set hs" "y \<in> set ks" for x y
    using assms that unfolding passes_def by (meson less_le_trans)
  have b: "rank (held_version st i) \<le> ro_version x \<and> ro_version x < rank (held_version st2 i)" if "x \<in> set (hs @ ks)" for x
    using assms that unfolding passes_def set_append by (meson UnE less_le_trans order_trans)
  show ?thesis using assms a b unfolding passes_def by (auto simp: sorted_wrt_append intro: order_trans)
qed

lemma passes_same:
  assumes "passes i st hs st1" and "realtime st2 = realtime st1" and "held_version st2 = held_version st1"
  shows "passes i st hs st2"
  using assms by (simp add: passes_def)

lemma passes_delete:
  assumes W: "willing W" and ok: "store_ok st"
  shows "passes i st (filter (\<lambda>y. ro_id y = i) (case delete_record W t k st of Some x \<Rightarrow> [x] | None \<Rightarrow> [])) (snd (delete_doc W k st))"
  using delete_step [OF W ok refl, of k t] delete_doc_ok [OF W ok, of k]
  by (cases "delete_record W t k st"; cases "k = i") (auto simp: passes_def rank_def)

lemma passes_store_do:
  assumes W: "willing W" and ok: "store_ok st" and home: "refreshes_at_home W x st" and rises: "version_rises x st"
  shows "passes i st (filter (\<lambda>y. ro_id y = i) (recorded W t x st)) (store_do W x st)"
proof (cases x)
  case (Write routed tm k raw forced refresh)
  let ?st = "set_routing k routed st" and ?st1 = "snd (put_doc W tm k raw forced None (set_routing k routed st))"
  note w = index_written_ok [OF W ok home [unfolded Write]]
  have ok': "store_ok ?st" using ok by (simp add: set_routing_ok)
  have "case forced of Some v \<Rightarrow> rank (held_version ?st k) \<le> v | None \<Rightarrow> True"
    using rises by (simp add: Write set_routing_held split: option.splits)
  from put_step [OF W ok' refl refl this] w
  have "passes i st (filter (\<lambda>y. ro_id y = i) (recorded W t x st)) ?st1"
    by (auto simp: Write passes_def set_routing_held rank_def le_Suc_eq)
  then show ?thesis by (rule passes_same) (use w held_same in \<open>auto simp: Write\<close>)
next
  case (Remove k)
  with passes_delete [OF W ok] show ?thesis by simp
next
  case (RemoveRequest k forced refresh)
  with rises have f: "forced = None" by simp
  note d = delete_written_ok [OF W ok home [unfolded RemoveRequest]]
  have "held_version (removed W k forced st) = held_version (snd (delete_doc W k st))"
    by (simp add: removed_def f set_routing_held)
  moreover have "realtime (removed W k forced st) = realtime (snd (delete_doc W k st))" by (simp add: removed_def f set_routing_ok)
  ultimately have "passes i st (filter (\<lambda>y. ro_id y = i) (recorded W t x st)) (removed W k forced st)"
    using passes_delete [OF W ok, of i t k] by (simp add: RemoveRequest f passes_def)
  then show ?thesis by (rule passes_same) (use d held_same in \<open>auto simp: RemoveRequest\<close>)
next
  case Refresh
  with refresh_everything_ok [OF W ok] held_same [OF ok, of "store_do W x st"] show ?thesis by (simp add: passes_def)
next
  case (RefreshShard shard)
  with refresh_one_shard_ok [OF W ok, of shard] home held_same [OF ok, of "store_do W x st"] show ?thesis by (simp add: passes_def)
qed

lemma passes_history:
  assumes W: "willing W" and "store_ok st" and "throughout (\<lambda>x s. refreshes_at_home W x s \<and> version_rises x s) W ops st"
  shows "passes i st (filter (\<lambda>y. ro_id y = i) (history W t ops st)) (fold (store_do W) ops st)"
  using assms(2, 3)
proof (induction ops arbitrary: st)
  case Nil
  show ?case by (simp add: passes_def)
next
  case (Cons x ops)
  then have c: "refreshes_at_home W x st" "version_rises x st" "throughout (\<lambda>x s. refreshes_at_home W x s \<and> version_rises x s) W ops (store_do W x st)"
    by simp_all
  have "store_ok (store_do W x st)" using store_do_ok [OF W Cons.prems(1) c(1)] by blast
  from passes_append [OF passes_store_do [OF W Cons.prems(1) c(1, 2)] Cons.IH [OF this c(3)]] show ?case by simp
qed

lemma passes_outcome:
  assumes p: "passes i st hs st'" and o: "outcome ys i c c'" and hs: "{y \<in> set ys. ro_id y = i} = set hs"
    and c: "realtime c i = realtime st i" "rank (held_version c i) \<le> rank (held_version st i)"
  shows "realtime c' i = realtime st' i"
proof (cases "hs = []")
  case True
  then have "\<not> (\<exists>x \<in> set ys. ro_id x = i)" using hs unfolding True list.set by blast
  with o p True c(1) show ?thesis unfolding outcome_def passes_def by simp
next
  case False
  from last_in_set [OF False] have l: "last hs \<in> set ys" "ro_id (last hs) = i" "last hs \<in> set hs" using hs by blast+
  with p have v: "rank (held_version st i) \<le> ro_version (last hs)" by (simp add: passes_def)
  have most: "x = last hs \<or> ro_version x < ro_version (last hs)" if "x \<in> set hs" for x
    using p that False by (cases hs rule: rev_cases) (auto simp: passes_def sorted_wrt_append)
  show ?thesis
  proof (rule outcome_cases [OF o])
    assume "held_version c' i = held_version c i"
    with outcome_bounds(2) [OF o l(1, 2)] c(2) v show ?thesis by simp
  next
    fix x assume x: "x \<in> set ys" "ro_id x = i" "realtime c' i = ro_source x" "held_version c' i = Some (ro_version x)"
    then have "ro_version (last hs) \<le> ro_version x" using outcome_bounds(2) [OF o l(1, 2)] by (simp add: rank_def)
    moreover have "x \<in> set hs" using x(1, 2) hs by blast
    ultimately have "x = last hs" using most [of x] by simp
    with p False x(3) show ?thesis by (simp add: passes_def)
  qed
qed

text \<open>
  \<^bold>\<open>C10.\<close>  A copy that starts level with its primary and gets what the primary records reads as the primary does.  Whatever
  is written, deleted and refreshed on the primary's store, a copy that read alike and held no newer version of any document, and then
  takes the writes recorded, in any order and any of them more than once, reads every id as the primary's store
  does after the run, provided the copy has seen the terms of those writes before.  Of the run it is asked that a shard is refreshed
  only while nothing of its documents waits under another, that a write which names its version names one above the version held,
  and that no delete names one.
\<close>

theorem copies_follow_primary:
  assumes W: "willing W" "willing W'" and ok: "store_ok st" "store_ok c"
    and run: "throughout (\<lambda>x s. refreshes_at_home W x s \<and> version_rises x s) W ops st"
    and level: "realtime c = realtime st" "\<forall>i. rank (held_version c i) \<le> rank (held_version st i)"
    and sent: "set ys = set (history W t ops st)"
    and known: "\<forall>y \<in> set ys. ro_term y \<le> ix_applied_term c"
  shows "realtime (receive W' ys c) = realtime (fold (store_do W) ops st)"
proof
  fix i
  have hs: "{y \<in> set ys. ro_id y = i} = set (filter (\<lambda>y. ro_id y = i) (history W t ops st))" by (auto simp: sent)
  from receive_outcome [OF W(2) ok(2) known, of i] have "outcome ys i c (receive W' ys c)" by blast
  from passes_outcome [OF passes_history [OF W(1) ok(1) run] this hs] level
  show "realtime (receive W' ys c) i = realtime (fold (store_do W) ops st) i" by simp
qed

end
