(* ===== verification/Index_Store_Examples.thy ===== *)
theory Index_Store_Examples
  imports Index_Store_Properties
begin

text \<open>
  A writer that does what is asked of it, an index nothing was written to, and the schedules on which the
  theorems of the store are evaluated.  Two schedules show what the theorems leave out: a document whose routing
  changed between two writes, and a writer that refuses a document.
\<close>

definition plain_writer :: writer where
  "plain_writer = \<lparr>wr_opens = True, wr_takes = (\<lambda>_. True), wr_commits = True, wr_syncs = True,
     wr_log_full = (\<lambda>_. False), wr_apply = fold index_op\<rparr>"

definition empty_store :: idx_state where
  "empty_store =
     \<lparr>ix_name = ''books'', ix_settings = \<lparr>ss_shards = 2, ss_routing_shards = None, ss_partition = None\<rparr>,
      ix_versions = [], ix_terms = [], ix_routing = [], ix_live_ids = [], ix_ids_loaded = True, ix_pending = [],
      ix_pending_seq = [], ix_pending_bytes = 0, ix_deferred = [], ix_queued_shard = [], ix_writer = None,
      ix_realtime = [], ix_reader = [], ix_seq_no = 0, ix_applied_term = 0\<rparr>"

lemma plain_writer_willing: "willing plain_writer" "wr_commits plain_writer"
  by (simp_all add: willing_def plain_writer_def applies_in_order_def)

lemma empty_store_ok: "store_ok empty_store" and empty_store_realtime: "realtime empty_store = (\<lambda>_. None)"
  using store_okI [of "\<lambda>_. None" empty_store]
  by (simp_all add: view_ok_def pins_ok_def reads_ok_def settled_def as_mset_def live_ok_def waiting_def held_ops_def
      docs_of_def empty_store_def)

section \<open>The theorems on a small store\<close>

definition sample_ops :: "store_op list" where
  "sample_ops =
     [Write None 1 ''a'' ''one'' (Some 7) True, RefreshShard 1, Write None 1 ''b'' ''two'' None False, Refresh,
      Write None 1 ''a'' ''three'' None False, RemoveRequest ''b'' (Some 5) False]"

lemmas write_simps = index_written_def plain_writer_def set_routing_def put_doc_def is_live_def empty_store_def
  bump_def bump_to_seq_def note_live_def set_version_def queue_op_for_def queue_op_def DEFERRED_MAX_OPS_def log_write_def note_pending_def
  pending_size_def PENDING_BUDGET_BYTES_def note_pending_seq_def set_term_def shard_of_doc_def bm_has_get bm_get_def bm_remove_def Let_def

lemmas refresh_simps = refresh_one_shard_def refresh_everything_def apply_ops_def repin_def commit_def bm_retain_keys_def

lemma sample_put:
  "snd (put_doc plain_writer 1 ''a'' ''one'' (Some 7) None (set_routing ''a'' None empty_store)) = empty_store
     \<lparr>ix_versions := [(''a'', \<lparr>dm_version = 7, dm_live = True\<rparr>)],
      ix_live_ids := [id_fingerprint ''a''], ix_pending := [(''a'', Some ''one'')], ix_pending_seq := [(''a'', 0)],
      ix_pending_bytes := 52, ix_deferred := [(shard_of_doc empty_store ''a'', Add \<lparr>rd_id = ''a'', rd_seq = 0, rd_source = ''one''\<rparr>)],
      ix_queued_shard := [(''a'', shard_of_doc empty_store ''a'')], ix_seq_no := 1\<rparr>"
  by (simp add: write_simps)

lemma sample_put_refreshed:
  "ix_deferred (store_do plain_writer (Write None 1 ''a'' ''one'' (Some 7) True) empty_store) = []"
  using sample_put by (simp add: index_written_def case_prod_beta shard_of_doc_def refresh_simps plain_writer_def empty_store_def Let_def)

lemma sample_ops_at_home: "throughout (refreshes_at_home plain_writer) plain_writer sample_ops empty_store"
  using sample_put_refreshed
  by (simp add: sample_ops_def sample_put waits_at_home_def shard_of_doc_def Let_def del: store_do.simps One_nat_def)

theorem store_refines_map_witness:
  "willing plain_writer \<and> store_ok empty_store
   \<and> map (realtime (fold (store_do plain_writer) sample_ops empty_store)) [''a'', ''b''] = [Some ''three'', None]"
  using store_refines_map [OF plain_writer_willing(1) empty_store_ok sample_ops_at_home] plain_writer_willing(1) empty_store_ok
  by (simp add: sample_ops_def empty_store_realtime)

definition sample_store :: idx_state where
  "sample_store = store_do plain_writer (Write None 1 ''a'' ''one'' None False) empty_store"

lemma sample_store_ok: "store_ok sample_store"
  unfolding sample_store_def using store_do_ok [OF plain_writer_willing(1) empty_store_ok, of "Write None 1 ''a'' ''one'' None False"] by simp

lemma sample_store_eq:
  "sample_store = empty_store
     \<lparr>ix_live_ids := [id_fingerprint ''a''], ix_pending := [(''a'', Some ''one'')], ix_pending_seq := [(''a'', 0)],
      ix_pending_bytes := 52, ix_deferred := [(shard_of_doc empty_store ''a'', Add \<lparr>rd_id = ''a'', rd_seq = 0, rd_source = ''one''\<rparr>)],
      ix_queued_shard := [(''a'', shard_of_doc empty_store ''a'')], ix_seq_no := 1\<rparr>"
  by (simp add: sample_store_def write_simps)

lemma sample_store_reads:
  "realtime sample_store ''a'' = Some ''one''" "found_in (ix_reader sample_store) ''a'' = None"
  "\<forall>(s, x) \<in> set (ix_deferred sample_store). shard_of_doc sample_store (op_id x) = s"
  by (simp_all add: sample_store_eq realtime_def bm_get_def found_in_def empty_store_def shard_of_doc_def find_first_def)


theorem refresh_shard_shows_shard_witness:
  "store_ok sample_store \<and> realtime (snd (refresh_one_shard plain_writer (shard_of_doc sample_store ''a'') sample_store)) ''a'' = Some ''one''
   \<and> found_in (ix_reader (snd (refresh_one_shard plain_writer (shard_of_doc sample_store ''a'') sample_store))) ''a'' = Some ''one''"
  using refresh_shard_shows_shard [OF plain_writer_willing(1) sample_store_ok plain_writer_willing(2) sample_store_reads(3),
      of "shard_of_doc sample_store ''a''"] sample_store_reads(1) sample_store_ok by simp

theorem split_keeps_shards_witness:
  "(0 :: nat) < 2 \<and> (0 :: nat) < 3 \<and> (768 :: nat) mod (3 * 2) = 0
   \<and> routing_shard_in ''f0'' 6 (Some 768) div 3 = routing_shard_in ''f0'' 2 (Some 768)"
  using split_keeps_shards [of 2 3 768 "''f0''"] by simp

section \<open>A routing that changes between a write and a refresh\<close>

text \<open>
  A document is written, then written again with a routing that puts it on another shard, and a refresh of
  that shard is asked for.  Its operations stay queued under the first shard while the copy kept for reads is dropped:
  until the next full refresh neither a realtime read nor a search finds it.
\<close>

lemma rerouted_write_is_hidden:
  fixes S :: shard_settings
  assumes "shard_of S ''a'' None \<noteq> shard_of S ''a'' (Some r)"
  defines "st \<equiv> snd (index_written plain_writer 1 ''a'' (Some r) ''two'' None True
    (snd (index_written plain_writer 1 ''a'' None ''one'' None False (empty_store\<lparr>ix_settings := S\<rparr>))))"
  shows "realtime st ''a'' = None \<and> found_in (ix_reader st) ''a'' = None
    \<and> realtime (snd (refresh_everything plain_writer st)) ''a'' = Some ''two''"
proof -
  have "st = empty_store\<lparr>ix_settings := S, ix_versions := [(''a'', \<lparr>dm_version = 2, dm_live = True\<rparr>)], ix_routing := [(''a'', r)],
    ix_live_ids := [id_fingerprint ''a''],
    ix_deferred := map (Pair (shard_of S ''a'' None))
      [Add \<lparr>rd_id = ''a'', rd_seq = 0, rd_source = ''one''\<rparr>, Delete ''a'', Add \<lparr>rd_id = ''a'', rd_seq = 1, rd_source = ''two''\<rparr>],
    ix_queued_shard := [(''a'', shard_of S ''a'' None)], ix_writer := Some [], ix_seq_no := 2\<rparr>"
    using assms(1) unfolding st_def
    by (simp add: write_simps refresh_simps)
  then show ?thesis
    by (simp add: realtime_def bm_get_def found_in_def find_first_def empty_store_def refresh_everything_def apply_ops_def
        plain_writer_def commit_def repin_def)
qed

lemma rerouted_settings:
  "shard_of \<lparr>ss_shards = 2, ss_routing_shards = None, ss_partition = None\<rparr> ''a'' None
   \<noteq> shard_of \<lparr>ss_shards = 2, ss_routing_shards = None, ss_partition = None\<rparr> ''a'' (Some ''f0'')"
  by code_simp

section \<open>A document the writer refuses\<close>

text \<open>The refused operation itself is in neither what the writer took nor what stays queued.\<close>

lemma refused_write_is_dropped:
  "let W = plain_writer\<lparr>wr_takes := (\<lambda>d. rd_id d \<noteq> ''a'')\<rparr>;
       (ok, st) = apply_ops W None (empty_store\<lparr>ix_deferred :=
         [(0, Add \<lparr>rd_id = ''a'', rd_seq = 0, rd_source = ''one''\<rparr>), (1, Add \<lparr>rd_id = ''b'', rd_seq = 1, rd_source = ''two''\<rparr>)]\<rparr>)
   in \<not> ok \<and> map (op_id \<circ> snd) (ix_deferred st) = [''b''] \<and> ix_writer st = Some []"
  by code_simp

end
