(* ===== verification/Replica_Examples.thy ===== *)
theory Replica_Examples
  imports Replica_Properties Index_Store_Examples
begin

text \<open>
  The theorems on copies at small indices, and two schedules on which copies do not come to agree: the writes
  of a new term in an order that depends on the copy, and a delete the primary took, and refreshed away, before it sent its
  writes to the copy being filled.
\<close>

section \<open>What a copy comes to\<close>

text \<open>What matters of a copy to the writes it is sent: what it reads, the versions it holds, the term it knows.\<close>

definition copy_view :: "idx_state \<Rightarrow> (string \<Rightarrow> string option) \<times> (string \<Rightarrow> nat option) \<times> nat" where
  "copy_view st = (realtime st, held_version st, ix_applied_term st)"

fun copy_step :: "replica_op \<Rightarrow> (string \<Rightarrow> string option) \<times> (string \<Rightarrow> nat option) \<times> nat
    \<Rightarrow> (string \<Rightarrow> string option) \<times> (string \<Rightarrow> nat option) \<times> nat" where
  "copy_step x (V, H, t) =
     (if ro_term x > t \<or> (case H (ro_id x) of Some h \<Rightarrow> h < ro_version x | None \<Rightarrow> True)
      then (V(ro_id x := ro_source x), H(ro_id x := Some (ro_version x)), max t (ro_term x))
      else (V, H, t))"

lemma receive_view:
  assumes W: "willing W" and "store_ok st"
  shows "store_ok (receive W xs st) \<and> copy_view (receive W xs st) = fold copy_step xs (copy_view st)"
  using assms(2)
proof (induction xs arbitrary: st)
  case (Cons x xs)
  obtain taken st1 where a: "apply_replicated W x st = (taken, st1)" by fastforce
  note e = apply_replicated_ok [OF W Cons.prems a]
  then have "copy_view st1 = copy_step x (copy_view st)" by (auto simp: copy_view_def wins_def)
  with Cons.IH [of st1] e show ?case by (simp add: receive_def a)
qed (simp add: receive_def)

section \<open>The theorems\<close>

definition op_of :: "string \<Rightarrow> nat \<Rightarrow> nat \<Rightarrow> nat \<Rightarrow> string option \<Rightarrow> replica_op" where
  "op_of i version seq term source =
     \<lparr>ro_index = ''books'', ro_id = i, ro_routing = None, ro_version = version, ro_seq = seq, ro_term = term, ro_shard = 0,
      ro_source = source, ro_doc_term = None\<rparr>"

lemma empty_store_held: "held_version empty_store = (\<lambda>_. None)" "ix_applied_term empty_store = 0"
  "bm_ok (ix_pending empty_store)"
  by (auto simp: held_version_def is_live_def lookup_id_def empty_store_def bm_ok_def bm_keys_def)

theorem replica_write_effect_witness:
  "store_ok empty_store \<and> fst (apply_replicated plain_writer (op_of ''a'' 1 0 1 (Some ''one'')) empty_store)
   \<and> realtime (snd (apply_replicated plain_writer (op_of ''a'' 1 0 1 (Some ''one'')) empty_store)) ''a'' = Some ''one''"
  using replica_write_effect [OF plain_writer_willing(1) empty_store_ok, of "op_of ''a'' 1 0 1 (Some ''one'')"
      "fst (apply_replicated plain_writer (op_of ''a'' 1 0 1 (Some ''one'')) empty_store)"
      "snd (apply_replicated plain_writer (op_of ''a'' 1 0 1 (Some ''one'')) empty_store)"]
  by (simp add: empty_store_ok wins_def empty_store_held op_of_def)

definition first_copy :: idx_state where
  "first_copy = receive plain_writer [op_of ''a'' 2 0 1 (Some ''old a''), op_of ''b'' 2 1 1 (Some ''old b'')] empty_store"

lemma first_copy_ok: "store_ok first_copy"
  unfolding first_copy_def using receive_view [OF plain_writer_willing(1) empty_store_ok] by blast

lemma first_copy_view:
  "copy_view first_copy = ([''a'' \<mapsto> ''old a'', ''b'' \<mapsto> ''old b''], [''a'' \<mapsto> 2, ''b'' \<mapsto> 2], 1)"
  unfolding first_copy_def receive_view [OF plain_writer_willing(1) empty_store_ok, THEN conjunct2]
  by (simp add: copy_view_def empty_store_held empty_store_realtime op_of_def)

theorem copies_converge_witness:
  "store_ok first_copy \<and> ix_applied_term first_copy = 1
   \<and> realtime (receive plain_writer [op_of ''a'' 3 2 1 (Some ''x''), op_of ''a'' 4 3 1 None] first_copy)
     = realtime (receive plain_writer [op_of ''a'' 4 3 1 None, op_of ''a'' 3 2 1 (Some ''x''), op_of ''a'' 4 3 1 None] first_copy)"
proof -
  have "ix_applied_term first_copy = 1" using first_copy_view by (simp add: copy_view_def)
  with copies_converge [OF plain_writer_willing(1) plain_writer_willing(1) first_copy_ok first_copy_ok,
      of "[op_of ''a'' 3 2 1 (Some ''x''), op_of ''a'' 4 3 1 None]"
         "[op_of ''a'' 4 3 1 None, op_of ''a'' 3 2 1 (Some ''x''), op_of ''a'' 4 3 1 None]"] first_copy_ok
  show ?thesis by (auto simp: op_of_def)
qed

lemma sample_pending_ok: "bm_ok (ix_pending sample_store)"
  by (simp add: sample_store_eq bm_ok_def bm_keys_def)

theorem scan_pages_complete_witness:
  "\<exists>xs. scan_pages 1 sample_store every_shard 1 0 = Some xs \<and> set xs = snapshot 1 sample_store every_shard 0
     \<and> ''a'' \<in> ro_id ` set xs"
proof -
  have "''a'' \<in> ro_id ` snapshot 1 sample_store every_shard 0"
    by (rule snapshot_covers [OF _ sample_store_reads(1)]) (simp add: in_scan_def)
  with scan_pages_complete [OF sample_store_ok sample_pending_ok, of 1 every_shard 1 0] show ?thesis by auto
qed

theorem filled_copy_reads_as_primary_witness:
  "\<exists>ys. scan_pages 1 sample_store every_shard 1 0 = Some ys \<and> store_ok empty_store
     \<and> realtime (fill_page plain_writer False ys empty_store) ''a'' = Some ''one''"
  using filled_copy_reads_as_primary [OF plain_writer_willing(1) sample_store_ok sample_pending_ok empty_store_ok,
      of 1 every_shard 1 False] empty_store_ok sample_store_reads(1)
  by (auto simp: empty_store_realtime empty_store_held in_scan_def)

definition sample_copy :: copy where
  "sample_copy = \<lparr>cp_index = Some first_copy, cp_arrived = Some [], cp_resync = Some (2, [''a''])\<rparr>"

theorem parked_writes_applied_witness:
  "\<exists>c'. drain plain_writer (snd (drain plain_writer (fold (fill_do plain_writer) [Arrive [op_of ''c'' 1 2 1 (Some ''new'')], Drain] sample_copy)))
       = (Filled, c') \<and> cp_index c' = Some (receive plain_writer [op_of ''c'' 1 2 1 (Some ''new'')] first_copy)"
  using parked_writes_applied [of plain_writer sample_copy first_copy "[]" "[Arrive [op_of ''c'' 1 2 1 (Some ''new'')], Drain]"]
  by (auto simp: plain_writer_def sample_copy_def)

lemma empty_store_maps: "length (ix_pending empty_store) + length (ix_realtime empty_store) < 2 ^ 64"
  "length (ix_pending sample_store) + length (ix_realtime sample_store) < 2 ^ 64"
  by (simp_all add: empty_store_def sample_store_eq)

section \<open>The writes of a new term\<close>

text \<open>
  Two copies alike, and two writes of a newer term to two documents of which both copies hold a later version.
  Each copy takes the write that comes first and refuses the other: they differ for good, and neither reads as the
  new primary does.
\<close>

lemma new_term_copies_diverge:
  "let x = op_of ''a'' 1 2 2 (Some ''new a''); y = op_of ''b'' 1 3 2 (Some ''new b'');
       one = receive plain_writer [x, y] first_copy; two = receive plain_writer [y, x] first_copy
   in map (realtime one) [''a'', ''b''] = [Some ''new a'', Some ''old b'']
      \<and> map (realtime two) [''a'', ''b''] = [Some ''old a'', Some ''new b'']"
proof -
  have v: "copy_view (receive plain_writer xs first_copy) = fold copy_step xs (copy_view first_copy)" for xs
    using receive_view [OF plain_writer_willing(1) first_copy_ok] by blast
  have "realtime (receive plain_writer xs first_copy) = fst (fold copy_step xs (copy_view first_copy))" for xs
    unfolding v [symmetric] by (simp add: copy_view_def)
  then show ?thesis by (simp add: first_copy_view op_of_def Let_def)
qed

section \<open>A delete before the primary sends its writes\<close>

text \<open>
  A copy was filled from an index that held \<open>i\<close>.  The primary, which does not send its writes to the copy yet, deletes
  it and refreshes.  The copy asks for the pages again, as \<^verbatim>\<open>catch_up_by_scan\<close> does until the primary sends its
  writes here, and no page mentions \<open>i\<close>: the copy still reads it.
\<close>

lemma fill_page_elsewhere:
  assumes W: "willing W" and "store_ok c" and "i \<notin> ro_id ` set ys"
  shows "store_ok (fill_page W overwrite ys c) \<and> realtime (fill_page W overwrite ys c) i = realtime c i"
  using assms(2, 3)
proof (induction ys arbitrary: c)
  case (Cons y ys)
  let ?c = "snd (if overwrite then apply_recovered W y c else apply_replicated W y c)"
  let ?t = "c\<lparr>ix_applied_term := max (ix_applied_term c) (ro_term y)\<rparr>"
  have t: "store_ok ?t" using Cons.prems(1) by (simp add: applied_term_store)
  have "store_ok ?c \<and> realtime ?c i = realtime c i"
    using replicate_into_ok [OF W t, of y] apply_replicated_ok [OF W Cons.prems(1) surjective_pairing, of y] Cons.prems
    by (auto simp: apply_recovered_def apply_inner_cases [where force = True] applied_term_keeps)
  with Cons.IH [of ?c] Cons.prems(2) show ?case by (simp add: fill_page_def)
qed (simp add: fill_page_def)

lemma unrouted_delete_survives:
  assumes W: "willing W" "wr_commits W" and ok: "store_ok st" and held: "store_ok c" "realtime c i = realtime st i"
  defines "st' \<equiv> snd (refresh_everything W (snd (delete_doc W i st)))"
  shows "realtime st' i = None
    \<and> (\<exists>ys. scan_pages term st' shard page 0 = Some ys \<and> realtime (fill_page W overwrite ys c) i = realtime st i)"
proof -
  note d = delete_doc_ok [OF W(1) ok, of i]
  note r = refresh_everything_ok [OF W(1) conjunct1 [OF d], folded st'_def]
  have ok': "store_ok st'" and gone: "realtime st' i = None" using d r by auto
  have "ix_pending st' = []" using r W(2) unfolding st'_def
    by (auto simp: refresh_everything_def split: prod.splits bool.splits option.splits)
  then have p: "bm_ok (ix_pending st')" "ix_pending st' = []" by (simp_all add: bm_ok_def bm_keys_def)
  obtain ys where ys: "scan_pages term st' shard page 0 = Some ys" "set ys = snapshot term st' shard 0"
    using scan_pages_all [OF ok' p(1)] by blast
  have "i \<noteq> ro_id x" if "x \<in> set ys" for x
  proof -
    from that ys(2) p(2) have "ro_source x \<noteq> None" by (auto simp: snapshot_def scanned_op_def)
    with snapshot_reads [OF ok' p(1), of x "term" shard 0] that ys(2) gone show ?thesis by auto
  qed
  then have "i \<notin> ro_id ` set ys" by blast
  from fill_page_elsewhere [OF W(1) held(1) this, of overwrite] held(2) gone ys(1) show ?thesis by auto
qed

end
