(* ===== verification/Store_Types.thy ===== *)
theory Store_Types
  imports Replica_Properties
begin

text \<open>
  The tables of an index are well formed whatever is done to it, and its sequence numbers are below the next one to be given: the
  keys of each table are in order and none is there twice, a pending document has a number, and no document anywhere (in the index, with
  the writer, in the queue or in the pending table) has a number as high as the next.  Only that a commit applies
  operations in order is assumed of the writer: it may refuse to open, to take a document or to commit.

  The last section has the end of a resync, over the run of batches since its beginning.
\<close>

section \<open>Well-formed tables\<close>

definition tables_ok :: "idx_state \<Rightarrow> bool" where
  "tables_ok st = (bm_ok (ix_versions st) \<and> bm_ok (ix_terms st) \<and> bm_ok (ix_routing st) \<and> bm_ok (ix_pending st)
     \<and> bm_ok (ix_pending_seq st) \<and> bm_ok (ix_queued_shard st))"

definition seqs :: "idx_state \<Rightarrow> nat set" where
  "seqs st = rd_seq ` (set (ix_realtime st) \<union> {d. Add d \<in> set (waiting st)}) \<union> {s. \<exists>i. bm_get (ix_pending_seq st) i = Some s}"

definition numbered :: "idx_state \<Rightarrow> string \<Rightarrow> bool" where
  "numbered st i = (bm_has (ix_pending st) i \<longrightarrow> bm_has (ix_pending_seq st) i)"


text \<open>
  A step that adds at most the numbers \<open>X\<close>, leaves no pending document without a number but those in \<open>I\<close>, and
  never lowers the next number.
\<close>

definition keeps :: "string set \<Rightarrow> nat set \<Rightarrow> idx_state \<Rightarrow> idx_state \<Rightarrow> bool" where
  "keeps I X st st' =
     ((tables_ok st \<longrightarrow> tables_ok st') \<and> seqs st' \<subseteq> seqs st \<union> X \<and> ix_seq_no st \<le> ix_seq_no st'
      \<and> (\<forall>i. numbered st i \<longrightarrow> i \<in> I \<or> numbered st' i))"

lemma keeps_refl: "keeps I X st st"
  by (auto simp: keeps_def)

lemma keeps_trans: "keeps I X st st1 \<Longrightarrow> keeps J Y st1 st2 \<Longrightarrow> I \<union> J \<subseteq> K \<Longrightarrow> X \<union> Y \<subseteq> Z \<Longrightarrow> keeps K Z st st2"
  unfolding keeps_def by (intro conjI; (blast | (elim conjE, linarith)))

lemma keeps_seq_no: "keeps I X st st' \<Longrightarrow> ix_seq_no st \<le> ix_seq_no st'"
  by (simp add: keeps_def)


lemma keeps_numbered: "keeps I X st st' \<Longrightarrow> (\<And>i. i \<in> I \<Longrightarrow> numbered st' i) \<Longrightarrow> keeps {} X st st'"
  by (auto simp: keeps_def)


lemma seqs_mono:
  assumes "set (ix_realtime st') \<subseteq> set (ix_realtime st) \<union> {d. Add d \<in> set (waiting st)}" and "set (waiting st') \<subseteq> set (waiting st)"
    and "\<And>i s. bm_get (ix_pending_seq st') i = Some s \<Longrightarrow> bm_get (ix_pending_seq st) i = Some s"
  shows "seqs st' \<subseteq> seqs st"
  unfolding seqs_def
proof (rule Un_mono)
  show "rd_seq ` (set (ix_realtime st') \<union> {d. Add d \<in> set (waiting st')}) \<subseteq> rd_seq ` (set (ix_realtime st) \<union> {d. Add d \<in> set (waiting st)})"
    by (rule image_mono) (use assms(1, 2) in blast)
qed (use assms(3) in blast)

section \<open>Each step\<close>

lemma bm_filter_ok: "bm_ok m \<Longrightarrow> bm_ok (filter P m)"
  unfolding bm_ok_def bm_keys_def by (induction m) auto

lemma repin_ok: "bm_ok pins \<Longrightarrow> bm_ok (repin left pins)"
  unfolding repin_def
  by (induction left arbitrary: pins) (auto simp: bm_insert_ok split: pending_op.split)

lemma hand_over_parts:
  "hand_over W xs = (took, left, ok) \<Longrightarrow> set took \<subseteq> snd ` set xs \<and> set left \<subseteq> set xs"
proof (induction xs arbitrary: took left ok)
  case (Cons p xs)
  obtain t l k where h: "hand_over W xs = (t, l, k)" by (metis prod.exhaust)
  from Cons.prems Cons.IH [OF h] show ?case by (cases p) (auto simp: h Let_def split: if_splits)
qed simp

lemma apply_ops_keeps: "keeps {} {} st (snd (apply_ops W only st))"
proof -
  obtain took left ok where h: "hand_over W (filter (\<lambda>(shard, _). case only of Some one \<Rightarrow> shard = one | None \<Rightarrow> True) (ix_deferred st)) = (took, left, ok)"
    by (metis prod.exhaust)
  have w: "set took \<union> snd ` set left \<subseteq> snd ` set (ix_deferred st)" using hand_over_parts [OF h] by auto
  have p: "tables_ok st \<Longrightarrow> bm_ok (case only of Some one \<Rightarrow> filter (\<lambda>p. snd p \<noteq> one) (ix_queued_shard st) | None \<Rightarrow> [])"
    by (simp add: tables_ok_def bm_filter_ok split: option.split)
  have "set (waiting (snd (apply_ops W only st))) \<subseteq> set (waiting st)"
    using w unfolding apply_ops_def Let_def h waiting_def held_ops_def by (auto split: option.splits)
  moreover have "ix_realtime (snd (apply_ops W only st)) = ix_realtime st" "ix_pending_seq (snd (apply_ops W only st)) = ix_pending_seq st"
    unfolding apply_ops_def Let_def h by simp_all
  ultimately have "seqs (snd (apply_ops W only st)) \<subseteq> seqs st" by (intro seqs_mono) auto
  moreover have "tables_ok st \<Longrightarrow> tables_ok (snd (apply_ops W only st))"
    using p unfolding apply_ops_def Let_def h by (auto simp: tables_ok_def repin_ok)
  ultimately show ?thesis unfolding apply_ops_def Let_def h by (auto simp: keeps_def numbered_def)
qed

lemma fold_index_set: "set (fold index_op ops docs) \<subseteq> set docs \<union> {d. Add d \<in> set ops}"
proof (induction ops arbitrary: docs)
  case (Cons x ops)
  have "set (index_op x docs) \<subseteq> set docs \<union> {d. Add d = x}" by (cases x) auto
  with Cons.IH [of "index_op x docs"] show ?case by auto
qed simp

lemma commit_keeps:
  assumes W: "applies_in_order W" and c: "commit W st = Some st'"
  shows "keeps {} {} st st'" "ix_pending st' = ix_pending st" "ix_pending_seq st' = ix_pending_seq st"
proof -
  have applied: "d \<in> set docs \<or> Add d \<in> set ops" if "d \<in> set (wr_apply W ops docs)" for d ops docs
    using W that fold_index_set [of ops docs] unfolding applies_in_order_def by (metis UnE mem_Collect_eq set_mset_mset subsetD)
  have r: "set (ix_realtime st') \<subseteq> set (ix_realtime st) \<union> {d. Add d \<in> set (held_ops st)}"
    using c by (auto simp: commit_def held_ops_def split: option.splits if_splits dest: applied)
  have q: "set (waiting st') \<subseteq> set (waiting st)" "ix_pending_seq st' = ix_pending_seq st"
    using c by (auto simp: commit_def waiting_def held_ops_def split: option.splits if_splits)
  have "seqs st' \<subseteq> seqs st" by (rule seqs_mono) (use r q in \<open>auto simp: waiting_def\<close>)
  then show "keeps {} {} st st'"
    using c by (auto simp: commit_def keeps_def tables_ok_def numbered_def split: option.splits if_splits)
  show "ix_pending st' = ix_pending st" "ix_pending_seq st' = ix_pending_seq st"
    using c by (auto simp: commit_def split: option.splits if_splits)
qed

lemma queue_op_for_keeps: "keeps {} {s. \<exists>d. op = Add d \<and> s = rd_seq d} st (queue_op_for W i shard op st)"
proof -
  let ?shard = "case bm_get (ix_queued_shard st) i of Some s \<Rightarrow> s | None \<Rightarrow> shard"
  let ?st = "st\<lparr>ix_queued_shard := bm_insert i ?shard (ix_queued_shard st), ix_deferred := ix_deferred st @ [(?shard, op)]\<rparr>"
  have "keeps {} {s. \<exists>d. op = Add d \<and> s = rd_seq d} st ?st"
    by (auto simp: keeps_def tables_ok_def bm_insert_ok numbered_def seqs_def waiting_def held_ops_def)
  then have "keeps {} {s. \<exists>d. op = Add d \<and> s = rd_seq d} st (snd (apply_ops W None ?st))"
    by (rule keeps_trans [OF _ apply_ops_keeps]) simp_all
  with \<open>keeps {} _ st ?st\<close> show ?thesis by (simp add: queue_op_for_def queue_op_def Let_def)
qed

lemma cleared_keeps: "keeps {} {} st (st\<lparr>ix_pending := [], ix_pending_seq := [], ix_pending_bytes := 0\<rparr>)"
  by (auto simp: keeps_def tables_ok_def numbered_def seqs_def bm_has_get)

lemma log_write_keeps:
  assumes W: "applies_in_order W"
  shows "keeps {} {} st (log_write W st)"
proof -
  obtain ok st1 where o: "apply_ops W None st = (ok, st1)" by fastforce
  have a: "keeps {} {} st st1" using apply_ops_keeps [of st W None] o by simp
  have "keeps {} {} st st2" if "commit W st1 = Some st2" for st2
    by (rule keeps_trans [OF a commit_keeps(1) [OF W that]]) simp_all
  with a keeps_refl show ?thesis unfolding log_write_def o by (auto split: option.split bool.split)
qed

lemma noted_keeps_one:
  assumes W: "applies_in_order W"
  shows "keeps {} {sq} st (note_pending_seq i sq (note_pending W i x st))"
proof -
  let ?st = "st\<lparr>ix_pending_bytes := ix_pending_bytes st + pending_size (i, x), ix_pending := bm_insert i x (ix_pending st)\<rparr>"
  have a: "keeps {i} {} st ?st" by (auto simp: keeps_def tables_ok_def bm_insert_ok numbered_def seqs_def bm_has_get bm_insert_get)
  obtain ok st1 where o: "apply_ops W None ?st = (ok, st1)" by fastforce
  have b: "keeps {i} {} st st1" using keeps_trans [OF a apply_ops_keeps, of "{i}" "{}" W None] o by simp
  have "keeps {i} {} st (st2\<lparr>ix_pending := [], ix_pending_seq := [], ix_pending_bytes := 0\<rparr>)" if "commit W st1 = Some st2" for st2
  proof -
    have "keeps {i} {} st st2" by (rule keeps_trans [OF b commit_keeps(1) [OF W that]]) simp_all
    then show ?thesis by (rule keeps_trans [OF _ cleared_keeps]) simp_all
  qed
  with a b have m: "keeps {i} {} st (note_pending W i x st)"
    unfolding note_pending_def Let_def o by (auto split: option.split bool.split)
  have n: "keeps {} {sq} st2 (note_pending_seq i sq st2)" "numbered (note_pending_seq i sq st2) i" for st2
    by (auto simp: note_pending_seq_def keeps_def tables_ok_def bm_insert_ok numbered_def seqs_def bm_has_get bm_insert_get)
  have "keeps {i} {sq} st (note_pending_seq i sq (note_pending W i x st))" by (rule keeps_trans [OF m n(1)]) auto
  then show ?thesis by (rule keeps_numbered) (simp add: n(2))
qed

lemma noted_keeps:
  assumes W: "applies_in_order W"
  shows "keeps {} {sq} st (note_pending_seq i sq (note_pending W i x (log_write W st)))"
proof -
  have "keeps {} {sq} s (note_pending_seq i sq (note_pending W i x s))" for s by (rule noted_keeps_one [OF W])
  from keeps_trans [OF log_write_keeps [OF W] this] show ?thesis by simp
qed

lemma set_term_keeps_typed: "keeps {} {} st (set_term i t st)"
  by (auto simp: set_term_def keeps_def tables_ok_def bm_insert_ok bm_remove_ok numbered_def seqs_def waiting_def held_ops_def)

lemma bump_keeps:
  "keeps {} {} st (snd (bump i live existed st)) \<and> snd (fst (bump i live existed st)) = ix_seq_no st
   \<and> ix_seq_no (snd (bump i live existed st)) = Suc (ix_seq_no st)"
  "keeps {} {} st (snd (bump_to_seq i live v sq st)) \<and> snd (fst (bump_to_seq i live v sq st)) < ix_seq_no (snd (bump_to_seq i live v sq st))"
  "keeps {} {} st (set_replicated_version i v live n st) \<and> n < ix_seq_no (set_replicated_version i v live n st)"
  by (auto simp: bump_def bump_to_seq_def set_replicated_version_def Let_def set_version_def note_live_def keeps_def tables_ok_def
      bm_insert_ok numbered_def seqs_def waiting_def held_ops_def split: option.split)

section \<open>Each operation\<close>

text \<open>What a write and a delete queue, by the version and number they took.\<close>

lemma requeue_keeps: "keeps {} (if x = None then {} else {sq}) st (requeue W existed i shard sq x st)"
proof -
  let ?s = "if existed then queue_op_for W i shard (Delete i) st else st"
  have d: "keeps {} {} st ?s" using queue_op_for_keeps [of "Delete i" st W i shard] by (simp add: keeps_refl)
  have "keeps {} {sq} st (queue_op_for W i shard (Add \<lparr>rd_id = i, rd_seq = sq, rd_source = raw\<rparr>) ?s)" for raw
    by (rule keeps_trans [OF d queue_op_for_keeps]) auto
  with d show ?thesis by (auto simp: requeue_def Let_def split: option.split)
qed

lemma queued_keeps:
  assumes "applies_in_order W" and "keeps {} {} st st1"
  shows "keeps {} {sq} st (note_pending_seq i sq (note_pending W i x (log_write W (set_term i t (requeue W existed i shard sq x st1)))))"
    "keeps {} {sq} st (note_pending_seq i sq (note_pending W i x (log_write W (requeue W existed i shard sq x st1))))"
proof -
  have a: "keeps {} {sq} st (requeue W existed i shard sq x st1)"
    by (rule keeps_trans [OF assms(2) requeue_keeps]) auto
  then have "keeps {} {sq} st (set_term i t (requeue W existed i shard sq x st1))"
    by (rule keeps_trans [OF _ set_term_keeps_typed]) auto
  then show "keeps {} {sq} st (note_pending_seq i sq (note_pending W i x (log_write W (set_term i t (requeue W existed i shard sq x st1)))))"
    by (rule keeps_trans [OF _ noted_keeps [OF assms(1)]]) auto
  show "keeps {} {sq} st (note_pending_seq i sq (note_pending W i x (log_write W (requeue W existed i shard sq x st1))))"
    by (rule keeps_trans [OF a noted_keeps [OF assms(1)]]) auto
qed

lemma replicate_into_keeps:
  assumes W: "applies_in_order W"
  shows "keeps {} {ro_seq x} st (replicate_into W x st) \<and> ro_seq x < ix_seq_no (replicate_into W x st)"
proof -
  let ?r = "replicated_routing x st"
  let ?v = "set_replicated_version (ro_id x) (ro_version x) (ro_source x \<noteq> None) (ro_seq x) ?r"
  let ?t = "set_term (ro_id x) (if ro_source x \<noteq> None then (case ro_doc_term x of Some t \<Rightarrow> t | None \<Rightarrow> ro_term x) else 1) ?v"
  have "keeps {} {} st ?r"
    by (auto simp: replicated_routing_def keeps_def tables_ok_def bm_insert_ok bm_remove_ok numbered_def seqs_def waiting_def held_ops_def
        split: option.split)
  then have "keeps {} {} st ?v" by (rule keeps_trans [OF _ bump_keeps(3) [THEN conjunct1]]) auto
  then have a: "keeps {} {} st ?t" by (rule keeps_trans [OF _ set_term_keeps_typed]) auto
  have "ro_seq x < ix_seq_no ?t"
    by (rule less_le_trans [OF bump_keeps(3) [THEN conjunct2] keeps_seq_no [OF set_term_keeps_typed]])
  moreover have "keeps {} {ro_seq x} ?t (replicate_into W x st)"
    unfolding replicate_into_def Let_def by (rule queued_keeps(2) [OF W keeps_refl])
  ultimately have "ro_seq x < ix_seq_no (replicate_into W x st)" using keeps_seq_no less_le_trans by blast
  then show ?thesis unfolding replicate_into_def Let_def using queued_keeps(2) [OF W a] by simp
qed



lemma refresh_keeps:
  assumes W: "applies_in_order W"
  shows "keeps {} {} st (snd (refresh_everything W st))" "keeps {} {} st (snd (refresh_one_shard W shard st))"
proof -
  have c: "keeps {} {} st st2" if "apply_ops W only st = (True, st1)" "commit W st1 = Some st2" for only st1 st2
    by (rule keeps_trans [OF _ commit_keeps(1) [OF W that(2)]]) (use apply_ops_keeps [of st W only] that(1) in auto)
  have f: "keeps {} {} st st1" if "apply_ops W only st = (ok, st1)" for only ok st1
    using apply_ops_keeps [of st W only] that by simp
  have r: "keeps {} {} st2 (st2\<lparr>ix_reader := r, ix_pending := [], ix_pending_seq := [], ix_pending_bytes := 0\<rparr>)"
    "keeps {} {} st2 (st2\<lparr>ix_reader := r, ix_pending := bm_retain_keys (\<lambda>i. \<not> P i) (ix_pending st2),
       ix_pending_seq := bm_retain_keys (\<lambda>i. \<not> (bm_has (ix_pending st2) i \<and> P i)) (ix_pending_seq st2), ix_pending_bytes := n\<rparr>)" for st2 r P n
    by (auto simp: keeps_def tables_ok_def numbered_def seqs_def bm_has_get bm_retain_get bm_retain_ok split: if_splits)
  show "keeps {} {} st (snd (refresh_everything W st))"
  proof (cases "apply_ops W None st")
    case (Pair ok st1)
    have "keeps {} {} st (st2\<lparr>ix_reader := ix_realtime st2, ix_pending := [], ix_pending_seq := [], ix_pending_bytes := 0\<rparr>)"
      if "ok" "commit W st1 = Some st2" for st2
      by (rule keeps_trans [OF c r(1)]) (use Pair that in auto)
    with f [OF Pair] show ?thesis by (cases ok) (auto simp: refresh_everything_def Pair split: option.split)
  qed
  show "keeps {} {} st (snd (refresh_one_shard W shard st))"
  proof (cases "apply_ops W (Some shard) st")
    case (Pair ok st1)
    have "keeps {} {} st (st2\<lparr>ix_reader := ix_realtime st2, ix_pending := bm_retain_keys (\<lambda>i. \<not> P i) (ix_pending st2),
        ix_pending_seq := bm_retain_keys (\<lambda>i. \<not> (bm_has (ix_pending st2) i \<and> P i)) (ix_pending_seq st2), ix_pending_bytes := n\<rparr>)"
      if "ok" "commit W st1 = Some st2" for st2 P n
      by (rule keeps_trans [OF c r(2)]) (use Pair that in auto)
    with f [OF Pair] show ?thesis by (cases ok) (auto simp: refresh_one_shard_def Pair Let_def split: option.split)
  qed
qed


section \<open>The end of a resync\<close>

text \<open>A resync as a copy lives it: its beginning and the batches that arrive, each with what it asks of a refresh.\<close>

definition resynced_copy :: "writer \<Rightarrow> nat \<Rightarrow> (replica_op list \<times> string) list \<Rightarrow> copy \<Rightarrow> copy" where
  "resynced_copy W term batches c = fold (\<lambda>(xs, refresh) c. snd (take_write W xs refresh c)) batches (snd (resync_begin term c))"

text \<open>The batches carry a write of the id in the resync's term or a later one.\<close>

definition touched :: "nat \<Rightarrow> (replica_op list \<times> string) list \<Rightarrow> string \<Rightarrow> bool" where
  "touched term batches i = (\<exists>(xs, refresh) \<in> set batches. \<exists>x \<in> set xs. ro_id x = i \<and> term \<le> ro_term x)"

lemma apply_batch_typed:
  assumes W: "willing W" and ok: "store_ok st" "tables_ok st"
  shows "store_ok (snd (apply_batch W xs st)) \<and> tables_ok (snd (apply_batch W xs st))"
proof -
  have a: "tables_ok (snd (apply_replicated W x s))" if "tables_ok s" for x s
  proof -
    have k: "tables_ok (replicate_into W x s')" if "tables_ok s'" for s'
      using replicate_into_keeps [of W x s'] W that by (simp add: willing_def keeps_def)
    have "tables_ok (s\<lparr>ix_applied_term := n\<rparr>)" for n using that by (simp add: tables_ok_def)
    with k that show ?thesis by (simp add: apply_replicated_def apply_inner_cases)
  qed
  have "store_ok (receive W xs st) \<and> tables_ok (receive W xs st)" using ok
  proof (induction xs arbitrary: st)
    case (Cons x xs)
    have "store_ok (snd (apply_replicated W x st))" using apply_replicated_ok [OF W Cons.prems(1)] by (metis prod.collapse)
    with Cons.IH a Cons.prems show ?case by (simp add: receive_def)
  qed (simp add: receive_def)
  then show ?thesis by (simp add: apply_batch_receive)
qed

lemma seen_fold:
  "set (fold (\<lambda>x seen. List.insert (ro_id x) seen) xs seen) = set seen \<union> ro_id ` set xs"
  by (induction xs arbitrary: seen) auto

lemma take_write_resync:
  assumes W: "willing W" "wr_syncs W" and c: "cp_index c = Some st" "cp_arrived c = None" "cp_resync c = Some (term, seen)"
    and ok: "store_ok st" "tables_ok st"
  shows "\<exists>st' seen'. snd (take_write W xs refresh c) = c\<lparr>cp_index := Some st', cp_resync := Some (term, seen')\<rparr>
    \<and> store_ok st' \<and> tables_ok st' \<and> set seen' = set seen \<union> {ro_id x | x. x \<in> set xs \<and> term \<le> ro_term x}"
proof -
  let ?st = "snd (apply_batch W xs st)" and ?seen = "fold (\<lambda>x seen. List.insert (ro_id x) seen) (filter (\<lambda>x. ro_term x \<ge> term) xs) seen"
  note a = apply_batch_typed [OF W(1) ok, of xs]
  have "tables_ok (snd (refresh_everything W ?st))"
    using refresh_keeps(1) [of W ?st] W(1) a by (simp add: willing_def keeps_def)
  moreover have "store_ok (snd (refresh_everything W ?st))" using refresh_everything_ok [OF W(1), of ?st] a by blast
  moreover have "snd (take_write W xs refresh c) = c\<lparr>cp_index := Some (if refresh = ''true'' \<or> refresh = ''wait_for''
      then snd (refresh_everything W ?st) else ?st), cp_resync := Some (term, ?seen)\<rparr>"
    using c W(2) by (simp add: take_write_def seen_by_resync_def park_def Let_def case_prod_beta)
  moreover have "set ?seen = set seen \<union> {ro_id x | x. x \<in> set xs \<and> term \<le> ro_term x}" by (auto simp: seen_fold)
  ultimately show ?thesis using a
    by (intro exI [of _ "if refresh = ''true'' \<or> refresh = ''wait_for'' then snd (refresh_everything W ?st) else ?st"] exI [of _ ?seen])
      simp
qed

lemma resynced_copy_seen:
  assumes W: "willing W" "wr_syncs W" and c: "cp_index c = Some st" "cp_arrived c = None" and ok: "store_ok st" "tables_ok st"
  shows "\<exists>st' seen. resynced_copy W term batches c = c\<lparr>cp_index := Some st', cp_resync := Some (term, seen)\<rparr>
    \<and> store_ok st' \<and> tables_ok st' \<and> (\<forall>i. i \<in> set seen \<longleftrightarrow> touched term batches i)"
proof (induction batches rule: rev_induct)
  case Nil
  from c ok show ?case
    by (auto simp: resynced_copy_def resync_begin_def filling_def touched_def intro!: exI [of _ st] exI [of _ "[]"])
next
  case (snoc b batches)
  then obtain st1 seen where r: "resynced_copy W term batches c = c\<lparr>cp_index := Some st1, cp_resync := Some (term, seen)\<rparr>"
    "store_ok st1" "tables_ok st1" "\<forall>i. i \<in> set seen \<longleftrightarrow> touched term batches i" by blast
  have "resynced_copy W term (batches @ [b]) c = snd (take_write W (fst b) (snd b) (resynced_copy W term batches c))"
    by (simp add: resynced_copy_def case_prod_beta)
  moreover from take_write_resync [OF W _ _ _ r(2, 3), of "c\<lparr>cp_index := Some st1, cp_resync := Some (term, seen)\<rparr>" "term" seen "fst b" "snd b"] c
  obtain st2 seen2 where t: "snd (take_write W (fst b) (snd b) (resynced_copy W term batches c)) = c\<lparr>cp_index := Some st2, cp_resync := Some (term, seen2)\<rparr>"
    "store_ok st2" "tables_ok st2" "set seen2 = set seen \<union> {ro_id x | x. x \<in> set (fst b) \<and> term \<le> ro_term x}"
    unfolding r(1) by auto
  moreover have "\<forall>i. i \<in> set seen2 \<longleftrightarrow> touched term (batches @ [b]) i"
    unfolding t(4) using r(4) by (auto simp: touched_def case_prod_beta)
  ultimately show ?case by (intro exI [of _ st2] exI [of _ seen2]) simp
qed

text \<open>
  \<^bold>\<open>C19.\<close>  A resync of a copy that is not being filled, from its beginning through whatever batches arrive to its end: the end drops from the copy
  every document that no write of the resync's term or a later one named since the beginning, and nothing else.  An id such a
  write named reads as it did before the end, any other reads as absent.
\<close>

theorem resync_end_trims:
  assumes W: "willing W" "wr_syncs W" and c: "cp_index c = Some st" "cp_arrived c = None" and ok: "store_ok st" "tables_ok st"
    and r: "cp_index (resynced_copy W term batches c) = Some st1" and few: "length (ix_pending st1) + length (ix_realtime st1) < 2 ^ 64"
  shows "\<exists>n st'. resync_end W known_term term (resynced_copy W term batches c) = (Trimmed n, c\<lparr>cp_resync := None, cp_index := Some st'\<rparr>)
    \<and> store_ok st' \<and> realtime st' = (\<lambda>i. if touched term batches i then realtime st1 i else None)"
proof -
  from resynced_copy_seen [OF W c ok, of "term" batches] r obtain seen where
    e: "resynced_copy W term batches c = c\<lparr>cp_index := Some st1, cp_resync := Some (term, seen)\<rparr>"
    and st1: "store_ok st1" "tables_ok st1" and seen: "\<forall>i. i \<in> set seen \<longleftrightarrow> touched term batches i" by auto
  from st1(2) have "bm_ok (ix_pending st1)" by (simp add: tables_ok_def)
  from resync_end_keeps_seen [OF W st1(1) this few, of "resynced_copy W term batches c" "term" seen known_term] e seen
  show ?thesis by auto
qed

end
