(* ===== verification/Replication_Examples.thy ===== *)
theory Replication_Examples
  imports Replication_Properties Replica_Examples Store_Types Samples
begin

text \<open>The theorems on replication at a cluster of three nodes, one of which does not answer.\<close>

definition books_copy :: "bool \<Rightarrow> node_id \<Rightarrow> string \<Rightarrow> shard_routing" where
  "books_copy primary node aid =
     \<lparr>sr_index = ''books'', sr_shard = 0, sr_primary = primary, sr_state = Started, sr_node = Some node,
      sr_relocating_node = None, sr_allocation_id = Some aid, sr_unassigned = None\<rparr>"

definition books_state :: cluster_state where
  "books_state = (cs_empty ''c'' ''u'' ''s'')
     \<lparr>cs_cluster_manager := Some ''m'',
      cs_nodes := sample_nodes [''n1'', ''n2'', ''n3''],
      cs_indices := [(''books'', sample_index ''books'' 1 2 [(0, [''a1'', ''a2'', ''a3''])])],
      cs_routing := [(''books'', [(0, [books_copy True ''n1'' ''a1'', books_copy False ''n2'' ''a2'', books_copy False ''n3'' ''a3''])])]\<rparr>"






definition no_reports :: reports where
  "no_reports = \<lparr>rs_sent = [], rs_pending = []\<rparr>"

definition stale_a3 :: shard_report where
  "stale_a3 =
     \<lparr>rp_action = SHARD_STALE, rp_index = ''books'', rp_shard = 0, rp_allocation_id = ''a3'', rp_node = None, rp_message = None\<rparr>"

definition failed_a3 :: shard_report where
  "failed_a3 =
     \<lparr>rp_action = SHARD_FAILED, rp_index = ''books'', rp_shard = 0, rp_allocation_id = ''a3'', rp_node = None,
      rp_message = Some ''replication to [n3] failed: no answer from the node''\<rparr>"




theorem replica_takes_from_primary_only_witness:
  "not_from_the_primary books_state ''books'' ''n2'' [op_of ''a'' 1 0 1 (Some ''one'')] = Some ''stale primary term''
   \<and> replica_write plain_writer books_state
        \<lparr>wq_index = ''books'', wq_from = ''n2'', wq_refresh = [], wq_ops = [op_of ''a'' 1 0 1 (Some ''one'')], wq_resync = NoResync\<rparr> sample_copy
      = (WriteError ''stale primary term'', sample_copy)
   \<and> not_from_the_primary books_state ''books'' ''n1'' [op_of ''a'' 1 0 1 (Some ''one'')] = None"
proof -
  have n: "not_from_the_primary books_state ''books'' ''n2'' [op_of ''a'' 1 0 1 (Some ''one'')] = Some ''stale primary term''" by code_simp
  moreover have "not_from_the_primary books_state ''books'' ''n1'' [op_of ''a'' 1 0 1 (Some ''one'')] = None" by code_simp
  ultimately show ?thesis
    using replica_takes_from_primary_only [where s = books_state and W = plain_writer and c = sample_copy and q =
        "\<lparr>wq_index = ''books'', wq_from = ''n2'', wq_refresh = [], wq_ops = [op_of ''a'' 1 0 1 (Some ''one'')], wq_resync = NoResync\<rparr>"] by simp
qed

text \<open>
  The manager has put shard 0 of the index into term 3, and a node that became its primary in term 2 still sends its resync: a write
  of that term that names the shard is refused, the page of the resync is not.
\<close>

definition moved_on :: cluster_state where
  "moved_on = books_state\<lparr>cs_indices := [(''books'', (sample_index ''books'' 1 2 [(0, [''a1''])])\<lparr>im_primary_terms := [(0, 3)]\<rparr>)]\<rparr>"

theorem resync_pages_unjudged_witness:
  "''a'' \<in> ro_id ` set (fst (scan_replicated 1 sample_store every_shard 0 2000))
   \<and> not_from_the_primary moved_on ''books'' ''n3''
        (map (\<lambda>x. x\<lparr>ro_term := 2\<rparr>) (fst (scan_replicated 1 sample_store every_shard 0 2000))) = None
   \<and> not_from_the_primary moved_on ''books'' ''n3'' [op_of ''a'' 1 0 2 (Some ''one'')] \<noteq> None"
proof -
  have "bm_get (cs_indices moved_on) ''books'' = Some ((sample_index ''books'' 1 2 [(0, [''a1''])])\<lparr>im_primary_terms := [(0, 3)]\<rparr>)"
    by code_simp
  then have m: "\<forall>m. bm_get (cs_indices moved_on) ''books'' = Some m \<longrightarrow> bm_get (im_primary_terms m) every_shard = None"
    by (simp add: bm_get_def every_shard_def)
  have "not_from_the_primary moved_on ''books'' ''n3'' [op_of ''a'' 1 0 2 (Some ''one'')] \<noteq> None" by code_simp
  moreover have "''a'' \<in> ro_id ` set (fst (scan_replicated 1 sample_store every_shard 0 2000))"
    unfolding sample_store_eq
    by (simp add: scan_replicated_def scan_pending_def scan_picked_def scan_reader_def scan_cut_def in_scan_def pending_seq_of_def
        scanned_op_def empty_store_def bm_get_def bm_values_def bm_keys_def Let_def)
  ultimately show ?thesis using resync_pages_unjudged [OF m, of 2 "''n3''" 1 sample_store 0 2000] by simp
qed

theorem reports_are_delivered_witness:
  "still_matters books_state ''n1'' stale_a3
   \<and> rs_pending (fold (retry_pass (\<lambda>n _. 2 \<le> n) (Some ''n1'')) [books_state, books_state, books_state] \<lparr>rs_sent = [], rs_pending = [stale_a3]\<rparr>) = []
   \<and> (stale_a3, True) \<in> set (rs_sent (fold (retry_pass (\<lambda>n _. 2 \<le> n) (Some ''n1'')) [books_state, books_state, books_state]
        \<lparr>rs_sent = [], rs_pending = [stale_a3]\<rparr>))"
proof -
  have m: "\<forall>s \<in> set [books_state, books_state, books_state]. cs_cluster_manager s \<noteq> None" by (simp add: books_state_def)
  have s: "still_matters books_state ''n1'' stale_a3" by code_simp
  from reports_are_delivered [OF m, of "\<lparr>rs_sent = [], rs_pending = [stale_a3]\<rparr>" "\<lambda>n _. 2 \<le> n" "''n1''" 2] s show ?thesis
    by (auto simp del: fold_simps)
qed

theorem resync_reaches_or_reports_witness:
  "\<exists>y ended why.
     resync (\<lambda>_ n _. if n = ''n3'' then Some ''no answer'' else None) (\<lambda>_ _. True) 1 (\<lambda>_. Some sample_store) books_state ''books'' 0 2
       [''n2'', ''n3''] no_reports = Some (y, ended, False)
     \<and> ''n2'' \<in> set ended \<and> ''a'' \<in> ro_id ` set (concat (sent_to y ''n2''))
     \<and> ''n3'' \<notin> set ended \<and> looked_after (ry_reports y) (failed_a3\<lparr>rp_message := Some why\<rparr>)"
proof -
  let ?refuses = "\<lambda>(_ :: nat) n (_ :: replica_op list). if n = ''n3'' then Some ''no answer'' else None"
  let ?run = "resync ?refuses (\<lambda>_ _. True) 1 (\<lambda>_. Some sample_store) books_state ''books'' 0 2 [''n2'', ''n3''] no_reports"
  have a: "''a'' \<in> ro_id ` (\<lambda>x. x\<lparr>ro_term := 2\<rparr>) ` snapshot 1 sample_store every_shard 0"
    using snapshot_covers [OF _ sample_store_reads(1), of every_shard 1] by (simp add: in_scan_def image_image)
  have d: "distinct [''n2'', ''n3'']" "''n2'' \<in> set [''n2'', ''n3'']" "''n3'' \<in> set [''n2'', ''n3'']" "cs_cluster_manager books_state \<noteq> None"
    by (simp_all add: books_state_def)
  note t = resync_reaches_or_reports [OF sample_store_ok sample_pending_ok d(1) _ d(4)]
  from t [OF d(2), of ?refuses "\<lambda>_ _. True" 1 "''books''" 0 2 no_reports] obtain sent y ended reached where
    q: "?run = Some (y, ended, reached)" "set (concat sent) = (\<lambda>x. x\<lparr>ro_term := 2\<rparr>) ` snapshot 1 sample_store every_shard 0"
    "''n2'' \<in> set ended \<longleftrightarrow> (\<forall>i < length sent. ?refuses i ''n2'' (sent ! i) = None)"
    "if ''n2'' \<in> set ended then sent_to y ''n2'' = sent
     else \<exists>why. \<forall>r \<in> set (copy_reports books_state ''books'' 0 ''n2'' why). looked_after (ry_reports y) r" by blast
  from q(3) have e: "''n2'' \<in> set ended" by simp
  with q(4) have "sent_to y ''n2'' = sent" by simp
  with a q(2) have "''a'' \<in> ro_id ` set (concat (sent_to y ''n2''))" by simp
  note n2 = q(1) e this
  from t [OF d(3), of ?refuses "\<lambda>_ _. True" 1 "''books''" 0 2 no_reports] obtain pages y' ended' reached' where
    r: "?run = Some (y', ended', reached')" and p: "set (concat pages) = (\<lambda>x. x\<lparr>ro_term := 2\<rparr>) ` snapshot 1 sample_store every_shard 0"
    "''n3'' \<in> set ended' \<longleftrightarrow> (\<forall>i < length pages. ?refuses i ''n3'' (pages ! i) = None)"
    "if ''n3'' \<in> set ended' then sent_to y' ''n3'' = pages
     else \<exists>why. \<forall>r \<in> set (copy_reports books_state ''books'' 0 ''n3'' why). looked_after (ry_reports y') r"
    "reached' \<longleftrightarrow> set [''n2'', ''n3''] \<subseteq> set ended'" by blast
  from r n2(1) have same: "y' = y" "ended' = ended" "reached' = reached" by simp_all
  note p = p [unfolded same]
  have "pages \<noteq> []" using p(1) a by auto
  with p(2) have n3: "''n3'' \<notin> set ended" by auto
  have "copy_reports books_state ''books'' 0 ''n3'' why = [failed_a3\<lparr>rp_message := Some why\<rparr>]" for why
    by (simp add: copy_reports_def books_state_def books_copy_def failed_a3_def rt_shards_of_def bm_get_def List.map_filter_def bm_values_def)
  with p(3) n3 obtain why where "looked_after (ry_reports y) (failed_a3\<lparr>rp_message := Some why\<rparr>)" by auto
  moreover from p(4) n3 have "\<not> reached" by simp
  ultimately show ?thesis using n2 n3 by auto
qed

theorem copies_follow_primary_witness:
  "let h = history plain_writer 1 [Write None 1 ''a'' ''new'' (Some 9) False, RemoveRequest ''b'' None False, Refresh] first_copy
   in realtime (receive plain_writer (rev h @ h) first_copy) ''a'' = Some ''new''
      \<and> realtime (receive plain_writer (rev h @ h) first_copy) ''b'' = None"
proof -
  let ?ops = "[Write None 1 ''a'' ''new'' (Some 9) False, RemoveRequest ''b'' None False, Refresh]"
  let ?h = "history plain_writer 1 ?ops first_copy"
  have t: "ix_applied_term first_copy = 1" and v: "held_version first_copy ''a'' = Some 2" using first_copy_view by (simp_all add: copy_view_def)
  have "\<forall>y \<in> set ?h. ro_term y = 1"
    by (simp add: put_record_def delete_record_def case_prod_beta split: option.split)
  with t have k: "\<forall>y \<in> set (rev ?h @ ?h). ro_term y \<le> ix_applied_term first_copy" by simp
  have run: "throughout (\<lambda>x s. refreshes_at_home plain_writer x s \<and> version_rises x s) plain_writer ?ops first_copy"
    "throughout (refreshes_at_home plain_writer) plain_writer ?ops first_copy"
    using v by (simp_all add: rank_def)
  have "realtime (fold (store_do plain_writer) ?ops first_copy) = fold map_do ?ops (realtime first_copy)"
    by (rule run_reads [OF plain_writer_willing(1) first_copy_ok run(2), THEN conjunct2])
  then show ?thesis
    using copies_follow_primary [OF plain_writer_willing(1) plain_writer_willing(1) first_copy_ok first_copy_ok run(1) refl _ _ k, where t = 1]
    by (simp add: Let_def del: history.simps fold_simps)
qed

lemma resynced_size:
  defines "st \<equiv> receive plain_writer [op_of ''b'' 1 1 2 (Some ''two'')] sample_store"
  shows "length (ix_pending st) + length (ix_realtime st) = 2" "realtime st ''b'' = Some ''two''"
  unfolding st_def sample_store_eq
  by (simp_all add: receive_def apply_replicated_def apply_replicated_inner_def op_of_def held_version_def lookup_id_def replicated_routing_def
      set_replicated_version_def write_simps realtime_def)

theorem resync_end_trims_witness:
  "\<exists>n st'. resync_end plain_writer 1 2 (resynced_copy plain_writer 2 [([op_of ''b'' 1 1 2 (Some ''two'')], [])]
         \<lparr>cp_index = Some sample_store, cp_arrived = None, cp_resync = None\<rparr>)
       = (Trimmed n, \<lparr>cp_index = Some st', cp_arrived = None, cp_resync = None\<rparr>)
     \<and> realtime sample_store ''a'' = Some ''one'' \<and> realtime st' ''a'' = None \<and> realtime st' ''b'' = Some ''two''"
proof -
  let ?c = "\<lparr>cp_index = Some sample_store, cp_arrived = None, cp_resync = None\<rparr>" and ?b = "[([op_of ''b'' 1 1 2 (Some ''two'')], [] :: string)]"
  let ?st = "receive plain_writer [op_of ''b'' 1 1 2 (Some ''two'')] sample_store"
  have w: "wr_syncs plain_writer" by (simp add: plain_writer_def)
  have t: "tables_ok sample_store" by (simp add: tables_ok_def sample_store_eq empty_store_def bm_ok_def bm_keys_def)
  have e: "cp_index (resynced_copy plain_writer 2 ?b ?c) = Some ?st"
    using w by (simp add: resynced_copy_def resync_begin_def filling_def take_write_def seen_by_resync_def park_def Let_def case_prod_beta apply_batch_receive)
  have few: "length (ix_pending ?st) + length (ix_realtime ?st) < 2 ^ 64" unfolding resynced_size by simp
  have "touched 2 ?b ''b''" "\<not> touched 2 ?b ''a''" by (simp_all add: touched_def op_of_def)
  with resync_end_trims [OF plain_writer_willing(1) w _ _ sample_store_ok t e few, of 1] resynced_size(2) sample_store_reads(1)
  show ?thesis by auto
qed



section \<open>The report on a copy that missed a resync\<close>

text \<open>
  While no manager is known the report on a copy that missed the resync is lost: no call is made, nothing waits, and the copy keeps
  its place in the in-sync set.
\<close>

lemma unmanaged_miss_is_lost:
  "resync_all (\<lambda>_ _ _. Some ''no answer'') (\<lambda>_ _. True) (books_state\<lparr>cs_cluster_manager := None\<rparr>) ''books'' 0 2 [''n2'']
     [[op_of ''a'' 1 0 1 (Some ''one'')]] no_reports
   = \<lparr>ry_missed = [''n2''], ry_sent = [], ry_reports = no_reports\<rparr>"
  by (simp add: resync_all_def resync_page_def resync_to_def resync_miss_forgotten)

section \<open>Reports of a node that is no longer the primary\<close>

text \<open>
  A node that wrote as a primary it is not reports every copy the write reached.  Reports on copies it knows no allocation id of
  are all under one key, so of two that could not be delivered one is kept.
\<close>

lemma nameless_reports_collapse:
  "map rp_node (rs_pending (fail_copies_written (\<lambda>_ _. False) (Some ''n1'') (books_state\<lparr>cs_routing := []\<rparr>) ''books'' 0 ''no longer the primary'' [''n2''] no_reports))
   = [Some ''n1'']"
  by code_simp

text \<open>And a report kept is dropped by the first round of the retry loop, unsent, since the node is not the primary.\<close>

definition demoted :: cluster_state where
  "demoted = books_state\<lparr>cs_routing := [(''books'', [(0, [books_copy False ''n1'' ''a1'', books_copy True ''n2'' ''a2''])])]\<rparr>"

lemma demoted_report_dropped:
  "let y = fail_copies_written (\<lambda>_ _. False) (Some ''n1'') demoted ''books'' 0 ''no longer the primary'' [] no_reports
   in map rp_allocation_id (rs_pending y) = [''a1''] \<and> map snd (rs_sent y) = [False]
      \<and> rs_pending (retry_pass (\<lambda>_ _. True) (Some ''n1'') demoted y) = []
      \<and> rs_sent (retry_pass (\<lambda>_ _. True) (Some ''n1'') demoted y) = rs_sent y"
  by code_simp

section \<open>Versions a copy does not follow\<close>

text \<open>
  A version the check lets through need not be above the one held: \<^verbatim>\<open>external_gte\<close> allows the version that stands, and of a deleted document
  no version is looked at.  The write is recorded with that version, and a copy that holds it, or a later one, refuses it.
\<close>

lemma version_check_lets_through:
  "version_check st i (Some (version_of st i, External_gte)) = Some (Some (version_of st i))"
  "\<not> is_live st i \<Longrightarrow> version_check st i (Some (v, External)) = Some (Some v)"
  by (simp_all add: version_check_def Let_def)

lemma low_version_not_followed:
  assumes "willing W" and "store_ok st" and "held_version c i = Some h" and "v \<le> h" and "t \<le> ix_applied_term c"
  shows "realtime (store_do W (Write routed t i raw (Some v) False) st) i = Some raw
    \<and> receive W' (recorded W t' (Write routed t i raw (Some v) False) st) c = c"
proof -
  let ?x = "put_record W t i raw (Some v) None (set_routing i routed st)"
  have "ro_id ?x = i" "ro_version ?x = v" "ro_term ?x = t"
    by (simp_all add: put_record_def put_doc_def bump_to_seq_def Let_def case_prod_beta)
  then have "\<not> wins ?x c" using assms(3-5) by (simp add: wins_def)
  then have "receive W' [?x] c = c" by (simp add: receive_def apply_replicated_def apply_inner_cases)
  moreover have "realtime (store_do W (Write routed t i raw (Some v) False) st) i = Some raw"
    using store_do_ok [OF assms(1, 2), of "Write routed t i raw (Some v) False"] by simp
  ultimately show ?thesis by simp
qed

text \<open>
  A delete that names an external version is carried out here and recorded for nobody; what waits of it in the pending table has no number,
  so a scan gives it the last but one there is.
\<close>

lemma forced_delete_not_recorded:
  assumes "willing W" and "store_ok st"
  shows "realtime (store_do W (RemoveRequest i (Some v) False) st) i = None \<and> recorded W t (RemoveRequest i (Some v) False) st = []"
  using store_do_ok [OF assms, of "RemoveRequest i (Some v) False"] by simp

lemma forced_delete_unnumbered:
  "let st = snd (delete_forced plain_writer ''a'' 5 (snd (refresh_everything plain_writer sample_store)))
   in bm_get (ix_pending st) ''a'' = Some None \<and> pending_seq_of st ''a'' = 2 ^ 64 - 2 \<and> ix_seq_no st = 2"
  unfolding sample_store_eq
  by (simp add: write_simps refresh_simps delete_forced_def bump_to_def lookup_id_def pending_seq_of_def)

end
