(* ===== verification/Positions.thy ===== *)
theory Positions
  imports Prelude "HOL-Library.Multiset"
begin

text \<open>
  What the positional queries share (\<^verbatim>\<open>src/src/query/positions.rs\<close>): the merging of sorted lists of documents, and the
  binary heap, with the moves of its source, since entries that compare equal come out in an order that depends on them.
\<close>

section \<open>Lists of documents\<close>

fun intersect :: "nat list \<Rightarrow> nat list \<Rightarrow> nat list" where
  "intersect (a # as) (b # bs) =
     (if a < b then intersect as (b # bs)
      else if b < a then intersect (a # as) bs
      else a # intersect as bs)"
| "intersect _ _ = []"

fun union_docs :: "nat list \<Rightarrow> nat list \<Rightarrow> nat list" where
  "union_docs [] [] = []"
| "union_docs (a # as) [] = a # union_docs as []"
| "union_docs [] (b # bs) = b # union_docs [] bs"
| "union_docs (a # as) (b # bs) =
     (if a < b then a # union_docs as (b # bs)
      else if b < a then b # union_docs (a # as) bs
      else a # union_docs as bs)"

lemma union_docs_set: "set (union_docs as bs) = set as \<union> set bs"
  by (induction as bs rule: union_docs.induct) auto

lemma union_docs_sorted: "sorted_wrt (<) as \<Longrightarrow> sorted_wrt (<) bs \<Longrightarrow> sorted_wrt (<) (union_docs as bs)"
  by (induction as bs rule: union_docs.induct) (auto simp: union_docs_set)

lemma intersect_subset: "set (intersect as bs) \<subseteq> set as \<inter> set bs"
  by (induction as bs rule: intersect.induct) auto

lemma intersect_set: "sorted_wrt (<) as \<Longrightarrow> sorted_wrt (<) bs \<Longrightarrow> set (intersect as bs) = set as \<inter> set bs"
  by (induction as bs rule: intersect.induct) force+

lemma intersect_sorted: "sorted_wrt (<) as \<Longrightarrow> sorted_wrt (<) bs \<Longrightarrow> sorted_wrt (<) (intersect as bs)"
proof (induction as bs rule: intersect.induct)
  case (1 a as b bs)
  with intersect_subset [of as bs] show ?case by fastforce
qed simp_all

section \<open>The heap\<close>

text \<open>
  A heap is a list whose first slot is not used; \<open>le\<close> is what the source calls \<^verbatim>\<open>less\<close>.  The loop that moves an entry down is only
  ever begun at slot 1.
\<close>

definition lheap_new :: "nat list" where
  "lheap_new = [2 ^ 64 - 1]"

definition lheap_clear :: "nat list \<Rightarrow> nat list" where
  "lheap_clear h = take 1 h"

definition lheap_len :: "nat list \<Rightarrow> nat" where
  "lheap_len h = length h - 1"

definition lheap_top :: "nat list \<Rightarrow> nat option" where
  "lheap_top h = (if 1 < length h then Some (h ! 1) else None)"

function sift_up :: "(nat \<Rightarrow> nat \<Rightarrow> bool) \<Rightarrow> nat \<Rightarrow> nat \<Rightarrow> nat list \<Rightarrow> nat list" where
  "sift_up le node i h =
     (let j = i div 2
      in if j > 0 \<and> le node (h ! j) then sift_up le node j (h[i := h ! j]) else h[i := node])"
  by pat_completeness auto
termination by (relation "measure (\<lambda>(le, node, i, h). i)") auto

definition lheap_add :: "(nat \<Rightarrow> nat \<Rightarrow> bool) \<Rightarrow> nat \<Rightarrow> nat list \<Rightarrow> nat list" where
  "lheap_add le item h =
     (let h = h @ [item]; i = lheap_len h
      in sift_up le (h ! i) i h)"

function sift_down :: "(nat \<Rightarrow> nat \<Rightarrow> bool) \<Rightarrow> nat \<Rightarrow> nat \<Rightarrow> nat list \<Rightarrow> nat list" where
  "sift_down le node i h =
     (let j = 2 * i; k = j + 1;
          j = (if k \<le> lheap_len h \<and> le (h ! k) (h ! j) then k else j)
      in if 0 < i \<and> j \<le> lheap_len h \<and> le (h ! j) node then sift_down le node j (h[i := h ! j]) else h[i := node])"
  by pat_completeness auto
termination
  by (relation "measure (\<lambda>(le, node, i, h). length h - i)") (auto simp: lheap_len_def Let_def split: if_splits)

definition lheap_down :: "(nat \<Rightarrow> nat \<Rightarrow> bool) \<Rightarrow> nat \<Rightarrow> nat list \<Rightarrow> nat list" where
  "lheap_down le at h = (if lheap_len h = 0 then h else sift_down le (h ! at) at h)"

definition lheap_update_top :: "(nat \<Rightarrow> nat \<Rightarrow> bool) \<Rightarrow> nat list \<Rightarrow> nat option \<times> nat list" where
  "lheap_update_top le h = (let h = lheap_down le 1 h in (lheap_top h, h))"

definition lheap_pop :: "(nat \<Rightarrow> nat \<Rightarrow> bool) \<Rightarrow> nat list \<Rightarrow> nat option \<times> nat list" where
  "lheap_pop le h =
     (let size = lheap_len h
      in if size = 0 then (None, h)
         else (let result = h ! 1;
                   h = butlast (h[1 := h ! size])
               in (Some result, if lheap_len h > 0 then lheap_down le 1 h else h)))"

declare sift_up.simps [simp del] sift_down.simps [simp del]

section \<open>What the heap keeps\<close>

text \<open>
  A heap ordered but for one slot, where \<open>node\<close> is to go: what stands above and below the slot is in order across it.
\<close>

definition ordered_but :: "(nat \<Rightarrow> nat \<Rightarrow> bool) \<Rightarrow> nat \<Rightarrow> nat list \<Rightarrow> bool" where
  "ordered_but le i h =
     (\<forall>m. 2 \<le> m \<longrightarrow> m < length h \<longrightarrow>
        (if m div 2 = i then i div 2 = 0 \<or> le (h ! (i div 2)) (h ! m) else m = i \<or> le (h ! (m div 2)) (h ! m)))"

definition heap_ok :: "(nat \<Rightarrow> nat \<Rightarrow> bool) \<Rightarrow> nat list \<Rightarrow> bool" where
  "heap_ok le h = (h \<noteq> [] \<and> (\<forall>m. 2 \<le> m \<longrightarrow> m < length h \<longrightarrow> le (h ! (m div 2)) (h ! m)))"

lemma move_mset: "i < length h \<Longrightarrow> j < length h \<Longrightarrow> i \<noteq> j \<Longrightarrow> mset (h[i := h ! j, j := node]) = mset (h[i := node])"
  using mset_swap [of i "h[i := node]" j] by (simp add: list_update_swap [of i j])

locale heap_order =
  fixes le :: "nat \<Rightarrow> nat \<Rightarrow> bool"
  assumes total: "le x y \<or> le y x" and trans: "le x y \<Longrightarrow> le y z \<Longrightarrow> le x z"
begin

lemma sift_up_ok:
  assumes "0 < i" "i < length h" "ordered_but le i h" "\<forall>m. 2 \<le> m \<longrightarrow> m < length h \<longrightarrow> m div 2 = i \<longrightarrow> le node (h ! m)"
  shows "heap_ok le (sift_up le node i h) \<and> mset (sift_up le node i h) = mset (h[i := node])
    \<and> sift_up le node i h ! 0 = h ! 0"
  using assms
proof (induction i arbitrary: h rule: less_induct)
  case (less i)
  let ?j = "i div 2"
  note o = less.prems(3) [unfolded ordered_but_def, rule_format]
  show ?case
  proof (cases "0 < ?j \<and> le node (h ! ?j)")
    case False
    have "le (h[i := node] ! (m div 2)) (h[i := node] ! m)" if m: "2 \<le> m" "m < length h" for m
    proof (cases "m = i")
      case True
      with False m total [of node "h ! ?j"] show ?thesis using less.prems(2) by auto
    next
      case False
      with o [OF m] less.prems(2) less.prems(4) m show ?thesis by (cases "m div 2 = i") auto
    qed
    with False less.prems show ?thesis by (subst (1 2 3) sift_up.simps) (auto simp: heap_ok_def Let_def)
  next
    case True
    let ?h = "h[i := h ! ?j]"
    have j: "0 < ?j" "?j < i" "?j < length h" "2 \<le> i" using True less.prems(1, 2) by auto
    have ne: "?j div 2 \<noteq> i" "?j \<noteq> i" using j by presburger+
    have up: "le (h ! (?j div 2)) (h ! ?j)" if "2 \<le> ?j" using o [OF that j(3)] ne that by simp
    have below: "le (h ! ?j) (?h ! m)" if m: "2 \<le> m" "m < length h" "m div 2 = ?j" for m
      using o [OF m(1, 2)] m j total [of "h ! ?j" "h ! ?j"] by (cases "m = i") auto
    have "ordered_but le ?j ?h" unfolding ordered_but_def
    proof (intro allI impI)
      fix m assume m: "2 \<le> m" "m < length ?h"
      show "if m div 2 = ?j then ?j div 2 = 0 \<or> le (?h ! (?j div 2)) (?h ! m) else m = ?j \<or> le (?h ! (m div 2)) (?h ! m)"
      proof (cases "m div 2 = ?j")
        case True
        have "le (h ! (?j div 2)) (?h ! m)" if "?j div 2 \<noteq> 0"
          using trans [OF up below [of m]] m True that by simp
        with True ne show ?thesis by auto
      next
        case False
        then have "m \<noteq> i" by auto
        with o [OF m(1)] m False j show ?thesis by (cases "m div 2 = i") auto
      qed
    qed
    moreover have "\<forall>m. 2 \<le> m \<longrightarrow> m < length ?h \<longrightarrow> m div 2 = ?j \<longrightarrow> le node (?h ! m)"
      using below True trans by (metis length_list_update)
    ultimately have ih: "heap_ok le (sift_up le node ?j ?h) \<and> mset (sift_up le node ?j ?h) = mset (?h[?j := node])
      \<and> sift_up le node ?j ?h ! 0 = ?h ! 0"
      using less.IH [OF j(2) j(1), of ?h] j by simp
    have "sift_up le node i h = sift_up le node ?j ?h" using True by (subst sift_up.simps) (simp add: Let_def)
    with ih move_mset [of i h ?j node] j less.prems(2) show ?thesis by auto
  qed
qed

lemma sift_down_ok:
  assumes "0 < i" "i < length h" "ordered_but le i h" "2 \<le> i \<longrightarrow> le (h ! (i div 2)) node"
  shows "heap_ok le (sift_down le node i h) \<and> mset (sift_down le node i h) = mset (h[i := node])
    \<and> sift_down le node i h ! 0 = h ! 0"
  using assms
proof (induction "length h - i" arbitrary: i h rule: less_induct)
  case less
  note o = less.prems(3) [unfolded ordered_but_def, rule_format]
  define j where "j = (if 2 * i + 1 \<le> lheap_len h \<and> le (h ! (2 * i + 1)) (h ! (2 * i)) then 2 * i + 1 else 2 * i)"
  have least: "le (h ! j) (h ! m)" if "m < length h" "m div 2 = i" for m
  proof -
    have "m = 2 * i \<or> m = 2 * i + 1" using that(2) by presburger
    with that(1) total [of "h ! (2 * i)" "h ! (2 * i + 1)"] total [of "h ! m" "h ! m"] show ?thesis by (auto simp: lheap_len_def j_def)
  qed
  have up: "le (h ! (m div 2)) (h ! m)" if "2 \<le> m" "m < length h" "m \<noteq> i" "m div 2 \<noteq> i" for m
    using o [OF that(1, 2)] that(3, 4) by simp
  show ?case
  proof (cases "j \<le> lheap_len h \<and> le (h ! j) node")
    case False
    have "le (h[i := node] ! (m div 2)) (h[i := node] ! m)" if m: "2 \<le> m" "m < length h" for m
    proof (cases "m div 2 = i")
      case True
      from True m have "j \<le> lheap_len h" by (auto simp: lheap_len_def j_def)
      with False total [of "h ! j" node] have "le node (h ! j)" by blast
      from trans [OF this least [OF m(2) True]] True m less.prems(2) show ?thesis by auto
    next
      case False
      have "m div 2 \<noteq> m" using m by presburger
      with False up [OF m] less.prems(2, 4) m show ?thesis by (cases "m = i") auto
    qed
    with False less.prems(1, 2) show ?thesis
      unfolding sift_down.simps [of le node i h] Let_def j_def [symmetric] by (auto simp: heap_ok_def)
  next
    case True
    let ?h = "h[i := h ! j]"
    have j: "i < j" "j < length h" "j div 2 = i" "2 \<le> j" using True less.prems(1) by (auto simp: lheap_len_def j_def split: if_splits)
    have "ordered_but le j ?h" unfolding ordered_but_def
    proof (intro allI impI)
      fix m assume m: "2 \<le> m" "m < length ?h"
      show "if m div 2 = j then j div 2 = 0 \<or> le (?h ! (j div 2)) (?h ! m) else m = j \<or> le (?h ! (m div 2)) (?h ! m)"
      proof (cases "m div 2 = j")
        case True
        then have "m \<noteq> i" "j \<noteq> i" using j by presburger+
        with True up [of m] m j less.prems(2) show ?thesis by auto
      next
        case False
        have i: "m div 2 \<noteq> m" using m by presburger
        show ?thesis
        proof (cases "m div 2 = i")
          case True
          with False i least [of m] m less.prems(2) show ?thesis by auto
        next
          case False
          have "le (h ! (i div 2)) (h ! j)" if "m = i"
            using o [OF j(4, 2)] j that m by auto
          with False \<open>m div 2 \<noteq> j\<close> up [of m] m less.prems(2) show ?thesis by (cases "m = i") auto
        qed
      qed
    qed
    moreover have "le (?h ! (j div 2)) node" using True j less.prems(2) by simp
    ultimately have ih: "heap_ok le (sift_down le node j ?h) \<and> mset (sift_down le node j ?h) = mset (?h[j := node])
      \<and> sift_down le node j ?h ! 0 = ?h ! 0"
      using less.hyps [of ?h j] j by simp
    have "sift_down le node i h = sift_down le node j ?h" 
      unfolding sift_down.simps [of le node i h] Let_def j_def [symmetric] using True less.prems(1) by simp
    with ih move_mset [of i h j node] j less.prems(1, 2) show ?thesis by auto
  qed
qed

lemma heap_add_ok:
  assumes "heap_ok le h"
  shows "heap_ok le (lheap_add le x h) \<and> mset (lheap_add le x h) = add_mset x (mset h) \<and> lheap_add le x h ! 0 = h ! 0"
proof -
  have h: "h \<noteq> []" using assms by (simp add: heap_ok_def)
  have "ordered_but le (length h) (h @ [x])" unfolding ordered_but_def
  proof (intro allI impI)
    fix m assume m: "2 \<le> m" "m < length (h @ [x])"
    then have "m div 2 < length h" by auto
    with m assms show "if m div 2 = length h then length h div 2 = 0 \<or> le ((h @ [x]) ! (length h div 2)) ((h @ [x]) ! m)
      else m = length h \<or> le ((h @ [x]) ! (m div 2)) ((h @ [x]) ! m)" by (auto simp: heap_ok_def nth_append)
  qed
  moreover have "\<forall>m. 2 \<le> m \<longrightarrow> m < length (h @ [x]) \<longrightarrow> m div 2 = length h \<longrightarrow> le x ((h @ [x]) ! m)" by auto
  ultimately show ?thesis using sift_up_ok [of "length h" "h @ [x]" x] h by (simp add: lheap_add_def lheap_len_def Let_def nth_append)
qed

lemma top_least:
  assumes "heap_ok le h" "1 \<le> m" "m < length h"
  shows "le (h ! 1) (h ! m)"
  using assms(2, 3)
proof (induction m rule: less_induct)
  case (less m)
  show ?case
  proof (cases "m = 1")
    case False
    with less.prems have m: "m div 2 < m" "1 \<le> m div 2" "m div 2 < length h" "2 \<le> m" by auto
    from assms(1) m(4) less.prems(2) have "le (h ! (m div 2)) (h ! m)" by (simp add: heap_ok_def)
    with less.IH [OF m(1-3)] show ?thesis by (rule trans)
  qed (use total in blast)
qed

lemma heap_down_ok:
  assumes "ordered_but le 1 h" "h \<noteq> []"
  shows "heap_ok le (lheap_down le 1 h) \<and> mset (lheap_down le 1 h) = mset h \<and> lheap_down le 1 h ! 0 = h ! 0"
proof (cases "lheap_len h = 0")
  case True
  with assms(2) show ?thesis by (simp add: lheap_down_def heap_ok_def lheap_len_def)
next
  case False
  then have "1 < length h" by (simp add: lheap_len_def)
  with sift_down_ok [of 1 h "h ! 1"] assms(1) False show ?thesis by (simp add: lheap_down_def)
qed

lemma heap_pop_ok:
  assumes ok: "heap_ok le h" and p: "lheap_pop le h = (r, h')"
  shows "heap_ok le h' \<and> h' ! 0 = h ! 0 \<and> (case r of
     None \<Rightarrow> lheap_len h = 0 \<and> h' = h
   | Some x \<Rightarrow> mset h = add_mset x (mset h') \<and> (\<forall>y \<in> set (tl h). le x y) \<and> lheap_top h = Some x)"
proof (cases "lheap_len h = 0")
  case True
  with p ok show ?thesis by (auto simp: lheap_pop_def)
next
  case False
  then obtain d x rest where h: "h = d # x # rest" by (cases h; cases "tl h") (auto simp: lheap_len_def)
  have least: "\<forall>y \<in> set (tl h). le x y"
  proof
    fix y assume "y \<in> set (tl h)"
    then obtain k where "k < length (tl h)" "y = tl h ! k" by (auto simp: in_set_conv_nth)
    then show "le x y" using top_least [OF ok, of "Suc k"] by (simp add: h nth_Cons')
  qed
  show ?thesis
  proof (cases rest rule: rev_cases)
    case Nil
    with p least show ?thesis by (auto simp: h lheap_pop_def lheap_len_def lheap_top_def heap_ok_def Let_def)
  next
    case (snoc zs z)
    let ?b = "d # z # zs"
    have e: "lheap_pop le h = (Some x, lheap_down le 1 ?b)"
      by (simp add: h snoc lheap_pop_def lheap_len_def Let_def nth_append butlast_append)
    have "ordered_but le 1 ?b" unfolding ordered_but_def
    proof (intro allI impI)
      fix m assume m: "2 \<le> m" "m < length ?b"
      have "?b ! k = h ! k" if "2 \<le> k" "k < length ?b" for k using that by (auto simp: h snoc nth_Cons' nth_append)
      with m ok show "if m div 2 = 1 then (1 :: nat) div 2 = 0 \<or> le (?b ! (1 div 2)) (?b ! m) else m = 1 \<or> le (?b ! (m div 2)) (?b ! m)"
        by (cases "m div 2 = 1") (auto simp: heap_ok_def h snoc)
    qed
    from p e have r: "r = Some x" "h' = lheap_down le 1 ?b" by simp_all
    from heap_down_ok [OF \<open>ordered_but le 1 ?b\<close>] least show ?thesis unfolding r by (simp add: h snoc lheap_top_def)
  qed
qed

end

end
