(* ===== verification/Interval_Source.thy ===== *)
theory Interval_Source
  imports Positions "HOL-Library.Word"
begin

text \<open>
  The rules of an \<^verbatim>\<open>intervals\<close> query as the tree of sources they are built into (\<^verbatim>\<open>src/src/query/intervals.rs\<close>): the
  constructors with their rewrites, the lifting of disjunctions, the shortest extent, and which documents a source stands on.
  A word is a string; a script that decides on intervals is known by a number, since two are the same only when they
  are one.  Extents and gaps are 32-bit words.
\<close>

datatype isource =
    TermS string
  | MultiS "string list"
  | NothingS
  | OrS "isource list" bool
  | OrderedS "isource list"
  | UnorderedS "isource list"
  | BlockS "isource list"
  | RepeatingS isource nat
  | MaxGapsS isource "32 word"
  | ExtendS isource "32 word" "32 word"
  | ContainingS isource isource
  | ContainedByS isource isource
  | OverlappingS isource isource
  | NotContainingS isource isource
  | NotContainedByS isource isource
  | NonOverlappingS isource isource
  | OffsetS isource bool
  | ScriptS isource nat

definition i32_max :: "32 word" where "i32_max = 2 ^ 31 - 1"

section \<open>Extents\<close>

definition least_extent :: "32 word list \<Rightarrow> 32 word" where
  "least_extent es = (case es of [] \<Rightarrow> i32_max | e # es \<Rightarrow> fold (\<lambda>e m. if sint e < sint m then e else m) es e)"

fun min_extent :: "isource \<Rightarrow> 32 word" where
  "min_extent (TermS _) = 1"
| "min_extent (MultiS _) = 1"
| "min_extent (OffsetS _ _) = 1"
| "min_extent NothingS = 0"
| "min_extent (OrS subs _) = least_extent (map min_extent subs)"
| "min_extent (OrderedS subs) = fold (\<lambda>e acc. acc + e) (map min_extent subs) 0"
| "min_extent (UnorderedS subs) = fold (\<lambda>e acc. acc + e) (map min_extent subs) 0"
| "min_extent (BlockS subs) = fold (\<lambda>e acc. acc + e) (map min_extent subs) 0"
| "min_extent (RepeatingS inner _) = min_extent inner"
| "min_extent (MaxGapsS inner _) = min_extent inner"
| "min_extent (ScriptS inner _) = min_extent inner"
| "min_extent (ExtendS inner before after) =
     (let extent = before + min_extent inner + after in if sint extent < 0 then i32_max else extent)"
| "min_extent (ContainingS first _) = min_extent first"
| "min_extent (ContainedByS first _) = min_extent first"
| "min_extent (OverlappingS first _) = min_extent first"
| "min_extent (NotContainingS first _) = min_extent first"
| "min_extent (NotContainedByS first _) = min_extent first"
| "min_extent (NonOverlappingS first _) = min_extent first"

section \<open>Disjunctions, and lifting them out\<close>

text \<open>What \<^verbatim>\<open>pull_up\<close> gives for a source that is a disjunction, which is all \<^verbatim>\<open>Source::or\<close> asks of it.\<close>

definition or_alternatives :: "isource \<Rightarrow> isource list" where
  "or_alternatives s = (case s of OrS subs lifts \<Rightarrow> if lifts then subs else [s] | _ \<Rightarrow> [s])"

definition or_source :: "isource list \<Rightarrow> isource" where
  "or_source sources =
     (let simplified = fold (\<lambda>s acc. fold (\<lambda>one acc. if one \<in> set acc then acc else acc @ [one]) (or_alternatives s) acc) sources []
      in if length simplified = 1 then hd simplified else OrS simplified True)"

definition split_alternatives :: "isource list \<Rightarrow> isource list" where
  "split_alternatives pulled =
     (let singles = filter (\<lambda>one. min_extent one = 1) pulled;
          others = filter (\<lambda>one. min_extent one \<noteq> 1) pulled
      in (if singles \<noteq> [] then [or_source singles] else []) @ others)"

definition extend_rewritten :: "isource list \<Rightarrow> isource list list \<Rightarrow> isource list list" where
  "extend_rewritten disjuncts rewritten =
     (if length disjuncts = 1 then map (\<lambda>l. l @ [disjuncts ! 0]) rewritten
      else concat (map (\<lambda>disjunct. map (\<lambda>prefix. prefix @ [disjunct]) rewritten) disjuncts))"

definition rewritten_lists :: "isource list list \<Rightarrow> isource list list" where
  "rewritten_lists splits = fold extend_rewritten splits [[]]"

fun pull_up :: "isource \<Rightarrow> isource list" where
  "pull_up NothingS = []"
| "pull_up (OrS subs lifts) = (if lifts then subs else [OrS subs lifts])"
| "pull_up (OrderedS subs) = map OrderedS (rewritten_lists (map (\<lambda>s. split_alternatives (pull_up s)) subs))"
| "pull_up (UnorderedS subs) = map UnorderedS (rewritten_lists (map (\<lambda>s. split_alternatives (pull_up s)) subs))"
| "pull_up (ContainingS big small) = map (\<lambda>s. ContainingS s small) (split_alternatives (pull_up big))"
| "pull_up (ContainedByS small big) = map (\<lambda>s. ContainedByS small s) (split_alternatives (pull_up big))"
| "pull_up (OverlappingS source reference) =
     map (\<lambda>l. OverlappingS (l ! 0) (l ! 1))
       (rewritten_lists [split_alternatives (pull_up source), split_alternatives (pull_up reference)])"
| "pull_up (ExtendS inner before after) =
     (let pulled = pull_up inner
      in if pulled = [] then [ExtendS inner before after] else map (\<lambda>s. ExtendS s before after) pulled)"
| "pull_up other = [other]"

definition split_source :: "isource \<Rightarrow> isource list" where
  "split_source s = split_alternatives (pull_up s)"

definition pull_up_list :: "isource list \<Rightarrow> (isource list \<Rightarrow> isource) \<Rightarrow> isource list" where
  "pull_up_list sources build = map build (rewritten_lists (map split_source sources))"

definition pull_up_one :: "isource \<Rightarrow> (isource \<Rightarrow> isource) \<Rightarrow> isource list" where
  "pull_up_one s build = map build (split_source s)"

section \<open>The constructors\<close>

definition repeating_source :: "isource \<Rightarrow> nat \<Rightarrow> isource" where
  "repeating_source s n = (if n = 1 then s else RepeatingS s n)"

definition add_run :: "isource \<Rightarrow> (isource \<times> nat) list \<Rightarrow> (isource \<times> nat) list" where
  "add_run s runs =
     (if runs \<noteq> [] \<and> fst (last runs) = s then butlast runs @ [(s, snd (last runs) + 1)] else runs @ [(s, 1)])"

definition ordered_source :: "isource list \<Rightarrow> isource" where
  "ordered_source sources =
     (if length sources = 1 then hd sources
      else (let rewritten = map (\<lambda>(s, n). repeating_source s n) (fold add_run sources [])
            in if length rewritten = 1 then hd rewritten else OrderedS rewritten))"

fun add_count :: "isource \<Rightarrow> (isource \<times> nat) list \<Rightarrow> (isource \<times> nat) list" where
  "add_count s [] = [(s, 1)]"
| "add_count s ((t, n) # counts) = (if t = s then (t, n + 1) # counts else (t, n) # add_count s counts)"

definition unordered_source :: "isource list \<Rightarrow> isource" where
  "unordered_source sources =
     (if length sources = 1 then hd sources
      else (let rewritten = map (\<lambda>(s, n). repeating_source s n) (fold add_count sources [])
            in if length rewritten = 1 then hd rewritten else UnorderedS rewritten))"

definition flat_block :: "isource list \<Rightarrow> isource" where
  "flat_block l = BlockS (concat (map (\<lambda>s. case s of BlockS inner \<Rightarrow> inner | _ \<Rightarrow> [s]) l))"

definition phrase_source :: "isource list \<Rightarrow> isource" where
  "phrase_source sources = (if length sources = 1 then hd sources else or_source (pull_up_list sources flat_block))"

definition max_gaps_source :: "isource \<Rightarrow> 32 word \<Rightarrow> isource" where
  "max_gaps_source s gaps = or_source (map (\<lambda>s. MaxGapsS s gaps) (pull_up s))"

definition containing_source :: "isource \<Rightarrow> isource \<Rightarrow> isource" where
  "containing_source big small = or_source (pull_up_one big (\<lambda>s. ContainingS s small))"

definition contained_by_source :: "isource \<Rightarrow> isource \<Rightarrow> isource" where
  "contained_by_source small big = or_source (pull_up_one big (\<lambda>s. ContainedByS small s))"

definition not_containing_source :: "isource \<Rightarrow> isource \<Rightarrow> isource" where
  "not_containing_source minuend subtrahend = or_source (pull_up_one minuend (\<lambda>s. NotContainingS s subtrahend))"

definition not_contained_by_source :: "isource \<Rightarrow> isource \<Rightarrow> isource" where
  "not_contained_by_source small big = or_source (pull_up_one big (\<lambda>s. NotContainedByS small s))"

definition before_source :: "isource \<Rightarrow> isource \<Rightarrow> isource" where
  "before_source s reference = contained_by_source s (ExtendS (OffsetS reference True) i32_max 0)"

definition after_source :: "isource \<Rightarrow> isource \<Rightarrow> isource" where
  "after_source s reference = contained_by_source s (ExtendS (OffsetS reference False) 0 i32_max)"

section \<open>The parts of a rule put together\<close>

datatype combine_mode = MOrdered | MUnordered | MUnorderedNoOverlap

definition mode_of :: "bool option \<Rightarrow> string option \<Rightarrow> string + combine_mode" where
  "mode_of ordered mode =
     (case ordered of
        Some ordered \<Rightarrow> Inr (if ordered then MOrdered else MUnordered)
      | None \<Rightarrow>
          (case map_option to_lower mode of
             None \<Rightarrow> Inr MUnordered
           | Some m \<Rightarrow>
               if m = ''ordered'' then Inr MOrdered
               else if m = ''unordered'' then Inr MUnordered
               else if m = ''unordered_no_overlap'' then Inr MUnorderedNoOverlap
               else Inl (''no mode can be parsed from ordinal '' @ m)))"

definition no_overlap :: "isource \<Rightarrow> isource \<Rightarrow> isource" where
  "no_overlap a b = or_source [ordered_source [a, b], ordered_source [b, a]]"

definition held_gaps :: "32 word \<Rightarrow> isource \<Rightarrow> isource" where
  "held_gaps max_gaps inner = (if max_gaps = -1 then inner else max_gaps_source inner max_gaps)"

definition combine_sources :: "isource list \<Rightarrow> 32 word \<Rightarrow> combine_mode \<Rightarrow> isource" where
  "combine_sources sources max_gaps mode =
     (case sources of
        [] \<Rightarrow> NothingS
      | [one] \<Rightarrow> one
      | first # second # rest \<Rightarrow>
          if max_gaps = 0 \<and> mode = MOrdered then phrase_source sources
          else
            held_gaps max_gaps
              (case mode of
                 MOrdered \<Rightarrow> ordered_source sources
               | MUnordered \<Rightarrow> unordered_source sources
               | MUnorderedNoOverlap \<Rightarrow>
                   fold (\<lambda>part inner. no_overlap (held_gaps max_gaps inner) part) rest (no_overlap first second)))"

section \<open>The documents a source stands on\<close>

fun terms_of :: "isource \<Rightarrow> string list \<Rightarrow> string list" where
  "terms_of (TermS t) out = (if t \<in> set out then out else out @ [t])"
| "terms_of (MultiS ts) out = fold (\<lambda>t out. if t \<in> set out then out else out @ [t]) ts out"
| "terms_of NothingS out = out"
| "terms_of (OrS subs _) out = fold terms_of subs out"
| "terms_of (OrderedS subs) out = fold terms_of subs out"
| "terms_of (UnorderedS subs) out = fold terms_of subs out"
| "terms_of (BlockS subs) out = fold terms_of subs out"
| "terms_of (RepeatingS inner _) out = terms_of inner out"
| "terms_of (MaxGapsS inner _) out = terms_of inner out"
| "terms_of (ExtendS inner _ _) out = terms_of inner out"
| "terms_of (OffsetS inner _) out = terms_of inner out"
| "terms_of (ScriptS inner _) out = terms_of inner out"
| "terms_of (ContainingS a b) out = terms_of b (terms_of a out)"
| "terms_of (ContainedByS a b) out = terms_of b (terms_of a out)"
| "terms_of (OverlappingS a b) out = terms_of b (terms_of a out)"
| "terms_of (NotContainingS a b) out = terms_of b (terms_of a out)"
| "terms_of (NotContainedByS a b) out = terms_of b (terms_of a out)"
| "terms_of (NonOverlappingS a b) out = terms_of b (terms_of a out)"

fun on_doc :: "(string \<Rightarrow> bool) \<Rightarrow> isource \<Rightarrow> bool" where
  "on_doc present (TermS t) = present t"
| "on_doc present (MultiS ts) = list_ex present ts"
| "on_doc present NothingS = False"
| "on_doc present (OrS subs _) = list_ex (on_doc present) subs"
| "on_doc present (OrderedS subs) = list_all (on_doc present) subs"
| "on_doc present (UnorderedS subs) = list_all (on_doc present) subs"
| "on_doc present (BlockS subs) = list_all (on_doc present) subs"
| "on_doc present (RepeatingS inner _) = on_doc present inner"
| "on_doc present (MaxGapsS inner _) = on_doc present inner"
| "on_doc present (ExtendS inner _ _) = on_doc present inner"
| "on_doc present (OffsetS inner _) = on_doc present inner"
| "on_doc present (ScriptS inner _) = on_doc present inner"
| "on_doc present (ContainingS a b) = (on_doc present a \<and> on_doc present b)"
| "on_doc present (ContainedByS a b) = (on_doc present a \<and> on_doc present b)"
| "on_doc present (OverlappingS a b) = (on_doc present a \<and> on_doc present b)"
| "on_doc present (NotContainingS a _) = on_doc present a"
| "on_doc present (NotContainedByS a _) = on_doc present a"
| "on_doc present (NonOverlappingS a _) = on_doc present a"

definition any_of :: "nat list list \<Rightarrow> nat list" where
  "any_of ls = fold (\<lambda>here acc. union_docs acc here) ls []"

definition all_of :: "nat list list \<Rightarrow> nat list" where
  "all_of ls =
     (case fold (\<lambda>here acc. Some (case acc of None \<Rightarrow> here | Some before \<Rightarrow> intersect before here)) ls None of
        Some acc \<Rightarrow> acc
      | None \<Rightarrow> [])"

fun candidates :: "(string \<Rightarrow> nat list) \<Rightarrow> isource \<Rightarrow> nat list" where
  "candidates docs (TermS t) = docs t"
| "candidates docs (MultiS ts) = any_of (map docs ts)"
| "candidates docs NothingS = []"
| "candidates docs (OrS subs _) = any_of (map (candidates docs) subs)"
| "candidates docs (OrderedS subs) = all_of (map (candidates docs) subs)"
| "candidates docs (UnorderedS subs) = all_of (map (candidates docs) subs)"
| "candidates docs (BlockS subs) = all_of (map (candidates docs) subs)"
| "candidates docs (RepeatingS inner _) = candidates docs inner"
| "candidates docs (MaxGapsS inner _) = candidates docs inner"
| "candidates docs (ExtendS inner _ _) = candidates docs inner"
| "candidates docs (OffsetS inner _) = candidates docs inner"
| "candidates docs (ScriptS inner _) = candidates docs inner"
| "candidates docs (ContainingS a b) = all_of [candidates docs a, candidates docs b]"
| "candidates docs (ContainedByS a b) = all_of [candidates docs a, candidates docs b]"
| "candidates docs (OverlappingS a b) = all_of [candidates docs a, candidates docs b]"
| "candidates docs (NotContainingS a _) = candidates docs a"
| "candidates docs (NotContainedByS a _) = candidates docs a"
| "candidates docs (NonOverlappingS a _) = candidates docs a"

end
