(* ===== verification/Interval_Iterators.thy ===== *)
theory Interval_Iterators
  imports Interval_Source
begin

text \<open>
  The iterators of the sources (\<^verbatim>\<open>src/src/query/intervals.rs\<close>) over one document.  An iterator is a trait object that is asked
  for its next interval, and for the start and end of the one it stands on; nothing else of it can be seen, so it is modelled by the intervals it
  has still to give and the one it stands on: \<open>(-1, -1)\<close> before the first and \<open>(NO_MORE, NO_MORE)\<close> after the last.
  Each definition gives the intervals an iterator answers with until it answers \<^verbatim>\<open>NO_MORE\<close>, from those of its parts.
  Positions are integers below \<open>NO_MORE\<close>, the largest a 32-bit integer holds.
\<close>

type_synonym interval = "int \<times> int"

definition NO_MORE :: int where "NO_MORE = 2 ^ 31 - 1"

definition unpositioned :: interval where "unpositioned = (-1, -1)"

definition exhausted :: interval where "exhausted = (NO_MORE, NO_MORE)"

section \<open>Words\<close>

definition term_intervals :: "int list \<Rightarrow> interval list" where
  "term_intervals places = map (\<lambda>p. (p, p)) places"

section \<open>Containing, contained by, overlapping\<close>

datatype relation = RContaining | RContainedBy | ROverlapping

fun left_behind :: "relation \<Rightarrow> interval \<Rightarrow> interval \<Rightarrow> bool" where
  "left_behind RContaining a b = (fst b < fst a \<and> snd b < snd a)"
| "left_behind RContainedBy a b = (snd b < snd a)"
| "left_behind ROverlapping a b = (snd b < fst a)"

fun related :: "relation \<Rightarrow> interval \<Rightarrow> interval \<Rightarrow> bool" where
  "related RContaining a b = (fst a \<le> fst b \<and> snd a \<ge> snd b)"
| "related RContainedBy a b = (fst b \<le> fst a)"
| "related ROverlapping a b = (fst b \<le> snd a)"

fun catch_up :: "(interval \<Rightarrow> bool) \<Rightarrow> interval \<Rightarrow> interval list \<Rightarrow> (interval \<times> interval list) option" where
  "catch_up late b [] = (if late b then None else Some (b, []))"
| "catch_up late b (c # bs) = (if late b then catch_up late c bs else Some (b, c # bs))"

fun filtering_from :: "relation \<Rightarrow> interval list \<Rightarrow> interval \<Rightarrow> interval list \<Rightarrow> interval list" where
  "filtering_from kind [] b bs = []"
| "filtering_from kind (a # as) b bs =
     (case catch_up (left_behind kind a) b bs of
        None \<Rightarrow> []
      | Some (b, bs) \<Rightarrow>
          if related kind a b then a # filtering_from kind as b bs else filtering_from kind as b bs)"

definition filtering :: "relation \<Rightarrow> interval list \<Rightarrow> interval list \<Rightarrow> interval list" where
  "filtering kind as bs = (case bs of [] \<Rightarrow> [] | b # bs \<Rightarrow> filtering_from kind as b bs)"

section \<open>Not containing, not contained by, not overlapping\<close>

datatype difference = DNotContaining | DNotContainedBy | DNonOverlapping

fun late_for :: "difference \<Rightarrow> interval \<Rightarrow> interval \<Rightarrow> bool" where
  "late_for DNotContaining a b = (fst b < fst a \<and> snd b < snd a)"
| "late_for DNotContainedBy a b = (snd b < snd a)"
| "late_for DNonOverlapping a b = (snd b < fst a)"

fun spared :: "difference \<Rightarrow> interval \<Rightarrow> interval \<Rightarrow> bool" where
  "spared DNotContaining a b = (fst b > snd a)"
| "spared DNotContainedBy a b = (fst a < fst b)"
| "spared DNonOverlapping a b = (fst b > snd a)"

text \<open>
  The second part is not asked for an interval before the first comparison.  Once it has no more, the rest of the
  first part passes: two of the three kinds say so by a flag, the third by where an exhausted part stands.
\<close>

fun relative_from :: "difference \<Rightarrow> interval list \<Rightarrow> interval \<Rightarrow> interval list \<Rightarrow> interval list" where
  "relative_from kind [] b bs = []"
| "relative_from kind (a # as) b bs =
     (case catch_up (late_for kind a) b bs of
        None \<Rightarrow> a # (if kind = DNotContainedBy then relative_from kind as exhausted [] else as)
      | Some (b, bs) \<Rightarrow>
          if spared kind a b then a # relative_from kind as b bs else relative_from kind as b bs)"

definition relative :: "difference \<Rightarrow> interval list \<Rightarrow> interval list option \<Rightarrow> interval list" where
  "relative kind as b = (case b of None \<Rightarrow> as | Some bs \<Rightarrow> relative_from kind as unpositioned bs)"

section \<open>Phrases\<close>

text \<open>
  The parts after the first, each as where it stands and what it has left.  \<open>chain\<close> is the loop over them from the end of the part
  before: \<open>None\<close> when one is exhausted, otherwise whether each began just where the one before ended.
\<close>

fun chain :: "int \<Rightarrow> (interval \<times> interval list) list \<Rightarrow> (bool \<times> (interval \<times> interval list) list) option" where
  "chain e [] = Some (True, [])"
| "chain e ((c, rest) # subs) =
     (case catch_up (\<lambda>b. fst b \<le> e) c rest of
        None \<Rightarrow> None
      | Some (c, rest) \<Rightarrow>
          if fst c = e + 1
          then map_option (\<lambda>(whole, subs). (whole, (c, rest) # subs)) (chain (snd c) subs)
          else Some (False, (c, rest) # subs))"

fun block_from :: "interval list \<Rightarrow> (interval \<times> interval list) list \<Rightarrow> interval list" where
  "block_from [] subs = []"
| "block_from (a # as) subs =
     (case chain (snd a) subs of
        None \<Rightarrow> []
      | Some (whole, subs) \<Rightarrow>
          if whole then (fst a, snd (fst (last ((a, []) # subs)))) # block_from as subs else block_from as subs)"

definition block :: "interval list list \<Rightarrow> interval list" where
  "block subs = block_from (hd subs) (map (\<lambda>l. (unpositioned, l)) (tl subs))"

section \<open>Repeats\<close>

text \<open>The intervals of the window are kept in a ring of the given length, from the slot \<open>base\<close> on.\<close>

definition ring_start :: "nat \<Rightarrow> nat \<Rightarrow> interval list \<Rightarrow> int" where
  "ring_start n base ring = fst (ring ! (base mod n))"

definition ring_end :: "nat \<Rightarrow> nat \<Rightarrow> interval list \<Rightarrow> int" where
  "ring_end n base ring = snd (ring ! ((base + n - 1) mod n))"

fun repeat_from :: "nat \<Rightarrow> nat \<Rightarrow> interval list \<Rightarrow> interval list \<Rightarrow> interval list" where
  "repeat_from n base ring [] = []"
| "repeat_from n base ring (x # xs) =
     (let slot = (base + n) mod n;
          base = (base + 1) mod n;
          ring = ring[slot := x]
      in (ring_start n base ring, ring_end n base ring) # repeat_from n base ring xs)"

definition repeats :: "nat \<Rightarrow> interval list \<Rightarrow> interval list" where
  "repeats n xs =
     (if length xs < n then []
      else (let ring = take n xs in (ring_start n 0 ring, ring_end n 0 ring) # repeat_from n 0 ring (drop n xs)))"

section \<open>The orders of the heaps\<close>

text \<open>Parts are known by their place in the list of parts; \<open>at\<close> gives the interval each stands on.\<close>

definition disj_less :: "interval list \<Rightarrow> nat \<Rightarrow> nat \<Rightarrow> bool" where
  "disj_less at a b = (snd (at ! a) < snd (at ! b) \<or> snd (at ! a) = snd (at ! b) \<and> fst (at ! a) \<ge> fst (at ! b))"

definition unordered_less :: "interval list \<Rightarrow> nat \<Rightarrow> nat \<Rightarrow> bool" where
  "unordered_less at a b = (fst (at ! a) < fst (at ! b) \<or> fst (at ! a) = fst (at ! b) \<and> snd (at ! a) \<ge> snd (at ! b))"

interpretation by_end: heap_order "disj_less at" for at
  by unfold_locales (auto simp: disj_less_def)

interpretation by_start: heap_order "unordered_less at" for at
  by unfold_locales (auto simp: unordered_less_def)

section \<open>Widened and single positions\<close>

definition wrap32 :: "int \<Rightarrow> int" where
  "wrap32 n = signed_take_bit 31 n"

definition extend_interval :: "int \<Rightarrow> int \<Rightarrow> interval \<Rightarrow> interval" where
  "extend_interval before after x =
     (max (wrap32 (fst x - before)) 0,
      (let e = wrap32 (snd x + after) in if e < 0 \<or> e = NO_MORE then NO_MORE - 1 else e))"

definition offset_interval :: "bool \<Rightarrow> interval \<Rightarrow> interval" where
  "offset_interval before x =
     (let pos = (if before then max (fst x - 1) 0
                 else (let pos = wrap32 (snd x + 1)
                       in if pos < 0 then NO_MORE else if pos = NO_MORE then NO_MORE - 1 else pos))
      in (pos, pos))"

end
