(* ===== verification/Interval_Properties.thy ===== *)
theory Interval_Properties
  imports Interval_Source
begin

text \<open>
  The rewrites of an \<^verbatim>\<open>intervals\<close> rule keep the documents it stands on, and the candidates gathered from the lists of
  documents of the words are exactly those documents.
\<close>

section \<open>Lifting disjunctions keeps the documents\<close>

lemma list_ex_add_new: "list_ex P (fold (\<lambda>one acc. if one \<in> set acc then acc else acc @ [one]) xs acc) = (list_ex P acc \<or> list_ex P xs)"
  by (induction xs arbitrary: acc) (auto simp: list_ex_iff)

lemma or_alternatives_on_doc: "list_ex (on_doc p) (or_alternatives s) = on_doc p s"
  by (cases s) (simp_all add: or_alternatives_def)

lemma on_doc_or: "on_doc p (or_source ss) = list_ex (on_doc p) ss"
proof -
  let ?f = "\<lambda>s acc. fold (\<lambda>one acc. if one \<in> set acc then acc else acc @ [one]) (or_alternatives s) acc"
  have "list_ex (on_doc p) (fold ?f ss acc) = (list_ex (on_doc p) acc \<or> list_ex (on_doc p) ss)" for acc
    by (induction ss arbitrary: acc) (auto simp: list_ex_add_new or_alternatives_on_doc)
  then have "list_ex (on_doc p) (fold ?f ss []) = list_ex (on_doc p) ss" by simp
  moreover have "length l = 1 \<Longrightarrow> list_ex (on_doc p) l = on_doc p (hd l)" for l by (cases l) auto
  ultimately show ?thesis by (auto simp: or_source_def Let_def)
qed

lemma on_doc_split: "list_ex (on_doc p) (split_alternatives ss) = list_ex (on_doc p) ss"
proof -
  let ?singles = "filter (\<lambda>one. min_extent one = 1) ss" and ?others = "filter (\<lambda>one. min_extent one \<noteq> 1) ss"
  have "list_ex (on_doc p) (if ?singles \<noteq> [] then [or_source ?singles] else []) = list_ex (on_doc p) ?singles"
    by (auto simp: on_doc_or list_ex_iff filter_empty_conv)
  then have "list_ex (on_doc p) (split_alternatives ss) = (list_ex (on_doc p) ?singles \<or> list_ex (on_doc p) ?others)"
    unfolding split_alternatives_def Let_def by (simp only: list_ex_append)
  then show ?thesis by (auto simp: list_ex_iff)
qed

lemma extend_rewritten_set: "set (extend_rewritten ds ls) = {l @ [d] |l d. l \<in> set ls \<and> d \<in> set ds}"
  by (cases ds; cases "tl ds") (auto simp: extend_rewritten_def)

lemma rewritten_lists_set: "set (rewritten_lists dss) = {l. list_all2 (\<lambda>d ds. d \<in> set ds) l dss}"
proof (induction dss rule: rev_induct)
  case (snoc ds dss)
  have "set (rewritten_lists (dss @ [ds])) = {l @ [d] |l d. list_all2 (\<lambda>d ds. d \<in> set ds) l dss \<and> d \<in> set ds}"
    using snoc by (simp add: rewritten_lists_def extend_rewritten_set)
  also have "\<dots> = {l. list_all2 (\<lambda>d ds. d \<in> set ds) l (dss @ [ds])}"
  proof (rule set_eqI)
    fix x
    show "x \<in> {l @ [d] |l d. list_all2 (\<lambda>d ds. d \<in> set ds) l dss \<and> d \<in> set ds} \<longleftrightarrow> x \<in> {l. list_all2 (\<lambda>d ds. d \<in> set ds) l (dss @ [ds])}"
    proof (cases x rule: rev_cases)
      case Nil
      then show ?thesis by simp
    next
      case (snoc l d)
      have "list_all2 (\<lambda>d ds. d \<in> set ds) (l @ [d]) (dss @ [ds]) \<longleftrightarrow> list_all2 (\<lambda>d ds. d \<in> set ds) l dss \<and> d \<in> set ds"
        using list_all2_rev [of "\<lambda>d ds. d \<in> set ds" "l @ [d]" "dss @ [ds]"] list_all2_rev [of "\<lambda>d ds. d \<in> set ds" l dss] by auto
      with snoc show ?thesis by auto
    qed
  qed
  finally show ?case .
qed (simp add: rewritten_lists_def)

lemma on_doc_rewritten:
  "(\<exists>l \<in> set (rewritten_lists dss). list_all P l) = list_all (list_ex P) dss"
proof -
  have "(\<exists>l. list_all2 (\<lambda>d ds. d \<in> set ds) l dss \<and> list_all P l) = list_all (list_ex P) dss"
  proof (induction dss)
    case (Cons ds dss)
    have "(\<exists>l. list_all2 (\<lambda>d ds. d \<in> set ds) l (ds # dss) \<and> list_all P l)
        = ((\<exists>d \<in> set ds. P d) \<and> (\<exists>l. list_all2 (\<lambda>d ds. d \<in> set ds) l dss \<and> list_all P l))"
      by (auto simp: list_all2_Cons2) (metis list.pred_inject(2) list_all2_Cons)+
    with Cons show ?case by (simp add: list_ex_iff)
  qed simp
  then show ?thesis by (simp add: rewritten_lists_set)
qed

lemma on_doc_pull_up: "list_ex (on_doc p) (pull_up s) = on_doc p s"
proof (induction s rule: pull_up.induct)
  case (3 subs)
  have "list_ex (on_doc p) (pull_up (OrderedS subs)) = list_all (list_ex (on_doc p)) (map (\<lambda>s. split_alternatives (pull_up s)) subs)"
    by (simp add: on_doc_rewritten [symmetric] list_ex_iff)
  with 3 show ?case by (simp add: list_all_iff on_doc_split)
next
  case (4 subs)
  have "list_ex (on_doc p) (pull_up (UnorderedS subs)) = list_all (list_ex (on_doc p)) (map (\<lambda>s. split_alternatives (pull_up s)) subs)"
    by (simp add: on_doc_rewritten [symmetric] list_ex_iff)
  with 4 show ?case by (simp add: list_all_iff on_doc_split)
next
  case (7 a b)
  have two: "on_doc p (l ! 0) \<and> on_doc p (l ! 1) \<longleftrightarrow> list_all (on_doc p) l"
    if "l \<in> set (rewritten_lists [ds, es])" for l ds es
    using that by (auto simp: rewritten_lists_set list_all2_Cons2)
  have "list_ex (on_doc p) (pull_up (OverlappingS a b))
      = (\<exists>l \<in> set (rewritten_lists [split_alternatives (pull_up a), split_alternatives (pull_up b)]). list_all (on_doc p) l)"
    using two by (auto simp: list_ex_iff)
  with 7 show ?case by (simp add: on_doc_rewritten on_doc_split)
next
  case (8 inner before after)
  then show ?case by (auto simp: Let_def list_ex_iff)
qed (auto simp: list_ex_iff on_doc_split [unfolded list_ex_iff])

section \<open>The constructors keep the documents\<close>

lemma on_doc_repeating: "on_doc p (repeating_source s n) = on_doc p s"
  by (simp add: repeating_source_def)

lemma add_run_fst: "fst ` set (fold add_run ss runs) = fst ` set runs \<union> set ss"
proof (induction ss arbitrary: runs)
  case (Cons s ss)
  have "fst ` set (add_run s runs) = insert s (fst ` set runs)"
    by (cases runs rule: rev_cases) (auto simp: add_run_def)
  with Cons show ?case by auto
qed simp

lemma add_count_fst: "fst ` set (fold add_count ss counts) = fst ` set counts \<union> set ss"
proof (induction ss arbitrary: counts)
  case (Cons s ss)
  have "set (map fst (add_count s counts)) = insert s (set (map fst counts))"
  proof (induction counts)
    case (Cons c counts)
    then show ?case by (cases c) auto
  qed simp
  then have "fst ` set (add_count s counts) = insert s (fst ` set counts)" by simp
  with Cons show ?case by auto
qed simp

lemma on_doc_single: "length l = 1 \<Longrightarrow> on_doc p (hd l) = list_all (on_doc p) l"
  by (cases l) auto

lemma on_doc_runs: "list_all (on_doc p) (map (\<lambda>(s, n). repeating_source s n) runs) = (\<forall>s \<in> fst ` set runs. on_doc p s)"
  by (auto simp: list_all_iff on_doc_repeating)

lemma on_doc_ordered: "on_doc p (ordered_source ss) = list_all (on_doc p) ss"
proof -
  have "list_all (on_doc p) (map (\<lambda>(s, n). repeating_source s n) (fold add_run ss [])) = list_all (on_doc p) ss"
    unfolding on_doc_runs add_run_fst by (simp add: list_all_iff)
  then show ?thesis unfolding ordered_source_def Let_def using on_doc_single by auto
qed

lemma on_doc_unordered: "on_doc p (unordered_source ss) = list_all (on_doc p) ss"
proof -
  have "list_all (on_doc p) (map (\<lambda>(s, n). repeating_source s n) (fold add_count ss [])) = list_all (on_doc p) ss"
    unfolding on_doc_runs add_count_fst by (simp add: list_all_iff)
  then show ?thesis unfolding unordered_source_def Let_def using on_doc_single by auto
qed

lemma on_doc_flat_block: "on_doc p (flat_block l) = list_all (on_doc p) l"
proof -
  have "list_all (on_doc p) (case s of BlockS inner \<Rightarrow> inner | _ \<Rightarrow> [s]) = on_doc p s" for s by (cases s) simp_all
  then show ?thesis by (induction l) (simp_all add: flat_block_def)
qed

lemma on_doc_phrase: "on_doc p (phrase_source ss) = list_all (on_doc p) ss"
proof -
  have "list_ex (on_doc p) (pull_up_list ss flat_block) = (\<exists>l \<in> set (rewritten_lists (map split_source ss)). list_all (on_doc p) l)"
    by (auto simp: pull_up_list_def list_ex_iff on_doc_flat_block)
  also have "\<dots> = list_all (on_doc p) ss"
    unfolding on_doc_rewritten by (simp add: list_all_iff split_source_def on_doc_split on_doc_pull_up)
  finally show ?thesis using on_doc_single by (auto simp: phrase_source_def on_doc_or)
qed

lemma on_doc_pull_one:
  assumes "\<And>t. on_doc p (build t) = (on_doc p t \<and> Q)"
  shows "on_doc p (or_source (pull_up_one s build)) = (on_doc p s \<and> Q)"
proof -
  have "list_ex (on_doc p) (pull_up_one s build) = (list_ex (on_doc p) (split_source s) \<and> Q)"
    by (auto simp: pull_up_one_def list_ex_iff assms)
  then show ?thesis by (simp add: on_doc_or split_source_def on_doc_split on_doc_pull_up)
qed

lemma on_doc_max_gaps: "on_doc p (max_gaps_source s gaps) = on_doc p s"
  using on_doc_pull_up [of p s] by (simp add: max_gaps_source_def on_doc_or list_ex_iff)

lemma on_doc_held: "on_doc p (held_gaps gaps s) = on_doc p s"
  by (simp add: held_gaps_def on_doc_max_gaps)

lemma on_doc_no_overlap:
  "on_doc p (fold (\<lambda>part inner. no_overlap (held_gaps g inner) part) rest s) = (on_doc p s \<and> list_all (on_doc p) rest)"
  by (induction rest arbitrary: s) (auto simp: no_overlap_def on_doc_or on_doc_ordered on_doc_held)

lemma on_doc_combine: "on_doc p (combine_sources ss gaps mode) = (ss \<noteq> [] \<and> list_all (on_doc p) ss)"
proof (cases ss rule: remdups_adj.cases)
  case (3 first second rest)
  have "on_doc p (no_overlap first second) = (on_doc p first \<and> on_doc p second)"
    by (auto simp: no_overlap_def on_doc_or on_doc_ordered)
  with 3 show ?thesis
    by (cases mode)
      (auto simp: combine_sources_def on_doc_held on_doc_phrase on_doc_ordered on_doc_unordered on_doc_no_overlap)
qed (simp_all add: combine_sources_def)

lemma on_doc_not_contained_by: "on_doc p (not_contained_by_source a b) = (on_doc p a \<and> split_source b \<noteq> [])"
  by (cases "split_source b") (auto simp: not_contained_by_source_def on_doc_or pull_up_one_def list_ex_iff)

text \<open>
  A second part with no alternative, which is what a text with no words is read as, has no interval that could contain anything, so the
  difference should stand where its first part does; as it is rewritten it stands nowhere.
\<close>

lemma not_contained_by_nothing: "on_doc p a \<Longrightarrow> on_doc p (NotContainedByS a NothingS) \<and> \<not> on_doc p (not_contained_by_source a NothingS)"
  by (simp add: on_doc_not_contained_by split_source_def split_alternatives_def)

text \<open>
  \<^bold>\<open>C31.\<close>  The rewrites of an interval rule keep the documents it stands on: flattened and lifted disjunctions, runs folded into
  repeats, phrases merged and split by alternatives, filters pushed below a disjunction, and parts put together in any mode with any limit on gaps stand on exactly the documents
  of the rule as it was written: of any part for a disjunction, of every part for the others (parts put together are none when there is no part), of
  both parts for a relation, and of the first part for a difference.  For \<^verbatim>\<open>not_contained_by\<close> the second part must have an alternative.
\<close>

theorem rewrites_keep_documents:
  "on_doc p (or_source ss) = list_ex (on_doc p) ss
   \<and> on_doc p (ordered_source ss) = list_all (on_doc p) ss
   \<and> on_doc p (unordered_source ss) = list_all (on_doc p) ss
   \<and> on_doc p (phrase_source ss) = list_all (on_doc p) ss
   \<and> on_doc p (max_gaps_source s gaps) = on_doc p s
   \<and> on_doc p (combine_sources ss gaps mode) = (ss \<noteq> [] \<and> list_all (on_doc p) ss)
   \<and> on_doc p (containing_source a b) = (on_doc p a \<and> on_doc p b)
   \<and> on_doc p (contained_by_source a b) = (on_doc p a \<and> on_doc p b)
   \<and> on_doc p (before_source a b) = (on_doc p a \<and> on_doc p b)
   \<and> on_doc p (after_source a b) = (on_doc p a \<and> on_doc p b)
   \<and> on_doc p (not_containing_source a b) = on_doc p a
   \<and> (split_source b \<noteq> [] \<longrightarrow> on_doc p (not_contained_by_source a b) = on_doc p a)"
proof -
  have c: "on_doc p (contained_by_source a b) = (on_doc p a \<and> on_doc p b)" for a b
    unfolding contained_by_source_def by (subst on_doc_pull_one [where Q = "on_doc p a"]) auto
  moreover have "on_doc p (containing_source a b) = (on_doc p a \<and> on_doc p b)"
    unfolding containing_source_def by (rule on_doc_pull_one) simp
  moreover have "on_doc p (not_containing_source a b) = on_doc p a"
    unfolding not_containing_source_def by (subst on_doc_pull_one [where Q = True]) auto
  ultimately show ?thesis
    by (simp add: on_doc_not_contained_by on_doc_or on_doc_ordered on_doc_unordered on_doc_phrase on_doc_max_gaps on_doc_combine before_source_def after_source_def)
qed

theorem rewrites_keep_documents_witness:
  "split_source (TermS ''b'') \<noteq> []
   \<and> on_doc (\<lambda>t. t = ''a'') (not_contained_by_source (TermS ''a'') (TermS ''b''))
   \<and> \<not> on_doc (\<lambda>t. t = ''a'') (containing_source (TermS ''a'') (TermS ''b''))"
proof -
  have "split_source (TermS ''b'') \<noteq> []" by code_simp
  with rewrites_keep_documents [where p = "\<lambda>t. t = ''a''" and a = "TermS ''a''" and b = "TermS ''b''"] show ?thesis by simp
qed

section \<open>Candidates\<close>

lemma any_of_docs:
  "(\<forall>l \<in> set ls. sorted_wrt (<) l) \<Longrightarrow> sorted_wrt (<) (any_of ls) \<and> set (any_of ls) = (\<Union>l \<in> set ls. set l)"
proof -
  have "(\<forall>l \<in> set ls. sorted_wrt (<) l) \<Longrightarrow> sorted_wrt (<) acc \<Longrightarrow>
    sorted_wrt (<) (fold (\<lambda>here acc. union_docs acc here) ls acc)
    \<and> set (fold (\<lambda>here acc. union_docs acc here) ls acc) = set acc \<union> (\<Union>l \<in> set ls. set l)" for acc
    by (induction ls arbitrary: acc) (auto simp: union_docs_sorted union_docs_set)
  from this [of "[]"] show "(\<forall>l \<in> set ls. sorted_wrt (<) l) \<Longrightarrow> ?thesis" by (simp add: any_of_def)
qed

lemma all_of_docs:
  assumes "\<forall>l \<in> set ls. sorted_wrt (<) l" "ls \<noteq> []"
  shows "sorted_wrt (<) (all_of ls) \<and> set (all_of ls) = (\<Inter>l \<in> set ls. set l)"
proof -
  let ?f = "\<lambda>here acc. Some (case acc of None \<Rightarrow> here | Some before \<Rightarrow> intersect before here)"
  have "(\<forall>l \<in> set ls. sorted_wrt (<) l) \<Longrightarrow> sorted_wrt (<) acc \<Longrightarrow>
    \<exists>r. fold ?f ls (Some acc) = Some r \<and> sorted_wrt (<) r \<and> set r = set acc \<inter> (\<Inter>l \<in> set ls. set l)" for ls acc
  proof (induction ls arbitrary: acc)
    case (Cons l ls)
    with Cons.IH [of "intersect acc l"] show ?case by (auto simp: intersect_sorted intersect_set Int_assoc)
  qed simp
  from this [of "tl ls" "hd ls"] assms show ?thesis by (cases ls) (auto simp: all_of_def)
qed

text \<open>Rules in which no part that decides on the documents is a conjunction of nothing.\<close>

fun no_empty :: "isource \<Rightarrow> bool" where
  "no_empty (OrS subs _) = list_all no_empty subs"
| "no_empty (OrderedS subs) = (subs \<noteq> [] \<and> list_all no_empty subs)"
| "no_empty (UnorderedS subs) = (subs \<noteq> [] \<and> list_all no_empty subs)"
| "no_empty (BlockS subs) = (subs \<noteq> [] \<and> list_all no_empty subs)"
| "no_empty (RepeatingS inner _) = no_empty inner"
| "no_empty (MaxGapsS inner _) = no_empty inner"
| "no_empty (ExtendS inner _ _) = no_empty inner"
| "no_empty (OffsetS inner _) = no_empty inner"
| "no_empty (ScriptS inner _) = no_empty inner"
| "no_empty (ContainingS a b) = (no_empty a \<and> no_empty b)"
| "no_empty (ContainedByS a b) = (no_empty a \<and> no_empty b)"
| "no_empty (OverlappingS a b) = (no_empty a \<and> no_empty b)"
| "no_empty (NotContainingS a _) = no_empty a"
| "no_empty (NotContainedByS a _) = no_empty a"
| "no_empty (NonOverlappingS a _) = no_empty a"
| "no_empty (MultiS _) = True"
| "no_empty (TermS _) = True"
| "no_empty NothingS = True"

definition lists_documents :: "(string \<Rightarrow> nat list) \<Rightarrow> isource \<Rightarrow> bool" where
  "lists_documents docs s =
     (sorted_wrt (<) (candidates docs s) \<and> set (candidates docs s) = {d. on_doc (\<lambda>t. d \<in> set (docs t)) s})"

lemma lists_all:
  assumes "subs \<noteq> []" and "\<forall>s \<in> set subs. lists_documents docs s"
  shows "sorted_wrt (<) (all_of (map (candidates docs) subs))
    \<and> set (all_of (map (candidates docs) subs)) = {d. list_all (on_doc (\<lambda>t. d \<in> set (docs t))) subs}"
  using all_of_docs [of "map (candidates docs) subs"] assms by (auto simp: lists_documents_def list_all_iff)

text \<open>
  \<^bold>\<open>C32.\<close>  The candidates of an interval query are exactly the documents it stands on.  From the lists of documents of each word,
  each in increasing order, the merging gives, in increasing order and once each, the documents in which the rule's parts are
  present as its conjunctions, disjunctions and differences ask, when no conjunction in it is empty.
\<close>

theorem candidates_exact:
  assumes "\<forall>t. sorted_wrt (<) (docs t)" and "no_empty s"
  shows "sorted_wrt (<) (candidates docs s) \<and> set (candidates docs s) = {d. on_doc (\<lambda>t. d \<in> set (docs t)) s}"
  using assms(2)
proof (induction s rule: no_empty.induct)
  case (1 subs lifts)
  then show ?case using any_of_docs [of "map (candidates docs) subs"] by (auto simp: list_all_iff list_ex_iff)
next
  case (2 subs)
  then show ?case using lists_all [of subs docs] by (auto simp: lists_documents_def list_all_iff)
next
  case (3 subs)
  then show ?case using lists_all [of subs docs] by (auto simp: lists_documents_def list_all_iff)
next
  case (4 subs)
  then show ?case using lists_all [of subs docs] by (auto simp: lists_documents_def list_all_iff)
next
  case (10 a b)
  then show ?case using lists_all [of "[a, b]" docs] by (simp add: lists_documents_def)
next
  case (11 a b)
  then show ?case using lists_all [of "[a, b]" docs] by (simp add: lists_documents_def)
next
  case (12 a b)
  then show ?case using lists_all [of "[a, b]" docs] by (simp add: lists_documents_def)
next
  case (16 ts)
  then show ?case using any_of_docs [of "map docs ts"] assms(1) by (auto simp: list_ex_iff)
qed (use assms(1) in simp_all)

theorem candidates_exact_witness:
  "candidates (\<lambda>t. if t = ''a'' then [1, 3, 5] else [3, 4, 5]) (OrderedS [TermS ''a'', TermS ''b'']) = [3, 5]
   \<and> set (candidates (\<lambda>t. if t = ''a'' then [1, 3, 5] else [3, 4, 5]) (OrderedS [TermS ''a'', TermS ''b'']))
     = {d. d \<in> {1, 3, 5} \<and> d \<in> {3, 4, 5}}"
  using candidates_exact [of "\<lambda>t. if t = ''a'' then [1, 3, 5] else [3, 4, 5]" "OrderedS [TermS ''a'', TermS ''b'']"]
  by (simp add: all_of_def) fastforce

end
