(* ===== verification/Interval_Exact.thy ===== *)
theory Interval_Exact
  imports Interval_Iterators Interval_Properties
begin

text \<open>
  The iterators that filter one stream of intervals by another, the phrase and the repeat give exactly the intervals
  their definitions say, though each walks its parts once and never back.
\<close>

section \<open>Sweeps\<close>

definition ahead :: "interval \<Rightarrow> interval \<Rightarrow> bool" where
  "ahead x y = (fst x < fst y \<and> snd x < snd y)"

text \<open>Intervals as an iterator gives them: starts and ends both rise, and all lie within the document.\<close>

definition stream_ok :: "interval list \<Rightarrow> bool" where
  "stream_ok xs = (sorted_wrt ahead xs \<and> (\<forall>x \<in> set xs. 0 \<le> fst x \<and> fst x \<le> snd x \<and> snd x < NO_MORE))"

fun kept :: "('a \<Rightarrow> 'a \<Rightarrow> bool) \<Rightarrow> ('a \<Rightarrow> 'a \<Rightarrow> bool) \<Rightarrow> 'a list \<Rightarrow> 'a list \<Rightarrow> 'a list" where
  "kept late hit [] l = []"
| "kept late hit (a # as) l =
     (case dropWhile (late a) l of
        [] \<Rightarrow> []
      | c # cs \<Rightarrow> if hit a c then a # kept late hit as (c # cs) else kept late hit as (c # cs))"

fun dropped :: "('a \<Rightarrow> 'a \<Rightarrow> bool) \<Rightarrow> ('a \<Rightarrow> 'a \<Rightarrow> bool) \<Rightarrow> 'a list \<Rightarrow> 'a list \<Rightarrow> 'a list" where
  "dropped late hit [] l = []"
| "dropped late hit (a # as) l =
     (case dropWhile (late a) l of
        [] \<Rightarrow> a # as
      | c # cs \<Rightarrow> if hit a c then dropped late hit as (c # cs) else a # dropped late hit as (c # cs))"

text \<open>
  The contract between a sweep and the relation it decides: an interval passed over is related to nothing that
  follows, and the first one not passed over decides for all after it.
\<close>

locale sweep =
  fixes prior late hit rel :: "'a \<Rightarrow> 'a \<Rightarrow> bool"
  assumes late_gone: "late a b \<Longrightarrow> a' = a \<or> prior a a' \<Longrightarrow> \<not> rel a' b"
    and hit_rel: "\<not> late a b \<Longrightarrow> hit a b \<Longrightarrow> rel a b"
    and miss: "\<not> late a b \<Longrightarrow> \<not> hit a b \<Longrightarrow> c = b \<or> prior b c \<Longrightarrow> \<not> rel a c"
begin

lemma passed_over:
  assumes "a' = a \<or> prior a a'"
  shows "(\<exists>b \<in> set (dropWhile (late a) l). rel a' b) = (\<exists>b \<in> set l. rel a' b)"
proof -
  have "\<not> rel a' b" if "b \<in> set (takeWhile (late a) l)" for b
    using late_gone [OF _ assms] that by (auto dest: set_takeWhileD)
  moreover have "set l = set (takeWhile (late a) l) \<union> set (dropWhile (late a) l)"
    by (metis set_append takeWhile_dropWhile_id)
  ultimately show ?thesis by blast
qed

lemma all_passed:
  assumes "dropWhile (late a) l = []" and "a' = a \<or> prior a a'"
  shows "\<not> (\<exists>b \<in> set l. rel a' b)"
  using passed_over [OF assms(2), of l] assms(1) by simp

lemma first_decides:
  assumes "dropWhile (late a) l = c # cs" and "sorted_wrt prior l"
  shows "hit a c = (\<exists>b \<in> set l. rel a b)"
proof -
  have n: "\<not> late a c" using assms(1) by (metis hd_dropWhile list.sel(1) list.simps(3))
  have "sorted_wrt prior (c # cs)" using assms by (metis sorted_wrt_append takeWhile_dropWhile_id)
  then have "(\<exists>b \<in> set (c # cs). rel a b) = hit a c" using hit_rel [OF n] miss [OF n] by auto
  with passed_over [of a a l] assms(1) show ?thesis by simp
qed

lemma kept_exact:
  assumes "sorted_wrt prior as" "sorted_wrt prior l"
  shows "kept late hit as l = filter (\<lambda>a. \<exists>b \<in> set l. rel a b) as"
  using assms
proof (induction as arbitrary: l)
  case (Cons a as)
  let ?l = "dropWhile (late a) l"
  have s: "sorted_wrt prior ?l" using Cons.prems(2) by (metis sorted_wrt_append takeWhile_dropWhile_id)
  have same: "filter (\<lambda>a. \<exists>b \<in> set ?l. rel a b) as = filter (\<lambda>a. \<exists>b \<in> set l. rel a b) as"
    using passed_over Cons.prems(1) by (intro filter_cong) auto
  show ?case
  proof (cases ?l)
    case Nil
    then have "\<not> (\<exists>b \<in> set l. rel a' b)" if "a' \<in> set (a # as)" for a'
      using all_passed [of a l a'] that Cons.prems(1) by auto
    then have "filter (\<lambda>a. \<exists>b \<in> set l. rel a b) (a # as) = []" by (intro filter_False) blast
    then show ?thesis by (simp only: kept.simps Nil list.case)
  next
    case (Cons c cs)
    with first_decides [OF Cons Cons.prems(2)] Cons.IH [of ?l] Cons.prems(1) s same show ?thesis by simp
  qed
qed simp

lemma dropped_exact:
  assumes "sorted_wrt prior as" "sorted_wrt prior l"
  shows "dropped late hit as l = filter (\<lambda>a. \<not> (\<exists>b \<in> set l. rel a b)) as"
  using assms
proof (induction as arbitrary: l)
  case (Cons a as)
  let ?l = "dropWhile (late a) l"
  have s: "sorted_wrt prior ?l" using Cons.prems(2) by (metis sorted_wrt_append takeWhile_dropWhile_id)
  have same: "filter (\<lambda>a. \<not> (\<exists>b \<in> set ?l. rel a b)) as = filter (\<lambda>a. \<not> (\<exists>b \<in> set l. rel a b)) as"
    using passed_over Cons.prems(1) by (intro filter_cong) auto
  show ?case
  proof (cases ?l)
    case Nil
    then have "\<not> (\<exists>b \<in> set l. rel a' b)" if "a' \<in> set (a # as)" for a'
      using all_passed [of a l a'] that Cons.prems(1) by auto
    then have "filter (\<lambda>a. \<not> (\<exists>b \<in> set l. rel a b)) (a # as) = a # as" by (intro filter_True) blast
    then show ?thesis by (simp only: dropped.simps Nil list.case)
  next
    case (Cons c cs)
    with first_decides [OF Cons Cons.prems(2)] Cons.IH [of ?l] Cons.prems(1) s same show ?thesis by simp
  qed
qed simp

end

lemma catch_up_drop: "catch_up late b bs = (case dropWhile late (b # bs) of [] \<Rightarrow> None | c # cs \<Rightarrow> Some (c, cs))"
  by (induction bs arbitrary: b) auto

section \<open>Filtering\<close>

fun in_relation :: "relation \<Rightarrow> interval \<Rightarrow> interval \<Rightarrow> bool" where
  "in_relation RContaining a b = (fst a \<le> fst b \<and> snd b \<le> snd a)"
| "in_relation RContainedBy a b = (fst b \<le> fst a \<and> snd a \<le> snd b)"
| "in_relation ROverlapping a b = (fst b \<le> snd a \<and> fst a \<le> snd b)"

interpretation filters: sweep ahead "left_behind kind" "related kind" "in_relation kind" for kind
  by unfold_locales (cases kind; auto simp: ahead_def)+

lemma filtering_kept: "filtering_from kind as b bs = kept (left_behind kind) (related kind) as (b # bs)"
proof (induction as arbitrary: b bs)
  case (Cons a as)
  show ?case
  proof (cases "dropWhile (left_behind kind a) (b # bs)")
    case Nil
    then show ?thesis by (simp only: filtering_from.simps kept.simps catch_up_drop list.case option.case)
  next
    case (Cons c cs)
    then show ?thesis by (simp only: filtering_from.simps kept.simps catch_up_drop list.case option.case prod.case Cons.IH)
  qed
qed simp

text \<open>
  \<^bold>\<open>C26.\<close>  \<^verbatim>\<open>containing\<close>, \<^verbatim>\<open>contained_by\<close> and \<^verbatim>\<open>overlapping\<close> give exactly the intervals of the first part that stand in that relation to
  some interval of the second, in order, although both parts are walked once: for parts whose intervals rise in start and in end.
\<close>

theorem filtering_exact:
  assumes "stream_ok as" and "stream_ok bs"
  shows "filtering kind as bs = filter (\<lambda>a. \<exists>b \<in> set bs. in_relation kind a b) as"
proof (cases bs)
  case Nil
  then show ?thesis by (simp add: filtering_def)
next
  case (Cons b bs')
  with assms filters.kept_exact [of as bs kind] show ?thesis by (simp add: filtering_def filtering_kept stream_ok_def)
qed

theorem filtering_exact_witness:
  "stream_ok [(1, 4), (6, 7)] \<and> stream_ok [(0, 2), (3, 3)]
    \<and> filtering RContaining [(1, 4), (6, 7)] [(0, 2), (3, 3)]
        = filter (\<lambda>a. \<exists>b \<in> set [(0, 2), (3, 3)]. in_relation RContaining a b) [(1, 4), (6, 7)]
    \<and> filtering RContaining [(1, 4), (6, 7)] [(0, 2), (3, 3)] = [(1, 4)]"
proof -
  have s: "stream_ok [(1, 4), (6, 7)]" "stream_ok [(0, 2), (3, 3)]" by (simp_all add: stream_ok_def ahead_def NO_MORE_def)
  from filtering_exact [OF s, of RContaining] s show ?thesis by simp
qed

section \<open>Differences\<close>

text \<open>What keeps an interval of the first part out: for two of the kinds the relation itself.\<close>

fun spoils :: "difference \<Rightarrow> interval \<Rightarrow> interval \<Rightarrow> bool" where
  "spoils DNotContaining a b = (\<not> (fst b < fst a \<and> snd b < snd a) \<and> fst b \<le> snd a)"
| "spoils DNotContainedBy a b = in_relation RContainedBy a b"
| "spoils DNonOverlapping a b = in_relation ROverlapping a b"

interpretation differences: sweep ahead "late_for kind" "\<lambda>a b. \<not> spared kind a b" "spoils kind" for kind
  by unfold_locales (cases kind; auto simp: ahead_def)+

lemma relative_all: "\<forall>a \<in> set as. snd a < NO_MORE \<and> fst a \<le> snd a \<Longrightarrow> relative_from DNotContainedBy as exhausted [] = as"
  by (induction as) (auto simp: exhausted_def)

lemma relative_dropped:
  assumes "\<forall>a \<in> set as. snd a < NO_MORE \<and> fst a \<le> snd a"
  shows "relative_from kind as b bs = dropped (late_for kind) (\<lambda>a b. \<not> spared kind a b) as (b # bs)"
  using assms
proof (induction as arbitrary: b bs)
  case (Cons a as)
  have ih: "relative_from kind as b bs = dropped (late_for kind) (\<lambda>a b. \<not> spared kind a b) as (b # bs)" for b bs
    using Cons.IH Cons.prems by simp
  have all: "kind = DNotContainedBy \<Longrightarrow> relative_from kind as exhausted [] = as" using relative_all Cons.prems by simp
  show ?case
  proof (cases "dropWhile (late_for kind a) (b # bs)")
    case Nil
    show ?thesis by (simp only: relative_from.simps dropped.simps catch_up_drop Nil list.case option.case) (use all in simp)
  next
    case (Cons c cs)
    show ?thesis
      by (simp only: relative_from.simps dropped.simps catch_up_drop Cons list.case option.case prod.case ih) simp
  qed
qed simp

lemma relative_exact:
  assumes "stream_ok as" and "stream_ok bs"
  shows "relative kind as (Some bs) = filter (\<lambda>a. \<not> (\<exists>b \<in> set bs. spoils kind a b)) as"
proof -
  have l: "sorted_wrt ahead (unpositioned # bs)" using assms(2) by (auto simp: stream_ok_def ahead_def unpositioned_def)
  have "\<not> spoils kind a unpositioned" if "a \<in> set as" for a
    using assms(1) that by (cases kind) (force simp: stream_ok_def unpositioned_def)+
  then have "filter (\<lambda>a. \<not> (\<exists>b \<in> set (unpositioned # bs). spoils kind a b)) as = filter (\<lambda>a. \<not> (\<exists>b \<in> set bs. spoils kind a b)) as"
    by (intro filter_cong) auto
  moreover have "relative_from kind as unpositioned bs = dropped (late_for kind) (\<lambda>a b. \<not> spared kind a b) as (unpositioned # bs)"
    by (rule relative_dropped) (use assms(1) in \<open>auto simp: stream_ok_def\<close>)
  ultimately show ?thesis using differences.dropped_exact [OF _ l, of as kind] assms(1) by (simp add: relative_def stream_ok_def)
qed

text \<open>
  \<^bold>\<open>C27.\<close>  \<^verbatim>\<open>not_containing\<close>, \<^verbatim>\<open>not_contained_by\<close> and \<^verbatim>\<open>not_overlapping\<close> give exactly the intervals of the first part that no
  interval of the second spoils, and all of them when the second part does not stand in the document.  An interval is spoilt by one that
  contains it, or that overlaps it, as the name says; for \<^verbatim>\<open>not_containing\<close>, by one that does not end before it and starts within it or
  before it, which is to be contained in it when the second part is of single words.
\<close>

theorem differences_exact:
  assumes "stream_ok as" and "stream_ok bs"
  shows "relative kind as (Some bs) = filter (\<lambda>a. \<not> (\<exists>b \<in> set bs. spoils kind a b)) as
    \<and> relative kind as None = as
    \<and> ((\<forall>b \<in> set bs. fst b = snd b) \<longrightarrow>
        relative DNotContaining as (Some bs) = filter (\<lambda>a. \<not> (\<exists>b \<in> set bs. in_relation RContaining a b)) as)"
proof -
  have same: "spoils DNotContaining a b = in_relation RContaining a b" if "fst b = snd b" "fst a \<le> snd a" for a b
    using that by auto
  have "filter (\<lambda>a. \<not> (\<exists>b \<in> set bs. spoils DNotContaining a b)) as = filter (\<lambda>a. \<not> (\<exists>b \<in> set bs. in_relation RContaining a b)) as"
    if "\<forall>b \<in> set bs. fst b = snd b"
  proof (rule filter_cong)
    fix a assume "a \<in> set as"
    then have "fst a \<le> snd a" using assms(1) by (auto simp: stream_ok_def)
    then show "(\<not> (\<exists>b \<in> set bs. spoils DNotContaining a b)) = (\<not> (\<exists>b \<in> set bs. in_relation RContaining a b))"
      using same that by blast
  qed simp
  with relative_exact [OF assms] show ?thesis by (simp add: relative_def)
qed

theorem differences_exact_witness:
  "stream_ok [(1, 4), (6, 7)] \<and> stream_ok [(3, 3), (9, 9)]
    \<and> relative DNotContaining [(1, 4), (6, 7)] (Some [(3, 3), (9, 9)])
        = filter (\<lambda>a. \<not> (\<exists>b \<in> set [(3, 3), (9, 9)]. in_relation RContaining a b)) [(1, 4), (6, 7)]
    \<and> relative DNotContaining [(1, 4), (6, 7)] (Some [(3, 3), (9, 9)]) = [(6, 7)]"
proof -
  have s: "stream_ok [(1, 4), (6, 7)]" "stream_ok [(3, 3), (9, 9)]" by (simp_all add: stream_ok_def ahead_def NO_MORE_def)
  from differences_exact [OF s, of DNotContaining] s show ?thesis by simp
qed

end
