(* ===== verification/Interval_Phrases.thy ===== *)
theory Interval_Phrases
  imports Interval_Exact
begin

text \<open>
  The phrase and the repeat give exactly the intervals their definitions say: a phrase, one interval for each way its
  parts stand side by side; a repeat, one for each window of consecutive intervals.
\<close>

section \<open>Parts side by side\<close>

text \<open>\<open>z\<close> is where the parts end when each begins just after the one before it ends, the first after \<open>e\<close>.\<close>

fun follows :: "int \<Rightarrow> interval list list \<Rightarrow> int \<Rightarrow> bool" where
  "follows e [] z = (z = e)"
| "follows e (B # Bs) z = (\<exists>b \<in> set B. fst b = e + 1 \<and> follows (snd b) Bs z)"

declare follows.simps(2) [simp del]

lemmas follows_Cons = follows.simps(2)

abbreviation rising :: "interval list list \<Rightarrow> bool" where
  "rising Bs \<equiv> \<forall>B \<in> set Bs. sorted_wrt ahead B"

lemma rising_pick:
  assumes "sorted_wrt ahead B" "b \<in> set B" "c \<in> set B"
  shows "fst b = fst c \<Longrightarrow> b = c" and "fst b < fst c \<Longrightarrow> snd b < snd c"
  using assms by (induction B) (auto simp: ahead_def)

lemma follows_mono: "rising Bs \<Longrightarrow> e < e' \<Longrightarrow> follows e Bs z \<Longrightarrow> follows e' Bs z' \<Longrightarrow> z < z'"
proof (induction Bs arbitrary: e e')
  case (Cons B Bs)
  from Cons.prems(3, 4) obtain b c where b: "b \<in> set B" "fst b = e + 1" "follows (snd b) Bs z"
    and c: "c \<in> set B" "fst c = e' + 1" "follows (snd c) Bs z'" by (auto simp: follows_Cons)
  from rising_pick(2) [OF _ b(1) c(1)] Cons.prems(1, 2) b(2) c(2) have "snd b < snd c" by simp
  with Cons.IH [OF _ _ b(3) c(3)] Cons.prems(1) show ?case by simp
qed simp

lemma follows_unique: "rising Bs \<Longrightarrow> follows e Bs z \<Longrightarrow> follows e Bs z' \<Longrightarrow> z = z'"
proof (induction Bs arbitrary: e)
  case (Cons B Bs)
  from Cons.prems(2, 3) obtain b c where b: "b \<in> set B" "fst b = e + 1" "follows (snd b) Bs z"
    and c: "c \<in> set B" "fst c = e + 1" "follows (snd c) Bs z'" by (auto simp: follows_Cons)
  from rising_pick(1) [OF _ b(1) c(1)] Cons.prems(1) b(2) c(2) have "b = c" by simp
  with Cons.IH [OF _ b(3)] c(3) Cons.prems(1) show ?case by simp
qed simp

section \<open>The chain of parts\<close>

abbreviation left :: "(interval \<times> interval list) list \<Rightarrow> interval list list" where
  "left subs \<equiv> map (\<lambda>s. fst s # snd s) subs"

abbreviation last_end :: "int \<Rightarrow> (interval \<times> interval list) list \<Rightarrow> int" where
  "last_end e subs \<equiv> (if subs = [] then e else snd (fst (last subs)))"

text \<open>What a part has left once every interval that begins by \<open>e\<close> is passed over.\<close>

definition after_end :: "int \<Rightarrow> interval list \<Rightarrow> interval list" where
  "after_end e l = dropWhile (\<lambda>b. fst b \<le> e) l"

lemma after_end_follows:
  assumes "e \<le> e'"
  shows "follows e' (after_end e l # Bs) z = follows e' (l # Bs) z"
proof -
  have "fst b \<noteq> e' + 1" if "b \<in> set (takeWhile (\<lambda>b. fst b \<le> e) l)" for b
    using set_takeWhileD [OF that] assms by auto
  moreover have "set l = set (takeWhile (\<lambda>b. fst b \<le> e) l) \<union> set (after_end e l)"
    unfolding after_end_def by (metis set_append takeWhile_dropWhile_id)
  ultimately show ?thesis unfolding follows_Cons by blast
qed

lemma after_end_sorted: "sorted_wrt ahead l \<Longrightarrow> sorted_wrt ahead (after_end e l)"
  unfolding after_end_def by (metis sorted_wrt_append takeWhile_dropWhile_id)

lemma after_end_first: "after_end e l = c # cs \<Longrightarrow> e < fst c"
  unfolding after_end_def by (metis hd_dropWhile linorder_not_less list.sel(1) list.simps(3))

lemma sorted_first: "sorted_wrt ahead (c # cs) \<Longrightarrow> b \<in> set (c # cs) \<Longrightarrow> fst c \<le> fst b \<and> snd c \<le> snd b"
  by (auto simp: ahead_def)

lemma chain_cases:
  obtains (empty) "subs = []" "chain e subs = Some (True, [])"
  | (short) x xs ss where "subs = (x, xs) # ss" "after_end e (x # xs) = []" "chain e subs = None"
  | (gap) x xs ss c cs where "subs = (x, xs) # ss" "after_end e (x # xs) = c # cs" "e + 1 < fst c"
      "chain e subs = Some (False, (c, cs) # ss)"
  | (step) x xs ss c cs where "subs = (x, xs) # ss" "after_end e (x # xs) = c # cs" "fst c = e + 1"
      "chain e subs = map_option (\<lambda>(whole, subs). (whole, (c, cs) # subs)) (chain (snd c) ss)"
proof (cases subs)
  case Nil
  then show ?thesis using empty by simp
next
  case (Cons s ss)
  then obtain x xs where s: "subs = (x, xs) # ss" by (cases s) simp
  show ?thesis
  proof (cases "after_end e (x # xs)")
    case Nil
    have "chain e subs = None" by (simp only: s chain.simps catch_up_drop Nil [unfolded after_end_def] list.case option.case)
    with short s Nil show ?thesis by blast
  next
    case (Cons c cs)
    have "chain e subs = (if fst c = e + 1 then map_option (\<lambda>(whole, subs). (whole, (c, cs) # subs)) (chain (snd c) ss)
        else Some (False, (c, cs) # ss))"
      by (simp only: s chain.simps catch_up_drop Cons [unfolded after_end_def] list.case option.case prod.case)
    with after_end_first [OF Cons] gap [OF s Cons] step [OF s Cons] show ?thesis
      by (cases "fst c = e + 1") auto
  qed
qed

text \<open>When a part is exhausted, no later interval of the first part begins a phrase either.\<close>

lemma chain_none: "chain e subs = None \<Longrightarrow> rising (left subs) \<Longrightarrow> e \<le> e' \<Longrightarrow> \<not> follows e' (left subs) z"
proof (induction subs arbitrary: e e')
  case (Cons s ss)
  show ?case
  proof (cases e "s # ss" rule: chain_cases)
    case (short x xs)
    with after_end_follows [OF Cons.prems(3), of "x # xs" "left ss" z] show ?thesis by (simp add: follows_Cons [of _ "[]"])
  next
    case (step x xs _ c cs)
    then have s: "s = (x, xs)" "chain (snd c) ss = None" using Cons.prems(1) by auto
    have "sorted_wrt ahead (c # cs)" using after_end_sorted [of "x # xs" e] Cons.prems(2) step s by auto
    then have "\<not> follows (snd b) (left ss) z" if "b \<in> set (c # cs)" for b
      using Cons.IH [OF s(2)] Cons.prems(2) sorted_first [of c cs b] that by simp
    then have "\<not> follows e' ((c # cs) # left ss) z" unfolding follows_Cons by blast
    with after_end_follows [OF Cons.prems(3), of "x # xs" "left ss" z] step s show ?thesis by simp
  qed (use Cons.prems in auto)
qed simp

lemma chain_some:
  assumes "chain e subs = Some (whole, subs')" "rising (left subs)"
  shows "length subs' = length subs \<and> rising (left subs')
    \<and> (\<forall>e' z. e < e' \<longrightarrow> follows e' (left subs') z = follows e' (left subs) z)
    \<and> (if whole then follows e (left subs) (last_end e subs') else (\<forall>z. \<not> follows e (left subs) z))"
  using assms
proof (induction subs arbitrary: e whole subs')
  case (Cons s ss)
  show ?case
  proof (cases e "s # ss" rule: chain_cases)
    case (gap x xs _ c cs)
    have sorted: "sorted_wrt ahead (c # cs)" using after_end_sorted [of "x # xs" e] Cons.prems(2) gap by auto
    have "\<not> follows e ((c # cs) # left ss) z" for z
      using sorted_first [OF sorted] gap(3) unfolding follows_Cons by (metis linorder_not_less)
    then have n: "\<not> follows e ((x # xs) # left ss) z" for z
      using after_end_follows [of e e "x # xs" "left ss" z] gap(2) by simp
    have f: "follows e' ((c # cs) # left ss) z = follows e' ((x # xs) # left ss) z" if "e < e'" for e' z
      using after_end_follows [of e e' "x # xs" "left ss" z] gap(2) that by simp
    from Cons.prems gap have r: "whole = False" "subs' = (c, cs) # ss" "s = (x, xs)" by auto
    from n f sorted Cons.prems(2) show ?thesis unfolding r by simp
  next
    case (step x xs _ c cs)
    have sorted: "sorted_wrt ahead (c # cs)" using after_end_sorted [of "x # xs" e] Cons.prems(2) step by auto
    have "map_option (\<lambda>(whole, subs). (whole, (c, cs) # subs)) (chain (snd c) ss) = Some (whole, subs')"
      using step(1, 4) Cons.prems(1) by simp
    then obtain t where r: "chain (snd c) ss = Some (whole, t)" "subs' = (c, cs) # t" by auto
    have s: "s = (x, xs)" using step(1) by simp
    have up: "rising (left ss)" using Cons.prems(2) by simp
    note ih = Cons.IH [OF r(1) up]
    have f: "follows e' ((c # cs) # left t) z = follows e' ((x # xs) # left ss) z" if "e < e'" for e' z
    proof -
      have "follows e' ((c # cs) # left t) z = follows e' ((c # cs) # left ss) z"
      proof -
        have "follows (snd b) (left t) z = follows (snd b) (left ss) z" if "b \<in> set (c # cs)" "fst b = e' + 1" for b
          using ih rising_pick(2) [OF sorted _ that(1), of c] step(3) that(2) \<open>e < e'\<close> by simp
        then show ?thesis unfolding follows_Cons by blast
      qed
      also have "\<dots> = follows e' ((x # xs) # left ss) z"
        using after_end_follows [of e e' "x # xs" "left ss" z] step(2) that by simp
      finally show ?thesis .
    qed
    have g: "follows e ((x # xs) # left ss) z = follows (snd c) (left ss) z" for z
    proof -
      have "b = c" if "b \<in> set (c # cs)" "fst b = e + 1" for b using rising_pick(1) [OF sorted that(1), of c] step(3) that(2) by simp
      then have "follows e ((c # cs) # left ss) z = follows (snd c) (left ss) z"
        unfolding follows_Cons using step(3) list.set_intros(1) [of c cs] by blast
      then show ?thesis using after_end_follows [of e e "x # xs" "left ss" z] step(2) by simp
    qed
    have "follows e' (left subs') z = follows e' (left (s # ss)) z" if "e < e'" for e' z using f [OF that] by (simp add: r s)
    moreover have "if whole then follows e (left (s # ss)) (last_end e subs') else (\<forall>z. \<not> follows e (left (s # ss)) z)"
    proof (cases whole)
      case True
      then have "follows (snd c) (left ss) (last_end (snd c) t)" using ih by simp
      with True show ?thesis by (cases "t = []") (simp_all add: r s g)
    next
      case False
      then have "\<forall>z. \<not> follows (snd c) (left ss) z" using ih by simp
      with False show ?thesis by (simp add: s g)
    qed
    moreover have "length subs' = length (s # ss) \<and> rising (left subs')" using ih sorted by (simp add: r)
    ultimately show ?thesis by blast
  qed (use Cons.prems in auto)
qed simp

section \<open>Phrases\<close>

lemma starts_insert: "{(fst a', z) |a' z. a' \<in> insert a S \<and> P a' z} = {(fst a, z) |z. P a z} \<union> {(fst a', z) |a' z. a' \<in> S \<and> P a' z}"
  by blast

lemma block_from_exact:
  assumes "sorted_wrt ahead as" "rising (left subs)"
  shows "sorted_wrt ahead (block_from as subs)
    \<and> set (block_from as subs) = {(fst a, z) |a z. a \<in> set as \<and> follows (snd a) (left subs) z}"
  using assms
proof (induction as arbitrary: subs)
  case (Cons a as)
  have later: "ahead a a'" if "a' \<in> set as" for a' using Cons.prems(1) that by auto
  show ?case
  proof (cases "chain (snd a) subs")
    case None
    then have "\<not> follows (snd a') (left subs) z" if "a' \<in> set (a # as)" for a' z
    proof -
      have "snd a \<le> snd a'" using that later [of a'] by (auto simp: ahead_def)
      then show ?thesis by (rule chain_none [OF None Cons.prems(2)])
    qed
    then have "{(fst a', z) |a' z. a' \<in> set (a # as) \<and> follows (snd a') (left subs) z} = {}" by blast
    then show ?thesis using None by simp
  next
    case (Some r)
    then obtain whole t where r: "chain (snd a) subs = Some (whole, t)" by (cases r) auto
    note c = chain_some [OF r Cons.prems(2)]
    have "follows (snd a') (left t) z = follows (snd a') (left subs) z" if "a' \<in> set as" for a' z
      using c later [OF that] by (simp add: ahead_def)
    moreover have i: "sorted_wrt ahead (block_from as t)
      \<and> set (block_from as t) = {(fst a', z) |a' z. a' \<in> set as \<and> follows (snd a') (left t) z}"
      using Cons.IH [of t] Cons.prems(1) c by simp
    ultimately have ih: "set (block_from as t) = {(fst a', z) |a' z. a' \<in> set as \<and> follows (snd a') (left subs) z}" by blast
    define e where "e = last_end (snd a) t"
    have step: "block_from (a # as) subs = (if whole then (fst a, e) # block_from as t else block_from as t)" by (simp add: r e_def)
    show ?thesis
    proof (cases whole)
      case True
      then have f: "follows (snd a) (left subs) e" using c by (simp add: e_def)
      then have one: "follows (snd a) (left subs) z = (z = e)" for z using follows_unique [OF Cons.prems(2)] by blast
      have "ahead (fst a, e) x" if "x \<in> set (block_from as t)" for x
      proof -
        from that obtain a' z where x: "x = (fst a', z)" "a' \<in> set as" "follows (snd a') (left subs) z" unfolding ih by blast
        with later [OF x(2)] follows_mono [OF Cons.prems(2) _ f x(3)] show ?thesis by (simp add: ahead_def)
      qed
      moreover have "{(fst a', z) |a' z. a' \<in> set (a # as) \<and> follows (snd a') (left subs) z} = insert (fst a, e) (set (block_from as t))"
        unfolding ih set_simps(2) starts_insert one by simp
      ultimately show ?thesis using i unfolding step if_P [OF True] sorted_wrt.simps(2) list.set(2) by blast
    next
      case False
      then have "\<not> follows (snd a) (left subs) z" for z using c by simp
      then have "{(fst a', z) |a' z. a' \<in> set (a # as) \<and> follows (snd a') (left subs) z} = set (block_from as t)" unfolding ih by auto
      then show ?thesis using i unfolding step if_not_P [OF False] by blast
    qed
  qed
qed simp

lemma follows_bounds:
  "\<forall>B \<in> set Bs. stream_ok B \<Longrightarrow> e < NO_MORE \<Longrightarrow> follows e Bs z \<Longrightarrow> e \<le> z \<and> z < NO_MORE"
proof (induction Bs arbitrary: e)
  case (Cons B Bs)
  then obtain b where b: "b \<in> set B" "fst b = e + 1" "follows (snd b) Bs z" by (auto simp: follows_Cons)
  with Cons.prems(1) have "fst b \<le> snd b" "snd b < NO_MORE" by (auto simp: stream_ok_def)
  with Cons.IH [OF _ _ b(3)] Cons.prems(1) b(2) show ?case by simp
qed simp

lemma follows_unpositioned: "0 \<le> e \<Longrightarrow> follows e (left (map (Pair unpositioned) Bs)) z = follows e Bs z" if "\<forall>B \<in> set Bs. stream_ok B"
  using that
proof (induction Bs arbitrary: e)
  case (Cons B Bs)
  have "0 \<le> snd b" if "b \<in> set B" for b using Cons.prems(2) that by (force simp: stream_ok_def)
  with Cons show ?case by (auto simp: follows_Cons unpositioned_def)
qed simp

text \<open>
  \<^bold>\<open>C29.\<close>  For parts whose intervals rise in start and in end, a phrase gives, in order, exactly one interval for each way its parts stand side by
  side in the document: from the start of an interval of the first part to the end of one of the last, each part beginning at the place after
  the end of the part before.  So it does though every part is walked once.
\<close>

theorem phrase_exact:
  assumes "stream_ok A" and "\<forall>B \<in> set Bs. stream_ok B"
  shows "stream_ok (block (A # Bs)) \<and> set (block (A # Bs)) = {(fst a, z) |a z. a \<in> set A \<and> follows (snd a) Bs z}"
proof -
  let ?s = "map (Pair unpositioned) Bs"
  have "rising (left ?s)" using assms(2) by (force simp: stream_ok_def ahead_def unpositioned_def)
  with block_from_exact [of A ?s] assms(1) have b: "sorted_wrt ahead (block (A # Bs))"
    "set (block (A # Bs)) = {(fst a, z) |a z. a \<in> set A \<and> follows (snd a) (left ?s) z}"
    by (simp_all add: block_def stream_ok_def)
  have a: "0 \<le> fst a \<and> fst a \<le> snd a \<and> snd a < NO_MORE" if "a \<in> set A" for a using assms(1) that by (simp add: stream_ok_def)
  then have "follows (snd a) (left ?s) z = follows (snd a) Bs z" if "a \<in> set A" for a z
    using follows_unpositioned [OF assms(2), of "snd a" z] a [OF that] by simp
  with b(2) have s: "set (block (A # Bs)) = {(fst a, z) |a z. a \<in> set A \<and> follows (snd a) Bs z}" by blast
  have "0 \<le> fst x \<and> fst x \<le> snd x \<and> snd x < NO_MORE" if "x \<in> set (block (A # Bs))" for x
    using that a follows_bounds [OF assms(2)] unfolding s by force
  with b(1) s show ?thesis by (simp add: stream_ok_def)
qed

lemma follows_words:
  "follows e (map term_intervals Ps) z = (z = e + int (length Ps) \<and> (\<forall>i < length Ps. e + 1 + int i \<in> set (Ps ! i)))"
proof (induction Ps arbitrary: e)
  case (Cons P Ps)
  have "follows e (map term_intervals (P # Ps)) z = (e + 1 \<in> set P \<and> follows (e + 1) (map term_intervals Ps) z)"
    by (auto simp: follows_Cons term_intervals_def)
  then show ?case by (auto simp: Cons.IH All_less_Suc2 algebra_simps)
qed simp

theorem phrase_exact_witness:
  "stream_ok (term_intervals [0, 4, 7]) \<and> stream_ok (term_intervals [1, 2, 8])
    \<and> block (map term_intervals [[0, 4, 7], [1, 2, 8]]) = [(0, 1), (7, 8)]
    \<and> set (block (map term_intervals [[0, 4, 7], [1, 2, 8]]))
        = {(p, p + 1) |p. p \<in> {0, 4, 7} \<and> p + 1 \<in> {1, 2, 8 :: int}}"
proof -
  have s: "stream_ok (term_intervals [0, 4, 7])" "stream_ok (term_intervals [1, 2, 8])"
    by (simp_all add: stream_ok_def ahead_def NO_MORE_def term_intervals_def)
  have "set (block (map term_intervals [[0, 4, 7], [1, 2, 8]]))
      = {(fst a, z) |a z. a \<in> set (term_intervals [0, 4, 7]) \<and> follows (snd a) (map term_intervals [[1, 2, 8]]) z}"
    using phrase_exact [of "term_intervals [0, 4, 7]" "map term_intervals [[1, 2, 8]]"] s by simp
  also have "\<dots> = {(p, p + 1) |p. p \<in> {0, 4, 7} \<and> p + 1 \<in> {1, 2, 8 :: int}}"
    unfolding follows_words by (auto simp: term_intervals_def)
  finally have "set (block (map term_intervals [[0, 4, 7], [1, 2, 8]])) = {(p, p + 1) |p. p \<in> {0, 4, 7} \<and> p + 1 \<in> {1, 2, 8 :: int}}" .
  moreover have "block (map term_intervals [[0, 4, 7], [1, 2, 8]]) = [(0, 1), (7, 8)]"
    by (simp add: block_def term_intervals_def unpositioned_def)
  ultimately show ?thesis using s by blast
qed

section \<open>Repeats\<close>

text \<open>The ring holds the window that ends where the walk stands: its \<open>k\<close>-th interval is in the slot \<open>base + k\<close>, around the ring.\<close>

definition ring_holds :: "nat \<Rightarrow> nat \<Rightarrow> interval list \<Rightarrow> interval list \<Rightarrow> bool" where
  "ring_holds n base ring w = (length ring = n \<and> length w = n \<and> base < n \<and> (\<forall>k < n. ring ! ((base + k) mod n) = w ! k))"

lemma ring_holds_step:
  assumes "ring_holds n base ring w" "0 < n"
  shows "ring_holds n ((base + 1) mod n) (ring[(base + n) mod n := x]) (tl w @ [x])"
proof -
  have b: "base < n" "length ring = n" "length w = n" and w: "\<And>k. k < n \<Longrightarrow> ring ! ((base + k) mod n) = w ! k"
    using assms(1) by (auto simp: ring_holds_def)
  have "ring[base := x] ! (((base + 1) mod n + k) mod n) = (tl w @ [x]) ! k" if "k < n" for k
  proof (cases "k = n - 1")
    case True
    then have "base + 1 + k = base + n" using assms(2) by simp
    then have "((base + 1) mod n + k) mod n = base" using b(1) mod_add_left_eq [of "base + 1" n k] by (metis mod_add_self2 mod_less)
    with True b assms(2) show ?thesis by (simp add: nth_append)
  next
    case False
    then have k: "Suc k < n" "k < n - Suc 0" using that by simp_all
    have "(base + Suc k) mod n \<noteq> base"
      using b(1) k(1) le_mod_geq [of n "base + Suc k"] by (cases "base + Suc k < n") auto
    moreover have "((base + 1) mod n + k) mod n = (base + Suc k) mod n" by (simp add: mod_simps)
    ultimately show ?thesis using w [OF k(1)] k b by (simp add: nth_append nth_tl)
  qed
  with b assms(2) show ?thesis by (auto simp: ring_holds_def)
qed

lemma ring_reads:
  assumes "ring_holds n base ring w" "0 < n"
  shows "ring_start n base ring = fst (hd w)" "ring_end n base ring = snd (last w)"
proof -
  have b: "base < n" "length w = n" and w: "\<And>k. k < n \<Longrightarrow> ring ! ((base + k) mod n) = w ! k"
    using assms(1) by (auto simp: ring_holds_def)
  from w [of 0] b assms(2) show "ring_start n base ring = fst (hd w)" by (cases w) (simp_all add: ring_start_def)
  from w [of "n - 1"] b assms(2) show "ring_end n base ring = snd (last w)"
    by (cases w rule: rev_cases) (auto simp: ring_end_def)
qed

definition windows :: "nat \<Rightarrow> interval list \<Rightarrow> interval list" where
  "windows n xs = map (\<lambda>i. (fst (xs ! i), snd (xs ! (i + n - 1)))) [0..<length xs + 1 - n]"

lemma windows_Cons:
  assumes "length w = n" "0 < n"
  shows "windows n (w @ xs) = (fst (hd w), snd (last w)) # (case xs of [] \<Rightarrow> [] | x # xs \<Rightarrow> windows n (tl w @ x # xs))"
proof -
  have e: "[0..<length (w @ xs) + 1 - n] = 0 # map Suc [0..<length xs]" using assms(1) by (simp add: upt_conv_Cons map_Suc_upt del: upt_Suc)
  have f: "(w @ xs) ! Suc i = (tl w @ xs) ! i" for i using assms by (cases w) simp_all
  have "fst ((w @ xs) ! 0) = fst (hd w)" "snd ((w @ xs) ! (n - 1)) = snd (last w)"
    using assms by (auto simp: nth_append hd_conv_nth last_conv_nth)
  then have "windows n (w @ xs) = (fst (hd w), snd (last w)) # map (\<lambda>i. (fst ((tl w @ xs) ! i), snd ((tl w @ xs) ! (i + n - 1)))) [0..<length xs]"
    unfolding windows_def e using f [of "_ + n - 1"] f assms(2) by (simp add: comp_def)
  then show ?thesis using assms by (cases xs) (auto simp: windows_def)
qed

lemma repeat_from_windows:
  assumes "ring_holds n base ring w" "0 < n"
  shows "(fst (hd w), snd (last w)) # repeat_from n base ring xs = windows n (w @ xs)"
  using assms
proof (induction xs arbitrary: base ring w)
  case Nil
  then show ?case using windows_Cons [of w n "[]"] by (simp add: ring_holds_def)
next
  case (Cons x xs)
  note h = ring_holds_step [OF Cons.prems, of x]
  from Cons.IH [OF h Cons.prems(2)] ring_reads [OF h Cons.prems(2)] Cons.prems windows_Cons [of w n "x # xs"]
  show ?case by (simp add: ring_holds_def Let_def)
qed

text \<open>
  \<^bold>\<open>C30.\<close>  A source that must stand \<open>n\<close> times in a row gives one interval for each \<open>n\<close> consecutive intervals of it, from the start of
  the first to the end of the last, in order, though only a ring of \<open>n\<close> intervals is kept; and none when there are fewer.
\<close>

theorem repeats_windows:
  assumes "0 < n"
  shows "repeats n xs = map (\<lambda>i. (fst (xs ! i), snd (xs ! (i + n - 1)))) [0..<length xs + 1 - n]"
proof (cases "length xs < n")
  case True
  then show ?thesis by (simp add: repeats_def)
next
  case False
  then have h: "ring_holds n 0 (take n xs) (take n xs)" using assms by (simp add: ring_holds_def)
  from repeat_from_windows [OF h assms, of "drop n xs"] ring_reads [OF h assms] False show ?thesis
    by (simp add: repeats_def windows_def Let_def)
qed

theorem repeats_windows_witness:
  "(0 :: nat) < 2 \<and> repeats 2 [(1, 1), (4, 4), (9, 9)] = [(1, 4), (4, 9)]"
  using repeats_windows [of 2 "[(1, 1), (4, 4), (9, 9)]"] by (simp add: upt_rec)

end
