(* ===== verification/Interval_Disjunction.thy ===== *)
theory Interval_Disjunction
  imports Interval_Exact
begin

text \<open>
  The disjunction of \<^verbatim>\<open>src/src/query/intervals.rs\<close>: its parts, the heap of those that have intervals left, and the part it stands on.  It
  gives the shortest intervals of its parts, those that have no other within them, and each once.  A part is an interval it
  stands on and those it has still to give.  An index out of range, which would stop the program, is \<open>None\<close>.
\<close>

section \<open>The model\<close>

datatype current = CEmpty | CExhausted | CAt nat

record disjunction =
  dj_subs :: "(interval \<times> interval list) list"
  dj_queue :: "nat list"
  dj_current :: current

definition next_part :: "interval \<times> interval list \<Rightarrow> interval \<times> interval list" where
  "next_part p = (case snd p of [] \<Rightarrow> (exhausted, []) | x # xs \<Rightarrow> (x, xs))"

definition disj_new :: "interval list list \<Rightarrow> disjunction" where
  "disj_new subs = \<lparr>dj_subs = map (Pair unpositioned) subs, dj_queue = lheap_new, dj_current = CEmpty\<rparr>"

definition disj_add :: "nat \<Rightarrow> (interval \<times> interval list) list \<Rightarrow> nat list \<Rightarrow> nat list" where
  "disj_add i subs q = lheap_add (disj_less (map fst subs)) i q"

definition reset_part :: "nat \<Rightarrow> disjunction \<Rightarrow> disjunction" where
  "reset_part i d =
     (let subs = (dj_subs d)[i := next_part (dj_subs d ! i)]
      in d\<lparr>dj_subs := subs, dj_queue := disj_add i subs (dj_queue d)\<rparr>)"

definition disj_reset :: "disjunction \<Rightarrow> disjunction" where
  "disj_reset d =
     (let d = d\<lparr>dj_queue := lheap_clear (dj_queue d)\<rparr>;
          d = fold reset_part [0..<length (dj_subs d)] d
      in d\<lparr>dj_current := CEmpty\<rparr>)"

definition disj_start :: "disjunction \<Rightarrow> int" where
  "disj_start d = (case dj_current d of CEmpty \<Rightarrow> -1 | CExhausted \<Rightarrow> NO_MORE | CAt i \<Rightarrow> fst (fst (dj_subs d ! i)))"

definition disj_end :: "disjunction \<Rightarrow> int" where
  "disj_end d = (case dj_current d of CEmpty \<Rightarrow> -1 | CExhausted \<Rightarrow> NO_MORE | CAt i \<Rightarrow> snd (fst (dj_subs d ! i)))"

lemma sift_up_length [simp]: "length (sift_up le node i h) = length h"
proof (induction le node i h rule: sift_up.induct)
  case (1 le node i h)
  then show ?case by (subst sift_up.simps) (simp add: Let_def)
qed

lemma sift_down_length [simp]: "length (sift_down le node i h) = length h"
proof (induction le node i h rule: sift_down.induct)
  case (1 le node i h)
  then show ?case by (subst sift_down.simps) (simp add: Let_def)
qed

lemma lheap_add_length [simp]: "length (lheap_add le x h) = Suc (length h)"
  by (simp add: lheap_add_def Let_def)

lemma lheap_pop_top: "lheap_top h = Some x \<Longrightarrow> lheap_pop le h = (r, h') \<Longrightarrow> r = Some x \<and> length h' < length h"
  by (auto simp: lheap_top_def lheap_pop_def lheap_down_def lheap_len_def Let_def split: if_splits)

abbreviation parts_left :: "(interval \<times> interval list) list \<Rightarrow> nat" where
  "parts_left subs \<equiv> sum_list (map (\<lambda>p. length (snd p)) subs)"

lemma parts_left_next:
  assumes "i < length subs"
  shows "parts_left (subs[i := next_part (subs ! i)]) \<le> parts_left subs"
    and "snd (subs ! i) \<noteq> [] \<Longrightarrow> parts_left (subs[i := next_part (subs ! i)]) < parts_left subs"
  using assms elem_le_sum_list [of i "map (\<lambda>p. length (snd p)) subs"]
  by (auto simp: map_update sum_list_update next_part_def split: list.split)

text \<open>The loop that passes over what holds the interval \<open>(s, e)\<close> last given.\<close>

function disj_skip :: "int \<Rightarrow> int \<Rightarrow> (interval \<times> interval list) list \<Rightarrow> nat list
    \<Rightarrow> ((interval \<times> interval list) list \<times> nat list) option" where
  "disj_skip s e subs q =
     (case lheap_top q of
        None \<Rightarrow> Some (subs, q)
      | Some at \<Rightarrow>
          if length subs \<le> at then None
          else
            (let t = fst (subs ! at)
             in if \<not> (s \<ge> fst t \<and> s \<le> snd t \<and> e \<ge> fst t \<and> e \<le> snd t) then Some (subs, q)
                else
                  (let (r, q) = lheap_pop (disj_less (map fst subs)) q;
                       popped = (case r of Some p \<Rightarrow> p | None \<Rightarrow> at);
                       subs = subs[popped := next_part (subs ! popped)]
                   in if fst (fst (subs ! popped)) \<noteq> NO_MORE
                      then disj_skip s e subs (disj_add popped subs q)
                      else disj_skip s e subs q)))"
  by pat_completeness auto
termination
proof (relation "measure (\<lambda>(s, e, subs, q). parts_left subs + length q)", goal_cases)
  case (2 s e subs q at t rq r q' popped subs')
  have l: "lheap_pop (disj_less (map fst subs)) q = (r, q')" using 2 by simp
  have p: "popped = at" "length q' < length q" "at < length subs" using lheap_pop_top [OF _ l, of at] 2 by simp_all
  have n: "subs' = subs[at := next_part (subs ! at)]" "fst (fst (subs' ! at)) \<noteq> NO_MORE"
    using 2(8, 9) unfolding p(1) by simp_all
  then have "snd (subs ! at) \<noteq> []" using p(3) by (auto simp: next_part_def exhausted_def)
  with n p parts_left_next(2) [of at subs] show ?case by (simp add: disj_add_def)
next
  case (3 s e subs q at t rq r q' popped subs')
  have l: "lheap_pop (disj_less (map fst subs)) q = (r, q')" using 3 by simp
  have p: "popped = at" "length q' < length q" "at < length subs" using lheap_pop_top [OF _ l, of at] 3 by simp_all
  with 3 p parts_left_next(1) [of at subs] show ?case by simp
qed simp

declare disj_skip.simps [simp del]

definition disj_next :: "disjunction \<Rightarrow> (int \<times> disjunction) option" where
  "disj_next d =
     (case dj_current d of
        CAt _ \<Rightarrow>
          Option.bind (disj_skip (disj_start d) (disj_end d) (dj_subs d) (dj_queue d)) (\<lambda>(subs, q).
            case lheap_top q of
              None \<Rightarrow> Some (NO_MORE, d\<lparr>dj_subs := subs, dj_queue := q, dj_current := CExhausted\<rparr>)
            | Some at \<Rightarrow>
                (let d = d\<lparr>dj_subs := subs, dj_queue := q, dj_current := CAt at\<rparr> in Some (disj_start d, d)))
      | _ \<Rightarrow>
          (let d = (case lheap_top (dj_queue d) of Some at \<Rightarrow> d\<lparr>dj_current := CAt at\<rparr> | None \<Rightarrow> d)
           in Some (disj_start d, d)))"

text \<open>The intervals given until there are no more.\<close>

partial_function (option) disj_answers :: "disjunction \<Rightarrow> interval list option" where
  "disj_answers d =
     (case disj_next d of
        None \<Rightarrow> None
      | Some (n, d) \<Rightarrow>
          if n = NO_MORE then Some []
          else Option.bind (disj_answers d) (\<lambda>r. Some ((disj_start d, disj_end d) # r)))"

definition disjunction_intervals :: "interval list list \<Rightarrow> interval list option" where
  "disjunction_intervals subs = disj_answers (disj_reset (disj_new subs))"

section \<open>What is left\<close>

text \<open>The order of the heap, on intervals: a least one has no other within it.\<close>

definition sooner :: "interval \<Rightarrow> interval \<Rightarrow> bool" where
  "sooner x y = (snd x < snd y \<or> snd x = snd y \<and> fst y \<le> fst x)"

abbreviation holds :: "interval \<Rightarrow> interval \<Rightarrow> bool" where
  "holds x y \<equiv> in_relation RContaining x y"

definition shortest :: "interval set \<Rightarrow> interval set" where
  "shortest P = {x \<in> P. \<forall>y \<in> P. holds x y \<longrightarrow> y = x}"

lemma soonest_shortest: "c \<in> P \<Longrightarrow> \<forall>x \<in> P. sooner c x \<Longrightarrow> c \<in> shortest P"
  by (auto simp: shortest_def sooner_def prod_eq_iff)

lemma shortest_only: "c \<in> P \<Longrightarrow> \<forall>x \<in> P. sooner c x \<Longrightarrow> \<forall>x \<in> P. holds x c \<Longrightarrow> shortest P = {c}"
  using soonest_shortest [of c P] unfolding shortest_def by blast

lemma shortest_step:
  assumes c: "c \<in> P" "\<forall>x \<in> P. sooner c x" and P': "P' \<subseteq> P" "\<forall>x \<in> P - P'. holds x c"
    and t: "t \<in> P'" "\<forall>x \<in> P'. sooner t x" "fst c < fst t"
  shows "shortest P = insert c (shortest P')" "\<forall>x \<in> shortest P'. ahead c x"
proof -
  have ct: "snd c < snd t" using c(2) P'(1) t(1, 3) by (auto simp: sooner_def)
  have late: "ahead c x" if "x \<in> shortest P'" for x
  proof -
    have "\<not> holds x t \<or> x = t" "sooner t x" using that t by (auto simp: shortest_def)
    with ct t(3) show ?thesis by (auto simp: sooner_def ahead_def)
  qed
  then show "\<forall>x \<in> shortest P'. ahead c x" by blast
  have "c \<in> shortest P" using c by (rule soonest_shortest)
  moreover have "x \<in> shortest P" if x: "x \<in> shortest P'" for x
  proof -
    have "\<not> holds x c" using late [OF x] by (auto simp: ahead_def)
    moreover have "holds x c" if "holds x y" "holds y c" for y using that by auto
    ultimately have "y \<in> P'" if "y \<in> P" "holds x y" for y using P'(2) that by blast
    with x P'(1) show ?thesis by (auto simp: shortest_def)
  qed
  moreover have "x = c \<or> x \<in> shortest P'" if "x \<in> shortest P" for x
    using that c(1) P' by (auto simp: shortest_def)
  ultimately show "shortest P = insert c (shortest P')" by blast
qed

text \<open>A part has a stream left, or had none from the start.\<close>

definition part_ok :: "interval \<times> interval list \<Rightarrow> bool" where
  "part_ok p = (stream_ok (fst p # snd p) \<or> p = (exhausted, []))"

definition pool :: "(interval \<times> interval list) list \<Rightarrow> nat set \<Rightarrow> interval set" where
  "pool subs I = (\<Union>i \<in> I. set (fst (subs ! i) # snd (subs ! i)))"

definition queue_ok :: "(interval \<times> interval list) list \<Rightarrow> nat list \<Rightarrow> bool" where
  "queue_ok subs q =
     (heap_ok (disj_less (map fst subs)) q \<and> distinct (tl q) \<and> (\<forall>i \<in> set (tl q). i < length subs \<and> part_ok (subs ! i)))"

lemma heap_ok_cong:
  assumes "\<And>a b. a \<in> set (tl h) \<Longrightarrow> b \<in> set (tl h) \<Longrightarrow> le a b = le' a b"
  shows "heap_ok le h = heap_ok le' h"
proof -
  have "h ! m \<in> set (tl h)" if "1 \<le> m" "m < length h" for m
    using that by (cases h) (auto simp: nth_Cons')
  then have "le (h ! (m div 2)) (h ! m) = le' (h ! (m div 2)) (h ! m)" if "2 \<le> m" "m < length h" for m
    using that by (intro assms) auto
  then show ?thesis by (auto simp: heap_ok_def)
qed

lemma tl_mset:
  assumes "mset h = add_mset x (mset h')" "h ! 0 = h' ! 0" "h' \<noteq> []"
  shows "mset (tl h) = add_mset x (mset (tl h'))"
proof -
  have "h \<noteq> []" using assms(1) by auto
  with assms show ?thesis by (cases h; cases h') (auto simp: add_mset_commute)
qed

section \<open>Steps of the queue\<close>

lemma disj_less_sooner: "i < length subs \<Longrightarrow> j < length subs \<Longrightarrow> disj_less (map fst subs) i j = sooner (fst (subs ! i)) (fst (subs ! j))"
  by (simp add: disj_less_def sooner_def)

lemma top_in_queue: "lheap_top q = Some i \<Longrightarrow> i \<in> set (tl q)"
  by (cases q; cases "tl q") (auto simp: lheap_top_def)

lemma no_top: "lheap_top q = None \<Longrightarrow> set (tl q) = {}"
  by (cases q; cases "tl q") (auto simp: lheap_top_def)

lemma part_sorted: "part_ok p \<Longrightarrow> sorted_wrt ahead (fst p # snd p)"
  by (auto simp: part_ok_def stream_ok_def)

lemma top_sooner:
  assumes q: "queue_ok subs q" and i: "lheap_top q = Some i" and x: "x \<in> pool subs (set (tl q))"
  shows "sooner (fst (subs ! i)) x"
proof -
  from x obtain j where j: "j \<in> set (tl q)" "x \<in> set (fst (subs ! j) # snd (subs ! j))" by (auto simp: pool_def)
  obtain m where m: "1 \<le> m" "m < length q" "q ! m = j" using j(1)
    by (metis One_nat_def Suc_leI add.commute in_set_conv_nth length_tl less_diff_conv nth_tl plus_1_eq_Suc zero_less_Suc)
  have "q ! 1 = i" using i by (auto simp: lheap_top_def split: if_splits)
  with by_end.top_least [of "map fst subs" q m] q m have "disj_less (map fst subs) i j" by (simp add: queue_ok_def)
  then have "sooner (fst (subs ! i)) (fst (subs ! j))"
    using disj_less_sooner [of i subs j] q j(1) top_in_queue [OF i] by (simp add: queue_ok_def)
  moreover have "sooner (fst (subs ! j)) x"
    using j q part_sorted [of "subs ! j"] by (auto simp: queue_ok_def sooner_def ahead_def)
  ultimately show ?thesis by (auto simp: sooner_def)
qed

lemma next_part_ok:
  assumes "part_ok p" "fst p \<noteq> exhausted"
  shows "if fst (fst (next_part p)) = NO_MORE then snd p = [] \<and> next_part p = (exhausted, [])
    else part_ok (next_part p) \<and> set (fst (next_part p) # snd (next_part p)) = set (snd p)"
  using assms by (cases p; cases "snd p") (auto simp: part_ok_def next_part_def exhausted_def stream_ok_def)

lemma pool_update:
  assumes "i \<notin> I"
  shows "pool (subs[i := p]) I = pool subs I"
proof -
  have "subs[i := p] ! j = subs ! j" if "j \<in> I" for j using that assms by (metis nth_list_update_neq)
  then show ?thesis by (simp add: pool_def)
qed

lemma queue_update:
  assumes "queue_ok subs q" "i \<notin> set (tl q)"
  shows "queue_ok (subs[i := p]) q"
proof -
  let ?subs = "subs[i := p]"
  have same: "?subs ! j = subs ! j" if "j \<in> set (tl q)" for j using that assms(2) by (metis nth_list_update_neq)
  have "disj_less (map fst subs) a b = disj_less (map fst ?subs) a b" if "a \<in> set (tl q)" "b \<in> set (tl q)" for a b
    using that assms(1) same disj_less_sooner [of a subs b] disj_less_sooner [of a ?subs b] by (simp add: queue_ok_def)
  from heap_ok_cong [OF this] assms(1) same show ?thesis by (simp add: queue_ok_def)
qed

lemma queue_insert:
  assumes q: "queue_ok subs q" and i: "i \<notin> set (tl q)" "i < length subs" "part_ok (subs ! i)"
  shows "queue_ok subs (disj_add i subs q) \<and> set (tl (disj_add i subs q)) = insert i (set (tl q))"
proof -
  let ?q = "disj_add i subs q"
  have a: "heap_ok (disj_less (map fst subs)) ?q" "mset ?q = add_mset i (mset q)" "?q ! 0 = q ! 0" "q \<noteq> []"
    using by_end.heap_add_ok [of "map fst subs" q i] q by (auto simp: disj_add_def queue_ok_def heap_ok_def)
  from tl_mset [OF a(2-4)] have m: "mset (tl ?q) = mset (i # tl q)" by simp
  with mset_eq_imp_distinct_iff [OF m] mset_eq_setD [OF m] a(1) q i show ?thesis by (auto simp: queue_ok_def)
qed

lemma queue_pop:
  assumes q: "queue_ok subs q" and i: "lheap_top q = Some i" and pop: "lheap_pop (disj_less (map fst subs)) q = (r, q')"
  shows "queue_ok subs q' \<and> set (tl q) = insert i (set (tl q')) \<and> i \<notin> set (tl q')"
proof -
  have p: "heap_ok (disj_less (map fst subs)) q'" "q' ! 0 = q ! 0" "mset q = add_mset i (mset q')" "q' \<noteq> []"
    using by_end.heap_pop_ok [OF _ pop] lheap_pop_top [OF i pop] q by (auto simp: queue_ok_def heap_ok_def)
  from tl_mset [OF p(3) p(2) [symmetric] p(4)] have m: "mset (tl q) = mset (i # tl q')" by simp
  with mset_eq_imp_distinct_iff [OF m] mset_eq_setD [OF m] p(1) q show ?thesis by (auto simp: queue_ok_def)
qed

lemma queue_step:
  assumes q: "queue_ok subs q" and i: "lheap_top q = Some i" and ne: "fst (subs ! i) \<noteq> exhausted"
    and pop: "lheap_pop (disj_less (map fst subs)) q = (r, q')" and s: "subs' = subs[i := next_part (subs ! i)]"
    and q'': "q'' = (if fst (fst (subs' ! i)) \<noteq> NO_MORE then disj_add i subs' q' else q')"
  shows "queue_ok subs' q'' \<and> pool subs (set (tl q)) = insert (fst (subs ! i)) (pool subs' (set (tl q'')))"
proof -
  note p = queue_pop [OF q i pop]
  have il: "i < length subs" "part_ok (subs ! i)" using q top_in_queue [OF i] by (auto simp: queue_ok_def)
  note n = next_part_ok [OF il(2) ne]
  have si: "subs' ! i = next_part (subs ! i)" "i < length subs'" using il s by simp_all
  have u: "queue_ok subs' q'" using queue_update p s by blast
  have po: "pool subs' (set (tl q')) = pool subs (set (tl q'))" using pool_update p s by simp
  have all: "pool subs (set (tl q)) = insert (fst (subs ! i)) (set (snd (subs ! i)) \<union> pool subs (set (tl q')))"
    using p by (auto simp: pool_def)
  show ?thesis
  proof (cases "fst (fst (subs' ! i)) = NO_MORE")
    case True
    with n have "snd (subs ! i) = []" by (simp add: si)
    with True u po all show ?thesis by (simp add: q'')
  next
    case False
    with n si have "part_ok (subs' ! i)" by simp
    with queue_insert [OF u] p si have a: "queue_ok subs' (disj_add i subs' q')" "set (tl (disj_add i subs' q')) = insert i (set (tl q'))" by auto
    have f: "set (fst (subs' ! i) # snd (subs' ! i)) = set (snd (subs ! i))" using n False si by simp
    have "pool subs' (insert i (set (tl q'))) = set (fst (subs' ! i) # snd (subs' ! i)) \<union> pool subs' (set (tl q'))" by (simp add: pool_def)
    then have "pool subs' (insert i (set (tl q'))) = set (snd (subs ! i)) \<union> pool subs (set (tl q'))" unfolding f po .
    with a False all show ?thesis by (simp add: q'')
  qed
qed

text \<open>The loop ends, drops only what holds the interval last given, and leaves on top one that begins after it.\<close>

lemma disj_skip_ok:
  assumes "queue_ok subs q" "s \<le> e" "e < NO_MORE" "\<forall>x \<in> pool subs (set (tl q)). sooner (s, e) x"
  shows "\<exists>subs' q'. disj_skip s e subs q = Some (subs', q') \<and> queue_ok subs' q'
    \<and> pool subs' (set (tl q')) \<subseteq> pool subs (set (tl q))
    \<and> (\<forall>x \<in> pool subs (set (tl q)) - pool subs' (set (tl q')). holds x (s, e))
    \<and> (\<forall>i. lheap_top q' = Some i \<longrightarrow> s < fst (fst (subs' ! i)))"
  using assms
proof (induction s e subs q rule: disj_skip.induct)
  case (1 s e subs q)
  show ?case
  proof (cases "lheap_top q")
    case None
    with 1(3) show ?thesis by (auto simp: disj_skip.simps [of s e subs q])
  next
    case (Some i)
    let ?t = "fst (subs ! i)"
    have i: "i \<in> set (tl q)" "i < length subs" "part_ok (subs ! i)" using top_in_queue [OF Some] 1(3) by (auto simp: queue_ok_def)
    then have t: "sooner (s, e) ?t" using 1(6) by (auto simp: pool_def)
    show ?thesis
    proof (cases "s \<ge> fst ?t \<and> s \<le> snd ?t \<and> e \<ge> fst ?t \<and> e \<le> snd ?t")
      case False
      then have "s < fst ?t" using t 1(4) by (auto simp: sooner_def)
      with False Some i 1(3) show ?thesis by (auto simp: disj_skip.simps [of s e subs q] Let_def)
    next
      case True
      obtain r q' where pop: "lheap_pop (disj_less (map fst subs)) q = (r, q')" by fastforce
      have r: "r = Some i" using lheap_pop_top [OF Some pop] by simp
      define subs' where "subs' = subs[i := next_part (subs ! i)]"
      define q'' where "q'' = (if fst (fst (subs' ! i)) \<noteq> NO_MORE then disj_add i subs' q' else q')"
      have ne: "?t \<noteq> exhausted" using True 1(4, 5) by (auto simp: exhausted_def)
      note st = queue_step [OF 1(3) Some ne pop subs'_def q''_def]
      have e: "disj_skip s e subs q = disj_skip s e subs' q''"
        using Some i True by (subst disj_skip.simps) (simp add: pop r subs'_def q''_def Let_def)
      have later: "\<forall>x \<in> pool subs' (set (tl q'')). sooner (s, e) x" using 1(6) st by blast
      have "\<exists>subs1 q1. disj_skip s e subs' q'' = Some (subs1, q1) \<and> queue_ok subs1 q1
        \<and> pool subs1 (set (tl q1)) \<subseteq> pool subs' (set (tl q''))
        \<and> (\<forall>x \<in> pool subs' (set (tl q'')) - pool subs1 (set (tl q1)). holds x (s, e))
        \<and> (\<forall>i. lheap_top q1 = Some i \<longrightarrow> s < fst (fst (subs1 ! i)))"
      proof (cases "fst (fst (subs' ! i)) \<noteq> NO_MORE")
        case more: True
        then have "q'' = disj_add i subs' q'" by (simp add: q''_def)
        with 1(1) [OF Some _ refl _ refl pop [symmetric] _ _ more] i True r st later 1(4, 5) show ?thesis by (simp add: subs'_def)
      next
        case False
        then have "q'' = q'" by (simp add: q''_def)
        with 1(2) [OF Some _ refl _ refl pop [symmetric] _ _ False] i True r st later 1(4, 5) show ?thesis by (simp add: subs'_def)
      qed
      then obtain subs1 q1 where k: "disj_skip s e subs' q'' = Some (subs1, q1)" "queue_ok subs1 q1"
        "pool subs1 (set (tl q1)) \<subseteq> pool subs' (set (tl q''))"
        "\<forall>x \<in> pool subs' (set (tl q'')) - pool subs1 (set (tl q1)). holds x (s, e)"
        "\<forall>i. lheap_top q1 = Some i \<longrightarrow> s < fst (fst (subs1 ! i))" by blast
      have "holds ?t (s, e)" using True by simp
      with k(4) have "\<forall>x \<in> pool subs (set (tl q)) - pool subs1 (set (tl q1)). holds x (s, e)" unfolding conjunct2 [OF st] by blast
      moreover have "pool subs1 (set (tl q1)) \<subseteq> pool subs (set (tl q))" using k(3) st by blast
      ultimately show ?thesis using k(1, 2, 5) unfolding e by blast
    qed
  qed
qed

section \<open>The intervals it gives\<close>

lemma pool_range:
  assumes "queue_ok subs q" "x \<in> pool subs (set (tl q))" "x \<noteq> exhausted"
  shows "0 \<le> fst x \<and> fst x \<le> snd x \<and> snd x < NO_MORE"
proof -
  from assms(2) obtain i where "i \<in> set (tl q)" "x \<in> set (fst (subs ! i) # snd (subs ! i))" by (auto simp: pool_def)
  with assms(1, 3) have "stream_ok (fst (subs ! i) # snd (subs ! i))" by (auto simp: queue_ok_def part_ok_def)
  with \<open>x \<in> set _\<close> show ?thesis unfolding stream_ok_def by blast
qed

lemma top_in_pool: "lheap_top q = Some i \<Longrightarrow> fst (subs ! i) \<in> pool subs (set (tl q))"
  using top_in_queue by (auto simp: pool_def)

lemma shortest_end:
  assumes "queue_ok subs q" "lheap_top q = Some i" "fst (fst (subs ! i)) = NO_MORE"
  shows "pool subs (set (tl q)) \<subseteq> {exhausted}"
proof
  fix x assume x: "x \<in> pool subs (set (tl q))"
  have "fst (subs ! i) = exhausted"
  proof (rule ccontr)
    assume "fst (subs ! i) \<noteq> exhausted"
    from pool_range [OF assms(1) top_in_pool [OF assms(2)] this] assms(3) show False by linarith
  qed
  then have "NO_MORE \<le> snd x" using top_sooner [OF assms(1, 2) x] by (auto simp: sooner_def exhausted_def)
  then show "x \<in> {exhausted}" using pool_range [OF assms(1) x] by fastforce
qed

lemma disj_answers_ok:
  assumes "dj_current d = CAt i" "lheap_top (dj_queue d) = Some i" "queue_ok (dj_subs d) (dj_queue d)"
    and "fst (dj_subs d ! i) \<noteq> exhausted"
  shows "\<exists>r. disj_answers d = Some r \<and> sorted_wrt ahead (fst (dj_subs d ! i) # r)
    \<and> set (fst (dj_subs d ! i) # r) = shortest (pool (dj_subs d) (set (tl (dj_queue d)))) - {exhausted}"
  using assms
proof (induction "card (pool (dj_subs d) (set (tl (dj_queue d))))" arbitrary: d i rule: less_induct)
  case less
  let ?P = "pool (dj_subs d) (set (tl (dj_queue d)))"
  define c where "c = fst (dj_subs d ! i)"
  have c: "c \<in> ?P" "\<forall>x \<in> ?P. sooner c x" "c \<noteq> exhausted" "fst c \<le> snd c" "snd c < NO_MORE"
    using top_in_pool [OF less.prems(2)] top_sooner [OF less.prems(3, 2)] less.prems(4) pool_range [OF less.prems(3)] by (auto simp: c_def)
  have at: "disj_start d = fst c" "disj_end d = snd c" using less.prems(1) by (simp_all add: disj_start_def disj_end_def c_def)
  from disj_skip_ok [OF less.prems(3), of "fst c" "snd c"] c obtain subs q where k:
    "disj_skip (fst c) (snd c) (dj_subs d) (dj_queue d) = Some (subs, q)" "queue_ok subs q" "pool subs (set (tl q)) \<subseteq> ?P"
    "\<forall>x \<in> ?P - pool subs (set (tl q)). holds x c" "\<forall>i. lheap_top q = Some i \<longrightarrow> fst c < fst (fst (subs ! i))" by auto
  let ?P' = "pool subs (set (tl q))"
  show ?case unfolding c_def [symmetric]
  proof (cases "lheap_top q")
    case None
    then have "disj_answers d = Some []"
      using less.prems(1) k(1) by (subst disj_answers.simps) (simp add: disj_next_def at)
    moreover have "?P' = {}" using no_top [OF None] by (simp add: pool_def)
    then have "shortest ?P = {c}" using shortest_only [OF c(1, 2)] k(4) by simp
    ultimately show "\<exists>r. disj_answers d = Some r \<and> sorted_wrt ahead (c # r) \<and> set (c # r) = shortest ?P - {exhausted}"
      using c(3) by auto
  next
    case (Some j)
    let ?d = "d\<lparr>dj_subs := subs, dj_queue := q, dj_current := CAt j\<rparr>" and ?t = "fst (subs ! j)"
    have "disj_start ?d = fst ?t" by (simp add: disj_start_def)
    with less.prems(1) k(1) Some have n: "disj_next d = Some (fst ?t, ?d)" by (simp add: disj_next_def at Let_def)
    have t: "?t \<in> ?P'" "\<forall>x \<in> ?P'. sooner ?t x" "fst c < fst ?t" using top_in_pool [OF Some] top_sooner [OF k(2) Some] k(5) Some by auto
    note st = shortest_step [OF c(1, 2) k(3, 4) t]
    show "\<exists>r. disj_answers d = Some r \<and> sorted_wrt ahead (c # r) \<and> set (c # r) = shortest ?P - {exhausted}"
    proof (cases "fst ?t = NO_MORE")
      case True
      then have "shortest ?P' \<subseteq> {exhausted}" using shortest_end [OF k(2) Some] by (auto simp: shortest_def)
      moreover have "disj_answers d = Some []" using n True by (subst disj_answers.simps) simp
      ultimately show ?thesis using st(1) c(3) by auto
    next
      case False
      have "snd c < snd ?t" using c(2) t(1, 3) k(3) by (auto simp: sooner_def)
      then have "c \<notin> ?P'" using t(2) by (auto simp: sooner_def)
      then have "card ?P' < card ?P" using c(1) k(3) by (intro psubset_card_mono) (auto simp: pool_def)
      moreover have "?t \<noteq> exhausted" using False by (auto simp: exhausted_def)
      ultimately obtain r where r: "disj_answers ?d = Some r" "sorted_wrt ahead (?t # r)"
        "set (?t # r) = shortest ?P' - {exhausted}" using less.hyps [of ?d j] Some k(2) by auto
      have "disj_answers d = Some (?t # r)"
        using n r(1) False by (subst disj_answers.simps) (simp add: disj_start_def disj_end_def)
      moreover have "sorted_wrt ahead (c # ?t # r)" using st(2) r(2, 3) by (simp del: list.set)
      moreover have "set (c # ?t # r) = shortest ?P - {exhausted}" using st(1) r(3) c(3) by auto
      ultimately show ?thesis by blast
    qed
  qed
qed

lemma disj_first:
  assumes "dj_current d = CEmpty" "queue_ok (dj_subs d) (dj_queue d)" "lheap_top (dj_queue d) = Some i"
  shows "\<exists>r. disj_answers d = Some r \<and> sorted_wrt ahead r
    \<and> set r = shortest (pool (dj_subs d) (set (tl (dj_queue d)))) - {exhausted}"
proof -
  let ?d = "d\<lparr>dj_current := CAt i\<rparr>" and ?c = "fst (dj_subs d ! i)" and ?P = "pool (dj_subs d) (set (tl (dj_queue d)))"
  have nx: "disj_next d = Some (fst ?c, ?d)" using assms(1, 3) by (simp add: disj_next_def disj_start_def Let_def)
  show ?thesis
  proof (cases "fst ?c = NO_MORE")
    case True
    then have "shortest ?P - {exhausted} = {}" using shortest_end [OF assms(2, 3)] by (auto simp: shortest_def)
    moreover have "disj_answers d = Some []" using nx True by (subst disj_answers.simps) simp
    ultimately show ?thesis by simp
  next
    case False
    then have "?c \<noteq> exhausted" by (auto simp: exhausted_def)
    with disj_answers_ok [of ?d i] assms(2, 3) obtain r where r: "disj_answers ?d = Some r" "sorted_wrt ahead (?c # r)"
      "set (?c # r) = shortest ?P - {exhausted}" by auto
    have "disj_answers d = Some (?c # r)"
      using nx False r(1) by (subst disj_answers.simps) (simp add: disj_start_def disj_end_def)
    with r(2, 3) show ?thesis by blast
  qed
qed

lemma reset_parts:
  assumes "\<forall>l \<in> set Ls. stream_ok l" "k \<le> length Ls"
    and d: "d = fold reset_part [0..<k] (disj_new Ls)"
  shows "dj_subs d = map (\<lambda>l. next_part (unpositioned, l)) (take k Ls) @ map (Pair unpositioned) (drop k Ls)
    \<and> queue_ok (dj_subs d) (dj_queue d) \<and> set (tl (dj_queue d)) = {..<k}"
  using assms(2) d
proof (induction k arbitrary: d)
  case 0
  then show ?case by (simp add: disj_new_def lheap_new_def queue_ok_def heap_ok_def)
next
  case (Suc k)
  let ?d = "fold reset_part [0..<k] (disj_new Ls)"
  have ih: "dj_subs ?d = map (\<lambda>l. next_part (unpositioned, l)) (take k Ls) @ map (Pair unpositioned) (drop k Ls)"
    "queue_ok (dj_subs ?d) (dj_queue ?d)" "set (tl (dj_queue ?d)) = {..<k}"
    using Suc.IH [OF Suc_leD [OF Suc.prems(1)] refl] by blast+
  have k: "k < length Ls" "length (dj_subs ?d) = length Ls" using Suc.prems(1) ih(1) by simp_all
  let ?subs = "(dj_subs ?d)[k := next_part (dj_subs ?d ! k)]"
  have at: "dj_subs ?d ! k = (unpositioned, Ls ! k)" using k(1) by (simp add: ih(1) nth_append)
  have sub: "?subs = map (\<lambda>l. next_part (unpositioned, l)) (take (Suc k) Ls) @ map (Pair unpositioned) (drop (Suc k) Ls)"
    unfolding at unfolding ih(1) using k(1) by (simp add: list_update_append take_Suc_conv_app_nth Cons_nth_drop_Suc [symmetric])
  have "stream_ok (Ls ! k)" using assms(1) k(1) by simp
  then have "part_ok (next_part (unpositioned, Ls ! k))" by (auto simp: part_ok_def next_part_def split: list.split)
  with queue_insert [OF queue_update [OF ih(2), of k]] ih(3) k at have
    "queue_ok ?subs (disj_add k ?subs (dj_queue ?d)) \<and> set (tl (disj_add k ?subs (dj_queue ?d))) = {..<Suc k}" by auto
  moreover have "d = reset_part k ?d" using Suc.prems(2) by simp
  then have "dj_subs d = ?subs" "dj_queue d = disj_add k ?subs (dj_queue ?d)" by (simp_all add: reset_part_def [of k] Let_def)
  ultimately show ?case using sub by simp
qed

lemma ahead_unique: "sorted_wrt ahead xs \<Longrightarrow> sorted_wrt ahead ys \<Longrightarrow> set xs = set ys \<Longrightarrow> xs = ys"
proof (induction xs arbitrary: ys)
  case (Cons x xs)
  then obtain y zs where y: "ys = y # zs" by (cases ys) auto
  have "x = y \<or> ahead y x" "x = y \<or> ahead x y" using Cons.prems unfolding y by (auto simp del: split_paired_All)
  then have "x = y" by (auto simp: ahead_def)
  moreover have "x \<notin> set xs" "y \<notin> set zs" using Cons.prems(1, 2) unfolding y by (auto simp: ahead_def)
  ultimately show ?case using Cons.IH [of zs] Cons.prems unfolding y by (auto simp: insert_eq_iff)
qed simp

lemma reset_stream: "stream_ok l \<Longrightarrow> set (fst (next_part (unpositioned, l)) # snd (next_part (unpositioned, l))) - {exhausted} = set l"
  by (cases l) (auto simp: next_part_def stream_ok_def exhausted_def)

text \<open>
  \<^bold>\<open>C28.\<close>  A disjunction ends, and gives, each once and in order of their starts and ends, exactly the intervals of its parts that have no other interval of
  the parts within them: whatever the number of parts, the intervals they share, and the order in which the heap brings them up.
\<close>

theorem disjunction_shortest:
  assumes "Ls \<noteq> []" and "\<forall>l \<in> set Ls. stream_ok l"
  shows "\<exists>r. disjunction_intervals Ls = Some r \<and> stream_ok r
    \<and> set r = {x \<in> \<Union> (set ` set Ls). \<forall>y \<in> \<Union> (set ` set Ls). in_relation RContaining x y \<longrightarrow> y = x}"
proof -
  let ?U = "\<Union> (set ` set Ls)"
  define d where "d = disj_reset (disj_new Ls)"
  have "disj_new Ls\<lparr>dj_queue := lheap_clear (dj_queue (disj_new Ls))\<rparr> = disj_new Ls"
    by (simp add: disj_new_def lheap_clear_def lheap_new_def)
  then have d: "d = (fold reset_part [0..<length Ls] (disj_new Ls))\<lparr>dj_current := CEmpty\<rparr>"
    by (simp add: d_def disj_reset_def Let_def disj_new_def)
  note R = reset_parts [OF assms(2) order_refl refl]
  have e: "dj_subs d = dj_subs (fold reset_part [0..<length Ls] (disj_new Ls))"
    "dj_queue d = dj_queue (fold reset_part [0..<length Ls] (disj_new Ls))" by (simp_all add: d)
  have q: "queue_ok (dj_subs d) (dj_queue d)" and n: "set (tl (dj_queue d)) = {..<length Ls}" using R unfolding e by blast+
  have sub: "dj_subs d = map (\<lambda>l. next_part (unpositioned, l)) Ls" using conjunct1 [OF R] unfolding e by simp
  let ?P = "pool (dj_subs d) (set (tl (dj_queue d)))"
  have "set Ls = (!) Ls ` {..<length Ls}" by (auto simp: set_conv_nth)
  then have "?P = (\<Union>l \<in> set Ls. set (fst (next_part (unpositioned, l)) # snd (next_part (unpositioned, l))))"
    by (simp add: pool_def n sub cong: SUP_cong_simp)
  then have P: "?P - {exhausted} = ?U" using reset_stream assms(2) by blast
  have range: "0 \<le> fst x \<and> fst x \<le> snd x \<and> snd x < NO_MORE" if "x \<in> ?U" for x using pool_range [OF q, of x] that P by blast
  have "set (tl (dj_queue d)) \<noteq> {}" using assms(1) n by auto
  then obtain i where i: "lheap_top (dj_queue d) = Some i" using no_top by (cases "lheap_top (dj_queue d)") auto
  from disj_first [OF _ q i] d obtain r where r: "disjunction_intervals Ls = Some r" "sorted_wrt ahead r" "set r = shortest ?P - {exhausted}"
    unfolding disjunction_intervals_def d_def [symmetric] by auto
  have "\<not> holds x exhausted" if "x \<in> ?U" for x using range [OF that] by (auto simp: exhausted_def)
  then have "shortest ?P - {exhausted} = shortest ?U" unfolding P [symmetric] shortest_def by blast
  with r(3) have u: "set r = shortest ?U" by simp
  then have "stream_ok r" using r(2) range unfolding stream_ok_def shortest_def by auto
  with r(1) u show ?thesis unfolding shortest_def by blast
qed

theorem disjunction_shortest_witness:
  "disjunction_intervals [[(0, 4), (6, 6)], [(1, 3), (5, 8)]] = Some [(1, 3), (6, 6)]"
proof -
  let ?L = "[[(0, 4), (6, 6)], [(1, 3), (5, 8)]]"
  have s: "stream_ok [(0, 4), (6, 6)]" "stream_ok [(1, 3), (5, 8)]" by (simp_all add: stream_ok_def ahead_def NO_MORE_def)
  have "\<forall>l \<in> set ?L. stream_ok l" using s by simp
  from disjunction_shortest [OF _ this] obtain r where r: "disjunction_intervals ?L = Some r" "stream_ok r"
    "set r = {x \<in> \<Union> (set ` set ?L). \<forall>y \<in> \<Union> (set ` set ?L). in_relation RContaining x y \<longrightarrow> y = x}" by blast
  have "set r = {(1, 3), (6, 6)}" unfolding r(3) by auto
  moreover have "sorted_wrt ahead r" "sorted_wrt ahead [(1, 3), (6, 6)]" using r(2) by (simp_all add: stream_ok_def ahead_def)
  ultimately have "r = [(1, 3), (6, 6)]" using ahead_unique [of r "[(1, 3), (6, 6)]"] by simp
  with r(1) show ?thesis by simp
qed

end
