(* ===== verification/Spec2Isabelle.thy ===== *)
theory Spec2Isabelle
  imports Election_Gaps Coordinator_Properties Allocation_Properties Wildcards Simulation_Examples Simulated_Examples
    Replication_Examples Interval_Phrases Interval_Disjunction
begin

text \<open>
  A verification of the cluster of velosearch (\<^verbatim>\<open>src/src/cluster\<close>) and of the documents it keeps: the state the
  cluster agrees on, the frames its nodes exchange, the allocation of shard copies to nodes, the coordination that elects
  a manager and commits what it publishes, the simulation that tests it, the routing of documents to shards, the live state of an index
  on a node, and the replication of its writes to the other copies.

  \<^bold>\<open>The program.\<close>  A node runs one \<^verbatim>\<open>Coordinator\<close> (\<^verbatim>\<open>coordinator.rs\<close>), a state machine with no input or
  output of its own: \<^verbatim>\<open>handle\<close> takes a start, a message, a timer, a peer found or a shard that was filled,
  and returns messages to send, timers to set and notes.  It keeps on disk the term, the state it last
  accepted and the state it last committed (\<^verbatim>\<open>Durable\<close>).  A manager elected by a quorum publishes cluster
  states (\<^verbatim>\<open>state.rs\<close>) in two phases; before a publication it lays the metadata of the indices
  (\<^verbatim>\<open>metadata.rs\<close>) and the placement of their copies (\<^verbatim>\<open>reroute\<close> of \<^verbatim>\<open>allocation.rs\<close>) over the state, and
  takes in what the data nodes reported about the copies.  Messages travel as frames (\<^verbatim>\<open>transport.rs\<close>);
  \<^verbatim>\<open>sim.rs\<close> and \<^verbatim>\<open>runtime.rs\<close> run the coordinators, under a seeded schedule and over sockets.  A document goes to
  the shard its id or routing hashes to (\<^verbatim>\<open>search/routing.rs\<close>); the node of the primary writes it into its index (\<^verbatim>\<open>IdxState\<close>,
  \<^verbatim>\<open>store/ids.rs\<close>, \<^verbatim>\<open>store/translog.rs\<close>, \<^verbatim>\<open>api/doc/mod.rs\<close>, \<^verbatim>\<open>api/doc/validate.rs\<close>): it takes a version and a sequence number, queues the change for the
  writer, records it in the translog, and keeps the document in the pending table until a refresh.  \<^verbatim>\<open>cluster/replication.rs\<close> copies the write to the nodes
  the routing table names, tells the manager of every copy that did not take it, and answers only then; a replica applies it
  by term and version (\<^verbatim>\<open>api/doc/replica.rs\<close>), a new copy is filled by a scan, and a new primary sends everything again.
  Of the queries a document is found by, the \<^verbatim>\<open>intervals\<close> query (\<^verbatim>\<open>query/intervals.rs\<close>, \<^verbatim>\<open>query/positions.rs\<close>) rewrites its rules
  into a tree of sources, gathers the documents that may match from sorted lists, and walks the places of the words in each.

  \<^bold>\<open>The theories.\<close>  \<open>Prelude\<close> has what the others share: the ordered maps and sets of the code
  (\<^verbatim>\<open>BTreeMap\<close>, \<^verbatim>\<open>BTreeSet\<close>) as sorted lists with their laws as the locale \<open>ordered_map\<close>, the list methods the
  code calls, saturating arithmetic, text, and the locale \<open>quorum_system\<close>.
  \<open>Cluster_State\<close> models \<^verbatim>\<open>state.rs\<close>: nodes, copies, the routing table, index metadata, the state, health.
  \<open>Transport\<close> models \<^verbatim>\<open>transport.rs\<close>: envelopes and frames, on bytes.
  \<open>Allocation_Settings\<close>, \<open>Allocation_Deciders\<close>, \<open>Allocation\<close> and \<open>Allocation_Commands\<close> model
  \<^verbatim>\<open>allocation.rs\<close>: the settings, the deciders and weights, the six passes of \<^verbatim>\<open>reroute\<close> and the shard events,
  and the commands of \<^verbatim>\<open>_cluster/reroute\<close>; \<open>glob_match\<close> is that of \<^verbatim>\<open>store/names.rs\<close>.
  \<open>Metadata\<close> models \<^verbatim>\<open>metadata.rs\<close>: the source and host interfaces as records of functions over a world,
  \<^verbatim>\<open>with_terms\<close>, \<^verbatim>\<open>fingerprint\<close> and \<^verbatim>\<open>MapSource\<close>.
  \<open>Coordinator_State\<close>, \<open>Coordinator_Manager\<close> and \<open>Coordinator\<close> model \<^verbatim>\<open>coordinator.rs\<close>: a record with the
  fields of \<^verbatim>\<open>Coordinator\<close> in their order, and one definition per method and per arm of the message match,
  in the order of the source; an \<open>act\<close> takes the coordinator to outputs and a coordinator, \<open>run\<close> does acts
  one after the other.  \<open>Network\<close> puts coordinators together: any message sent so far may be delivered, once,
  twice or never, any timer may fire, any node may stop and start again from its disk.

  \<open>Simulation\<close> models \<^verbatim>\<open>sim.rs\<close> over any node logic: the generator, the event queue ordered by time and entry, the
  network with its faults and partitions, crashes and restarts, and the runs; \<open>Simulated_Cluster\<close> instantiates it with coordinators
  and shows that each of its runs is a run of \<open>Network\<close>.
  \<open>Routing\<close> models the hash (MurmurHash3 on the UTF-16 of the value, on 32-bit words), the shard of a document and the
  shards of a routed search.  \<open>Index_Store\<close> models the live state of an index, \<open>Replica\<close> a copy on its node (writes, scan, parking,
  filling, resync), \<open>Replication\<close> the primary's side, the handlers a replica answers with, and the reports that wait for the manager.
  \<open>Positions\<close> models the merging of document lists and the heap of the positional queries, whose moves keep the laws of the
  locale \<open>heap_order\<close>; \<open>Interval_Source\<close> the tree of sources with its constructors, rewrites and candidates; \<open>Interval_Iterators\<close> the
  iterators over one document, each by the intervals it gives, and \<open>Interval_Disjunction\<close> that of a disjunction, step by step through its heap.

  \<^bold>\<open>The contracts.\<close>  \<open>Coordinator_Contract\<close> states the locale \<open>act_relation\<close>, a relation closed under
  sequencing, and proves once what follows for every method built from smaller ones.  Its
  interpretations are \<open>quiet\<close> (nothing is pledged, claimed or won), \<open>calm\<close> (only bookkeeping changes),
  \<open>steady\<close> (disk and memory agree, the committed state does not go back) and \<open>still\<close>.
  \<open>Election_Contract\<close> proves that every input but three is quiet and describes those three;
  \<open>Node_Contract\<close> proves that every input is steady and what a start from disk brings back;
  \<open>Election_Safety\<close> lifts both to the network by an invariant over the messages sent, and has the theorems
  on elections, among them that the network refines a specification in which every term has one office.
  \<open>Coordinator_Properties\<close> has the properties of single operations, \<open>Allocation_Properties\<close> those of the
  passes and events of allocation, \<open>Wildcards\<close> the equivalence of \<^verbatim>\<open>glob_match\<close> with the definition of a
  wildcard.  \<open>Samples\<close> and \<open>Election_Examples\<close> hold the small networks, nodes and tables the witnesses
  evaluate; \<open>Election_Gaps\<close> runs two schedules in which the code does not do what its header says.
  \<open>Simulation_Properties\<close> shows that timers die with their node, that events are taken in order and that a run ends.
  \<open>Index_Store_Properties\<close> proves that an index reads as a map from ids to documents through every overflow of its queue, pending
  table and translog, \<open>Store_Types\<close> that its tables stay well formed and its sequence numbers are given once, and what the end of a resync drops.
  \<open>Replica_Properties\<close> proves that copies sent the same writes agree, that the pages of a scan are the whole index, that a copy
  filled from them reads as the primary, and that writes parked meanwhile are applied; \<open>Replication_Properties\<close> what an acknowledgement
  means, what a replica takes, that reports are delivered, what a resync reaches, and that a copy that gets what the primary
  records reads as the primary does.
  \<open>Interval_Properties\<close> proves that the rewrites of a rule keep its documents and that the candidates are exactly those;
  \<open>Interval_Exact\<close> states the locale \<open>sweep\<close>, the contract between a walk over two sorted streams and the relation it decides, and
  interprets it for the three relations and the three differences; \<open>Interval_Phrases\<close> proves that a phrase gives an interval for each way its parts stand
  side by side and a repeat one for each run of intervals, \<open>Interval_Disjunction\<close> that a disjunction gives the intervals that contain no other.  The theories named \<open>..._Examples\<close> have the witnesses, and schedules on which copies do
  not come to agree, a write is hidden by a refresh, or a report is lost.

  \<^bold>\<open>What is assumed.\<close>  The election theorems speak of runs (\<open>network_run\<close>) from nodes with an empty
  disk, in which no term has reached the largest a word holds; there \<^verbatim>\<open>saturating_add\<close> would not give a new
  one.  \<open>one_manager_per_term\<close>, \<open>no_two_managers\<close> and the refinement further ask that any two
  voting configurations in use have quorums that meet (\<open>crossing\<close>): it holds of a single configuration and
  of two that differ by one node (\<open>crossing_single\<close>, \<open>crossing_one_more\<close>), and \<open>two_managers_in_one_term\<close>
  shows that \<^verbatim>\<open>reconfigure\<close> does not keep to it.  Names, ids and texts are strings; terms,
  versions, times and counters are natural numbers, with the width written out where the code casts or
  saturates; the generator and the fingerprints work on 64-bit words, the routing hash on 32-bit words.  The theorems on reads
  of an index ask for a writer that opens and takes what it is given, and whose commits apply operations in order (\<open>willing\<close>), and for
  an index that agrees with itself (\<open>store_ok\<close>), which the operations keep and an empty index has; \<open>Store_Types\<close> asks only for the order.
  Over a run of requests they ask that a shard is refreshed only while nothing of its documents waits under another (\<open>refreshes_at_home\<close>), which
  \<open>rerouted_write_is_hidden\<close> shows is needed; a copy follows its primary while versions named by writes rise and no delete names one
  (\<open>version_rises\<close>), which \<open>low_version_not_followed\<close> and \<open>forced_delete_not_recorded\<close> show.
  Those on copies that agree ask that a copy has seen the terms of the writes before, and \<open>new_term_copies_diverge\<close> shows why.

  \<^bold>\<open>Parameters.\<close>  Floating point, number parsing and JSON text (\<open>lib\<close>), the hash of the fingerprint, random
  identifiers, the metadata source and the shard host (\<open>env\<close>), the index writer of Tantivy and whether the
  translog is full (\<open>writer\<close>), the answers of other nodes to a
  batch, and whether the manager answers a report are arguments of the definitions.  No
  definition uses fuel; the scans of a copy that is filled and of a resync are partial functions that are shown to end on an index that
  does not change, and so is the walk of a disjunction, which always ends; \<open>publish\<close>, which calls itself through \<^verbatim>\<open>commit_publication\<close> and
  \<^verbatim>\<open>next_publication\<close>, is a partial function whose \<open>None\<close> is a run that never ends, and \<open>publish_returns\<close>
  says when it does.

  \<^bold>\<open>Not modelled.\<close>  The renderings of states and explanations for the HTTP answers (\<^verbatim>\<open>to_json\<close>, \<^verbatim>\<open>explain\<close>); the
  metadata source over the document store (\<^verbatim>\<open>StoreSource\<close>), which is the store's input and output; sockets,
  threads and clocks (\<^verbatim>\<open>tcp.rs\<close>, \<^verbatim>\<open>runtime.rs\<close>, \<^verbatim>\<open>node.rs\<close>); of replication, the filling of a copy from files and the waits between
  tries; forwarding and search between nodes (\<^verbatim>\<open>forward.rs\<close>, \<^verbatim>\<open>search.rs\<close>, \<^verbatim>\<open>model.rs\<close>), which pass JSON on over HTTP; of the
  store, the files with the text of the translog, mappings, vectors and, but for the version a request names, the checks that may refuse a write; of the \<^verbatim>\<open>intervals\<close> query, ordered and unordered parts, the
  limit on gaps, scripts, scores and the reading of rules; and the other queries, aggregations, analyzers,
  ingest, scripting, SQL and the HTTP API, which lie outside what the cluster promises about a document.
\<close>

end
